(* ===== verification/Prelude.thy ===== *)
theory Prelude
  imports Main "HOL-Library.Char_ord" "HOL-Library.List_Lexorder" "HOL-Library.Product_Lexorder"
begin

text \<open>
  Shared vocabulary of the development.

  \<^item> Python exceptions as values (\<open>py_error\<close>) and results as sums with a bind.
  \<^item> Python dictionaries as association lists, in insertion order.
  \<^item> Numbers as text: fixed-width digits in any base (used for ISO timestamps, UUIDs and the
    \<open>\u00XX\<close> escapes of JSON) and \<open>str(int)\<close>.
  \<^item> Lexicographic comparison of texts cut into fields of equal width.

  Python strings are modelled as the list of the bytes of their UTF-8 encoding. Comparing two
  such byte lists lexicographically is comparing the code points, so sorting keys, equality
  and hashing agree with Python's.
\<close>

named_theorems result_simps \<open>evaluation of results and their bind\<close>
named_theorems text_simps \<open>lengths and comparisons of rendered numbers\<close>

subsection \<open>Errors and results\<close>

datatype py_error =
    ValueError
  | TypeError
  | KeyError
  | UniqueViolation
  | IntegrityError
  | LedgerError
  | RecursionGuardError
  | BudgetExceededError
  | LockUnavailableError
  | OverflowError
  | RuntimeError
  | StorageError
  | ValidationError
  | OSError
  | NotADirectoryError
  | AttributeError
  | IndexError

type_synonym 'a result = "py_error + 'a"

definition rbind :: "'e + 'a \<Rightarrow> ('a \<Rightarrow> 'e + 'b) \<Rightarrow> 'e + 'b" where
  "rbind r f = (case r of Inl e \<Rightarrow> Inl e | Inr a \<Rightarrow> f a)"

definition rmap :: "('a \<Rightarrow> 'b) \<Rightarrow> 'e + 'a \<Rightarrow> 'e + 'b" where
  "rmap f r = rbind r (\<lambda>a. Inr (f a))"

fun rmapM :: "('a \<Rightarrow> 'e + 'b) \<Rightarrow> 'a list \<Rightarrow> 'e + 'b list" where
  "rmapM f [] = Inr []"
| "rmapM f (x # xs) = rbind (f x) (\<lambda>y. rbind (rmapM f xs) (\<lambda>ys. Inr (y # ys)))"

fun rfold :: "('s \<Rightarrow> 'a \<Rightarrow> 'e + 's) \<Rightarrow> 's \<Rightarrow> 'a list \<Rightarrow> 'e + 's" where
  "rfold f s [] = Inr s"
| "rfold f s (x # xs) = rbind (f s x) (\<lambda>s'. rfold f s' xs)"

subsection \<open>Dictionaries as association lists\<close>

text \<open>\<open>d.get(k)\<close>, \<open>d.get(k, default)\<close> and \<open>d[k] = v\<close>: an existing key keeps its position.\<close>

definition dict_get :: "('k \<times> 'v) list \<Rightarrow> 'k \<Rightarrow> 'v option" where
  "dict_get d k = map_of d k"

definition dict_get_default :: "('k \<times> 'v) list \<Rightarrow> 'k \<Rightarrow> 'v \<Rightarrow> 'v" where
  "dict_get_default d k v = (case map_of d k of None \<Rightarrow> v | Some u \<Rightarrow> u)"

fun dict_set :: "('k \<times> 'v) list \<Rightarrow> 'k \<Rightarrow> 'v \<Rightarrow> ('k \<times> 'v) list" where
  "dict_set [] k v = [(k, v)]"
| "dict_set ((k', v') # d) k v = (if k' = k then (k, v) # d else (k', v') # dict_set d k v)"

definition dict_del :: "('k \<times> 'v) list \<Rightarrow> 'k \<Rightarrow> ('k \<times> 'v) list" where
  "dict_del d k = filter (\<lambda>(k', _). k' \<noteq> k) d"

text \<open>\<open>{**d, **e}\<close>\<close>

definition dict_merge :: "('k \<times> 'v) list \<Rightarrow> ('k \<times> 'v) list \<Rightarrow> ('k \<times> 'v) list" where
  "dict_merge d e = fold (\<lambda>(k, v) acc. dict_set acc k v) e d"

subsection \<open>Numbers as text\<close>

fun fixed_digits :: "nat \<Rightarrow> nat \<Rightarrow> nat \<Rightarrow> nat list" where
  "fixed_digits b 0 n = []"
| "fixed_digits b (Suc w) n = fixed_digits b w (n div b) @ [n mod b]"

text \<open>The digits 0-9 and a-f, in the order of their character codes.\<close>

definition digit_char :: "nat \<Rightarrow> char" where
  "digit_char d = char_of (if d < 10 then 48 + d else 87 + d)"

definition digit_val :: "char \<Rightarrow> nat option" where
  "digit_val c =
     (let k = of_char c :: nat
      in if 48 \<le> k \<and> k \<le> 57 then Some (k - 48)
         else if 97 \<le> k \<and> k \<le> 102 then Some (k - 87) else None)"

text \<open>\<open>f"{n:0wd}"\<close> in base \<open>b\<close>, for numbers that fit.\<close>

definition pad :: "nat \<Rightarrow> nat \<Rightarrow> nat \<Rightarrow> string" where
  "pad b w n = map digit_char (fixed_digits b w n)"

definition digits_val :: "nat \<Rightarrow> nat list \<Rightarrow> nat" where
  "digits_val b ds = foldl (\<lambda>acc d. acc * b + d) 0 ds"

text \<open>\<open>int(text, b)\<close> of a run of digits.\<close>

definition parse_digits :: "nat \<Rightarrow> string \<Rightarrow> nat option" where
  "parse_digits b s =
     (if s \<noteq> [] \<and> list_all (\<lambda>c. case digit_val c of None \<Rightarrow> False | Some d \<Rightarrow> d < b) s
      then Some (digits_val b (map (\<lambda>c. the (digit_val c)) s)) else None)"

fun dec_width :: "nat \<Rightarrow> nat" where
  "dec_width n = (if n < 10 then 1 else Suc (dec_width (n div 10)))"

declare dec_width.simps [simp del]

text \<open>\<open>str(n)\<close>\<close>

definition str_nat :: "nat \<Rightarrow> string" where
  "str_nat n = pad 10 (dec_width n) n"

definition str_int :: "int \<Rightarrow> string" where
  "str_int i = (if i < 0 then CHR ''-'' # str_nat (nat (- i)) else str_nat (nat i))"

subsection \<open>Results: lemmas\<close>

lemma rbind_Inl [simp, result_simps]: "rbind (Inl e) f = Inl e"
  by (simp add: rbind_def)

lemma rbind_Inr [simp, result_simps]: "rbind (Inr a) f = f a"
  by (simp add: rbind_def)

lemma rbind_eq_Inr: "rbind r f = Inr b \<longleftrightarrow> (\<exists>a. r = Inr a \<and> f a = Inr b)"
  by (cases r) auto

lemma rbind_eq_Inl: "rbind r f = Inl e \<longleftrightarrow> r = Inl e \<or> (\<exists>a. r = Inr a \<and> f a = Inl e)"
  by (cases r) auto

lemma rmap_simps [simp, result_simps]: "rmap f (Inl e) = Inl e" "rmap f (Inr a) = Inr (f a)"
  by (simp_all add: rmap_def)

lemma rmap_eq_Inr: "rmap f r = Inr b \<longleftrightarrow> (\<exists>a. r = Inr a \<and> f a = b)"
  by (auto simp: rmap_def rbind_eq_Inr)

lemma rfold_append:
  "rfold f s (xs @ ys) = rbind (rfold f s xs) (\<lambda>t. rfold f t ys)"
proof (induction xs arbitrary: s)
  case (Cons x xs)
  then show ?case by (cases "f s x") auto
qed simp

text \<open>An invariant of every step is an invariant of the fold.\<close>

lemma rfold_invariant:
  assumes "rfold f s xs = Inr t" and "P s"
    and "\<And>s x s'. P s \<Longrightarrow> x \<in> set xs \<Longrightarrow> f s x = Inr s' \<Longrightarrow> P s'"
  shows "P t"
  using assms
proof (induction xs arbitrary: s)
  case (Cons x xs)
  from Cons.prems(1) obtain s' where s': "f s x = Inr s'" "rfold f s' xs = Inr t"
    by (auto simp: rbind_eq_Inr)
  then have "P s'" using Cons.prems by auto
  with s' Cons.prems(3) show ?case by (auto intro!: Cons.IH)
qed simp

text \<open>\<open>ensures r P\<close>: if \<open>r\<close> is a value, the value satisfies \<open>P\<close>. It computes through the bind, so a
  step is analysed without naming its intermediate results.\<close>

definition ensures :: "'e + 'a \<Rightarrow> ('a \<Rightarrow> bool) \<Rightarrow> bool" where
  "ensures r P \<longleftrightarrow> (\<forall>a. r = Inr a \<longrightarrow> P a)"

lemma ensures_simps [simp]:
  "ensures (Inl e) P" "ensures (Inr a) P = P a"
  "ensures (if b then r else r') P = (if b then ensures r P else ensures r' P)"
  by (simp_all add: ensures_def)

lemma ensures_rbind [simp]: "ensures (rbind r f) P = ensures r (\<lambda>a. ensures (f a) P)"
  by (cases r) simp_all

lemma ensures_rmap [simp]: "ensures (rmap g r) P = ensures r (\<lambda>a. P (g a))"
  by (cases r) simp_all

lemma ensuresD: "ensures r P \<Longrightarrow> r = Inr a \<Longrightarrow> P a"
  by (simp add: ensures_def)

lemma ensures_True [simp]: "ensures r (\<lambda>a. True)"
  by (simp add: ensures_def)

lemma ensuresI: "(\<And>a. P a) \<Longrightarrow> ensures r P"
  by (simp add: ensures_def)

lemma rmapM_length: "rmapM f xs = Inr ys \<Longrightarrow> length ys = length xs"
  by (induction xs arbitrary: ys) (auto simp: rbind_eq_Inr)

lemma rmapM_Inr: "rmapM (\<lambda>x. Inr (f x)) xs = Inr (map f xs)"
  by (induction xs) auto

subsection \<open>Dictionaries: lemmas\<close>

lemma dict_get_set: "dict_get (dict_set d k v) k' = (if k' = k then Some v else dict_get d k')"
  by (induction d k v rule: dict_set.induct) (auto simp: dict_get_def)

lemma dict_get_del: "dict_get (dict_del d k) k' = (if k' = k then None else dict_get d k')"
  by (induction d) (auto simp: dict_get_def dict_del_def)

lemma dict_set_keys: "set (map fst (dict_set d k v)) = insert k (set (map fst d))"
  by (induction d k v rule: dict_set.induct) auto

lemma dict_set_distinct: "distinct (map fst d) \<Longrightarrow> distinct (map fst (dict_set d k v))"
proof (induction d k v rule: dict_set.induct)
  case (2 k' v' d k v)
  have "set (map fst (dict_set d k v)) = insert k (set (map fst d))" by (rule dict_set_keys)
  with 2 show ?case by (auto simp del: set_map)
qed simp

lemma dict_get_in: "dict_get d k = Some v \<Longrightarrow> (k, v) \<in> set d"
  by (simp add: dict_get_def map_of_SomeD)

lemma in_dict_get: "distinct (map fst d) \<Longrightarrow> (k, v) \<in> set d \<Longrightarrow> dict_get d k = Some v"
  by (simp add: dict_get_def)

lemma dict_set_in: "e \<in> set (dict_set d k v) \<Longrightarrow> e = (k, v) \<or> e \<in> set d"
  by (induction d k v rule: dict_set.induct) (auto split: if_splits)

lemma dict_get_eq_None: "dict_get d k = None \<longleftrightarrow> k \<notin> fst ` set d"
  by (simp add: dict_get_def map_of_eq_None_iff)

subsection \<open>Numbers as text: lemmas\<close>

lemma length_fixed_digits [simp, text_simps]: "length (fixed_digits b w n) = w"
  by (induction w arbitrary: n) auto

lemma fixed_digits_less: "0 < b \<Longrightarrow> d \<in> set (fixed_digits b w n) \<Longrightarrow> d < b"
  by (induction w arbitrary: n) auto

lemma digits_val_snoc: "digits_val b (ds @ [d]) = digits_val b ds * b + d"
  by (simp add: digits_val_def)

lemma digits_val_fixed: "n < b ^ w \<Longrightarrow> digits_val b (fixed_digits b w n) = n"
proof (induction w arbitrary: n)
  case 0
  then show ?case by (simp add: digits_val_def)
next
  case (Suc w)
  then have "n div b < b ^ w" by (simp add: less_mult_imp_div_less mult.commute)
  with Suc.IH show ?case by (simp add: digits_val_snoc)
qed

lemma fixed_digits_inj:
  assumes "m < b ^ w" "n < b ^ w" "fixed_digits b w m = fixed_digits b w n"
  shows "m = n"
  using assms digits_val_fixed by metis

lemma less_append_same_length:
  fixes xs ys :: "'a::linorder list"
  assumes "length xs = length xs'"
  shows "xs @ ys < xs' @ ys' \<longleftrightarrow> xs < xs' \<or> xs = xs' \<and> ys < ys'"
  using assms by (induction xs xs' rule: list_induct2) auto

lemma div_less_imp_less: "0 < b \<Longrightarrow> (m::nat) div b < n div b \<Longrightarrow> m < n"
  by (meson div_le_mono leI leD)

lemma div_mod_less_iff:
  assumes "0 < (b::nat)"
  shows "m < n \<longleftrightarrow> m div b < n div b \<or> m div b = n div b \<and> m mod b < n mod b"
proof (cases "m div b = n div b")
  case True
  then have "m = n div b * b + m mod b" by (metis div_mult_mod_eq)
  moreover have "n = n div b * b + n mod b" by simp
  ultimately show ?thesis using True by linarith
next
  case False
  then show ?thesis using div_less_imp_less[OF assms, of m n] div_less_imp_less[OF assms, of n m]
    by linarith
qed

lemma prod_less_iff:
  fixes a c :: "'a::linorder" and b d :: "'b::linorder"
  shows "(a, b) < (c, d) \<longleftrightarrow> a < c \<or> a = c \<and> b < d"
  by (auto simp: less_prod_simp order.order_iff_strict)

lemma fixed_digits_less_iff:
  assumes "m < b ^ w" "n < b ^ w"
  shows "fixed_digits b w m < fixed_digits b w n \<longleftrightarrow> m < n"
  using assms
proof (induction w arbitrary: m n)
  case (Suc w)
  then have b: "0 < b" by (cases b) auto
  from Suc.prems have q: "m div b < b ^ w" "n div b < b ^ w"
    by (simp_all add: less_mult_imp_div_less mult.commute)
  have "fixed_digits b w (m div b) = fixed_digits b w (n div b) \<longleftrightarrow> m div b = n div b"
    using fixed_digits_inj[OF q] by auto
  then have "fixed_digits b (Suc w) m < fixed_digits b (Suc w) n
      \<longleftrightarrow> m div b < n div b \<or> m div b = n div b \<and> m mod b < n mod b"
    by (simp add: less_append_same_length Suc.IH[OF q])
  also have "\<dots> \<longleftrightarrow> m < n"
    by (rule div_mod_less_iff[OF b, symmetric])
  finally show ?case .
qed simp

lemma digit_val_char: "d < 16 \<Longrightarrow> digit_val (digit_char d) = Some d"
  by (auto simp: digit_val_def digit_char_def Let_def)

lemma digit_char_inj: "d < 16 \<Longrightarrow> e < 16 \<Longrightarrow> digit_char d = digit_char e \<Longrightarrow> d = e"
  by (metis digit_val_char option.inject)

lemma of_char_digit: "d < 16 \<Longrightarrow> (of_char (digit_char d) :: nat) = (if d < 10 then 48 + d else 87 + d)"
  by (simp add: digit_char_def)

lemma digit_char_less_iff:
  assumes "d < 16" "e < 16"
  shows "digit_char d < digit_char e \<longleftrightarrow> d < e"
proof -
  have "digit_char d < digit_char e \<longleftrightarrow> (of_char (digit_char d) :: nat) < of_char (digit_char e)"
    by (simp add: less_char_def)
  then show ?thesis using assms by (auto simp: of_char_digit)
qed

lemma map_digit_char_less_iff:
  assumes "length xs = length ys" "\<forall>d \<in> set xs. d < 16" "\<forall>d \<in> set ys. d < 16"
  shows "map digit_char xs < map digit_char ys \<longleftrightarrow> xs < ys"
  using assms
  by (induction xs ys rule: list_induct2) (auto simp: digit_char_less_iff dest: digit_char_inj)

lemma length_pad [simp, text_simps]: "length (pad b w n) = w"
  by (simp add: pad_def)

lemma pad_less_iff [text_simps]:
  assumes "0 < b" "b \<le> 16" "m < b ^ w" "n < b ^ w"
  shows "pad b w m < pad b w n \<longleftrightarrow> m < n"
proof -
  have "\<forall>d \<in> set (fixed_digits b w k). d < 16" for k
    using fixed_digits_less[OF assms(1)] assms(2) by fastforce
  then show ?thesis
    by (simp add: pad_def map_digit_char_less_iff fixed_digits_less_iff[OF assms(3,4)])
qed

lemma pad_inj:
  assumes "0 < b" "b \<le> 16" "m < b ^ w" "n < b ^ w" "pad b w m = pad b w n"
  shows "m = n"
  using pad_less_iff[OF assms(1,2,3,4)] pad_less_iff[OF assms(1,2,4,3)] assms(5)
  by (metis linorder_neqE_nat order_less_irrefl)

lemma pad_digits:
  assumes "0 < b" "b \<le> 16" "c \<in> set (pad b w n)"
  shows "\<exists>d < b. c = digit_char d"
  using assms fixed_digits_less[OF assms(1)] by (fastforce simp: pad_def)

lemma parse_digits_pad:
  assumes "0 < b" "b \<le> 16" "n < b ^ w" "0 < w"
  shows "parse_digits b (pad b w n) = Some n"
proof -
  have less: "d \<in> set (fixed_digits b w n) \<Longrightarrow> d < 16 \<and> d < b" for d
    using fixed_digits_less[OF assms(1)] assms(2) by fastforce
  have val: "map (\<lambda>c. the (digit_val c)) (pad b w n) = fixed_digits b w n"
    by (auto simp: pad_def digit_val_char less intro: map_idI)
  have "pad b w n \<noteq> []" using assms(4) by (metis length_pad list.size(3) not_gr_zero)
  moreover have "list_all (\<lambda>c. case digit_val c of None \<Rightarrow> False | Some d \<Rightarrow> d < b) (pad b w n)"
    by (auto simp: pad_def list_all_iff digit_val_char less)
  ultimately show ?thesis
    by (simp add: parse_digits_def val digits_val_fixed assms(3))
qed

lemma dec_width_pos: "0 < dec_width n"
  by (subst dec_width.simps) simp

lemma less_pow_dec_width: "n < 10 ^ dec_width n"
proof (induction n rule: dec_width.induct)
  case (1 n)
  show ?case
  proof (cases "n < 10")
    case True
    then show ?thesis by (simp add: dec_width.simps[of n])
  next
    case False
    with 1 have "n div 10 < 10 ^ dec_width (n div 10)" by simp
    then have "n < 10 * 10 ^ dec_width (n div 10)" by (simp add: div_less_iff_less_mult mult.commute)
    with False show ?thesis by (simp add: dec_width.simps[of n])
  qed
qed

lemma parse_str_nat: "parse_digits 10 (str_nat n) = Some n"
  by (simp add: str_nat_def parse_digits_pad less_pow_dec_width dec_width_pos)

lemma str_nat_inj: "str_nat m = str_nat n \<Longrightarrow> m = n"
  using parse_str_nat by (metis option.inject)

lemma str_nat_digits: "c \<in> set (str_nat n) \<Longrightarrow> \<exists>d < 10. c = digit_char d"
  by (auto simp: str_nat_def dest!: pad_digits[rotated 2])

lemma str_nat_not_Nil [simp]: "str_nat n \<noteq> []"
  using dec_width_pos[of n] by (metis length_pad list.size(3) less_irrefl str_nat_def)

lemma digit_char_not_minus: "d < 16 \<Longrightarrow> digit_char d \<noteq> CHR ''-''"
  using digit_val_char[of d] by (auto simp: digit_val_def)

lemma str_int_inj: "str_int i = str_int j \<Longrightarrow> i = j"
proof -
  have no_minus: "str_nat n \<noteq> CHR ''-'' # s" for n s
  proof
    assume "str_nat n = CHR ''-'' # s"
    then have "CHR ''-'' \<in> set (str_nat n)" by simp
    then obtain d where "d < 10" "CHR ''-'' = digit_char d" using str_nat_digits by blast
    then show False using digit_char_not_minus[of d] by simp
  qed
  assume "str_int i = str_int j"
  then show ?thesis
    by (auto simp: str_int_def no_minus no_minus[symmetric] split: if_splits dest!: str_nat_inj)
qed

lemma str_int_chars: "c \<in> set (str_int i) \<Longrightarrow> c = CHR ''-'' \<or> (\<exists>d < 10. c = digit_char d)"
  by (auto simp: str_int_def split: if_splits dest: str_nat_digits)

subsection \<open>Splitting at a separator\<close>

text \<open>A text without the separator is recovered from the text that starts with it.\<close>

lemma append_sep_inj:
  assumes "xs @ c # ys = xs' @ c # ys'" "c \<notin> set xs" "c \<notin> set xs'"
  shows "xs = xs' \<and> ys = ys'"
  using assms
proof (induction xs arbitrary: xs')
  case Nil
  then show ?case by (cases xs') auto
next
  case (Cons x xs)
  then show ?case by (cases xs') auto
qed

end
