(* ===== verification/Timestamps.thy ===== *)
theory Timestamps
  imports Prelude
begin

text \<open>
  Timestamps as \<open>paa.storage.relational.database\<close> stores them: \<open>to_iso\<close> renders an aware
  \<open>datetime\<close> in UTC with \<open>isoformat()\<close> and \<open>from_iso\<close> reads a column back, whichever of its two
  shapes (SQLite text, native PostgreSQL value) it has.

  A \<open>datetime\<close> is its UTC fields and whether it carries a time zone. SQLite compares timestamp
  columns as text, so the ledger and the queue rely on two facts proved here: reading back is
  the inverse of writing, and the text order is the chronological order, although
  \<open>isoformat()\<close> omits the microseconds when they are zero.
\<close>

record datetime =
  year :: nat
  month :: nat
  day :: nat
  hour :: nat
  minute :: nat
  second :: nat
  microsecond :: nat
  aware :: bool

text \<open>The ranges that \<open>datetime\<close> itself enforces.\<close>

definition valid_datetime :: "datetime \<Rightarrow> bool" where
  "valid_datetime d \<longleftrightarrow>
     1 \<le> year d \<and> year d \<le> 9999 \<and> 1 \<le> month d \<and> month d \<le> 12 \<and> 1 \<le> day d \<and> day d \<le> 31 \<and>
     hour d \<le> 23 \<and> minute d \<le> 59 \<and> second d \<le> 59 \<and> microsecond d \<le> 999999"

text \<open>The same test on smaller numbers, for evaluation in the kernel.\<close>

lemma valid_datetime_code [code]:
  "valid_datetime d \<longleftrightarrow>
     1 \<le> year d \<and> year d div 100 < 100 \<and> 1 \<le> month d \<and> month d \<le> 12 \<and> 1 \<le> day d \<and> day d \<le> 31 \<and>
     hour d < 24 \<and> minute d < 60 \<and> second d < 60 \<and> microsecond d div 100 div 100 < 100"
  by (auto simp: valid_datetime_def)

text \<open>\<open>d.astimezone(UTC).isoformat(sep)\<close>\<close>

definition iso_fraction :: "nat \<Rightarrow> string" where
  "iso_fraction us = (if us = 0 then [] else CHR ''.'' # pad 10 6 us) @ ''+00:00''"

definition isoformat_sep :: "char \<Rightarrow> datetime \<Rightarrow> string" where
  "isoformat_sep sep d =
     pad 10 4 (year d) @ CHR ''-'' # pad 10 2 (month d) @ CHR ''-'' # pad 10 2 (day d) @
     sep # pad 10 2 (hour d) @ CHR '':'' # pad 10 2 (minute d) @ CHR '':'' # pad 10 2 (second d) @
     iso_fraction (microsecond d)"

definition isoformat :: "datetime \<Rightarrow> string" where
  "isoformat d = isoformat_sep (CHR ''T'') d"

definition to_iso :: "datetime \<Rightarrow> string result" where
  "to_iso d = (if aware d then Inr (isoformat d) else Inl ValueError)"

text \<open>
  \<open>datetime.fromisoformat\<close> on the texts that \<open>to_iso\<close> writes; any other text is a \<open>ValueError\<close>.
\<close>

definition parse_field :: "nat \<Rightarrow> nat \<Rightarrow> string \<Rightarrow> nat option" where
  "parse_field i w s = parse_digits 10 (take w (drop i s))"

definition parse_fraction :: "string \<Rightarrow> nat option" where
  "parse_fraction s =
     (if s = ''+00:00'' then Some 0
      else if length s = 13 \<and> take 1 s = ''.'' \<and> drop 7 s = ''+00:00''
      then parse_field 1 6 s else None)"

definition fromisoformat :: "string \<Rightarrow> datetime result" where
  "fromisoformat s =
     (if length s < 25 \<or> s ! 4 \<noteq> CHR ''-'' \<or> s ! 7 \<noteq> CHR ''-'' \<or> s ! 10 \<noteq> CHR ''T''
         \<or> s ! 13 \<noteq> CHR '':'' \<or> s ! 16 \<noteq> CHR '':'' then Inl ValueError
      else case (parse_field 0 4 s, parse_field 5 2 s, parse_field 8 2 s, parse_field 11 2 s,
                 parse_field 14 2 s, parse_field 17 2 s, parse_fraction (drop 19 s)) of
        (Some y, Some mo, Some da, Some h, Some mi, Some se, Some us) \<Rightarrow>
          (let d = \<lparr>year = y, month = mo, day = da, hour = h, minute = mi, second = se,
                    microsecond = us, aware = True\<rparr>
           in if valid_datetime d then Inr d else Inl ValueError)
      | _ \<Rightarrow> Inl ValueError)"

datatype iso_column = IsoText string | IsoNative datetime

fun from_iso :: "iso_column \<Rightarrow> datetime result" where
  "from_iso (IsoNative d) = Inr (if aware d then d else d\<lparr>aware := True\<rparr>)"
| "from_iso (IsoText s) =
     rbind (fromisoformat s) (\<lambda>d. Inr (if aware d then d else d\<lparr>aware := True\<rparr>))"

text \<open>Chronological order of two UTC timestamps.\<close>

definition dt_key :: "datetime \<Rightarrow> nat \<times> nat \<times> nat \<times> nat \<times> nat \<times> nat \<times> nat" where
  "dt_key d = (year d, month d, day d, hour d, minute d, second d, microsecond d)"

definition dt_less :: "datetime \<Rightarrow> datetime \<Rightarrow> bool" where
  "dt_less a b \<longleftrightarrow> dt_key a < dt_key b"

subsection \<open>Reading back what was written\<close>

lemma parse_pad [simp]: "n < 10 ^ w \<Longrightarrow> 0 < w \<Longrightarrow> parse_digits 10 (pad 10 w n) = Some n"
  by (simp add: parse_digits_pad)

lemma parse_fraction_iso: "us \<le> 999999 \<Longrightarrow> parse_fraction (iso_fraction us) = Some us"
  by (simp add: parse_fraction_def iso_fraction_def parse_field_def)

lemma length_iso_fraction: "6 \<le> length (iso_fraction us)"
  by (simp add: iso_fraction_def)

lemma fromisoformat_isoformat:
  assumes "valid_datetime d"
  shows "fromisoformat (isoformat d) = Inr (d\<lparr>aware := True\<rparr>)"
proof -
  let ?s = "isoformat d"
  have nth: "?s ! 4 = CHR ''-''" "?s ! 7 = CHR ''-''" "?s ! 10 = CHR ''T''"
    "?s ! 13 = CHR '':''" "?s ! 16 = CHR '':''" "\<not> length ?s < 25"
    using length_iso_fraction[of "microsecond d"]
    by (simp_all add: isoformat_def isoformat_sep_def nth_append)
  have fields: "parse_field 0 4 ?s = Some (year d)" "parse_field 5 2 ?s = Some (month d)"
    "parse_field 8 2 ?s = Some (day d)" "parse_field 11 2 ?s = Some (hour d)"
    "parse_field 14 2 ?s = Some (minute d)" "parse_field 17 2 ?s = Some (second d)"
    using assms
    by (simp_all add: isoformat_def isoformat_sep_def parse_field_def valid_datetime_def)
  have "drop 19 ?s = iso_fraction (microsecond d)"
    by (simp add: isoformat_def isoformat_sep_def)
  then have "parse_fraction (drop 19 ?s) = Some (microsecond d)"
    using assms by (simp add: parse_fraction_iso valid_datetime_def)
  moreover have "valid_datetime (d\<lparr>aware := True\<rparr>)"
    using assms by (simp add: valid_datetime_def)
  ultimately show ?thesis
    using nth fields by (cases d) (simp add: fromisoformat_def Let_def)
qed

subsection \<open>The text order is the chronological order\<close>

lemma pad_fields_less:
  assumes "m < 10 ^ w" "n < 10 ^ w"
  shows "pad 10 w m @ c # s < pad 10 w n @ c # t \<longleftrightarrow> m < n \<or> m = n \<and> s < t"
proof -
  have "pad 10 w m = pad 10 w n \<longleftrightarrow> m = n" using pad_inj[of 10] assms by auto
  then show ?thesis using assms by (simp add: less_append_same_length pad_less_iff)
qed

lemma plus_before_dot: "CHR ''+'' < CHR ''.''"
  by (simp add: less_char_def)

lemma iso_fraction_less:
  assumes "u \<le> 999999" "v \<le> 999999"
  shows "iso_fraction u < iso_fraction v \<longleftrightarrow> u < v"
proof -
  have "\<not> CHR ''.'' < CHR ''+''" by (simp add: less_char_def)
  moreover have "pad 10 6 u = pad 10 6 v \<longleftrightarrow> u = v" using pad_inj[of 10 u 6 v] assms by auto
  ultimately show ?thesis
    using assms plus_before_dot
    by (cases "u = 0"; cases "v = 0")
      (simp_all add: iso_fraction_def less_append_same_length pad_less_iff)
qed

lemma pad_fraction_less:
  assumes "m < 10 ^ w" "n < 10 ^ w" "u \<le> 999999" "v \<le> 999999"
  shows "pad 10 w m @ iso_fraction u < pad 10 w n @ iso_fraction v \<longleftrightarrow> m < n \<or> m = n \<and> u < v"
proof -
  have "pad 10 w m = pad 10 w n \<longleftrightarrow> m = n" using pad_inj[of 10] assms by auto
  then show ?thesis
    using assms by (simp add: less_append_same_length pad_less_iff iso_fraction_less)
qed

lemma isoformat_less_iff:
  assumes "valid_datetime a" "valid_datetime b"
  shows "isoformat a < isoformat b \<longleftrightarrow> dt_less a b"
  using assms
  by (simp add: isoformat_def isoformat_sep_def dt_less_def dt_key_def valid_datetime_def
      pad_fields_less pad_fraction_less prod_less_iff del: less_prod_simp)

lemma isoformat_inj:
  assumes "valid_datetime a" "valid_datetime b" "isoformat a = isoformat b"
  shows "dt_key a = dt_key b"
  using isoformat_less_iff[OF assms(1,2)] isoformat_less_iff[OF assms(2,1)] assms(3)
  by (auto simp: dt_less_def)

end
