(* ===== verification/Identifiers.thy ===== *)
theory Identifiers
  imports Prelude "HOL-Library.Word"
begin

text \<open>
  Identifiers of \<open>paa.core.types\<close>: a \<open>uuid.UUID\<close> is a 128-bit word, its text is the canonical
  hyphenated lower-case form, and \<open>as_uuid\<close> / \<open>as_text\<close> coerce a stored identifier whichever of
  its two shapes (text from SQLite, a UUID from PostgreSQL) the row has.
\<close>

type_synonym uuid = "128 word"

definition hex32 :: "uuid \<Rightarrow> string" where
  "hex32 u = pad 16 32 (unat u)"

text \<open>\<open>str(u)\<close>\<close>

definition str_uuid :: "uuid \<Rightarrow> string" where
  "str_uuid u =
     (let h = hex32 u
      in take 8 h @ CHR ''-'' # take 4 (drop 8 h) @ CHR ''-'' # take 4 (drop 12 h) @ CHR ''-'' #
         take 4 (drop 16 h) @ CHR ''-'' # drop 20 h)"

text \<open>
  \<open>uuid.UUID(text)\<close>: the hyphens are dropped, 32 hexadecimal digits of either case must
  remain. (The \<open>urn:\<close> and brace spellings that the constructor also accepts never reach the
  database and are not modelled.)
\<close>

definition lower_hex :: "char \<Rightarrow> char" where
  "lower_hex c =
     (let k = of_char c :: nat in if 65 \<le> k \<and> k \<le> 70 then char_of (k + 32) else c)"

definition parse_uuid :: "string \<Rightarrow> uuid result" where
  "parse_uuid s =
     (let h = map lower_hex (filter (\<lambda>c. c \<noteq> CHR ''-'') s)
      in if length h \<noteq> 32 then Inl ValueError
         else case parse_digits 16 h of None \<Rightarrow> Inl ValueError | Some n \<Rightarrow> Inr (of_nat n))"

text \<open>The values \<open>as_uuid\<close> and \<open>as_text\<close> may be handed.\<close>

datatype id_value = IdText string | IdUuid uuid | IdOther

fun as_uuid :: "id_value \<Rightarrow> uuid result" where
  "as_uuid (IdUuid u) = Inr u"
| "as_uuid (IdText s) = parse_uuid s"
| "as_uuid IdOther = Inl TypeError"

fun as_text :: "id_value \<Rightarrow> string result" where
  "as_text (IdUuid u) = Inr (str_uuid u)"
| "as_text (IdText s) = Inr s"
| "as_text IdOther = Inl TypeError"

subsection \<open>Lemmas\<close>

lemma length_hex32 [simp]: "length (hex32 u) = 32"
  by (simp add: hex32_def)

lemma hex32_chars: "c \<in> set (hex32 u) \<Longrightarrow> \<exists>d < 16. c = digit_char d"
  using pad_digits[of 16] by (simp add: hex32_def)

lemma hex32_parse: "parse_digits 16 (hex32 u) = Some (unat u)"
proof -
  have "unat u < 2 ^ 128" using unsigned_less[of u] by simp
  then have "unat u < 16 ^ 32" by simp
  then show ?thesis by (simp add: hex32_def parse_digits_pad)
qed

lemma digit_char_not_special:
  assumes "d < 16"
  shows "digit_char d \<noteq> CHR ''-''" "digit_char d \<noteq> CHR ''|''" "lower_hex (digit_char d) = digit_char d"
proof -
  have "digit_val (CHR ''-'') = None" "digit_val (CHR ''|'') = None"
    by (simp_all add: digit_val_def)
  then show "digit_char d \<noteq> CHR ''-''" "digit_char d \<noteq> CHR ''|''"
    using digit_val_char[OF assms] by auto
  show "lower_hex (digit_char d) = digit_char d"
    using assms by (simp add: digit_char_def lower_hex_def Let_def)
qed

lemma str_uuid_chars: "c \<in> set (str_uuid u) \<Longrightarrow> c = CHR ''-'' \<or> c \<in> set (hex32 u)"
  by (auto simp: str_uuid_def Let_def dest: in_set_takeD in_set_dropD)

lemma str_uuid_no_bar: "CHR ''|'' \<notin> set (str_uuid u)"
  using str_uuid_chars[of "CHR ''|''" u] hex32_chars[of "CHR ''|''" u] digit_char_not_special(2)
  by fastforce

lemma filter_hyphen_hex32: "filter (\<lambda>c. c \<noteq> CHR ''-'') (str_uuid u) = hex32 u"
proof -
  let ?h = "hex32 u"
  have keep: "set xs \<subseteq> set ?h \<Longrightarrow> filter (\<lambda>c. c \<noteq> CHR ''-'') xs = xs" for xs
    using hex32_chars digit_char_not_special(1) by (fastforce intro: filter_True)
  have sub: "set (take n (drop m ?h)) \<subseteq> set ?h" "set (take n ?h) \<subseteq> set ?h" "set (drop m ?h) \<subseteq> set ?h"
    for m n by (auto dest: in_set_takeD in_set_dropD)
  have "take 4 (drop 16 ?h) @ drop 20 ?h = drop 16 ?h" "take 4 (drop 12 ?h) @ drop 16 ?h = drop 12 ?h"
    "take 4 (drop 8 ?h) @ drop 12 ?h = drop 8 ?h"
    using append_take_drop_id[of 4 "drop 16 ?h"] append_take_drop_id[of 4 "drop 12 ?h"]
      append_take_drop_id[of 4 "drop 8 ?h"] by simp_all
  then show ?thesis by (simp add: str_uuid_def Let_def keep sub)
qed

lemma parse_str_uuid: "parse_uuid (str_uuid u) = Inr u"
proof -
  have "map lower_hex (hex32 u) = hex32 u"
    using hex32_chars digit_char_not_special(3) by (fastforce intro: map_idI)
  then show ?thesis
    by (simp add: parse_uuid_def Let_def filter_hyphen_hex32 hex32_parse)
qed

lemma str_uuid_inj: "str_uuid u = str_uuid v \<Longrightarrow> u = v"
  using parse_str_uuid by (metis sum.inject(2))

lemma str_uuid_not_Nil [simp]: "str_uuid u \<noteq> []"
  by (simp add: str_uuid_def Let_def)

end
