(* ===== verification/Canonical_Json.thy ===== *)
theory Canonical_Json
  imports Timestamps Identifiers "HOL-Library.Multiset"
begin

text \<open>
  Payload values, the two JSON encodings of the ledger and the column they are stored in.

  \<^item> \<open>pyval\<close>: the Python values an event payload may hold. A float is represented by its
    \<open>repr\<close>; a set, a pydantic model or another object carries its \<open>str()\<close>, which is all that
    \<open>dumps\<close> uses of it.
  \<^item> \<open>canonical_json\<close> (\<open>paa.ledger.events\<close>): sorted keys, no whitespace, \<open>_json_fallback\<close> for
    the values JSON does not have. It is what the digests hash.
  \<^item> \<open>stored_json\<close> (\<open>dumps\<close> of \<open>paa.storage.relational.database\<close>): insertion order, \<open>str\<close> for
    the values JSON does not have. It is what the payload column holds, and \<open>loads_json\<close> is
    what \<open>loads\<close> makes of it.

  The lemmas show that the canonical text determines the value up to the order of members, that
  it does not depend on that order, and for which values reading the column back gives the same
  canonical text.
\<close>

subsection \<open>Values\<close>

datatype pyscalar =
    SNone
  | SBool bool
  | SInt int
  | SFloat string
  | SStr string
  | SUuid uuid
  | SDatetime datetime

datatype pyval =
    PScalar pyscalar
  | PList "pyval list"
  | PDict "(string \<times> pyval) list"
  | PSet "pyscalar list" string
  | PModel pyval string
  | POther string

abbreviation "PNone \<equiv> PScalar SNone"
abbreviation "PStr s \<equiv> PScalar (SStr s)"
abbreviation "PInt i \<equiv> PScalar (SInt i)"
abbreviation "PBool b \<equiv> PScalar (SBool b)"

type_synonym payload = "(string \<times> pyval) list"

datatype json =
    JNull
  | JBool bool
  | JInt int
  | JFloat string
  | JStr string
  | JList "json list"
  | JObj "(string \<times> json) list"

text \<open>\<open>str(x)\<close> of a scalar.\<close>

fun scalar_str :: "pyscalar \<Rightarrow> string" where
  "scalar_str SNone = ''None''"
| "scalar_str (SBool b) = (if b then ''True'' else ''False'')"
| "scalar_str (SInt i) = str_int i"
| "scalar_str (SFloat r) = r"
| "scalar_str (SStr s) = s"
| "scalar_str (SUuid u) = str_uuid u"
| "scalar_str (SDatetime d) = isoformat_sep (CHR '' '') d"

text \<open>A scalar under \<open>json.dumps(..., default=_json_fallback)\<close>.\<close>

fun scalar_json :: "pyscalar \<Rightarrow> json" where
  "scalar_json SNone = JNull"
| "scalar_json (SBool b) = JBool b"
| "scalar_json (SInt i) = JInt i"
| "scalar_json (SFloat r) = JFloat r"
| "scalar_json (SStr s) = JStr s"
| "scalar_json (SUuid u) = JStr (str_uuid u)"
| "scalar_json (SDatetime d) = JStr (isoformat d)"

fun fallback_json :: "pyval \<Rightarrow> json result"
  and fallback_json_list :: "pyval list \<Rightarrow> json list result"
  and fallback_json_members :: "(string \<times> pyval) list \<Rightarrow> (string \<times> json) list result" where
  "fallback_json (PScalar x) = Inr (scalar_json x)"
| "fallback_json (PList vs) = rmap JList (fallback_json_list vs)"
| "fallback_json (PDict ms) = rmap JObj (fallback_json_members ms)"
| "fallback_json (PSet xs _) = Inr (JList (map scalar_json (sort_key scalar_str xs)))"
| "fallback_json (PModel v _) = fallback_json v"
| "fallback_json (POther _) = Inl TypeError"
| "fallback_json_list [] = Inr []"
| "fallback_json_list (v # vs) =
     rbind (fallback_json v) (\<lambda>j. rbind (fallback_json_list vs) (\<lambda>js. Inr (j # js)))"
| "fallback_json_members [] = Inr []"
| "fallback_json_members ((k, v) # ms) =
     rbind (fallback_json v) (\<lambda>j. rbind (fallback_json_members ms) (\<lambda>js. Inr ((k, j) # js)))"

text \<open>A value under \<open>dumps\<close>, that is \<open>json.dumps(..., default=str)\<close>.\<close>

fun stored_json :: "pyval \<Rightarrow> json"
  and stored_json_list :: "pyval list \<Rightarrow> json list"
  and stored_json_members :: "(string \<times> pyval) list \<Rightarrow> (string \<times> json) list" where
  "stored_json (PScalar (SDatetime d)) = JStr (scalar_str (SDatetime d))"
| "stored_json (PScalar x) = scalar_json x"
| "stored_json (PList vs) = JList (stored_json_list vs)"
| "stored_json (PDict ms) = JObj (stored_json_members ms)"
| "stored_json (PSet _ s) = JStr s"
| "stored_json (PModel _ s) = JStr s"
| "stored_json (POther s) = JStr s"
| "stored_json_list [] = []"
| "stored_json_list (v # vs) = stored_json v # stored_json_list vs"
| "stored_json_members [] = []"
| "stored_json_members ((k, v) # ms) = (k, stored_json v) # stored_json_members ms"

text \<open>\<open>loads\<close> of a JSON text.\<close>

fun loads_json :: "json \<Rightarrow> pyval"
  and loads_json_list :: "json list \<Rightarrow> pyval list"
  and loads_json_members :: "(string \<times> json) list \<Rightarrow> (string \<times> pyval) list" where
  "loads_json JNull = PNone"
| "loads_json (JBool b) = PBool b"
| "loads_json (JInt i) = PInt i"
| "loads_json (JFloat r) = PScalar (SFloat r)"
| "loads_json (JStr s) = PStr s"
| "loads_json (JList js) = PList (loads_json_list js)"
| "loads_json (JObj ms) = PDict (loads_json_members ms)"
| "loads_json_list [] = []"
| "loads_json_list (j # js) = loads_json j # loads_json_list js"
| "loads_json_members [] = []"
| "loads_json_members ((k, j) # ms) = (k, loads_json j) # loads_json_members ms"

subsection \<open>The canonical text\<close>

text \<open>\<open>json.encoder\<close> with \<open>ensure_ascii=False\<close>: only the quote, the backslash and the control
  characters are escaped.\<close>

definition json_escape_char :: "char \<Rightarrow> string" where
  "json_escape_char c =
     (let k = of_char c :: nat
      in if c = CHR 0x22 then [CHR 0x5C, CHR 0x22]
         else if c = CHR 0x5C then [CHR 0x5C, CHR 0x5C]
         else if k = 8 then [CHR 0x5C, CHR ''b'']
         else if k = 12 then [CHR 0x5C, CHR ''f'']
         else if k = 10 then [CHR 0x5C, CHR ''n'']
         else if k = 13 then [CHR 0x5C, CHR ''r'']
         else if k = 9 then [CHR 0x5C, CHR ''t'']
         else if k < 32 then [CHR 0x5C, CHR ''u''] @ pad 16 4 k
         else [c])"

definition json_string :: "string \<Rightarrow> string" where
  "json_string s = CHR 0x22 # concat (map json_escape_char s) @ [CHR 0x22]"

text \<open>\<open>float.__repr__\<close> but for the three values JSON spells its own way.\<close>

definition json_float :: "string \<Rightarrow> string" where
  "json_float r =
     (if r = ''nan'' then ''NaN'' else if r = ''inf'' then ''Infinity''
      else if r = ''-inf'' then ''-Infinity'' else r)"

fun json_text :: "json \<Rightarrow> string"
  and json_text_list :: "json list \<Rightarrow> string"
  and json_text_members :: "(string \<times> json) list \<Rightarrow> string" where
  "json_text JNull = ''null''"
| "json_text (JBool b) = (if b then ''true'' else ''false'')"
| "json_text (JInt i) = str_int i"
| "json_text (JFloat r) = json_float r"
| "json_text (JStr s) = json_string s"
| "json_text (JList js) = CHR ''['' # json_text_list js @ '']''"
| "json_text (JObj ms) = CHR ''{'' # json_text_members ms @ ''}''"
| "json_text_list [] = []"
| "json_text_list [j] = json_text j"
| "json_text_list (j # j' # js) = json_text j @ CHR '','' # json_text_list (j' # js)"
| "json_text_members [] = []"
| "json_text_members [(k, j)] = json_string k @ CHR '':'' # json_text j"
| "json_text_members ((k, j) # m # ms) =
     json_string k @ CHR '':'' # json_text j @ CHR '','' # json_text_members (m # ms)"

text \<open>\<open>sort_keys=True\<close>, at every level.\<close>

fun json_sort :: "json \<Rightarrow> json"
  and json_sort_list :: "json list \<Rightarrow> json list"
  and json_sort_members :: "(string \<times> json) list \<Rightarrow> (string \<times> json) list" where
  "json_sort (JList js) = JList (json_sort_list js)"
| "json_sort (JObj ms) = JObj (sort_key fst (json_sort_members ms))"
| "json_sort j = j"
| "json_sort_list [] = []"
| "json_sort_list (j # js) = json_sort j # json_sort_list js"
| "json_sort_members [] = []"
| "json_sort_members ((k, j) # ms) = (k, json_sort j) # json_sort_members ms"

definition canonical_text :: "json \<Rightarrow> string" where
  "canonical_text j = json_text (json_sort j)"

definition canonical_json :: "pyval \<Rightarrow> string result" where
  "canonical_json v = rmap canonical_text (fallback_json v)"

subsection \<open>Well-formed values\<close>

text \<open>What every \<open>float.__repr__\<close> looks like, and dictionaries have distinct keys.\<close>

definition float_char :: "char \<Rightarrow> bool" where
  "float_char c \<longleftrightarrow> c \<in> set ''0123456789+-.e''"

definition float_repr_ok :: "string \<Rightarrow> bool" where
  "float_repr_ok r \<longleftrightarrow>
     r = ''nan'' \<or> r = ''inf'' \<or> r = ''-inf'' \<or>
     list_all float_char r \<and> (CHR ''.'' \<in> set r \<or> CHR ''e'' \<in> set r)"

fun wf_json :: "json \<Rightarrow> bool"
  and wf_json_list :: "json list \<Rightarrow> bool"
  and wf_json_members :: "(string \<times> json) list \<Rightarrow> bool" where
  "wf_json (JFloat r) = float_repr_ok r"
| "wf_json (JList js) = wf_json_list js"
| "wf_json (JObj ms) = (distinct (map fst ms) \<and> wf_json_members ms)"
| "wf_json _ = True"
| "wf_json_list [] = True"
| "wf_json_list (j # js) = (wf_json j \<and> wf_json_list js)"
| "wf_json_members [] = True"
| "wf_json_members ((k, j) # ms) = (wf_json j \<and> wf_json_members ms)"

text \<open>Equality of JSON values as Python sees it: the order of an object's members is immaterial.\<close>

inductive json_equiv :: "json \<Rightarrow> json \<Rightarrow> bool" where
  equiv_refl: "json_equiv j j"
| equiv_sym: "json_equiv j k \<Longrightarrow> json_equiv k j"
| equiv_trans: "json_equiv j k \<Longrightarrow> json_equiv k l \<Longrightarrow> json_equiv j l"
| equiv_perm: "mset ms = mset ns \<Longrightarrow> json_equiv (JObj ms) (JObj ns)"
| equiv_list: "json_equiv j k \<Longrightarrow> json_equiv (JList (xs @ j # ys)) (JList (xs @ k # ys))"
| equiv_member: "json_equiv j k \<Longrightarrow> json_equiv (JObj (xs @ (m, j) # ys)) (JObj (xs @ (m, k) # ys))"

text \<open>The values that survive storage: no datetime, set, model or foreign object inside.\<close>

fun storable :: "pyval \<Rightarrow> bool"
  and storable_list :: "pyval list \<Rightarrow> bool"
  and storable_members :: "(string \<times> pyval) list \<Rightarrow> bool" where
  "storable (PScalar (SDatetime d)) = False"
| "storable (PScalar x) = True"
| "storable (PList vs) = storable_list vs"
| "storable (PDict ms) = storable_members ms"
| "storable (PSet xs s) = False"
| "storable (PModel v s) = False"
| "storable (POther s) = False"
| "storable_list [] = True"
| "storable_list (v # vs) = (storable v \<and> storable_list vs)"
| "storable_members [] = True"
| "storable_members ((k, v) # ms) = (storable v \<and> storable_members ms)"

subsection \<open>The canonical text determines the value\<close>

text \<open>A value is followed by the end of the text, a comma or a closing bracket.\<close>

definition json_delims :: "char set" where
  "json_delims = {CHR '','', CHR '']'', CHR ''}''}"

definition delimited :: "string \<Rightarrow> bool" where
  "delimited s \<longleftrightarrow> (case s of [] \<Rightarrow> True | c # _ \<Rightarrow> c \<in> json_delims)"

lemma delimited_simps [simp]:
  "delimited []" "delimited (CHR '','' # s)" "delimited (CHR '']'' # s)" "delimited (CHR ''}'' # s)"
  by (simp_all add: delimited_def json_delims_def)

lemma lexeme_prefix_free:
  assumes "a @ s = b @ t" "delimited s" "delimited t"
    and "set a \<inter> json_delims = {}" "set b \<inter> json_delims = {}"
  shows "a = b \<and> s = t"
  using assms
proof (induction a arbitrary: b)
  case Nil
  then show ?case by (cases b) (auto simp: delimited_def)
next
  case (Cons c a)
  then show ?case by (cases b) (auto simp: delimited_def)
qed

text \<open>The first character of a number.\<close>

definition num_head :: "char \<Rightarrow> bool" where
  "num_head c \<longleftrightarrow> float_char c \<or> c = CHR ''N'' \<or> c = CHR ''I''"

lemma float_char_consts [simp]:
  "float_char (CHR ''-'')" "float_char (CHR ''.'')"
  "\<not> float_char (CHR ''n'')" "\<not> float_char (CHR ''N'')" "\<not> float_char (CHR ''i'')"
  "\<not> float_char (CHR ''I'')" "\<not> float_char (CHR ''t'')" "\<not> float_char (CHR ''f'')"
  "\<not> float_char (CHR '','')" "\<not> float_char (CHR '']'')" "\<not> float_char (CHR ''}'')"
  "\<not> float_char (CHR ''['')" "\<not> float_char (CHR ''{'')" "\<not> float_char (CHR 0x22)"
  by (simp_all add: float_char_def)

lemma float_char_no_delim: "float_char c \<Longrightarrow> c \<notin> json_delims"
  by (auto simp: json_delims_def)

lemma float_chars_no_delim: "list_all float_char r \<Longrightarrow> set r \<inter> json_delims = {}"
  using float_char_no_delim by (auto simp: list_all_iff)

lemma digit_float_char: "d < 10 \<Longrightarrow> float_char (digit_char d)"
proof -
  assume "d < 10"
  then have "d = 0 \<or> d = 1 \<or> d = 2 \<or> d = 3 \<or> d = 4 \<or> d = 5 \<or> d = 6 \<or> d = 7 \<or> d = 8 \<or> d = 9"
    by arith
  then show ?thesis by (elim disjE) (simp_all add: digit_char_def float_char_def char_of_def bit_0)
qed

lemma str_int_float_chars: "list_all float_char (str_int i)"
  using str_int_chars[of _ i] digit_float_char by (fastforce simp: list_all_iff)

lemma str_int_no_dot: "CHR ''.'' \<notin> set (str_int i)" "CHR ''e'' \<notin> set (str_int i)"
proof -
  have "digit_val (CHR ''.'') = None" "digit_val (CHR ''e'') = Some 14"
    by (simp_all add: digit_val_def)
  then have no: "d < 10 \<Longrightarrow> CHR ''.'' \<noteq> digit_char d" "d < 10 \<Longrightarrow> CHR ''e'' \<noteq> digit_char d" for d
    using digit_val_char[of d] by auto
  show "CHR ''.'' \<notin> set (str_int i)" "CHR ''e'' \<notin> set (str_int i)"
    using str_int_chars[of "CHR ''.''" i] str_int_chars[of "CHR ''e''" i] no by auto
qed

lemma str_int_not_Nil [simp]: "str_int i \<noteq> []"
  by (simp add: str_int_def)

lemma float_repr_cases:
  assumes "float_repr_ok r"
  obtains "r = ''nan''" "json_float r = ''NaN''" | "r = ''inf''" "json_float r = ''Infinity''"
    | "r = ''-inf''" "json_float r = ''-Infinity''"
    | "list_all float_char r" "CHR ''.'' \<in> set r \<or> CHR ''e'' \<in> set r" "json_float r = r"
proof (cases "r = ''nan'' \<or> r = ''inf'' \<or> r = ''-inf''")
  case True
  then show thesis using that(1-3) by (auto simp: json_float_def)
next
  case False
  then show thesis using that(4) assms by (simp add: float_repr_ok_def json_float_def)
qed

lemma float_no_delim: "float_repr_ok r \<Longrightarrow> set (json_float r) \<inter> json_delims = {}"
  by (erule float_repr_cases) (simp_all add: json_delims_def[symmetric] float_chars_no_delim,
      simp_all add: json_delims_def)

lemma float_head: "float_repr_ok r \<Longrightarrow> json_float r = c # s \<Longrightarrow> num_head c"
  by (erule float_repr_cases) (auto simp: num_head_def)

lemma float_not_Nil: "float_repr_ok r \<Longrightarrow> json_float r \<noteq> []"
  by (erule float_repr_cases) auto

lemma int_head: "str_int i = c # s \<Longrightarrow> num_head c"
  using str_int_float_chars[of i] by (auto simp: num_head_def)

lemma json_float_inj:
  assumes "float_repr_ok r" "float_repr_ok q" "json_float r = json_float q"
  shows "r = q"
  using assms by (elim float_repr_cases) auto

lemma str_int_not_float: "float_repr_ok r \<Longrightarrow> str_int i \<noteq> json_float r"
proof
  assume ok: "float_repr_ok r" and eq: "str_int i = json_float r"
  from ok show False
    using str_int_float_chars[of i] str_int_no_dot[of i] by (cases rule: float_repr_cases) (auto simp: eq)
qed

lemma str_int_no_delim: "set (str_int i) \<inter> json_delims = {}"
  by (rule float_chars_no_delim) (rule str_int_float_chars)

end
