(* ===== verification/Dynamic_Values.thy ===== *)
theory Dynamic_Values
  imports Canonical_Json
begin

text \<open>
  The built-in operations that the replay fold applies to payload values whose type nothing
  checked: truth testing, \<open>int(x)\<close> and \<open>len(x)\<close>, with the exceptions they raise. A float is known
  by its \<open>repr\<close>, so \<open>int\<close> of a float reads that text back, rounds it to the 53 bits of the double
  it names and truncates. Digits outside ASCII, which \<open>int(str)\<close> also accepts, are a \<open>ValueError\<close>
  here.
\<close>

subsection \<open>Reading numbers\<close>

definition is_digit :: "char \<Rightarrow> bool" where
  "is_digit c \<longleftrightarrow> (let k = of_char c :: nat in 48 \<le> k \<and> k \<le> 57)"

definition is_space :: "char \<Rightarrow> bool" where
  "is_space c \<longleftrightarrow> (let k = of_char c :: nat in k = 32 \<or> 9 \<le> k \<and> k \<le> 13 \<or> 28 \<le> k \<and> k \<le> 31)"

definition strip_space :: "string \<Rightarrow> string" where
  "strip_space s = rev (dropWhile is_space (rev (dropWhile is_space s)))"

text \<open>Digits with single underscores between them.\<close>

fun plain_digits :: "string \<Rightarrow> string option" where
  "plain_digits [] = None"
| "plain_digits [c] = (if is_digit c then Some [c] else None)"
| "plain_digits (c # d # s) =
     (if \<not> is_digit c then None
      else map_option (\<lambda>r. c # r) (plain_digits (if d = CHR ''_'' then s else d # s)))"

fun split_sign :: "string \<Rightarrow> bool \<times> string" where
  "split_sign [] = (False, [])"
| "split_sign (c # s) =
     (if c = CHR ''-'' then (True, s) else if c = CHR ''+'' then (False, s) else (False, c # s))"

definition signed :: "bool \<Rightarrow> int \<Rightarrow> int" where
  "signed neg i = (if neg then - i else i)"

definition int_of_text :: "string \<Rightarrow> int result" where
  "int_of_text s =
     (let (neg, body) = split_sign (strip_space s)
      in case Option.bind (plain_digits body) (parse_digits 10) of
           None \<Rightarrow> Inl ValueError
         | Some n \<Rightarrow> Inr (signed neg (int n)))"

text \<open>The double nearest to a natural number: 53 significant bits, ties to even.\<close>

function scale53 :: "nat \<Rightarrow> nat \<Rightarrow> nat \<times> nat" where
  "scale53 n e = (if n < 2 ^ 53 * 2 ^ e then (n, e) else scale53 n (Suc e))"
  by pat_completeness auto
termination
proof (relation "measure (\<lambda>(n, e). n - e)", simp)
  fix n e :: nat
  assume "\<not> n < 2 ^ 53 * 2 ^ e"
  then have "2 ^ e \<le> n" by simp
  then have "e < n" by (rule order.strict_trans2[OF less_exp])
  then show "((n, Suc e), (n, e)) \<in> measure (\<lambda>(n, e). n - e)" by simp
qed

declare scale53.simps [simp del]

definition round53 :: "nat \<Rightarrow> nat" where
  "round53 n =
     (let e = snd (scale53 n 0); q = n div 2 ^ e; r = n mod 2 ^ e; half = 2 ^ e div 2
      in (if e = 0 \<or> r < half \<or> r = half \<and> even q then q else q + 1) * 2 ^ e)"

text \<open>\<open>int(x)\<close> of the float with this \<open>repr\<close>: digits, an optional fraction, an optional exponent.\<close>

definition float_parts :: "string \<Rightarrow> string \<times> string \<times> int" where
  "float_parts s =
     (let mant = takeWhile (\<lambda>c. c \<noteq> CHR ''e'') s;
          ex = drop (Suc (length mant)) s;
          (neg, exd) = split_sign ex;
          whole = takeWhile (\<lambda>c. c \<noteq> CHR ''.'') mant;
          frac = drop (Suc (length whole)) mant
      in (whole, frac, signed neg (case parse_digits 10 exd of None \<Rightarrow> 0 | Some n \<Rightarrow> int n)))"

definition int_of_float :: "string \<Rightarrow> int result" where
  "int_of_float r =
     (if r = ''nan'' then Inl ValueError
      else if r = ''inf'' \<or> r = ''-inf'' then Inl OverflowError
      else let (neg, body) = split_sign r; (whole, frac, ex) = float_parts body
           in case parse_digits 10 (whole @ frac) of
                None \<Rightarrow> Inl ValueError
              | Some n \<Rightarrow>
                  (let k = ex - int (length frac)
                   in Inr (signed neg (int (round53 (if 0 \<le> k then n * 10 ^ nat k else n div 10 ^ nat (- k)))))))"

definition py_int :: "pyval \<Rightarrow> int result" where
  "py_int v =
     (case v of
        PScalar (SInt i) \<Rightarrow> Inr i
      | PScalar (SBool b) \<Rightarrow> Inr (if b then 1 else 0)
      | PScalar (SStr s) \<Rightarrow> int_of_text s
      | PScalar (SFloat r) \<Rightarrow> int_of_float r
      | PScalar (SUuid u) \<Rightarrow> Inr (uint u)
      | _ \<Rightarrow> Inl TypeError)"

subsection \<open>Truth and length\<close>

fun truthy :: "pyval \<Rightarrow> bool" where
  "truthy (PScalar SNone) = False"
| "truthy (PScalar (SBool b)) = b"
| "truthy (PScalar (SInt i)) = (i \<noteq> 0)"
| "truthy (PScalar (SFloat r)) = (r \<noteq> ''0.0'' \<and> r \<noteq> ''-0.0'')"
| "truthy (PScalar (SStr s)) = (s \<noteq> [])"
| "truthy (PScalar _) = True"
| "truthy (PList vs) = (vs \<noteq> [])"
| "truthy (PDict ms) = (ms \<noteq> [])"
| "truthy (PSet xs _) = (xs \<noteq> [])"
| "truthy _ = True"

text \<open>The length of a text counts code points: bytes that do not continue one.\<close>

definition code_points :: "string \<Rightarrow> nat" where
  "code_points s = length (filter (\<lambda>c. let k = of_char c :: nat in k < 128 \<or> 192 \<le> k) s)"

definition py_len :: "pyval \<Rightarrow> int result" where
  "py_len v =
     (case v of
        PScalar (SStr s) \<Rightarrow> Inr (int (code_points s))
      | PList vs \<Rightarrow> Inr (int (length vs))
      | PDict ms \<Rightarrow> Inr (int (length ms))
      | PSet xs _ \<Rightarrow> Inr (int (length xs))
      | _ \<Rightarrow> Inl TypeError)"

subsection \<open>Lemmas\<close>

lemma py_int_PInt [simp]: "py_int (PInt i) = Inr i"
  by (simp add: py_int_def)

lemma py_len_PList [simp]: "py_len (PList vs) = Inr (int (length vs))"
  by (simp add: py_len_def)

lemma digit_char_is_digit: "d < 10 \<Longrightarrow> is_digit (digit_char d)"
  by (simp add: is_digit_def of_char_digit)

lemma is_digit_not_special: "is_digit c \<Longrightarrow> c \<noteq> CHR ''_'' \<and> c \<noteq> CHR ''-'' \<and> c \<noteq> CHR ''+'' \<and> \<not> is_space c"
  by (auto simp: is_digit_def is_space_def Let_def)

lemma plain_digits_id: "s \<noteq> [] \<Longrightarrow> list_all is_digit s \<Longrightarrow> plain_digits s = Some s"
  by (induction s rule: plain_digits.induct) (auto dest: is_digit_not_special)

lemma str_nat_all_digits: "list_all is_digit (str_nat n)"
  using str_nat_digits[of _ n] digit_char_is_digit by (fastforce simp: list_all_iff)

lemma strip_space_id:
  assumes "s \<noteq> []" "\<not> is_space (hd s)" "\<not> is_space (last s)"
  shows "strip_space s = s"
proof -
  have "dropWhile is_space s = s" using assms by (cases s) auto
  moreover have "dropWhile is_space (rev s) = rev s"
    using assms by (cases s rule: rev_cases) auto
  ultimately show ?thesis by (simp add: strip_space_def)
qed

text \<open>\<open>int(str(i)) == i\<close>\<close>

lemma int_of_text_str_int: "int_of_text (str_int i) = Inr i"
proof -
  have digits: "s \<noteq> []" "list_all is_digit s" if "s = str_nat n" for s n
    using that str_nat_all_digits by auto
  have nat: "split_sign (str_nat n) = (False, str_nat n)" for n
    using digits[of _ n] is_digit_not_special by (cases "str_nat n") auto
  have last: "\<not> is_space (last (str_nat n))" "\<not> is_space (hd (str_nat n))" for n
    using str_nat_all_digits[of n] is_digit_not_special by (auto simp: list_all_iff)
  have strip: "strip_space (str_int i) = str_int i"
    by (rule strip_space_id) (use last in \<open>auto simp: str_int_def is_space_def\<close>)
  have body: "Option.bind (plain_digits (str_nat n)) (parse_digits 10) = Some n" for n
    by (simp add: plain_digits_id[OF str_nat_not_Nil str_nat_all_digits] parse_str_nat)
  show ?thesis unfolding int_of_text_def strip
    by (auto simp: str_int_def nat body signed_def)
qed

end
