(* ===== verification/Py_Texts.thy ===== *)
theory Py_Texts
  imports Dynamic_Values
begin

text \<open>
  Operations on texts that several parts use: \<open>str.lower\<close> on ASCII letters, \<open>in\<close>, \<open>', '.join\<close>, and \<open>repr\<close>.
\<close>

definition lower_char :: "char \<Rightarrow> char" where
  "lower_char c = (let k = of_char c :: nat in if 65 \<le> k \<and> k \<le> 90 then char_of (k + 32) else c)"

definition lower :: "string \<Rightarrow> string" where
  "lower s = map lower_char s"

text \<open>\<open>sub in text\<close>.\<close>

fun has_part :: "string \<Rightarrow> string \<Rightarrow> bool" where
  "has_part sub [] = (sub = [])"
| "has_part sub (c # s) = (take (length sub) (c # s) = sub \<or> has_part sub s)"

text \<open>\<open>repr\<close> of a text (bytes beyond ASCII are taken to belong to printable characters).\<close>

definition repr_char :: "char \<Rightarrow> char \<Rightarrow> string" where
  "repr_char q c =
     (let k = of_char c :: nat
      in if c = q \<or> c = CHR 0x5C then [CHR 0x5C, c]
         else if k = 10 then [CHR 0x5C, CHR ''n'']
         else if k = 13 then [CHR 0x5C, CHR ''r'']
         else if k = 9 then [CHR 0x5C, CHR ''t'']
         else if k < 32 \<or> k = 127 then [CHR 0x5C, CHR ''x''] @ pad 16 2 k
         else [c])"

definition py_repr :: "string \<Rightarrow> string" where
  "py_repr s =
     (let q = (if CHR 0x27 \<in> set s \<and> CHR 0x22 \<notin> set s then CHR 0x22 else CHR 0x27)
      in q # concat (map (repr_char q) s) @ [q])"

fun join_comma :: "string list \<Rightarrow> string" where
  "join_comma [] = []"
| "join_comma [s] = s"
| "join_comma (s # ss) = s @ '', '' @ join_comma ss"

text \<open>\<open>repr\<close> of a value that JSON can hold.\<close>

fun value_repr :: "pyval \<Rightarrow> string" where
  "value_repr (PScalar (SStr s)) = py_repr s"
| "value_repr (PScalar x) = scalar_str x"
| "value_repr (PList vs) = ''['' @ join_comma (map value_repr vs) @ '']''"
| "value_repr (PDict ms) = ''{'' @ join_comma (map (\<lambda>(k, v). py_repr k @ '': '' @ value_repr v) ms) @ ''}''"
| "value_repr (PSet _ s) = s"
| "value_repr (PModel _ s) = s"
| "value_repr (POther s) = s"

end
