(* ===== verification/Regex_Search.thy ===== *)
theory Regex_Search
  imports Py_Texts
begin

text \<open>
  Regular expressions as far as the policy patterns use Python's \<open>re\<close>: character sets, sequence, choice, repetition,
  word boundaries and the end of the text, searched for in a text. A position is the character before it, if
  any, and the text after it. Texts are ASCII: what the classes and the case folding do elsewhere is not considered.
\<close>

datatype rx = RSet "char \<Rightarrow> bool" | RSeq rx rx | RAlt rx rx | RStar rx | RBound | REnd | REps

type_synonym rx_pos = "char option \<times> string"

definition is_word :: "char \<Rightarrow> bool" where
  "is_word c \<longleftrightarrow> (let k = of_char c :: nat in 48 \<le> k \<and> k \<le> 57 \<or> 65 \<le> k \<and> k \<le> 90 \<or> 97 \<le> k \<and> k \<le> 122 \<or> k = 95)"

definition word_before :: "rx_pos \<Rightarrow> bool" where
  "word_before x = (case fst x of None \<Rightarrow> False | Some c \<Rightarrow> is_word c)"

definition word_after :: "rx_pos \<Rightarrow> bool" where
  "word_after x = (case snd x of [] \<Rightarrow> False | c # _ \<Rightarrow> is_word c)"

text \<open>\<open>$\<close> without MULTILINE: the end, or before a line feed that ends the text.\<close>

definition at_text_end :: "rx_pos \<Rightarrow> bool" where
  "at_text_end x \<longleftrightarrow> snd x = [] \<or> snd x = [CHR 0x0A]"

text \<open>The positions at which a match that starts here can end.\<close>

function rx_ends :: "rx \<Rightarrow> rx_pos \<Rightarrow> rx_pos list" where
  "rx_ends (RSet f) x = (case snd x of [] \<Rightarrow> [] | c # s \<Rightarrow> if f c then [(Some c, s)] else [])"
| "rx_ends (RSeq a b) x = concat (map (rx_ends b) (rx_ends a x))"
| "rx_ends (RAlt a b) x = rx_ends a x @ rx_ends b x"
| "rx_ends (RStar a) x =
     x # concat (map (\<lambda>y. if length (snd y) < length (snd x) then rx_ends (RStar a) y else []) (rx_ends a x))"
| "rx_ends RBound x = (if word_before x \<noteq> word_after x then [x] else [])"
| "rx_ends REnd x = (if at_text_end x then [x] else [])"
| "rx_ends REps x = [x]"
  by pat_completeness auto
termination
  by (relation "measures [\<lambda>(r, x). size r, \<lambda>(r, x). length (snd x)]") auto

lemmas rx_ends_star = rx_ends.simps(4)

declare rx_ends.simps(4) [simp del]

fun rx_search_from :: "rx \<Rightarrow> char option \<Rightarrow> string \<Rightarrow> bool" where
  "rx_search_from r p [] = (rx_ends r (p, []) \<noteq> [])"
| "rx_search_from r p (c # s) = (rx_ends r (p, c # s) \<noteq> [] \<or> rx_search_from r (Some c) s)"

definition rx_search :: "rx \<Rightarrow> string \<Rightarrow> bool" where
  "rx_search r s = rx_search_from r None s"

subsection \<open>Notation of patterns\<close>

text \<open>A word, letters in either case.\<close>

fun rx_text :: "string \<Rightarrow> rx" where
  "rx_text [] = REps"
| "rx_text [c] = RSet (\<lambda>d. lower_char d = lower_char c)"
| "rx_text (c # s) = RSeq (RSet (\<lambda>d. lower_char d = lower_char c)) (rx_text s)"

fun rx_seq :: "rx list \<Rightarrow> rx" where
  "rx_seq [] = REps"
| "rx_seq [r] = r"
| "rx_seq (r # rs) = RSeq r (rx_seq rs)"

fun rx_any :: "rx list \<Rightarrow> rx" where
  "rx_any [] = RSet (\<lambda>_. False)"
| "rx_any [r] = r"
| "rx_any (r # rs) = RAlt r (rx_any rs)"

definition rx_plus :: "rx \<Rightarrow> rx" where
  "rx_plus r = RSeq r (RStar r)"

definition rx_space :: rx where
  "rx_space = RSet is_space"

definition rx_wordchar :: rx where
  "rx_wordchar = RSet is_word"

definition rx_not_newline :: rx where
  "rx_not_newline = RSet (\<lambda>c. c \<noteq> CHR 0x0A)"

subsection \<open>What a match is\<close>

text \<open>The usual semantics, without a bound on repetitions.\<close>

inductive rx_match :: "rx \<Rightarrow> rx_pos \<Rightarrow> rx_pos \<Rightarrow> bool" where
  match_set: "f c \<Longrightarrow> rx_match (RSet f) (p, c # s) (Some c, s)"
| match_seq: "rx_match a x y \<Longrightarrow> rx_match b y z \<Longrightarrow> rx_match (RSeq a b) x z"
| match_left: "rx_match a x y \<Longrightarrow> rx_match (RAlt a b) x y"
| match_right: "rx_match b x y \<Longrightarrow> rx_match (RAlt a b) x y"
| match_none: "rx_match (RStar a) x x"
| match_more: "rx_match a x y \<Longrightarrow> rx_match (RStar a) y z \<Longrightarrow> rx_match (RStar a) x z"
| match_bound: "word_before x \<noteq> word_after x \<Longrightarrow> rx_match RBound x x"
| match_end: "at_text_end x \<Longrightarrow> rx_match REnd x x"
| match_eps: "rx_match REps x x"

lemma match_moves: "rx_match r x y \<Longrightarrow> length (snd y) < length (snd x) \<or> y = x"
  by (induction rule: rx_match.induct) auto

lemma ends_sound: "y \<in> set (rx_ends r x) \<Longrightarrow> rx_match r x y"
proof (induction r x arbitrary: y rule: rx_ends.induct)
  case (1 f x)
  then show ?case by (cases x) (auto intro: match_set split: list.splits if_splits)
next
  case (4 a x)
  have "y = x \<or> (\<exists>z \<in> set (rx_ends a x). length (snd z) < length (snd x) \<and> y \<in> set (rx_ends (RStar a) z))"
    using "4.prems" by (subst (asm) rx_ends_star) (auto split: if_splits)
  then show ?case using "4.IH" by (blast intro: match_none match_more)
next
  case (2 a b x)
  then obtain z where "z \<in> set (rx_ends a x)" "y \<in> set (rx_ends b z)" by auto
  then show ?case using "2.IH" by (blast intro: match_seq)
next
  case (3 a b x)
  from "3.prems" have "y \<in> set (rx_ends a x) \<or> y \<in> set (rx_ends b x)" by simp
  then show ?case using "3.IH" by (blast intro: match_left match_right)
qed (auto intro: match_bound match_end match_eps split: if_splits)

lemma ends_complete: "rx_match r x y \<Longrightarrow> y \<in> set (rx_ends r x)"
proof (induction rule: rx_match.induct)
  case (match_more a x y z)
  show ?case
  proof (cases "length (snd y) < length (snd x)")
    case True
    then show ?thesis using match_more.IH by (auto simp: rx_ends_star[of a x])
  next
    case False
    then have "y = x" using match_moves[OF match_more.hyps(1)] by simp
    then show ?thesis using match_more.IH by simp
  qed
next
  case (match_none a x)
  show ?case by (simp add: rx_ends_star[of a x])
qed auto

lemma ends_iff: "y \<in> set (rx_ends r x) \<longleftrightarrow> rx_match r x y"
  using ends_sound ends_complete by blast

lemma ends_nonempty: "rx_ends r x \<noteq> [] \<longleftrightarrow> (\<exists>y. rx_match r x y)"
  unfolding ends_iff[symmetric] by (cases "rx_ends r x") auto

text \<open>The position after a prefix of the text.\<close>

definition pos_at :: "char option \<Rightarrow> string \<Rightarrow> string \<Rightarrow> rx_pos" where
  "pos_at p u s = ((if u = [] then p else Some (last u)), s)"

lemma pos_at_Nil [simp]: "pos_at p [] s = (p, s)"
  by (simp add: pos_at_def)

lemma pos_at_Cons [simp]: "pos_at p (c # u) s = pos_at (Some c) u s"
  by (simp add: pos_at_def)

lemma pos_at_append: "pos_at p (u @ v) s = pos_at (fst (pos_at p u (v @ s))) v s"
  by (simp add: pos_at_def)

lemma search_from_iff: "rx_search_from r p s \<longleftrightarrow> (\<exists>u v y. s = u @ v \<and> rx_match r (pos_at p u v) y)"
proof (induction s arbitrary: p)
  case Nil
  show ?case by (simp add: ends_nonempty)
next
  case (Cons c s)
  have "(\<exists>u v y. c # s = u @ v \<and> rx_match r (pos_at p u v) y) \<longleftrightarrow>
      (\<exists>y. rx_match r (p, c # s) y) \<or> (\<exists>u v y. s = u @ v \<and> rx_match r (pos_at (Some c) u v) y)"
    unfolding Cons_eq_append_conv by (metis pos_at_Cons pos_at_Nil)
  then show ?case unfolding rx_search_from.simps Cons.IH ends_nonempty by blast
qed

text \<open>A search succeeds if the pattern matches somewhere in the text.\<close>

lemma rx_search_iff: "rx_search r s \<longleftrightarrow> (\<exists>u v y. s = u @ v \<and> rx_match r (pos_at None u v) y)"
  by (simp add: rx_search_def search_from_iff)

subsection \<open>Building matches\<close>

lemma match_seq_list: "rx_match r x y \<Longrightarrow> rx_match (rx_seq rs) y z \<Longrightarrow> rx_match (rx_seq (r # rs)) x z"
  by (cases rs) (auto elim: rx_match.cases intro: match_seq)

lemma match_any_list: "r \<in> set rs \<Longrightarrow> rx_match r x y \<Longrightarrow> rx_match (rx_any rs) x y"
  by (induction rs rule: rx_any.induct) (auto intro: match_left match_right)

lemma match_text: "u \<noteq> [] \<Longrightarrow> map lower_char u = map lower_char w \<Longrightarrow> rx_match (rx_text w) (p, u @ s) (pos_at p u s)"
proof (induction w arbitrary: u p rule: rx_text.induct)
  case (2 c)
  then show ?case by (cases u) (auto intro: match_set)
next
  case (3 c d w)
  then obtain e u' where u: "u = e # u'" "lower_char e = lower_char c" "map lower_char u' = map lower_char (d # w)"
    by (cases u) simp_all
  then have "u' \<noteq> []" by (cases u') simp_all
  then show ?case using "3.IH"[of u' "Some e"] u by (auto intro!: match_seq match_set)
qed simp

lemma match_star_set: "list_all f u \<Longrightarrow> rx_match (RStar (RSet f)) (p, u @ s) (pos_at p u s)"
proof (induction u arbitrary: p)
  case (Cons c u)
  then have "rx_match (RStar (RSet f)) (Some c, u @ s) (pos_at (Some c) u s)" by simp
  then show ?case using Cons.prems by (auto intro: match_more match_set)
qed (simp add: match_none)

lemma match_plus_set: "u \<noteq> [] \<Longrightarrow> list_all f u \<Longrightarrow> rx_match (rx_plus (RSet f)) (p, u @ s) (pos_at p u s)"
  unfolding rx_plus_def by (cases u) (auto intro!: match_seq[OF match_set] match_star_set)

lemma match_chars: "list_all2 (\<lambda>r c. \<exists>f. r = RSet f \<and> f c) rs u \<Longrightarrow> rx_match (rx_seq rs) (p, u @ s) (pos_at p u s)"
proof (induction rs arbitrary: u p rule: rx_seq.induct)
  case (2 r)
  then show ?case by (auto simp: list_all2_Cons1 intro: match_set)
next
  case (3 r v rs)
  then show ?case by (fastforce simp: list_all2_Cons1 intro: match_seq match_set)
qed (simp add: match_eps)

subsection \<open>Patterns in a larger text\<close>

text \<open>Patterns that do not ask for the end of the text.\<close>

fun end_free :: "rx \<Rightarrow> bool" where
  "end_free (RSeq a b) = (end_free a \<and> end_free b)"
| "end_free (RAlt a b) = (end_free a \<and> end_free b)"
| "end_free (RStar a) = end_free a"
| "end_free REnd = False"
| "end_free _ = True"

text \<open>A position of a text, when the text is part of a larger one.\<close>

definition in_context :: "char option \<Rightarrow> string \<Rightarrow> rx_pos \<Rightarrow> rx_pos" where
  "in_context q t x = ((case fst x of None \<Rightarrow> q | Some c \<Rightarrow> Some c), snd x @ t)"

definition no_word_char :: "char option \<Rightarrow> bool" where
  "no_word_char q \<longleftrightarrow> (case q of None \<Rightarrow> True | Some c \<Rightarrow> \<not> is_word c)"

definition first_char :: "string \<Rightarrow> char option" where
  "first_char s = (case s of [] \<Rightarrow> None | c # _ \<Rightarrow> Some c)"

lemma word_in_context:
  assumes "no_word_char q" "no_word_char (first_char t)"
  shows "word_before (in_context q t x) = word_before x" "word_after (in_context q t x) = word_after x"
  using assms by (auto simp: in_context_def word_before_def word_after_def no_word_char_def first_char_def split: option.splits list.splits)

lemma match_in_context:
  assumes "no_word_char q" "no_word_char (first_char t)"
  shows "rx_match r x y \<Longrightarrow> end_free r \<Longrightarrow> rx_match r (in_context q t x) (in_context q t y)"
proof (induction rule: rx_match.induct)
  case (match_set f c p s)
  then show ?case by (auto simp: in_context_def intro: rx_match.match_set)
next
  case (match_bound x)
  then show ?case by (intro rx_match.match_bound) (simp add: word_in_context[OF assms])
qed (auto intro: rx_match.intros)

lemma in_context_pos: "in_context (if pre = [] then None else Some (last pre)) t (pos_at None u s) = pos_at None (pre @ u) (s @ t)"
  by (auto simp: in_context_def pos_at_def)

text \<open>What is found in a text is found wherever that text stands between characters that are not of words.\<close>

lemma search_in_context:
  assumes "rx_search r s" "end_free r" "no_word_char (if pre = [] then None else Some (last pre))" "no_word_char (first_char post)"
  shows "rx_search r (pre @ s @ post)"
proof -
  obtain u v y where m: "s = u @ v" "rx_match r (pos_at None u v) y" using assms(1) unfolding rx_search_iff by blast
  have "rx_match r (pos_at None (pre @ u) (v @ post)) (in_context (if pre = [] then None else Some (last pre)) post y)"
    using match_in_context[OF assms(3,4) m(2) assms(2)] unfolding in_context_pos .
  moreover have "pre @ s @ post = (pre @ u) @ (v @ post)" by (simp add: m(1))
  ultimately show ?thesis unfolding rx_search_iff by blast
qed

inductive_cases rx_match_seqE: "rx_match (RSeq a b) x z"
inductive_cases rx_match_altE: "rx_match (RAlt a b) x y"
inductive_cases rx_match_setE: "rx_match (RSet f) x y"
inductive_cases rx_match_endE: "rx_match REnd x y"

end
