(* ===== verification/Double_Floats.thy ===== *)
theory Double_Floats
  imports Py_Texts "HOL-Library.Log_Nat"
begin

text \<open>
  Floats as numbers: the double that a text names, \<open>float(x)\<close>, comparison, \<open>max\<close> and \<open>min\<close>, \<open>round(x, 3)\<close>, and
  the texts that \<open>repr\<close> and fixed-point formats give. A finite double is its exact rational value, so every
  operation is exact arithmetic followed by one rounding to 53 significant bits, ties to even, with the least exponent
  -1074. The sign of zero is not kept.
\<close>

datatype pyfloat = Finite rat | PosInf | NegInf | NaN

subsection \<open>Rounding\<close>

definition round_even :: "rat \<Rightarrow> int" where
  "round_even q = (let f = \<lfloor>q\<rfloor>; r = q - of_int f in if r < 1 / 2 \<or> r = 1 / 2 \<and> even f then f else f + 1)"

text \<open>How far a positive number is shifted so that 53 bits stand before the point.\<close>

definition double_shift :: "rat \<Rightarrow> int" where
  "double_shift q =
     (let (a, b) = quotient_of q; k = 53 - (bitlen a - bitlen b)
      in min 1074 (if q * 2 powi k < 2 ^ 53 then k else k - 1))"

definition nearest :: "rat \<Rightarrow> rat" where
  "nearest q = (let s = double_shift q in of_int (round_even (q * 2 powi s)) / 2 powi s)"

definition fl :: "rat \<Rightarrow> rat" where
  "fl q = (if q = 0 then 0 else if q < 0 then - nearest (- q) else nearest q)"

definition to_double :: "rat \<Rightarrow> pyfloat" where
  "to_double q = (let d = fl q in if d \<ge> 2 ^ 1024 then PosInf else if d \<le> - (2 ^ 1024) then NegInf else Finite d)"

subsection \<open>Reading\<close>

definition optional_digits :: "string \<Rightarrow> string option" where
  "optional_digits s = (if s = [] then Some [] else plain_digits s)"

definition decimal_value :: "string \<Rightarrow> string \<Rightarrow> int \<Rightarrow> rat" where
  "decimal_value whole fraction ex =
     (case parse_digits 10 (whole @ fraction) of
        None \<Rightarrow> 0
      | Some n \<Rightarrow> let k = ex - int (length fraction) in if 0 \<le> k then of_nat n * 10 ^ nat k else of_nat n / 10 ^ nat (- k))"

text \<open>The number that an unsigned decimal in lower case denotes.\<close>

definition decimal_of :: "string \<Rightarrow> rat option" where
  "decimal_of s =
     (let mant = takeWhile (\<lambda>c. c \<noteq> CHR ''e'') s;
          (neg, exd) = split_sign (drop (Suc (length mant)) s);
          ex = (if length mant = length s then Some (0 :: int)
                else map_option (\<lambda>n. signed neg (int n)) (Option.bind (plain_digits exd) (parse_digits 10)));
          whole = takeWhile (\<lambda>c. c \<noteq> CHR ''.'') mant;
          fraction = drop (Suc (length whole)) mant
      in if whole = [] \<and> fraction = [] then None
         else case (optional_digits whole, optional_digits fraction, ex) of
                (Some w, Some f, Some e) \<Rightarrow> Some (decimal_value w f e)
              | _ \<Rightarrow> None)"

definition float_of_text :: "string \<Rightarrow> pyfloat result" where
  "float_of_text s =
     (let (neg, body) = split_sign (strip_space s); l = map lower_char body
      in if l = ''nan'' then Inr NaN
         else if l = ''inf'' \<or> l = ''infinity'' then Inr (if neg then NegInf else PosInf)
         else case decimal_of l of
                None \<Rightarrow> Inl ValueError
              | Some q \<Rightarrow> Inr (to_double (if neg then - q else q)))"

definition py_float :: "pyval \<Rightarrow> pyfloat result" where
  "py_float v =
     (case v of
        PScalar (SInt i) \<Rightarrow> (case to_double (of_int i) of Finite q \<Rightarrow> Inr (Finite q) | _ \<Rightarrow> Inl OverflowError)
      | PScalar (SBool b) \<Rightarrow> Inr (Finite (if b then 1 else 0))
      | PScalar (SFloat r) \<Rightarrow> float_of_text r
      | PScalar (SStr s) \<Rightarrow> float_of_text s
      | _ \<Rightarrow> Inl TypeError)"

subsection \<open>Comparing\<close>

fun f_less :: "pyfloat \<Rightarrow> pyfloat \<Rightarrow> bool" where
  "f_less (Finite a) (Finite b) = (a < b)"
| "f_less (Finite _) PosInf = True"
| "f_less NegInf (Finite _) = True"
| "f_less NegInf PosInf = True"
| "f_less _ _ = False"

definition f_leq :: "pyfloat \<Rightarrow> pyfloat \<Rightarrow> bool" where
  "f_leq a b \<longleftrightarrow> f_less a b \<or> a = b \<and> a \<noteq> NaN"

text \<open>\<open>max(a, b)\<close> and \<open>min(a, b)\<close> keep their first argument unless the second is strictly beyond it.\<close>

definition f_max :: "pyfloat \<Rightarrow> pyfloat \<Rightarrow> pyfloat" where
  "f_max a b = (if f_less a b then b else a)"

definition f_min :: "pyfloat \<Rightarrow> pyfloat \<Rightarrow> pyfloat" where
  "f_min a b = (if f_less b a then b else a)"

subsection \<open>Writing\<close>

text \<open>Three decimals: the thousandths of \<open>round(x, 3)\<close>, and the \<open>repr\<close> of the double nearest to them.\<close>

definition thousandths :: "rat \<Rightarrow> int" where
  "thousandths q = round_even (q * 1000)"

definition milli_repr :: "nat \<Rightarrow> string" where
  "milli_repr k =
     str_nat (k div 1000) @ ''.'' @
     (if k mod 100 = 0 then [digit_char (k div 100 mod 10)]
      else if k mod 10 = 0 then [digit_char (k div 100 mod 10), digit_char (k div 10 mod 10)]
      else [digit_char (k div 100 mod 10), digit_char (k div 10 mod 10), digit_char (k mod 10)])"

text \<open>\<open>f'{x:.nf}'\<close>.\<close>

fun last_digits :: "nat \<Rightarrow> nat \<Rightarrow> string" where
  "last_digits 0 k = []"
| "last_digits (Suc n) k = last_digits n (k div 10) @ [digit_char (k mod 10)]"

definition fixed_text :: "nat \<Rightarrow> pyfloat \<Rightarrow> string" where
  "fixed_text n x =
     (case x of
        Finite q \<Rightarrow>
          (let k = nat (round_even (abs q * 10 ^ n))
           in (if q < 0 then ''-'' else []) @ str_nat (k div 10 ^ n) @ ''.'' @ last_digits n k)
      | PosInf \<Rightarrow> ''inf'' | NegInf \<Rightarrow> ''-inf'' | NaN \<Rightarrow> ''nan'')"

subsection \<open>Lemmas\<close>

lemma round_even_close: "of_int (round_even q) \<le> q + 1 / 2" "q - 1 / 2 \<le> of_int (round_even q)"
proof -
  define r where "r = q - of_int \<lfloor>q\<rfloor>"
  have f: "0 \<le> r" "r < 1" "q = of_int \<lfloor>q\<rfloor> + r" unfolding r_def by linarith+
  have "of_int (round_even q) = of_int \<lfloor>q\<rfloor> + (if r < 1 / 2 \<or> r = 1 / 2 \<and> even \<lfloor>q\<rfloor> then 0 else 1 :: rat)"
    by (simp add: round_even_def Let_def r_def)
  then have "of_int (round_even q) \<le> of_int \<lfloor>q\<rfloor> + r + 1 / 2 \<and> of_int \<lfloor>q\<rfloor> + r - 1 / 2 \<le> of_int (round_even q)"
    using f(1,2) by (cases "r < 1 / 2"; cases "r = 1 / 2"; cases "even \<lfloor>q\<rfloor>"; simp)
  then show "of_int (round_even q) \<le> q + 1 / 2" "q - 1 / 2 \<le> of_int (round_even q)"
    using f(3) by linarith+
qed

lemma round_even_int [simp]: "round_even (of_int i) = i"
  by (simp add: round_even_def)

lemma round_even_ge: "of_int i \<le> q \<Longrightarrow> i \<le> round_even q"
  using le_floor_iff[of i q] by (auto simp: round_even_def Let_def)

lemma round_even_le: "q \<le> of_int i \<Longrightarrow> round_even q \<le> i"
proof -
  assume q: "q \<le> of_int i"
  show ?thesis
  proof (cases "q = of_int i")
    case False
    then have "\<lfloor>q\<rfloor> < i" using q by (simp add: floor_less_iff)
    then show ?thesis by (auto simp: round_even_def Let_def)
  qed simp
qed

lemma bitlen_powi:
  assumes "0 < x"
  shows "2 powi (bitlen x - 1) \<le> (of_int x :: rat)" "(of_int x :: rat) < 2 powi (bitlen x)"
proof -
  have pos: "0 < bitlen x" using assms bitlen_bounds[of x] by (cases "bitlen x \<le> 0") auto
  have b: "2 ^ nat (bitlen x - 1) \<le> x" "x < 2 ^ nat (bitlen x)" using bitlen_bounds[OF assms] by auto
  have p: "(2 powi k :: rat) = of_int (2 ^ nat k)" if "0 \<le> k" for k using that by (simp add: power_int_def)
  show "2 powi (bitlen x - 1) \<le> (of_int x :: rat)"
    using pos b(1) by (subst p) (simp, simp only: of_int_le_iff)
  show "(of_int x :: rat) < 2 powi (bitlen x)"
    using pos b(2) by (subst p) (simp, simp only: of_int_less_iff)
qed

text \<open>A positive double of normal size has 53 significant bits.\<close>

lemma double_shift_bounds:
  assumes "0 < q" "double_shift q < 1074"
  shows "2 ^ 52 \<le> q * 2 powi (double_shift q)"
proof -
  obtain a b where ab: "quotient_of q = (a, b)" by (cases "quotient_of q")
  have b: "0 < b" by (rule quotient_of_denom_pos[OF ab])
  have q: "q = of_int a / of_int b" by (rule quotient_of_div[OF ab])
  have a: "0 < a" using assms(1) b unfolding q by (simp add: zero_less_divide_iff)
  let ?k = "53 - (bitlen a - bitlen b)"
  have "2 powi (bitlen a - 1) * 2 powi (- bitlen b) \<le> q"
  proof -
    have "(2 :: rat) powi (bitlen a - 1) * of_int b \<le> 2 powi (bitlen a - 1) * 2 powi (bitlen b)"
      using bitlen_powi(2)[OF b] by (intro mult_left_mono) simp_all
    also have "\<dots> \<le> of_int a * 2 powi (bitlen b)"
      using bitlen_powi(1)[OF a] by (intro mult_right_mono) simp_all
    finally show ?thesis using b unfolding q power_int_minus by (simp add: field_simps)
  qed
  then have "2 powi (bitlen a - 1) * 2 powi (- bitlen b) * 2 powi ?k \<le> q * 2 powi ?k"
    by (rule mult_right_mono) simp
  moreover have "2 powi (bitlen a - 1) * 2 powi (- bitlen b) * 2 powi ?k = (2 powi 52 :: rat)"
    by (simp flip: power_int_add)
  moreover have "(2 powi 52 :: rat) = 2 ^ 52" by (simp add: power_int_def)
  ultimately have low: "2 ^ 52 \<le> q * 2 powi ?k" by metis
  show ?thesis
  proof (cases "q * 2 powi ?k < 2 ^ 53")
    case True
    then have "double_shift q = ?k" using assms(2) by (auto simp: double_shift_def ab Let_def min_def split: if_splits)
    then show ?thesis using low by simp
  next
    case False
    then have "double_shift q = ?k - 1" using assms(2) by (auto simp: double_shift_def ab Let_def min_def split: if_splits)
    moreover have "(2 powi ?k :: rat) = 2 powi (?k - 1) * 2"
      using power_int_add[of "2 :: rat" "?k - 1" 1] unfolding diff_add_cancel by simp
    ultimately show ?thesis using False by simp
  qed
qed

lemma abs_quotient_le:
  fixes r q p c :: rat
  assumes "0 < p" "\<bar>r - q * p\<bar> \<le> q * p / c"
  shows "\<bar>r / p - q\<bar> \<le> q / c"
proof -
  have "\<bar>r / p - q\<bar> = \<bar>r - q * p\<bar> / p" using assms(1) by (simp add: diff_divide_distrib abs_div_pos)
  also have "\<dots> \<le> q * p / c / p" by (rule divide_right_mono[OF assms(2)]) (use assms(1) in simp)
  finally show ?thesis using assms(1) by simp
qed

lemma nearest_close:
  assumes "0 < q" "double_shift q < 1074"
  shows "\<bar>nearest q - q\<bar> \<le> q / 2 ^ 53"
proof -
  let ?p = "2 powi (double_shift q) :: rat" and ?r = "of_int (round_even (q * 2 powi (double_shift q))) :: rat"
  have "\<bar>?r - q * ?p\<bar> \<le> 1 / 2" using round_even_close[of "q * ?p"] by (intro abs_leI) simp_all
  also have "\<dots> \<le> q * ?p / 2 ^ 53" using double_shift_bounds[OF assms] by simp
  finally show ?thesis unfolding nearest_def Let_def by (intro abs_quotient_le) simp_all
qed

lemma double_shift_le:
  assumes "1 / 2 ^ n \<le> q"
  shows "double_shift q \<le> 53 + int n"
proof -
  obtain a b where ab: "quotient_of q = (a, b)" by (cases "quotient_of q")
  have b: "0 < b" by (rule quotient_of_denom_pos[OF ab])
  have q: "q = of_int a / of_int b" by (rule quotient_of_div[OF ab])
  have "0 < q" using assms by (rule order.strict_trans2[rotated]) simp
  then have a: "0 < a" using b unfolding q by (simp add: zero_less_divide_iff)
  have "(of_int b :: rat) \<le> of_int (a * 2 ^ n)" using assms b unfolding q by (simp add: field_simps)
  then have "b \<le> a * 2 ^ n" by (simp only: of_int_le_iff)
  also have "\<dots> < 2 ^ nat (bitlen a) * 2 ^ n" using bitlen_bounds[OF a] by (intro mult_strict_right_mono) simp_all
  also have "\<dots> = 2 ^ (nat (bitlen a) + n)" by (simp add: power_add)
  finally have "bitlen b \<le> int (nat (bitlen a) + n)" using b by (simp add: bitlen_le_iff_power flip: of_nat_add)
  moreover have "0 \<le> bitlen a" by (rule bitlen_nonneg)
  ultimately have "bitlen b \<le> bitlen a + int n" by simp
  then show ?thesis by (simp add: double_shift_def ab Let_def min_le_iff_disj)
qed

text \<open>Rounding a number that is not tiny is exact to 53 bits.\<close>

lemma fl_close:
  assumes "1 / 2 ^ n \<le> q" "n < 1021"
  shows "\<bar>fl q - q\<bar> \<le> q / 2 ^ 53"
proof -
  have q: "0 < q" using assms(1) by (rule order.strict_trans2[rotated]) simp
  have "double_shift q < 1074" using double_shift_le[OF assms(1)] assms(2) by simp
  from nearest_close[OF q this] show ?thesis using q by (simp add: fl_def)
qed

lemma fl_bounds:
  assumes "1 / 2 ^ n \<le> q" "n < 1021" "q \<le> 1"
  shows "q - 1 / 2 ^ 53 \<le> fl q" "fl q \<le> q + 1 / 2 ^ 53"
proof -
  have "q / 2 ^ 53 \<le> 1 / 2 ^ 53" using assms(3) by (rule divide_right_mono) simp
  with fl_close[OF assms(1,2)] have "\<bar>fl q - q\<bar> \<le> 1 / 2 ^ 53" by (rule order_trans)
  then show "q - 1 / 2 ^ 53 \<le> fl q" "fl q \<le> q + 1 / 2 ^ 53" unfolding abs_le_iff by linarith+
qed

lemma fl_zero [simp]: "fl 0 = 0"
  by (simp add: fl_def)

lemma fl_one [simp]: "fl 1 = 1"
  by code_simp

subsection \<open>Scores\<close>

text \<open>A score that is at least a given number.\<close>

definition at_least :: "rat \<Rightarrow> pyfloat \<Rightarrow> bool" where
  "at_least c x \<longleftrightarrow> (case x of Finite q \<Rightarrow> c \<le> q | PosInf \<Rightarrow> True | _ \<Rightarrow> False)"

lemma at_least_Finite [simp]: "at_least c (Finite q) \<longleftrightarrow> c \<le> q"
  by (simp add: at_least_def)

lemma at_least_max: "at_least c x \<Longrightarrow> at_least c (f_max x y)"
  by (cases x; cases y) (auto simp: at_least_def f_max_def)

lemma at_least_max_right: "at_least 0 x \<Longrightarrow> at_least c y \<Longrightarrow> at_least c (f_max x y)"
  by (cases x; cases y) (auto simp: at_least_def f_max_def)

lemma at_least_mono: "at_least c x \<Longrightarrow> d \<le> c \<Longrightarrow> at_least d x"
  by (cases x) (auto simp: at_least_def)

text \<open>The lesser of one and a score is a number.\<close>

lemma min_one: "at_least c x \<Longrightarrow> c \<le> 1 \<Longrightarrow> \<exists>q. f_min (Finite 1) x = Finite q \<and> c \<le> q \<and> q \<le> 1"
  by (cases x) (auto simp: at_least_def f_min_def)

subsection \<open>Scores survive their text\<close>

lemma parse_digits_snoc:
  assumes "parse_digits 10 s = Some n" "d < 10"
  shows "parse_digits 10 (s @ [digit_char d]) = Some (n * 10 + d)"
  using assms by (auto simp: parse_digits_def digits_val_snoc digit_val_char split: if_splits)

lemma lower_digit: "is_digit c \<Longrightarrow> lower_char c = c"
  by (auto simp: is_digit_def lower_char_def Let_def)

lemma read_decimal:
  assumes w: "w \<noteq> []" "list_all is_digit w" and f: "f \<noteq> []" "list_all is_digit f" and n: "parse_digits 10 (w @ f) = Some n"
  shows "float_of_text (w @ CHR ''.'' # f) = Inr (to_double (of_nat n / 10 ^ length f))"
proof -
  let ?s = "w @ CHR ''.'' # f"
  have ends: "\<not> is_space (hd ?s)" "\<not> is_space (last ?s)"
    using w f is_digit_not_special by (auto simp: list_all_iff)
  have strip: "strip_space ?s = ?s" by (rule strip_space_id[OF _ ends]) simp
  have sign: "split_sign ?s = (False, ?s)"
    using w is_digit_not_special by (cases w) auto
  have low: "map lower_char ?s = ?s" using w(2) f(2) by (auto simp: list_all_iff lower_digit map_idI) (simp add: lower_char_def)
  have digits: "\<And>c. is_digit c \<Longrightarrow> c \<noteq> CHR ''e'' \<and> c \<noteq> CHR ''.'' \<and> c \<noteq> CHR ''n'' \<and> c \<noteq> CHR ''i''"
    by (auto simp: is_digit_def)
  have mant: "takeWhile (\<lambda>c. c \<noteq> CHR ''e'') ?s = ?s"
    using w(2) f(2) digits by (auto simp: takeWhile_eq_all_conv list_all_iff)
  have whole: "takeWhile (\<lambda>c. c \<noteq> CHR ''.'') ?s = w"
    using w(2) digits by (subst takeWhile_append2) (auto simp: list_all_iff)
  have dec: "decimal_of ?s = Some (of_nat n / 10 ^ length f)"
    using w f n by (simp add: decimal_of_def mant whole optional_digits_def plain_digits_id decimal_value_def)
  have "?s \<noteq> ''nan'' \<and> ?s \<noteq> ''inf'' \<and> ?s \<noteq> ''infinity''" using w digits by (cases w) (auto simp: is_digit_def)
  then show ?thesis using dec unfolding float_of_text_def strip sign prod.case Let_def low by simp
qed

lemma fl_unit:
  assumes "k \<le> 1000"
  shows "0 \<le> fl (of_nat k / 1000)" "fl (of_nat k / 1000) \<le> 1"
proof -
  consider "k = 0" | "k = 1000" | "1 \<le> k" "k \<le> 999" using assms by linarith
  then have "0 \<le> fl (of_nat k / 1000) \<and> fl (of_nat k / 1000) \<le> 1"
  proof cases
    case 3
    then have q: "1 / 1000 \<le> (of_nat k / 1000 :: rat)" "(of_nat k / 1000 :: rat) \<le> 999 / 1000" by simp_all
    then have "1 / 2 ^ 10 \<le> (of_nat k / 1000 :: rat)" "(of_nat k / 1000 :: rat) \<le> 1" by simp_all
    from fl_bounds[OF this(1) _ this(2)] q show ?thesis by simp
  qed simp_all
  then show "0 \<le> fl (of_nat k / 1000)" "fl (of_nat k / 1000) \<le> 1" by simp_all
qed

lemma three_digits:
  fixes k :: nat
  shows "k = ((k div 1000 * 10 + k div 100 mod 10) * 10 + k div 10 mod 10) * 10 + k mod 10"
    "k mod 100 = 0 \<longleftrightarrow> k div 10 mod 10 = 0 \<and> k mod 10 = 0"
proof -
  have d: "k div 100 = k div 10 div 10" "k div 1000 = k div 10 div 10 div 10" by (simp_all flip: div_mult2_eq)
  have s: "n div 10 * 10 + n mod 10 = n" for n :: nat by (rule div_mult_mod_eq)
  show "k = ((k div 1000 * 10 + k div 100 mod 10) * 10 + k div 10 mod 10) * 10 + k mod 10" unfolding d s ..
  have "k mod (10 * 10) = 10 * (k div 10 mod 10) + k mod 10" by (rule mod_mult2_eq)
  then show "k mod 100 = 0 \<longleftrightarrow> k div 10 mod 10 = 0 \<and> k mod 10 = 0" by simp
qed

lemma to_double_unit:
  assumes "0 \<le> fl q" "fl q \<le> 1"
  shows "to_double q = Finite (fl q)"
proof -
  have big: "(1 :: rat) < 2 ^ 1024" by (rule one_less_power) simp_all
  have "\<not> fl q \<ge> 2 ^ 1024" unfolding not_le by (rule order.strict_trans1[OF assms(2) big])
  moreover have "\<not> fl q \<le> - (2 ^ 1024)" unfolding not_le
    by (rule order.strict_trans2[OF _ assms(1)]) (use big in \<open>simp only: neg_less_0_iff_less zero_less_power zero_less_numeral\<close>)
  ultimately show ?thesis unfolding to_double_def Let_def by (simp only: if_False)
qed

lemma milli_repr_digits:
  assumes "b < 10" "c < 10" "d < 10"
  shows "milli_repr (((a * 10 + b) * 10 + c) * 10 + d) = str_nat a @ CHR ''.'' #
    (if c = 0 \<and> d = 0 then [digit_char b] else if d = 0 then [digit_char b, digit_char c] else [digit_char b, digit_char c, digit_char d])"
proof -
  define k where "k = ((a * 10 + b) * 10 + c) * 10 + d"
  have ten: "(x * 10 + y) div 10 = x" "(x * 10 + y) mod 10 = y" if "y < 10" for x y :: nat using that by simp_all
  have 1: "k div 10 = (a * 10 + b) * 10 + c" "k mod 10 = d" unfolding k_def by (rule ten[OF assms(3)])+
  have "k div 100 = k div 10 div 10" "k div 1000 = k div 10 div 10 div 10" by (simp_all flip: div_mult2_eq)
  then have 2: "k div 100 = a * 10 + b" "k div 1000 = a" unfolding 1 by (simp_all only: ten assms)
  have 3: "k mod 100 = 0 \<longleftrightarrow> c = 0 \<and> d = 0" using three_digits(2)[of k] unfolding 1 ten(2)[OF assms(2)] .
  show ?thesis unfolding k_def[symmetric] milli_repr_def 3 1 2 ten(2)[OF assms(1)] ten(2)[OF assms(2)] by simp
qed

text \<open>Reading the text of a score gives the double that is nearest to its thousandths.\<close>

lemma read_milli_repr:
  assumes "k \<le> 1000"
  shows "float_of_text (milli_repr k) = Inr (Finite (fl (of_nat k / 1000)))"
proof -
  have fin: "to_double (of_nat k / 1000) = Finite (fl (of_nat k / 1000))"
    by (rule to_double_unit[OF fl_unit[OF assms]])
  obtain a b c d where k: "k = ((a * 10 + b) * 10 + c) * 10 + d" and less: "b < 10" "c < 10" "d < 10"
    using three_digits(1)[of k] that[of "k div 100 mod 10" "k div 10 mod 10" "k mod 10" "k div 1000"] by simp
  have digit: "list_all is_digit [digit_char b]" "list_all is_digit [digit_char b, digit_char c]"
    "list_all is_digit [digit_char b, digit_char c, digit_char d]"
    using less by (simp_all add: digit_char_is_digit)
  note shown = milli_repr_digits[OF less, of a, folded k]
  note one = parse_digits_snoc[OF parse_str_nat[of a] less(1)]
  note two = parse_digits_snoc[OF one less(2)] note three = parse_digits_snoc[OF two less(3)]
  note read = read_decimal[OF str_nat_not_Nil str_nat_all_digits]
  consider "c = 0" "d = 0" | "c \<noteq> 0" "d = 0" | "d \<noteq> 0" by blast
  then show ?thesis
  proof cases
    case 1
    have e: "(of_nat (a * 10 + b) / 10 ^ length [digit_char b] :: rat) = of_nat k / 1000" unfolding k 1 by simp
    then show ?thesis using read[OF _ digit(1) one, unfolded e] fin unfolding shown 1 by simp
  next
    case 2
    have e: "(of_nat ((a * 10 + b) * 10 + c) / 10 ^ length [digit_char b, digit_char c] :: rat) = of_nat k / 1000"
      unfolding k 2 by simp
    then show ?thesis using read[OF _ digit(2), of a "(a * 10 + b) * 10 + c", unfolded e] two fin 2 unfolding shown by simp
  next
    case 3
    have e: "(of_nat (((a * 10 + b) * 10 + c) * 10 + d) / 10 ^ length [digit_char b, digit_char c, digit_char d] :: rat) = of_nat k / 1000"
      unfolding k by simp
    then show ?thesis using read[OF _ digit(3), of a "((a * 10 + b) * 10 + c) * 10 + d", unfolded e] three fin 3 unfolding shown by simp
  qed
qed

end
