(* ===== verification/Permissions.thy ===== *)
theory Permissions
  imports Dynamic_Values
begin

text \<open>
  Tool permissions of the interactive agent (\<open>paa.coder.permissions\<close>): glob patterns, rules and how a
  policy decides on a call.

  Globs are those of \<open>fnmatch\<close> where names are not case-folded. An argument pattern is either the translation
  of a glob that \<open>PermissionRule.parse\<close> makes, or any other regular expression, given by what it finds; one
  that does not compile finds nothing.
\<close>

subsection \<open>Glob patterns\<close>

datatype glob_token = GStar | GAny | GChar char | GSet bool "(char \<times> char) list"

text \<open>The text between brackets, if the bracket is closed, and what follows.\<close>

definition bracket :: "string \<Rightarrow> (string \<times> string) option" where
  "bracket s =
     (let lead = (if take 1 s = ''!'' then 1 else 0);
          open_at = (if take 1 (drop lead s) = '']'' then lead + 1 else lead);
          body = takeWhile (\<lambda>c. c \<noteq> CHR '']'') (drop open_at s)
      in if open_at + length body < length s then Some (take (open_at + length body) s, drop (open_at + length body + 1) s)
         else None)"

text \<open>Single characters and ranges; a range in the wrong order is empty.\<close>

fun set_items :: "string \<Rightarrow> (char \<times> char) list" where
  "set_items (a # b # c # s) =
     (if b = CHR ''-'' then (if (of_char a :: nat) \<le> of_char c then (a, c) # set_items s else set_items s)
      else (a, a) # set_items (b # c # s))"
| "set_items [a, b] = [(a, a), (b, b)]"
| "set_items [a] = [(a, a)]"
| "set_items [] = []"

definition glob_set :: "string \<Rightarrow> glob_token" where
  "glob_set stuff = (if take 1 stuff = ''!'' then GSet True (set_items (drop 1 stuff)) else GSet False (set_items stuff))"

lemma bracket_shorter: "bracket s = Some (stuff, r) \<Longrightarrow> length r < length s"
  by (auto simp: bracket_def Let_def split: if_splits)

function glob_tokens :: "string \<Rightarrow> glob_token list" where
  "glob_tokens [] = []"
| "glob_tokens (c # s) =
     (if c = CHR ''*'' then GStar # glob_tokens s
      else if c = CHR ''?'' then GAny # glob_tokens s
      else if c = CHR ''['' then
        (case bracket s of
           None \<Rightarrow> GChar c # glob_tokens s
         | Some (stuff, r) \<Rightarrow> glob_set stuff # glob_tokens r)
      else GChar c # glob_tokens s)"
  by pat_completeness auto
termination
  by (relation "measure length") (auto dest: bracket_shorter)

fun token_accepts :: "glob_token \<Rightarrow> char \<Rightarrow> bool" where
  "token_accepts (GChar d) c = (c = d)"
| "token_accepts (GSet neg rs) c =
     (list_ex (\<lambda>(a, b). (of_char a :: nat) \<le> of_char c \<and> (of_char c :: nat) \<le> of_char b) rs \<noteq> neg)"
| "token_accepts _ c = True"

fun glob_match :: "glob_token list \<Rightarrow> string \<Rightarrow> bool" where
  "glob_match [] s = (s = [])"
| "glob_match (GStar # ts) [] = glob_match ts []"
| "glob_match (GStar # ts) (c # s) = (glob_match ts (c # s) \<or> glob_match (GStar # ts) s)"
| "glob_match (t # ts) [] = False"
| "glob_match (t # ts) (c # s) = (token_accepts t c \<and> glob_match ts s)"

definition fnmatch :: "string \<Rightarrow> string \<Rightarrow> bool" where
  "fnmatch s pat = glob_match (glob_tokens pat) s"

subsection \<open>Modes, outcomes and rules\<close>

datatype ToolPermissionMode = ModeAsk | ModeAcceptEdits | ModePlan | ModeBypass

fun tool_mode_value :: "ToolPermissionMode \<Rightarrow> string" where
  "tool_mode_value ModeAsk = ''ask''"
| "tool_mode_value ModeAcceptEdits = ''accept_edits''"
| "tool_mode_value ModePlan = ''plan''"
| "tool_mode_value ModeBypass = ''bypass''"

datatype PermissionOutcome = Allow | Deny | AskUser

record PermissionDecision =
  dec_outcome :: PermissionOutcome
  dec_reason :: string
  dec_rule :: "string option"

definition decision :: "PermissionOutcome \<Rightarrow> string \<Rightarrow> string option \<Rightarrow> PermissionDecision" where
  "decision out why r = \<lparr>dec_outcome = out, dec_reason = why, dec_rule = r\<rparr>"

text \<open>
  \<open>re.escape(glob)\<close> with the escaped stars and question marks replaced by \<open>.*\<close> and \<open>.\<close>: a character of the
  glob becomes itself, any run of characters of one line, or any character but a line feed.
\<close>

datatype arg_token = ArgRun | ArgAny | ArgChar char

definition arg_tokens :: "string \<Rightarrow> arg_token list" where
  "arg_tokens s = map (\<lambda>c. if c = CHR ''*'' then ArgRun else if c = CHR ''?'' then ArgAny else ArgChar c) s"

fun arg_prefix :: "arg_token list \<Rightarrow> string \<Rightarrow> bool" where
  "arg_prefix [] s = True"
| "arg_prefix (ArgRun # ts) [] = arg_prefix ts []"
| "arg_prefix (ArgRun # ts) (c # s) = (arg_prefix ts (c # s) \<or> c \<noteq> CHR 0x0A \<and> arg_prefix (ArgRun # ts) s)"
| "arg_prefix (ArgAny # ts) [] = False"
| "arg_prefix (ArgAny # ts) (c # s) = (c \<noteq> CHR 0x0A \<and> arg_prefix ts s)"
| "arg_prefix (ArgChar d # ts) [] = False"
| "arg_prefix (ArgChar d # ts) (c # s) = (c = d \<and> arg_prefix ts s)"

text \<open>\<open>re.search\<close>: the pattern matches at some position of the text.\<close>

fun arg_search :: "arg_token list \<Rightarrow> string \<Rightarrow> bool" where
  "arg_search ts [] = arg_prefix ts []"
| "arg_search ts (c # s) = (arg_prefix ts (c # s) \<or> arg_search ts s)"

datatype argument_pattern = GlobPattern "arg_token list" | RegexPattern "string \<Rightarrow> bool"

fun pattern_finds :: "argument_pattern \<Rightarrow> string \<Rightarrow> bool" where
  "pattern_finds (GlobPattern ts) s = arg_search ts s"
| "pattern_finds (RegexPattern f) s = f s"

record PermissionRule =
  r_outcome :: PermissionOutcome
  r_tool :: string
  r_argument_pattern :: "argument_pattern option"

definition rule_matches :: "PermissionRule \<Rightarrow> string \<Rightarrow> string \<Rightarrow> bool" where
  "rule_matches r tool_name rendered \<longleftrightarrow>
     fnmatch tool_name (r_tool r) \<and>
     (case r_argument_pattern r of None \<Rightarrow> True | Some p \<Rightarrow> pattern_finds p rendered)"

definition parse_rule :: "string \<Rightarrow> PermissionOutcome \<Rightarrow> PermissionRule" where
  "parse_rule raw out =
     (let spec = strip_space raw
      in if CHR ''('' \<in> set spec \<and> spec \<noteq> [] \<and> last spec = CHR '')''
         then let tool = takeWhile (\<lambda>c. c \<noteq> CHR ''('') spec; rest = drop (length tool + 1) spec
              in \<lparr>r_outcome = out, r_tool = strip_space tool, r_argument_pattern = Some (GlobPattern (arg_tokens (butlast rest)))\<rparr>
         else \<lparr>r_outcome = out, r_tool = spec, r_argument_pattern = None\<rparr>)"

subsection \<open>The policy\<close>

definition mutating_tools :: "string list" where
  "mutating_tools = [''write*'', ''edit*'', ''bash*'', ''shell*'', ''apply_patch*'', ''*delete*'', ''*write*'', ''send_*'', ''*_commit*'']"

definition default_edit_tools :: "string list" where
  "default_edit_tools = [''write_file'', ''edit_file'', ''apply_patch'']"

record ToolPermissionPolicy =
  pol_mode :: ToolPermissionMode
  pol_edit_tools :: "string list"
  pol_mutating_tools :: "string list"
  pol_rules :: "PermissionRule list"

definition new_policy ::
  "ToolPermissionMode \<Rightarrow> string list \<Rightarrow> string list \<Rightarrow> string list \<Rightarrow> string list \<Rightarrow> string list option \<Rightarrow> ToolPermissionPolicy" where
  "new_policy mode allow deny ask edit_tools mutating =
     \<lparr>pol_mode = mode, pol_edit_tools = edit_tools,
      pol_mutating_tools = (case mutating of None \<Rightarrow> mutating_tools | Some [] \<Rightarrow> mutating_tools | Some ms \<Rightarrow> ms),
      pol_rules = map (\<lambda>s. parse_rule s Deny) deny @ map (\<lambda>s. parse_rule s Allow) allow @ map (\<lambda>s. parse_rule s AskUser) ask\<rparr>"

definition add_rule :: "PermissionRule \<Rightarrow> ToolPermissionPolicy \<Rightarrow> ToolPermissionPolicy" where
  "add_rule r pol = pol\<lparr>pol_rules := pol_rules pol @ [r]\<rparr>"

text \<open>\<open>' '.join\<close> of the flattened values.\<close>

fun join_blank :: "string list \<Rightarrow> string" where
  "join_blank [] = []"
| "join_blank [s] = s"
| "join_blank (s # ss) = s @ '' '' @ join_blank ss"

fun flat :: "pyval \<Rightarrow> string" where
  "flat (PScalar x) = scalar_str x"
| "flat (PList vs) = join_blank (map flat vs)"
| "flat (PDict ms) = join_blank (map (\<lambda>(k, v). flat v) ms)"
| "flat (PSet _ s) = s"
| "flat (PModel _ s) = s"
| "flat (POther s) = s"

definition render_args :: "(string \<times> pyval) list \<Rightarrow> string" where
  "render_args args = join_blank (map (\<lambda>(k, v). flat v) args)"

definition is_mutating :: "ToolPermissionPolicy \<Rightarrow> string \<Rightarrow> bool" where
  "is_mutating pol tool_name = list_ex (fnmatch tool_name) (pol_mutating_tools pol)"

definition mode_default :: "ToolPermissionPolicy \<Rightarrow> string \<Rightarrow> PermissionDecision" where
  "mode_default pol tool_name =
     (if pol_mode pol = ModeBypass then decision Allow ''bypass mode'' None
      else if pol_mode pol = ModeAcceptEdits \<and> tool_name \<in> set (pol_edit_tools pol)
        then decision Allow ''accept-edits mode auto-allows edits'' None
      else if pol_mode pol = ModePlan then decision Allow ''plan mode allows read-only tools'' None
      else decision AskUser (tool_mode_value (pol_mode pol) @ '' mode asks by default'') None)"

definition first_rule :: "ToolPermissionPolicy \<Rightarrow> PermissionOutcome \<Rightarrow> string \<Rightarrow> string \<Rightarrow> PermissionRule option" where
  "first_rule pol out tool_name rendered = find (\<lambda>r. r_outcome r = out \<and> rule_matches r tool_name rendered) (pol_rules pol)"

definition evaluate :: "ToolPermissionPolicy \<Rightarrow> string \<Rightarrow> (string \<times> pyval) list \<Rightarrow> PermissionDecision" where
  "evaluate pol tool_name arguments =
     (let rendered = render_args arguments
      in case first_rule pol Deny tool_name rendered of
           Some r \<Rightarrow> decision Deny (''denied by rule: '' @ r_tool r) (Some (r_tool r))
         | None \<Rightarrow>
      if pol_mode pol = ModePlan \<and> is_mutating pol tool_name
      then decision Deny ''plan mode forbids mutating tools'' (Some ''plan_mode'')
      else case first_rule pol Allow tool_name rendered of
           Some r \<Rightarrow> decision Allow (''allowed by rule: '' @ r_tool r) (Some (r_tool r))
         | None \<Rightarrow>
      case first_rule pol AskUser tool_name rendered of
           Some r \<Rightarrow> decision AskUser (''rule requests confirmation: '' @ r_tool r) (Some (r_tool r))
         | None \<Rightarrow> mode_default pol tool_name)"

end
