(* ===== verification/Core_Types.thy ===== *)
theory Core_Types
  imports Prelude Complex_Main
begin

text \<open>
  The vocabulary of \<open>paa.core.types\<close>: the ledger's event types and which of them close a
  lineage, the permission model with its grant matrix, and the resource envelope of each
  complexity modality (planner node bound and token quota per delegation depth).

  The matrices of the source are written out in full here too. The two functions on a modality
  profile raise on a negative depth, which is the \<open>ValueError\<close> branch of the model. Fractions of
  a core and of a second are rationals.
\<close>

subsection \<open>Ledger event vocabulary\<close>

datatype EventType =
    TASK_REQUESTED | TASK_QUEUED
  | CONTEXT_HYDRATION_REQUESTED | CONTEXT_HYDRATED | PLAN_COMPILED
  | POLICY_CLEARED | POLICY_BLOCKED | SECURITY_VIOLATION
  | EXECUTION_STARTED | EXECUTION_COMPLETED | EXECUTION_FAILED
  | AWAITING_HUMAN_ATTESTATION | HUMAN_GATE_CLEARED | HUMAN_GATE_REJECTED
  | CRITIQUE_CONCLUDED | VALIDATION_FAILED | MUTATION_COMMITTED
  | STATE_ROLLBACK_TRIGGERED | RECOVERY_REPLAY_COMPLETED
  | USER_CORRECTION | MODEL_ESCALATED
  | TASK_ABANDONED

fun event_value :: "EventType \<Rightarrow> string" where
  "event_value TASK_REQUESTED = ''TASK_REQUESTED''"
| "event_value TASK_QUEUED = ''TASK_QUEUED''"
| "event_value CONTEXT_HYDRATION_REQUESTED = ''CONTEXT_HYDRATION_REQUESTED''"
| "event_value CONTEXT_HYDRATED = ''CONTEXT_HYDRATED''"
| "event_value PLAN_COMPILED = ''PLAN_COMPILED''"
| "event_value POLICY_CLEARED = ''POLICY_CLEARED''"
| "event_value POLICY_BLOCKED = ''POLICY_BLOCKED''"
| "event_value SECURITY_VIOLATION = ''SECURITY_VIOLATION''"
| "event_value EXECUTION_STARTED = ''EXECUTION_STARTED''"
| "event_value EXECUTION_COMPLETED = ''EXECUTION_COMPLETED''"
| "event_value EXECUTION_FAILED = ''EXECUTION_FAILED''"
| "event_value AWAITING_HUMAN_ATTESTATION = ''AWAITING_HUMAN_ATTESTATION''"
| "event_value HUMAN_GATE_CLEARED = ''HUMAN_GATE_CLEARED''"
| "event_value HUMAN_GATE_REJECTED = ''HUMAN_GATE_REJECTED''"
| "event_value CRITIQUE_CONCLUDED = ''CRITIQUE_CONCLUDED''"
| "event_value VALIDATION_FAILED = ''VALIDATION_FAILED''"
| "event_value MUTATION_COMMITTED = ''MUTATION_COMMITTED''"
| "event_value STATE_ROLLBACK_TRIGGERED = ''STATE_ROLLBACK_TRIGGERED''"
| "event_value RECOVERY_REPLAY_COMPLETED = ''RECOVERY_REPLAY_COMPLETED''"
| "event_value USER_CORRECTION = ''USER_CORRECTION''"
| "event_value MODEL_ESCALATED = ''MODEL_ESCALATED''"
| "event_value TASK_ABANDONED = ''TASK_ABANDONED''"

text \<open>\<open>EventType(text)\<close>: the member with that value, or a \<open>ValueError\<close>.\<close>

definition all_events :: "EventType list" where
  "all_events =
     [TASK_REQUESTED, TASK_QUEUED, CONTEXT_HYDRATION_REQUESTED, CONTEXT_HYDRATED, PLAN_COMPILED,
      POLICY_CLEARED, POLICY_BLOCKED, SECURITY_VIOLATION, EXECUTION_STARTED, EXECUTION_COMPLETED,
      EXECUTION_FAILED, AWAITING_HUMAN_ATTESTATION, HUMAN_GATE_CLEARED, HUMAN_GATE_REJECTED,
      CRITIQUE_CONCLUDED, VALIDATION_FAILED, MUTATION_COMMITTED, STATE_ROLLBACK_TRIGGERED,
      RECOVERY_REPLAY_COMPLETED, USER_CORRECTION, MODEL_ESCALATED, TASK_ABANDONED]"

definition event_of_value :: "string \<Rightarrow> EventType result" where
  "event_of_value s =
     (case find (\<lambda>t. event_value t = s) all_events of None \<Rightarrow> Inl ValueError | Some t \<Rightarrow> Inr t)"

text \<open>\<open>TERMINAL_EVENTS\<close>\<close>

definition terminal_events :: "EventType list" where
  "terminal_events =
     [MUTATION_COMMITTED, EXECUTION_FAILED, POLICY_BLOCKED, SECURITY_VIOLATION,
      HUMAN_GATE_REJECTED, TASK_ABANDONED]"

definition is_terminal_event :: "EventType \<Rightarrow> bool" where
  "is_terminal_event t \<longleftrightarrow> t \<in> set terminal_events"

subsection \<open>Permission model\<close>

datatype Permission =
    SANDBOX_RUN | WRITE_HOT | WRITE_COLD | NET_EGRESS | EXTERNAL_WRITE
  | FILE_DELETE | SCHEMA_MIGRATE | SECRET_READ | MODEL_ESCALATE | CROSS_SESSION_READ

datatype PermissionMode = AUTO | ASK | SUPERVISED | LOCKDOWN | SAFE | HIGH_RISK

definition all_perms :: "Permission list" where
  "all_perms =
     [SANDBOX_RUN, WRITE_HOT, WRITE_COLD, NET_EGRESS, EXTERNAL_WRITE,
      FILE_DELETE, SCHEMA_MIGRATE, SECRET_READ, MODEL_ESCALATE, CROSS_SESSION_READ]"

fun mode_grants :: "PermissionMode \<Rightarrow> Permission list" where
  "mode_grants AUTO = filter (\<lambda>p. p \<notin> {SCHEMA_MIGRATE}) all_perms"
| "mode_grants ASK = filter (\<lambda>p. p \<notin> {SCHEMA_MIGRATE}) all_perms"
| "mode_grants SUPERVISED = [SANDBOX_RUN, SECRET_READ, MODEL_ESCALATE, CROSS_SESSION_READ]"
| "mode_grants LOCKDOWN = [SANDBOX_RUN]"
| "mode_grants SAFE = filter (\<lambda>p. p \<notin> {FILE_DELETE, SCHEMA_MIGRATE, EXTERNAL_WRITE}) all_perms"
| "mode_grants HIGH_RISK = all_perms"

definition grants :: "PermissionMode \<Rightarrow> Permission \<Rightarrow> bool" where
  "grants m p \<longleftrightarrow> p \<in> set (mode_grants m)"

definition requires_human_gate_for_mutations :: "PermissionMode \<Rightarrow> bool" where
  "requires_human_gate_for_mutations m \<longleftrightarrow> m \<in> {SUPERVISED, ASK}"

subsection \<open>Complexity modalities\<close>

datatype ComplexityModality = SIMPLE | STANDARD | COMPLEX | MAX_MODALITY

fun modality_value :: "ComplexityModality \<Rightarrow> string" where
  "modality_value SIMPLE = ''SIMPLE''"
| "modality_value STANDARD = ''STANDARD''"
| "modality_value COMPLEX = ''COMPLEX''"
| "modality_value MAX_MODALITY = ''MAX''"

definition modality_of_value :: "string \<Rightarrow> ComplexityModality result" where
  "modality_of_value s =
     (case find (\<lambda>m. modality_value m = s) [SIMPLE, STANDARD, COMPLEX, MAX_MODALITY] of
        None \<Rightarrow> Inl ValueError | Some m \<Rightarrow> Inr m)"

record ModalityProfile =
  modality :: ComplexityModality
  graph_hops :: int
  recursion_ceiling :: int
  token_ceiling :: int
  memory_mb :: int
  cpu_cores :: rat
  timeout_seconds :: "rat option"
  branch_factor :: int

definition max_plan_nodes :: "ModalityProfile \<Rightarrow> int result" where
  "max_plan_nodes p =
     (let b = branch_factor p; d = recursion_ceiling p
      in if d < 0 then Inl ValueError
         else if b \<le> 1 then Inr (d + 1)
         else Inr ((b ^ nat (d + 1) - 1) div (b - 1)))"

text \<open>\<open>x >> depth\<close> is floor division by a power of two.\<close>

definition token_quota_at_depth :: "ModalityProfile \<Rightarrow> int \<Rightarrow> int result" where
  "token_quota_at_depth p depth =
     (if depth < 0 then Inl ValueError
      else if depth < 32 then Inr (token_ceiling p div 2 ^ nat depth)
      else Inr 0)"

fun modality_profile :: "ComplexityModality \<Rightarrow> ModalityProfile" where
  "modality_profile SIMPLE =
     \<lparr>modality = SIMPLE, graph_hops = 0, recursion_ceiling = 0, token_ceiling = 0,
      memory_mb = 64, cpu_cores = 1 / 10, timeout_seconds = Some 1, branch_factor = 1\<rparr>"
| "modality_profile STANDARD =
     \<lparr>modality = STANDARD, graph_hops = 1, recursion_ceiling = 1, token_ceiling = 2048,
      memory_mb = 256, cpu_cores = 1 / 4, timeout_seconds = Some 10, branch_factor = 2\<rparr>"
| "modality_profile COMPLEX =
     \<lparr>modality = COMPLEX, graph_hops = 2, recursion_ceiling = 2, token_ceiling = 4096,
      memory_mb = 512, cpu_cores = 1 / 2, timeout_seconds = Some 30, branch_factor = 2\<rparr>"
| "modality_profile MAX_MODALITY =
     \<lparr>modality = MAX_MODALITY, graph_hops = 3, recursion_ceiling = 4, token_ceiling = 16384,
      memory_mb = 1024, cpu_cores = 1, timeout_seconds = None, branch_factor = 2\<rparr>"

subsection \<open>Lemmas\<close>

lemma event_value_inj: "event_value s = event_value t \<Longrightarrow> s = t"
  by (cases s; cases t) simp_all

text \<open>Reading an enum value back gives the member.\<close>

lemma find_injective:
  assumes "x \<in> set xs" and "\<And>y. f y = f x \<Longrightarrow> y = x"
  shows "find (\<lambda>y. f y = f x) xs = Some x"
  using assms by (induction xs) auto

lemma all_events_complete: "t \<in> set all_events"
  by (cases t) (simp_all add: all_events_def)

lemma event_of_value_value [simp]: "event_of_value (event_value t) = Inr t"
  by (simp add: event_of_value_def find_injective[OF all_events_complete event_value_inj])

lemma modality_of_value_value [simp]: "modality_of_value (modality_value m) = Inr m"
  by (cases m) (simp_all add: modality_of_value_def)

lemma event_value_chars: "CHR ''|'' \<notin> set (event_value t)"
  by (cases t) simp_all

text \<open>
  The node bound is the number of nodes of the complete \<open>B\<close>-ary tree of depth \<open>D\<close>, counted
  level by level.
\<close>

definition tree_nodes :: "int \<Rightarrow> nat \<Rightarrow> int" where
  "tree_nodes b d = (\<Sum>i \<le> d. b ^ i)"

lemma tree_nodes_Suc: "tree_nodes b (Suc d) = 1 + b * tree_nodes b d"
  by (simp only: tree_nodes_def sum.atMost_Suc_shift) (simp add: sum_distrib_left)

lemma tree_nodes_closed: "(b - 1) * tree_nodes b d = b ^ (d + 1) - 1"
  by (induction d) (simp_all add: tree_nodes_def algebra_simps)

lemma tree_nodes_mono: "0 \<le> b \<Longrightarrow> d \<le> e \<Longrightarrow> tree_nodes b d \<le> tree_nodes b e"
  unfolding tree_nodes_def by (rule sum_mono2) auto

lemma max_plan_nodes_tree:
  assumes "0 \<le> recursion_ceiling p" "1 \<le> branch_factor p"
  shows "max_plan_nodes p = Inr (tree_nodes (branch_factor p) (nat (recursion_ceiling p)))"
proof (cases "branch_factor p = 1")
  case True
  with assms show ?thesis by (simp add: max_plan_nodes_def tree_nodes_def Let_def)
next
  case False
  let ?b = "branch_factor p" and ?d = "nat (recursion_ceiling p)"
  from assms have "nat (recursion_ceiling p + 1) = ?d + 1" by simp
  moreover have "(?b ^ (?d + 1) - 1) div (?b - 1) = tree_nodes ?b ?d"
    using False assms tree_nodes_closed[of ?b ?d] by (metis diff_0_eq_0 eq_iff_diff_eq_0 nonzero_mult_div_cancel_left)
  ultimately show ?thesis using assms False by (simp add: max_plan_nodes_def Let_def)
qed

lemma token_quota_Inr:
  "0 \<le> depth \<Longrightarrow> \<exists>q. token_quota_at_depth p depth = Inr q"
  by (simp add: token_quota_at_depth_def)

lemma token_quota_bounds:
  assumes "0 \<le> token_ceiling p" "token_quota_at_depth p depth = Inr q"
  shows "0 \<le> q \<and> q * 2 ^ nat depth \<le> token_ceiling p"
proof (cases "depth < 32")
  case True
  with assms have q: "q = token_ceiling p div 2 ^ nat depth"
    by (auto simp: token_quota_at_depth_def split: if_splits)
  have "q * 2 ^ nat depth = token_ceiling p - token_ceiling p mod 2 ^ nat depth"
    by (simp add: q minus_mod_eq_div_mult)
  moreover have "0 \<le> token_ceiling p mod 2 ^ nat depth" by simp
  ultimately have "q * 2 ^ nat depth \<le> token_ceiling p" by linarith
  with q assms show ?thesis by (simp add: pos_imp_zdiv_nonneg_iff)
next
  case False
  with assms show ?thesis by (auto simp: token_quota_at_depth_def split: if_splits)
qed

text \<open>Halving per level: two sub-agents one level down never exceed their parent's quota.\<close>

lemma token_quota_halves:
  assumes "0 \<le> token_ceiling p" "0 \<le> depth"
    and "token_quota_at_depth p depth = Inr q" "token_quota_at_depth p (depth + 1) = Inr q'"
  shows "q' = (if depth + 1 < 32 then q div 2 else 0) \<and> 2 * q' \<le> q"
proof -
  have "nat (depth + 1) = nat depth + 1" using assms(2) by simp
  then have "token_ceiling p div 2 ^ nat (depth + 1) = token_ceiling p div 2 ^ nat depth div 2"
    by (simp add: zdiv_zmult2_eq[symmetric] mult.commute)
  moreover have "0 \<le> q" using token_quota_bounds assms(1,3) by blast
  ultimately show ?thesis using assms
    by (auto simp: token_quota_at_depth_def split: if_splits)
qed

end
