(* ===== verification/Json_Canonicity.thy ===== *)
theory Json_Canonicity
  imports Canonical_Json
begin

text \<open>
  Facts about the canonical JSON text of \<open>paa.ledger.events.canonical_json\<close>: it determines the
  value it encodes (unique readability), it does not depend on the order of the members of an
  object, and for storable values it is unchanged by a trip through the payload column.
\<close>

subsection \<open>Strings\<close>

text \<open>A reader of one escaped character; the escapes are a prefix code because it inverts them.\<close>

definition unescape :: "string \<Rightarrow> (char \<times> string) option" where
  "unescape s =
     (case s of
        [] \<Rightarrow> None
      | b # r \<Rightarrow>
          if b \<noteq> CHR 0x5C then Some (b, r)
          else case r of
            [] \<Rightarrow> None
          | e # r' \<Rightarrow>
              if e = CHR ''b'' then Some (char_of (8::nat), r')
              else if e = CHR ''f'' then Some (char_of (12::nat), r')
              else if e = CHR ''n'' then Some (char_of (10::nat), r')
              else if e = CHR ''r'' then Some (char_of (13::nat), r')
              else if e = CHR ''t'' then Some (char_of (9::nat), r')
              else if e = CHR ''u'' then
                map_option (\<lambda>k. (char_of k, drop 4 r')) (parse_digits 16 (take 4 r'))
              else Some (e, r'))"

lemma unescape_escape: "unescape (json_escape_char c @ u) = Some (c, u)"
proof -
  have ofc: "of_char c = k \<Longrightarrow> char_of k = c" for k :: nat by (metis char_of_char)
  have "(of_char c :: nat) < 32 \<Longrightarrow> parse_digits 16 (pad 16 4 (of_char c)) = Some (of_char c)"
    by (simp add: parse_digits_pad)
  then show ?thesis
    by (simp add: json_escape_char_def unescape_def Let_def ofc)
qed

lemma escape_prefix_free:
  "json_escape_char c @ u = json_escape_char d @ v \<Longrightarrow> c = d \<and> u = v"
  by (metis unescape_escape option.inject prod.inject)

lemma escape_not_quote: "json_escape_char c @ u \<noteq> CHR 0x22 # v"
  by (simp add: json_escape_char_def Let_def)

lemma json_string_prefix_free:
  assumes "json_string s @ u = json_string t @ v"
  shows "s = t \<and> u = v"
proof -
  have "concat (map json_escape_char s) @ CHR 0x22 # u = concat (map json_escape_char t) @ CHR 0x22 # v
    \<Longrightarrow> s = t \<and> u = v"
  proof (induction s arbitrary: t)
    case Nil
    then show ?case by (cases t) (auto simp: escape_not_quote[symmetric])
  next
    case (Cons c s)
    show ?case
    proof (cases t)
      case Nil
      with Cons.prems show ?thesis by (auto simp: escape_not_quote)
    next
      case (Cons d t')
      with Cons.prems have eq: "json_escape_char c @ concat (map json_escape_char s) @ CHR 0x22 # u =
          json_escape_char d @ concat (map json_escape_char t') @ CHR 0x22 # v" by simp
      from escape_prefix_free[OF eq] Cons.IH[of t'] Cons show ?thesis by auto
    qed
  qed
  then show ?thesis using assms by (simp add: json_string_def)
qed

lemma json_string_head: "json_string s = CHR 0x22 # tl (json_string s)"
  by (simp add: json_string_def)

subsection \<open>Unique readability\<close>

text \<open>The first character tells the kind of a value.\<close>

fun json_kind :: "json \<Rightarrow> nat" where
  "json_kind JNull = 0"
| "json_kind (JBool b) = (if b then 1 else 2)"
| "json_kind (JInt _) = 3"
| "json_kind (JFloat _) = 3"
| "json_kind (JStr _) = 4"
| "json_kind (JList _) = 5"
| "json_kind (JObj _) = 6"

definition char_kind :: "char \<Rightarrow> nat" where
  "char_kind c =
     (if c = CHR ''n'' then 0 else if c = CHR ''t'' then 1 else if c = CHR ''f'' then 2
      else if c = CHR 0x22 then 4 else if c = CHR ''['' then 5 else if c = CHR ''{'' then 6
      else if num_head c then 3 else 7)"

lemma char_kind_num: "num_head c \<Longrightarrow> char_kind c = 3"
  by (auto simp: char_kind_def num_head_def)

lemma json_text_head:
  assumes "wf_json j"
  shows "\<exists>c r. json_text j = c # r \<and> char_kind c = json_kind j"
proof (cases j)
  case (JInt i)
  then show ?thesis using int_head[of i] char_kind_num by (cases "str_int i") auto
next
  case (JFloat r)
  then show ?thesis using assms float_head[of r] float_not_Nil[of r] char_kind_num
    by (cases "json_float r") auto
qed (auto simp: char_kind_def json_string_def)

lemma json_same_kind:
  assumes "wf_json a" "wf_json b" "json_text a @ s = json_text b @ t"
  shows "json_kind a = json_kind b"
  using json_text_head[OF assms(1)] json_text_head[OF assms(2)] assms(3) by auto

lemma json_text_not_close:
  assumes "wf_json j"
  shows "json_text j @ u \<noteq> CHR '']'' # v" "CHR '']'' # v \<noteq> json_text j @ u"
proof -
  have "char_kind (CHR '']'') = 7" by (simp add: char_kind_def num_head_def)
  moreover have "json_kind j \<noteq> 7" by (cases j) auto
  ultimately show "json_text j @ u \<noteq> CHR '']'' # v" "CHR '']'' # v \<noteq> json_text j @ u"
    using json_text_head[OF assms] by auto
qed

lemma json_numbers_prefix_free:
  assumes "wf_json a" "wf_json b" "delimited s" "delimited t" "json_kind a = 3" "json_kind b = 3"
    and "json_text a @ s = json_text b @ t"
  shows "a = b \<and> s = t"
proof -
  have nodelim: "set (json_text x) \<inter> json_delims = {}" if "wf_json x" "json_kind x = 3" for x
    using that by (cases x) (auto simp: str_int_no_delim float_no_delim split: if_splits)
  have eq: "json_text a = json_text b \<and> s = t"
    using assms by (intro lexeme_prefix_free) (auto simp: nodelim)
  moreover have "a = b" using assms eq
    by (cases a; cases b)
      (auto split: if_splits dest: str_int_inj json_float_inj str_int_not_float str_int_not_float[THEN not_sym])
  ultimately show ?thesis by simp
qed

text \<open>
  A delimited value is read back uniquely, and so are the elements of a list and the members of
  an object up to their closing bracket.
\<close>

lemma json_text_list_Cons:
  "json_text_list (j # js) @ CHR '']'' # s =
     json_text j @ (if js = [] then CHR '']'' # s else CHR '','' # json_text_list js @ CHR '']'' # s)"
  by (cases js) auto

lemma json_text_members_Cons:
  "json_text_members ((k, j) # ms) @ CHR ''}'' # s =
     json_string k @ CHR '':'' # json_text j @
       (if ms = [] then CHR ''}'' # s else CHR '','' # json_text_members ms @ CHR ''}'' # s)"
  by (cases ms) auto

lemma json_list_prefix_free:
  assumes "\<And>a b s t. a \<in> set js \<Longrightarrow> wf_json b \<Longrightarrow> delimited s \<Longrightarrow> delimited t \<Longrightarrow>
      json_text a @ s = json_text b @ t \<Longrightarrow> a = b \<and> s = t"
    and "wf_json_list js" "wf_json_list ks"
    and "json_text_list js @ CHR '']'' # s = json_text_list ks @ CHR '']'' # t"
  shows "js = ks \<and> s = t"
  using assms
proof (induction js arbitrary: ks)
  case Nil
  show ?case
  proof (cases ks)
    case (Cons k ks')
    then have "wf_json k" using Nil.prems(3) by simp
    then show ?thesis using Nil.prems(4)
      by (simp add: Cons json_text_list_Cons json_text_not_close)
  qed (use Nil.prems(4) in simp)
next
  case (Cons j js)
  note IH = Cons.IH and elem = Cons.prems(1) and wf = Cons.prems(2,3) and eq = Cons.prems(4)
  let ?r = "\<lambda>js s. if js = [] then CHR '']'' # s else CHR '','' # json_text_list js @ CHR '']'' # s"
  show ?case
  proof (cases ks)
    case Nil
    then show ?thesis using eq wf(1)
      by (simp add: json_text_list_Cons json_text_not_close del: json_text_list.simps(2,3))
  next
    case (Cons k ks')
    have "json_text j @ ?r js s = json_text k @ ?r ks' t"
      using eq by (simp only: Cons json_text_list_Cons)
    then have jk: "j = k \<and> ?r js s = ?r ks' t"
      using elem[of j k "?r js s" "?r ks' t"] wf(2) by (simp add: Cons)
    show ?thesis
    proof (cases "js = [] \<or> ks' = []")
      case True
      then show ?thesis using jk Cons by (auto split: if_splits)
    next
      case False
      have "a \<in> set js \<Longrightarrow> wf_json b \<Longrightarrow> delimited u \<Longrightarrow> delimited v \<Longrightarrow>
          json_text a @ u = json_text b @ v \<Longrightarrow> a = b \<and> u = v" for a b u v
        by (rule elem) simp_all
      then have "js = ks' \<and> s = t"
      proof (rule IH)
        show "wf_json_list js" "wf_json_list ks'" using wf Cons by simp_all
        show "json_text_list js @ CHR '']'' # s = json_text_list ks' @ CHR '']'' # t"
          using jk False by simp
      qed
      then show ?thesis using jk Cons by simp
    qed
  qed
qed

lemma json_members_prefix_free:
  assumes "\<And>k a b s t. (k, a) \<in> set ms \<Longrightarrow> wf_json b \<Longrightarrow> delimited s \<Longrightarrow> delimited t \<Longrightarrow>
      json_text a @ s = json_text b @ t \<Longrightarrow> a = b \<and> s = t"
    and "wf_json_members ms" "wf_json_members ns"
    and "json_text_members ms @ CHR ''}'' # s = json_text_members ns @ CHR ''}'' # t"
  shows "ms = ns \<and> s = t"
  using assms
proof (induction ms arbitrary: ns)
  case Nil
  show ?case
  proof (cases ns)
    case (Cons n ns')
    obtain l i where "n = (l, i)" by (cases n)
    then show ?thesis using Nil.prems(4)
      by (simp add: Cons json_text_members_Cons json_string_def)
  qed (use Nil.prems(4) in simp)
next
  case (Cons m ms)
  note IH = Cons.IH and elem = Cons.prems(1) and wf = Cons.prems(2,3) and eq = Cons.prems(4)
  let ?r = "\<lambda>ms s. if ms = [] then CHR ''}'' # s else CHR '','' # json_text_members ms @ CHR ''}'' # s"
  obtain k j where m: "m = (k, j)" by (cases m)
  show ?case
  proof (cases ns)
    case Nil
    then show ?thesis using eq
      by (simp add: m json_text_members_Cons json_string_def del: json_text_members.simps(2,3))
  next
    case (Cons n ns')
    obtain l i where n: "n = (l, i)" by (cases n)
    have "json_string k @ CHR '':'' # json_text j @ ?r ms s =
        json_string l @ CHR '':'' # json_text i @ ?r ns' t"
      using eq by (simp only: Cons m n json_text_members_Cons)
    then have kl: "k = l" "json_text j @ ?r ms s = json_text i @ ?r ns' t"
      using json_string_prefix_free by blast+
    then have ji: "j = i \<and> ?r ms s = ?r ns' t"
      using elem[of k j i "?r ms s" "?r ns' t"] wf(2) by (simp add: Cons m n)
    show ?thesis
    proof (cases "ms = [] \<or> ns' = []")
      case True
      then show ?thesis using kl ji Cons m n by (auto split: if_splits)
    next
      case False
      have "(k, a) \<in> set ms \<Longrightarrow> wf_json b \<Longrightarrow> delimited u \<Longrightarrow> delimited v \<Longrightarrow>
          json_text a @ u = json_text b @ v \<Longrightarrow> a = b \<and> u = v" for k a b u v
        by (rule elem[of k]) simp_all
      then have "ms = ns' \<and> s = t"
      proof (rule IH)
        show "wf_json_members ms" "wf_json_members ns'" using wf Cons m n by simp_all
        show "json_text_members ms @ CHR ''}'' # s = json_text_members ns' @ CHR ''}'' # t"
          using ji False by simp
      qed
      then show ?thesis using kl ji Cons m n by simp
    qed
  qed
qed

lemma wf_json_elem: "wf_json_list js \<Longrightarrow> j \<in> set js \<Longrightarrow> wf_json j"
  by (induction js) auto

lemma wf_json_member: "wf_json_members ms \<Longrightarrow> (k, j) \<in> set ms \<Longrightarrow> wf_json j"
  by (induction ms) auto

lemma json_text_prefix_free:
  assumes "wf_json a" "wf_json b" "delimited s" "delimited t" "json_text a @ s = json_text b @ t"
  shows "a = b \<and> s = t"
  using assms
proof (induction a arbitrary: b s t)
  case (JList js)
  from json_same_kind[OF JList.prems(1,2,5)] obtain ks where b: "b = JList ks"
    by (cases b) (auto split: if_splits)
  have "js = ks \<and> s = t"
    by (rule json_list_prefix_free) (use JList b wf_json_elem in auto)
  with b show ?case by simp
next
  case (JObj ms)
  from json_same_kind[OF JObj.prems(1,2,5)] obtain ns where b: "b = JObj ns"
    by (cases b) (auto split: if_splits)
  have "ms = ns \<and> s = t"
    by (rule json_members_prefix_free) (use JObj b wf_json_member in \<open>auto 4 4\<close>)
  with b show ?case by simp
next
  case JNull
  from json_same_kind[OF JNull.prems(1,2,5)] JNull show ?case by (cases b) (auto split: if_splits)
next
  case (JBool x)
  from json_same_kind[OF JBool.prems(1,2,5)] JBool show ?case by (cases b) (auto split: if_splits)
next
  case (JStr x)
  from json_same_kind[OF JStr.prems(1,2,5)] JStr show ?case
    by (cases b) (auto dest: json_string_prefix_free split: if_splits)
next
  case (JInt x)
  from json_same_kind[OF JInt.prems(1,2,5)] JInt show ?case by (intro json_numbers_prefix_free) auto
next
  case (JFloat x)
  from json_same_kind[OF JFloat.prems(1,2,5)] JFloat show ?case by (intro json_numbers_prefix_free) auto
qed

subsection \<open>Sorting keys\<close>

lemma json_sort_list_map: "json_sort_list js = map json_sort js"
  by (induction js) auto

lemma json_sort_members_map: "json_sort_members ms = map (\<lambda>(k, j). (k, json_sort j)) ms"
  by (induction ms) auto

lemma wf_json_list_iff: "wf_json_list js \<longleftrightarrow> (\<forall>j \<in> set js. wf_json j)"
  by (induction js) auto

lemma wf_json_members_iff: "wf_json_members ms \<longleftrightarrow> (\<forall>(k, j) \<in> set ms. wf_json j)"
  by (induction ms) auto

lemmas json_maps = json_sort_list_map json_sort_members_map wf_json_list_iff wf_json_members_iff

lemma map_fst_sort_members: "map fst (map (\<lambda>(k, j). (k, json_sort j)) ms) = map fst ms"
  by (induction ms) auto

lemma distinct_sort_key: "distinct (map f xs) \<Longrightarrow> distinct (map f (sort_key f xs))"
  by (metis distinct_sort mset_map mset_eq_imp_distinct_iff mset_sort)

lemma wf_json_sort: "wf_json j \<Longrightarrow> wf_json (json_sort j)"
proof (induction j)
  case (JObj ms)
  let ?ms = "map (\<lambda>(k, j). (k, json_sort j)) ms"
  have "distinct (map fst (sort_key fst ?ms))"
    using JObj.prems by (intro distinct_sort_key) (simp add: map_fst_sort_members del: map_map)
  moreover have "\<forall>(k, j) \<in> set (sort_key fst ?ms). wf_json j"
    using JObj by (fastforce simp: json_maps)
  ultimately show ?case by (simp add: json_maps)
qed (auto simp: json_maps)

lemma canonical_text_inj:
  assumes "wf_json a" "wf_json b" "canonical_text a = canonical_text b"
  shows "json_sort a = json_sort b"
  using json_text_prefix_free[of "json_sort a" "json_sort b" "[]" "[]"] assms
  by (simp add: canonical_text_def wf_json_sort)

lemma equiv_list_all:
  "list_all2 json_equiv xs ys \<Longrightarrow> json_equiv (JList (ps @ xs)) (JList (ps @ ys))"
proof (induction arbitrary: ps rule: list_all2_induct)
  case Nil
  show ?case by (rule equiv_refl)
next
  case (Cons x xs y ys)
  have "json_equiv (JList (ps @ x # xs)) (JList (ps @ y # xs))"
    using Cons.hyps(1) by (rule equiv_list)
  also have "json_equiv (JList (ps @ y # xs)) (JList (ps @ y # ys))"
    using Cons.IH[of "ps @ [y]"] by simp
  finally (equiv_trans) show ?case .
qed

lemma equiv_member_all:
  assumes "\<And>k j. (k, j) \<in> set ms \<Longrightarrow> json_equiv (f j) j"
  shows "json_equiv (JObj (ps @ map (\<lambda>(k, j). (k, f j)) ms)) (JObj (ps @ ms))"
  using assms
proof (induction ms arbitrary: ps)
  case Nil
  show ?case by (simp add: equiv_refl)
next
  case (Cons m ms)
  obtain k j where m: "m = (k, j)" by (cases m)
  have "json_equiv (JObj (ps @ (k, f j) # map (\<lambda>(k, j). (k, f j)) ms))
      (JObj (ps @ (k, j) # map (\<lambda>(k, j). (k, f j)) ms))"
    using Cons.prems m by (intro equiv_member) auto
  also have "json_equiv \<dots> (JObj (ps @ (k, j) # ms))"
  proof -
    have "json_equiv (JObj ((ps @ [(k, j)]) @ map (\<lambda>(k, j). (k, f j)) ms)) (JObj ((ps @ [(k, j)]) @ ms))"
      using Cons.prems by (intro Cons.IH) auto
    then show ?thesis by simp
  qed
  finally (equiv_trans) show ?case using m by simp
qed

lemma json_sort_equiv: "json_equiv (json_sort j) j"
proof (induction j)
  case (JList js)
  then have "list_all2 json_equiv (map json_sort js) js"
    by (simp add: list_all2_conv_all_nth)
  then show ?case using equiv_list_all[of _ _ "[]"] by (simp add: json_maps)
next
  case (JObj ms)
  let ?ms = "map (\<lambda>(k, j). (k, json_sort j)) ms"
  have member: "json_equiv (json_sort j) j" if "(k, j) \<in> set ms" for k j
    using JObj[OF that] by simp
  have "json_equiv (JObj (sort_key fst ?ms)) (JObj ?ms)" by (rule equiv_perm) simp
  also have "json_equiv (JObj ?ms) (JObj ms)"
    using equiv_member_all[of ms json_sort "[]"] member by simp
  finally (equiv_trans) show ?case by (simp add: json_maps)
qed (simp_all add: equiv_refl)

lemma json_sort_eq_equiv: "json_sort a = json_sort b \<Longrightarrow> json_equiv a b"
  by (rule equiv_trans[OF equiv_sym[OF json_sort_equiv]]) (simp add: json_sort_equiv)

lemma sort_key_mset_eq:
  assumes "mset ms = mset ns" "distinct (map f ms)"
  shows "sort_key f ms = sort_key f ns"
  using assms by (intro sort_key_inj_key_eq) (auto simp: distinct_map)

lemma json_equiv_sort:
  "json_equiv a b \<Longrightarrow> wf_json a = wf_json b \<and> (wf_json a \<longrightarrow> json_sort a = json_sort b)"
proof (induction rule: json_equiv.induct)
  case (equiv_perm ms ns)
  let ?f = "\<lambda>(k, j). (k, json_sort j)"
  have set: "set ms = set ns" and mset: "mset (map fst ms) = mset (map fst ns)"
    using equiv_perm by (metis set_mset_mset, simp add: mset_map)
  have "distinct (map fst ms) = distinct (map fst ns)" using mset by (rule mset_eq_imp_distinct_iff)
  moreover have "sort_key fst (map ?f ms) = sort_key fst (map ?f ns)" if "distinct (map fst ms)"
    using equiv_perm that by (intro sort_key_mset_eq) (simp_all only: mset_map map_fst_sort_members)
  ultimately show ?case using set by (auto simp: json_maps)
next
  case (equiv_member j k xs m ys)
  then show ?case by (auto simp: json_maps)
qed (auto simp: json_maps)

text \<open>The canonical text is a complete invariant of the value up to the order of members.\<close>

lemma canonical_text_eq_iff:
  assumes "wf_json a" "wf_json b"
  shows "canonical_text a = canonical_text b \<longleftrightarrow> json_equiv a b"
proof
  assume "canonical_text a = canonical_text b"
  then have "json_sort a = json_sort b" using assms by (intro canonical_text_inj)
  then show "json_equiv a b" by (rule json_sort_eq_equiv)
next
  assume "json_equiv a b"
  then show "canonical_text a = canonical_text b"
    using json_equiv_sort assms by (simp add: canonical_text_def)
qed

subsection \<open>A trip through the payload column\<close>

lemma fallback_loads:
  "fallback_json (loads_json j) = Inr j"
  "fallback_json_list (loads_json_list js) = Inr js"
  "fallback_json_members (loads_json_members ms) = Inr ms"
  by (induction j and js and ms rule: loads_json_loads_json_list_loads_json_members.induct) simp_all

lemma fallback_storable:
  "storable v \<Longrightarrow> fallback_json v = Inr (stored_json v)"
  "storable_list vs \<Longrightarrow> fallback_json_list vs = Inr (stored_json_list vs)"
  "storable_members ms \<Longrightarrow> fallback_json_members ms = Inr (stored_json_members ms)"
  by (induction v and vs and ms rule: storable_storable_list_storable_members.induct) simp_all

text \<open>What the digest of an event read back hashes in place of the payload.\<close>

lemma canonical_json_reload:
  "canonical_json (loads_json (stored_json v)) = Inr (canonical_text (stored_json v))"
  by (simp add: canonical_json_def fallback_loads)

lemma canonical_json_storable:
  "storable v \<Longrightarrow> canonical_json v = Inr (canonical_text (stored_json v))"
  by (simp add: canonical_json_def fallback_storable)

lemma loads_json_storable: "storable (loads_json j)" "storable_list (loads_json_list js)"
  "storable_members (loads_json_members ms)"
  by (induction j and js and ms rule: loads_json_loads_json_list_loads_json_members.induct) simp_all

lemma stored_loads: "stored_json (loads_json j) = j" "stored_json_list (loads_json_list js) = js"
  "stored_json_members (loads_json_members ms) = ms"
  by (induction j and js and ms rule: loads_json_loads_json_list_loads_json_members.induct) simp_all

end
