(* ===== verification/Ledger_Events.thy ===== *)
theory Ledger_Events
  imports Core_Types Json_Canonicity Sha256
begin

text \<open>
  The ledger's event envelope (\<open>paa.ledger.events\<close>): the idempotency key that suppresses a
  redelivery, the digest that binds an event to its predecessor, and the frozen event itself.

  The hash is a parameter \<open>H\<close> of the definitions, \<open>\<lambda>m. hashlib.sha256(m).hexdigest()\<close> in the
  program (\<open>sha256_hex\<close>). Nothing is assumed about it in this theory: a theorem that depends on
  its strength concludes that two distinct texts with the same digest exist, and names them.
\<close>

type_synonym hash_fun = "string \<Rightarrow> string"

text \<open>\<open>GENESIS_HASH\<close>\<close>

definition genesis_hash :: string where
  "genesis_hash = replicate 64 (CHR ''0'')"

subsection \<open>Idempotency key and digest\<close>

text \<open>\<open>discriminator or ''\<close>\<close>

definition discriminator_text :: "string option \<Rightarrow> string" where
  "discriminator_text d = (case d of None \<Rightarrow> [] | Some s \<Rightarrow> s)"

definition idempotency_material :: "uuid \<Rightarrow> EventType \<Rightarrow> int \<Rightarrow> string option \<Rightarrow> string" where
  "idempotency_material cid t att disc =
     str_uuid cid @ CHR ''|'' # event_value t @ CHR ''|'' # str_int att @ CHR ''|'' #
     discriminator_text disc"

definition compute_idempotency_key ::
  "hash_fun \<Rightarrow> uuid \<Rightarrow> EventType \<Rightarrow> int \<Rightarrow> string option \<Rightarrow> string result" where
  "compute_idempotency_key H cid t att disc =
     (if att < 0 then Inl ValueError else Inr (H (idempotency_material cid t att disc)))"

definition digest_material ::
  "string \<Rightarrow> uuid \<Rightarrow> EventType \<Rightarrow> int \<Rightarrow> payload \<Rightarrow> datetime \<Rightarrow> string result" where
  "digest_material prev cid t ver p ts =
     canonical_json (PDict
       [(''prev'', PStr prev), (''correlation_id'', PStr (str_uuid cid)),
        (''event_type'', PStr (event_value t)), (''state_version'', PInt ver),
        (''payload'', PDict p), (''recorded_at'', PStr (isoformat ts))])"

definition compute_event_digest ::
  "hash_fun \<Rightarrow> string \<Rightarrow> uuid \<Rightarrow> EventType \<Rightarrow> int \<Rightarrow> payload \<Rightarrow> datetime \<Rightarrow> string result" where
  "compute_event_digest H prev cid t ver p ts = rmap H (digest_material prev cid t ver p ts)"

subsection \<open>The event\<close>

record LedgerEvent =
  sequence_id :: "int option"
  state_version :: "int option"
  prev_hash :: "string option"
  event_hash :: "string option"
  event_id :: uuid
  correlation_id :: uuid
  session_id :: "uuid option"
  causation_id :: "uuid option"
  event_type :: EventType
  execution_mode :: ComplexityModality
  agent_role :: "string option"
  allocated_worker_image :: string
  attempt :: int
  discriminator :: "string option"
  payload :: payload
  recorded_at :: datetime

text \<open>\<open>attempt: int = Field(ge=0)\<close> and \<open>_require_tz_aware\<close>: what construction refuses.\<close>

definition validate_event :: "LedgerEvent \<Rightarrow> LedgerEvent result" where
  "validate_event e =
     (if attempt e < 0 \<or> \<not> aware (recorded_at e) then Inl ValueError else Inr e)"

text \<open>\<open>LedgerEvent.create\<close> with the keyword arguments its callers pass.\<close>

definition create_event ::
  "uuid \<Rightarrow> uuid \<Rightarrow> EventType \<Rightarrow> uuid option \<Rightarrow> payload \<Rightarrow> int \<Rightarrow> string option \<Rightarrow> datetime
     \<Rightarrow> LedgerEvent result" where
  "create_event eid cid t sid p att disc ts =
     validate_event
       \<lparr>sequence_id = None, state_version = None, prev_hash = None, event_hash = None,
        event_id = eid, correlation_id = cid, session_id = sid, causation_id = None,
        event_type = t, execution_mode = STANDARD, agent_role = None,
        allocated_worker_image = ''paa/base_worker:v4.1'', attempt = att, discriminator = disc,
        payload = p, recorded_at = ts\<rparr>"

definition idempotency_key :: "hash_fun \<Rightarrow> LedgerEvent \<Rightarrow> string result" where
  "idempotency_key H e =
     compute_idempotency_key H (correlation_id e) (event_type e) (attempt e) (discriminator e)"

definition is_terminal :: "LedgerEvent \<Rightarrow> bool" where
  "is_terminal e \<longleftrightarrow> is_terminal_event (event_type e)"

definition sealed :: "hash_fun \<Rightarrow> LedgerEvent \<Rightarrow> int \<Rightarrow> int \<Rightarrow> string \<Rightarrow> LedgerEvent result" where
  "sealed H e seq ver prev =
     rmap (\<lambda>h. e\<lparr>sequence_id := Some seq, state_version := Some ver, prev_hash := Some prev,
                  event_hash := Some h\<rparr>)
       (compute_event_digest H prev (correlation_id e) (event_type e) ver (payload e) (recorded_at e))"

text \<open>\<open>verify_digest\<close>; a payload that cannot be encoded raises.\<close>

definition verify_digest :: "hash_fun \<Rightarrow> LedgerEvent \<Rightarrow> bool result" where
  "verify_digest H e =
     (case (event_hash e, prev_hash e, state_version e) of
        (Some h, Some prev, Some ver) \<Rightarrow>
          rmap (\<lambda>expected. expected = h)
            (compute_event_digest H prev (correlation_id e) (event_type e) ver (payload e)
              (recorded_at e))
      | _ \<Rightarrow> Inr False)"

subsection \<open>Lemmas\<close>

lemma length_genesis [simp]: "length genesis_hash = 64"
  by (simp add: genesis_hash_def)

lemma float_char_bar: "\<not> float_char (CHR ''|'')"
  by (simp add: float_char_def)

text \<open>The separators cannot be confused with the fields: the key material determines the fields.\<close>

lemma idempotency_material_inj:
  assumes "idempotency_material cid t att disc = idempotency_material cid' t' att' disc'"
  shows "cid = cid' \<and> t = t' \<and> att = att' \<and> discriminator_text disc = discriminator_text disc'"
proof -
  have no_bar: "CHR ''|'' \<notin> set (str_int i)" for i
    using str_int_float_chars[of i] by (auto simp: list_all_iff float_char_bar)
  have 1: "str_uuid cid = str_uuid cid' \<and>
     event_value t @ CHR ''|'' # str_int att @ CHR ''|'' # discriminator_text disc =
     event_value t' @ CHR ''|'' # str_int att' @ CHR ''|'' # discriminator_text disc'"
    by (rule append_sep_inj[OF assms[unfolded idempotency_material_def] str_uuid_no_bar str_uuid_no_bar])
  have 2: "event_value t = event_value t' \<and>
     str_int att @ CHR ''|'' # discriminator_text disc =
     str_int att' @ CHR ''|'' # discriminator_text disc'"
    by (rule append_sep_inj[OF conjunct2[OF 1] event_value_chars event_value_chars])
  have 3: "str_int att = str_int att' \<and> discriminator_text disc = discriminator_text disc'"
    by (rule append_sep_inj[OF conjunct2[OF 2] no_bar no_bar])
  from 1 2 3 show ?thesis using str_uuid_inj event_value_inj str_int_inj by blast
qed

text \<open>The JSON object that a digest hashes.\<close>

definition wf_payload :: "payload \<Rightarrow> bool" where
  "wf_payload p = (case fallback_json (PDict p) of Inl _ \<Rightarrow> False | Inr j \<Rightarrow> wf_json j)"

definition payload_equiv :: "payload \<Rightarrow> payload \<Rightarrow> bool" where
  "payload_equiv p q \<longleftrightarrow>
     (\<exists>j k. fallback_json (PDict p) = Inr j \<and> fallback_json (PDict q) = Inr k \<and> json_equiv j k)"

definition digest_object :: "string \<Rightarrow> uuid \<Rightarrow> EventType \<Rightarrow> int \<Rightarrow> json \<Rightarrow> datetime \<Rightarrow> json" where
  "digest_object prev cid t ver j ts =
     JObj [(''prev'', JStr prev), (''correlation_id'', JStr (str_uuid cid)),
           (''event_type'', JStr (event_value t)), (''state_version'', JInt ver),
           (''payload'', j), (''recorded_at'', JStr (isoformat ts))]"

lemma digest_material_eq:
  "digest_material prev cid t ver p ts =
     rmap (\<lambda>j. canonical_text (digest_object prev cid t ver j ts)) (fallback_json (PDict p))"
  by (cases "fallback_json (PDict p)")
    (simp_all add: digest_material_def canonical_json_def digest_object_def)

lemma wf_digest_object: "wf_json j \<Longrightarrow> wf_json (digest_object prev cid t ver j ts)"
  by (simp add: digest_object_def)

text \<open>Two objects with the same sorted form have the same value, sorted, under every key.\<close>

lemma json_sort_members_map_of:
  "map_of (json_sort_members ms) k = map_option json_sort (map_of ms k)"
  by (induction ms) auto

lemma json_sort_members_keys: "map fst (json_sort_members ms) = map fst ms"
  by (induction ms) auto

lemma json_sort_obj_members:
  assumes "json_sort (JObj ms) = json_sort (JObj ns)"
    and "distinct (map fst ms)" "distinct (map fst ns)"
  shows "map_option json_sort (map_of ms k) = map_option json_sort (map_of ns k)"
proof -
  have "sort_key fst (json_sort_members ms) = sort_key fst (json_sort_members ns)"
    using assms(1) by simp
  then have "set (json_sort_members ms) = set (json_sort_members ns)"
    by (metis set_sort)
  then have "map_of (json_sort_members ms) = map_of (json_sort_members ns)"
    using assms(2,3) by (intro iffD2[OF map_of_inject_set]) (simp_all only: json_sort_members_keys)
  then show ?thesis by (metis json_sort_members_map_of)
qed

definition digest_members :: "string \<Rightarrow> uuid \<Rightarrow> EventType \<Rightarrow> int \<Rightarrow> json \<Rightarrow> datetime \<Rightarrow> (string \<times> json) list" where
  "digest_members prev cid t ver j ts =
     [(''prev'', JStr prev), (''correlation_id'', JStr (str_uuid cid)),
      (''event_type'', JStr (event_value t)), (''state_version'', JInt ver),
      (''payload'', j), (''recorded_at'', JStr (isoformat ts))]"

lemma digest_members_keys: "distinct (map fst (digest_members prev cid t ver j ts))"
  by (simp add: digest_members_def)

lemma digest_members_lookup:
  "map_of (digest_members prev cid t ver j ts) ''prev'' = Some (JStr prev)"
  "map_of (digest_members prev cid t ver j ts) ''correlation_id'' = Some (JStr (str_uuid cid))"
  "map_of (digest_members prev cid t ver j ts) ''event_type'' = Some (JStr (event_value t))"
  "map_of (digest_members prev cid t ver j ts) ''state_version'' = Some (JInt ver)"
  "map_of (digest_members prev cid t ver j ts) ''payload'' = Some j"
  "map_of (digest_members prev cid t ver j ts) ''recorded_at'' = Some (JStr (isoformat ts))"
  by (simp_all add: digest_members_def)

lemma digest_object_inj:
  assumes "wf_json j" "wf_json j'"
    and "canonical_text (digest_object prev cid t ver j ts) =
         canonical_text (digest_object prev' cid' t' ver' j' ts')"
  shows "prev = prev' \<and> cid = cid' \<and> t = t' \<and> ver = ver' \<and> json_equiv j j' \<and>
         isoformat ts = isoformat ts'"
proof -
  have obj: "digest_object prev cid t ver j ts = JObj (digest_members prev cid t ver j ts)"
    for prev cid t ver j ts by (simp only: digest_object_def digest_members_def)
  have "json_sort (JObj (digest_members prev cid t ver j ts)) =
      json_sort (JObj (digest_members prev' cid' t' ver' j' ts'))"
    using canonical_text_inj[OF wf_digest_object[OF assms(1)] wf_digest_object[OF assms(2)] assms(3)]
    by (simp only: obj)
  note at_key = json_sort_obj_members[OF this digest_members_keys digest_members_keys]
  have "json_sort j = json_sort j'" using at_key[of "''payload''"]
    by (simp only: digest_members_lookup option.map option.inject)
  then have "json_equiv j j'" by (rule json_sort_eq_equiv)
  moreover have "prev = prev'" using at_key[of "''prev''"]
    by (simp only: digest_members_lookup option.map option.inject json_sort.simps json.inject)
  moreover have "str_uuid cid = str_uuid cid'" using at_key[of "''correlation_id''"]
    by (simp only: digest_members_lookup option.map option.inject json_sort.simps json.inject)
  moreover have "event_value t = event_value t'" using at_key[of "''event_type''"]
    by (simp only: digest_members_lookup option.map option.inject json_sort.simps json.inject)
  moreover have "ver = ver'" using at_key[of "''state_version''"]
    by (simp only: digest_members_lookup option.map option.inject json_sort.simps json.inject)
  moreover have "isoformat ts = isoformat ts'" using at_key[of "''recorded_at''"]
    by (simp only: digest_members_lookup option.map option.inject json_sort.simps json.inject)
  ultimately show ?thesis using str_uuid_inj event_value_inj by blast
qed

text \<open>
  Two digests that agree cover the same fields, or the two texts that were hashed are a
  collision of the hash.
\<close>

definition digest_collision :: "hash_fun \<Rightarrow> string result \<Rightarrow> string result \<Rightarrow> bool" where
  "digest_collision H r r' \<longleftrightarrow>
     (case (r, r') of (Inr m, Inr m') \<Rightarrow> m \<noteq> m' \<and> H m = H m' | _ \<Rightarrow> False)"

lemma digest_material_inj:
  assumes "digest_material prev cid t ver p ts = Inr m"
    and "digest_material prev' cid' t' ver' p' ts' = Inr m"
    and "wf_payload p" "wf_payload p'"
  shows "prev = prev' \<and> cid = cid' \<and> t = t' \<and> ver = ver' \<and> payload_equiv p p' \<and>
         isoformat ts = isoformat ts'"
proof -
  from assms(3,4) obtain j j' where j: "fallback_json (PDict p) = Inr j" "wf_json j"
    and j': "fallback_json (PDict p') = Inr j'" "wf_json j'"
    by (auto simp: wf_payload_def split: sum.splits)
  have "canonical_text (digest_object prev cid t ver j ts) =
        canonical_text (digest_object prev' cid' t' ver' j' ts')"
    using assms(1,2) by (simp add: digest_material_eq j(1) j'(1) del: fallback_json.simps)
  from digest_object_inj[OF j(2) j'(2) this] j(1) j'(1) show ?thesis
    by (auto simp: payload_equiv_def simp del: fallback_json.simps)
qed

lemma event_digest_binds:
  assumes "compute_event_digest H prev cid t ver p ts = Inr h"
    and "compute_event_digest H prev' cid' t' ver' p' ts' = Inr h"
    and "wf_payload p" "wf_payload p'"
    and "\<not> digest_collision H (digest_material prev cid t ver p ts) (digest_material prev' cid' t' ver' p' ts')"
  shows "prev = prev' \<and> cid = cid' \<and> t = t' \<and> ver = ver' \<and> payload_equiv p p' \<and>
         isoformat ts = isoformat ts'"
proof -
  obtain m m' where m: "digest_material prev cid t ver p ts = Inr m"
    "digest_material prev' cid' t' ver' p' ts' = Inr m'" "H m = H m'"
    using assms(1,2) by (auto simp: compute_event_digest_def rmap_eq_Inr)
  then have "m = m'" using assms(5) by (simp add: digest_collision_def)
  with m digest_material_inj assms(3,4) show ?thesis by blast
qed

lemma compute_event_digest_cong:
  assumes "fallback_json (PDict p) = fallback_json (PDict q)"
  shows "compute_event_digest H prev cid t ver p ts = compute_event_digest H prev cid t ver q ts"
  using assms by (simp add: compute_event_digest_def digest_material_eq del: fallback_json.simps)

lemma sealed_fields:
  assumes "sealed H e seq ver prev = Inr e'"
  shows "\<exists>h. compute_event_digest H prev (correlation_id e) (event_type e) ver (payload e) (recorded_at e) = Inr h
     \<and> e' = e\<lparr>sequence_id := Some seq, state_version := Some ver, prev_hash := Some prev, event_hash := Some h\<rparr>"
  using assms by (auto simp: sealed_def rmap_eq_Inr)

lemma verify_sealed:
  "sealed H e seq ver prev = Inr e' \<Longrightarrow> verify_digest H e' = Inr True"
  by (auto dest!: sealed_fields simp: verify_digest_def)

end
