(* ===== verification/Ledger_Store.thy ===== *)
theory Ledger_Store
  imports Ledger_Events
begin

text \<open>
  The append-only store (\<open>paa.ledger.store\<close>) over its three tables
  (\<open>storage/relational/schema_sqlite.sql\<close>): \<open>system_state_ledger\<close>,
  \<open>system_state_correlation_head\<close> and \<open>system_state_snapshots\<close>.

  A table is the list of its rows in rowid order and a row holds the column values: identifiers,
  enum members and timestamps as text, the payload as the JSON value of the column's text. A
  transaction that raises leaves the database as it was. \<open>append_tx\<close> takes two databases, the
  one its two SELECTs saw and the one the INSERT meets: on SQLite they are the same (\<open>append_event\<close>),
  and they differ when another process commits in between.
\<close>

subsection \<open>Tables\<close>

record ledger_row =
  c_sequence_id :: int
  c_event_id :: string
  c_correlation_id :: string
  c_session_id :: "string option"
  c_causation_id :: "string option"
  c_state_version :: int
  c_idempotency_key :: string
  c_attempt :: int
  c_discriminator :: "string option"
  c_event_type :: string
  c_execution_mode :: string
  c_agent_role :: "string option"
  c_worker_image :: string
  c_payload :: json
  c_prev_hash :: string
  c_event_hash :: string
  c_recorded_at :: string

record head_row =
  h_correlation_id :: string
  h_session_id :: "string option"
  h_latest_sequence_id :: int
  h_latest_state_version :: int
  h_latest_event_type :: string
  h_latest_event_hash :: string
  h_execution_mode :: string
  h_is_terminal :: int
  h_opened_at :: string
  h_updated_at :: string

record snapshot_row =
  s_correlation_id :: string
  s_state_version :: int
  s_projection :: json
  s_created_at :: string

record ledger_db =
  ledger_rows :: "ledger_row list"
  head_rows :: "head_row list"
  snapshot_rows :: "snapshot_row list"
  next_sequence :: int

definition empty_db :: ledger_db where
  "empty_db = \<lparr>ledger_rows = [], head_rows = [], snapshot_rows = [], next_sequence = 1\<rparr>"

text \<open>\<open>json_valid\<close>: RFC 8259 has no spelling for the non-finite floats that \<open>json.dumps\<close> writes.\<close>

fun json_valid :: "json \<Rightarrow> bool"
  and json_valid_list :: "json list \<Rightarrow> bool"
  and json_valid_members :: "(string \<times> json) list \<Rightarrow> bool" where
  "json_valid (JFloat r) = (r \<notin> {''nan'', ''inf'', ''-inf''})"
| "json_valid (JList js) = json_valid_list js"
| "json_valid (JObj ms) = json_valid_members ms"
| "json_valid _ = True"
| "json_valid_list [] = True"
| "json_valid_list (j # js) = (json_valid j \<and> json_valid_list js)"
| "json_valid_members [] = True"
| "json_valid_members ((k, j) # ms) = (json_valid j \<and> json_valid_members ms)"

text \<open>The CHECK constraints and the three UNIQUE constraints of \<open>system_state_ledger\<close>.\<close>

definition ledger_checks :: "ledger_row \<Rightarrow> bool" where
  "ledger_checks r \<longleftrightarrow>
     json_valid (c_payload r) \<and> 1 \<le> c_state_version r \<and>
     length (c_event_hash r) = 64 \<and> length (c_prev_hash r) = 64"

definition ledger_conflict :: "ledger_row \<Rightarrow> ledger_row \<Rightarrow> bool" where
  "ledger_conflict r r' \<longleftrightarrow>
     c_event_id r = c_event_id r' \<or> c_idempotency_key r = c_idempotency_key r' \<or>
     c_correlation_id r = c_correlation_id r' \<and> c_state_version r = c_state_version r'"

text \<open>\<open>_INSERT_SQL\<close>; the rowid is assigned by AUTOINCREMENT and returned.\<close>

definition insert_ledger :: "ledger_row \<Rightarrow> ledger_db \<Rightarrow> (int \<times> ledger_db) result" where
  "insert_ledger r db =
     (if \<not> ledger_checks r then Inl IntegrityError
      else if \<exists>r' \<in> set (ledger_rows db). ledger_conflict r r' then Inl UniqueViolation
      else let seq = next_sequence db
           in Inr (seq, db\<lparr>ledger_rows := ledger_rows db @ [r\<lparr>c_sequence_id := seq\<rparr>],
                           next_sequence := seq + 1\<rparr>))"

subsection \<open>Rows and events\<close>

definition insert_params :: "LedgerEvent \<Rightarrow> string \<Rightarrow> ledger_row result" where
  "insert_params e key =
     (case (state_version e, prev_hash e, event_hash e) of
        (Some ver, Some prev, Some h) \<Rightarrow>
          rmap (\<lambda>ts.
            \<lparr>c_sequence_id = 0, c_event_id = str_uuid (event_id e),
             c_correlation_id = str_uuid (correlation_id e),
             c_session_id = map_option str_uuid (session_id e),
             c_causation_id = map_option str_uuid (causation_id e),
             c_state_version = ver, c_idempotency_key = key, c_attempt = attempt e,
             c_discriminator = discriminator e, c_event_type = event_value (event_type e),
             c_execution_mode = modality_value (execution_mode e), c_agent_role = agent_role e,
             c_worker_image = allocated_worker_image e,
             c_payload = stored_json (PDict (payload e)),
             c_prev_hash = prev, c_event_hash = h, c_recorded_at = ts\<rparr>) (to_iso (recorded_at e))
      | _ \<Rightarrow> Inl IntegrityError)"

text \<open>\<open>as_uuid(x) if x else None\<close> on a nullable text column.\<close>

definition optional_uuid :: "string option \<Rightarrow> uuid option result" where
  "optional_uuid x =
     (case x of None \<Rightarrow> Inr None
      | Some s \<Rightarrow> if s = [] then Inr None else rmap Some (as_uuid (IdText s)))"

text \<open>\<open>payload=loads(row['payload'], {})\<close> under the field's type \<open>dict[str, Any]\<close>.\<close>

fun payload_of_json :: "json \<Rightarrow> payload result" where
  "payload_of_json (JObj ms) = Inr (loads_json_members ms)"
| "payload_of_json _ = Inl ValueError"

definition row_to_event :: "ledger_row \<Rightarrow> LedgerEvent result" where
  "row_to_event r =
     rbind (as_uuid (IdText (c_event_id r))) (\<lambda>eid.
     rbind (as_uuid (IdText (c_correlation_id r))) (\<lambda>cid.
     rbind (optional_uuid (c_session_id r)) (\<lambda>sid.
     rbind (optional_uuid (c_causation_id r)) (\<lambda>caus.
     rbind (event_of_value (c_event_type r)) (\<lambda>t.
     rbind (from_iso (IsoText (c_recorded_at r))) (\<lambda>ts.
     rbind (modality_of_value (c_execution_mode r)) (\<lambda>mode.
     rbind (payload_of_json (c_payload r)) (\<lambda>p.
       validate_event
         \<lparr>sequence_id = Some (c_sequence_id r), state_version = Some (c_state_version r),
          prev_hash = Some (c_prev_hash r), event_hash = Some (c_event_hash r),
          event_id = eid, correlation_id = cid, session_id = sid, causation_id = caus,
          event_type = t, execution_mode = mode, agent_role = c_agent_role r,
          allocated_worker_image = c_worker_image r, attempt = c_attempt r,
          discriminator = c_discriminator r, payload = p, recorded_at = ts\<rparr>))))))))"

subsection \<open>Queries\<close>

text \<open>\<open>ORDER BY key LIMIT n\<close>: ties keep the row order; a negative limit is no limit.\<close>

definition sql_limit :: "int \<Rightarrow> 'a list \<Rightarrow> 'a list" where
  "sql_limit n xs = (if n < 0 then xs else take (nat n) xs)"

definition lineage_rows :: "ledger_db \<Rightarrow> string \<Rightarrow> ledger_row list" where
  "lineage_rows db c = filter (\<lambda>r. c_correlation_id r = c) (ledger_rows db)"

definition latest_row :: "ledger_db \<Rightarrow> string \<Rightarrow> ledger_row option" where
  "latest_row db c =
     (case sort_key (\<lambda>r. - c_state_version r) (lineage_rows db c) of [] \<Rightarrow> None | r # _ \<Rightarrow> Some r)"

definition chain_tip :: "ledger_db \<Rightarrow> uuid \<Rightarrow> int \<times> string" where
  "chain_tip db cid =
     (case latest_row db (str_uuid cid) of
        None \<Rightarrow> (0, genesis_hash)
      | Some r \<Rightarrow> (c_state_version r, c_event_hash r))"

definition find_by_key :: "ledger_db \<Rightarrow> string \<Rightarrow> LedgerEvent option result" where
  "find_by_key db key =
     (case find (\<lambda>r. c_idempotency_key r = key) (ledger_rows db) of
        None \<Rightarrow> Inr None | Some r \<Rightarrow> rmap Some (row_to_event r))"

definition read_correlation :: "ledger_db \<Rightarrow> uuid \<Rightarrow> int \<Rightarrow> LedgerEvent list result" where
  "read_correlation db cid from_version =
     rmapM row_to_event
       (sort_key c_state_version
         (filter (\<lambda>r. c_state_version r > from_version) (lineage_rows db (str_uuid cid))))"

definition latest_event :: "ledger_db \<Rightarrow> uuid \<Rightarrow> LedgerEvent option result" where
  "latest_event db cid =
     (case latest_row db (str_uuid cid) of
        None \<Rightarrow> Inr None | Some r \<Rightarrow> rmap Some (row_to_event r))"

definition events_since ::
  "ledger_db \<Rightarrow> datetime \<Rightarrow> EventType list \<Rightarrow> int \<Rightarrow> LedgerEvent list result" where
  "events_since db since types limit =
     rbind (to_iso since) (\<lambda>s.
       rmapM row_to_event
         (sql_limit limit (sort_key c_sequence_id
           (filter (\<lambda>r. s \<le> c_recorded_at r \<and>
               (types = [] \<or> c_event_type r \<in> event_value ` set types)) (ledger_rows db)))))"

definition ledger_count :: "ledger_db \<Rightarrow> int" where
  "ledger_count db = int (length (ledger_rows db))"

subsection \<open>The head projection\<close>

record CorrelationHead =
  hd_correlation_id :: uuid
  hd_session_id :: "uuid option"
  hd_latest_sequence_id :: int
  hd_latest_state_version :: int
  hd_latest_event_type :: EventType
  hd_execution_mode :: string
  hd_is_terminal :: bool
  hd_opened_at :: datetime
  hd_updated_at :: datetime

definition correlation_head :: "head_row \<Rightarrow> CorrelationHead result" where
  "correlation_head r =
     rbind (as_uuid (IdText (h_correlation_id r))) (\<lambda>cid.
     rbind (optional_uuid (h_session_id r)) (\<lambda>sid.
     rbind (event_of_value (h_latest_event_type r)) (\<lambda>t.
     rbind (from_iso (IsoText (h_opened_at r))) (\<lambda>opened.
     rbind (from_iso (IsoText (h_updated_at r))) (\<lambda>updated.
       Inr \<lparr>hd_correlation_id = cid, hd_session_id = sid,
            hd_latest_sequence_id = h_latest_sequence_id r,
            hd_latest_state_version = h_latest_state_version r, hd_latest_event_type = t,
            hd_execution_mode = h_execution_mode r, hd_is_terminal = (h_is_terminal r \<noteq> 0),
            hd_opened_at = opened, hd_updated_at = updated\<rparr>)))))"

text \<open>\<open>ON CONFLICT(correlation_id) DO UPDATE\<close>: the row keeps its place and its opening time, and
  its session when the event has none.\<close>

fun upsert_head :: "head_row \<Rightarrow> head_row list \<Rightarrow> head_row list" where
  "upsert_head x [] = [x]"
| "upsert_head x (h # hs) =
     (if h_correlation_id h = h_correlation_id x
      then x\<lparr>h_session_id := (case h_session_id x of None \<Rightarrow> h_session_id h | Some s \<Rightarrow> Some s),
             h_opened_at := h_opened_at h\<rparr> # hs
      else h # upsert_head x hs)"

definition update_head :: "LedgerEvent \<Rightarrow> ledger_db \<Rightarrow> ledger_db result" where
  "update_head e db =
     rbind (to_iso (recorded_at e)) (\<lambda>now.
       case (sequence_id e, state_version e, event_hash e) of
         (Some seq, Some ver, Some h) \<Rightarrow>
           Inr (db\<lparr>head_rows := upsert_head
             \<lparr>h_correlation_id = str_uuid (correlation_id e),
              h_session_id = map_option str_uuid (session_id e),
              h_latest_sequence_id = seq, h_latest_state_version = ver,
              h_latest_event_type = event_value (event_type e), h_latest_event_hash = h,
              h_execution_mode = modality_value (execution_mode e),
              h_is_terminal = (if is_terminal_event (event_type e) then 1 else 0),
              h_opened_at = now, h_updated_at = now\<rparr> (head_rows db)\<rparr>)
       | _ \<Rightarrow> Inl IntegrityError)"

definition head :: "ledger_db \<Rightarrow> uuid \<Rightarrow> CorrelationHead option result" where
  "head db cid =
     (case find (\<lambda>h. h_correlation_id h = str_uuid cid) (head_rows db) of
        None \<Rightarrow> Inr None | Some h \<Rightarrow> rmap Some (correlation_head h))"

definition open_correlations :: "ledger_db \<Rightarrow> int \<Rightarrow> CorrelationHead list result" where
  "open_correlations db limit =
     rmapM correlation_head
       (sql_limit limit (sort_key h_updated_at (filter (\<lambda>h. h_is_terminal h = 0) (head_rows db))))"

subsection \<open>Appending\<close>

text \<open>The transaction of \<open>append\<close>; an error is the exception that rolls it back.\<close>

definition append_tx ::
  "hash_fun \<Rightarrow> LedgerEvent \<Rightarrow> ledger_db \<Rightarrow> ledger_db \<Rightarrow> (LedgerEvent \<times> ledger_db) result" where
  "append_tx H e seen db =
     rbind (idempotency_key H e) (\<lambda>key.
     rbind (find_by_key seen key) (\<lambda>existing.
       case existing of
         Some e' \<Rightarrow> Inr (e', db)
       | None \<Rightarrow>
           (let (version, prev) = chain_tip seen (correlation_id e)
            in rbind (sealed H e (- 1) (version + 1) prev) (\<lambda>e1.
               rbind (insert_params e1 key) (\<lambda>r.
                 case insert_ledger r db of
                   Inl UniqueViolation \<Rightarrow>
                     rbind (find_by_key db key) (\<lambda>duplicate.
                       case duplicate of
                         Some e' \<Rightarrow> Inr (e', db)
                       | None \<Rightarrow> Inl LedgerError)
                 | Inl err \<Rightarrow> Inl err
                 | Inr (seq, db1) \<Rightarrow>
                     (let e2 = e1\<lparr>sequence_id := Some seq\<rparr>
                      in rmap (\<lambda>db2. (e2, db2)) (update_head e2 db1)))))))"

definition commit :: "('a \<times> 's) result \<Rightarrow> 's \<Rightarrow> 'a result \<times> 's" where
  "commit r s = (case r of Inl err \<Rightarrow> (Inl err, s) | Inr (a, s') \<Rightarrow> (Inr a, s'))"

definition append_event :: "hash_fun \<Rightarrow> LedgerEvent \<Rightarrow> ledger_db \<Rightarrow> LedgerEvent result \<times> ledger_db" where
  "append_event H e db = commit (append_tx H e db db) db"

text \<open>A batch stops at the first failure and keeps what was written before it.\<close>

fun append_many ::
  "hash_fun \<Rightarrow> LedgerEvent list \<Rightarrow> ledger_db \<Rightarrow> LedgerEvent list result \<times> ledger_db" where
  "append_many H [] db = (Inr [], db)"
| "append_many H (e # es) db =
     (case append_event H e db of
        (Inl err, db1) \<Rightarrow> (Inl err, db1)
      | (Inr e1, db1) \<Rightarrow>
          (case append_many H es db1 of
             (Inl err, db2) \<Rightarrow> (Inl err, db2)
           | (Inr es1, db2) \<Rightarrow> (Inr (e1 # es1), db2)))"

subsection \<open>Verification of a chain\<close>

datatype chain_problem =
    DigestMismatch "int option" EventType
  | BrokenLink "int option" EventType string "string option"
  | MissingVersion EventType
  | VersionGap "int option" EventType int int

text \<open>\<open>event.event_hash or GENESIS_HASH\<close>\<close>

definition hash_or_genesis :: "string option \<Rightarrow> string" where
  "hash_or_genesis h = (case h of None \<Rightarrow> genesis_hash | Some s \<Rightarrow> if s = [] then genesis_hash else s)"

fun verify_events ::
  "hash_fun \<Rightarrow> string \<Rightarrow> int \<Rightarrow> LedgerEvent list \<Rightarrow> chain_problem list result" where
  "verify_events H expected_prev expected_version [] = Inr []"
| "verify_events H expected_prev expected_version (e # es) =
     rbind (verify_digest H e) (\<lambda>ok.
     let w = state_version e; t = event_type e;
         version = (case w of None \<Rightarrow> expected_version | Some v \<Rightarrow> v);
         here =
           (if ok then [] else [DigestMismatch w t]) @
           (if prev_hash e \<noteq> Some expected_prev then [BrokenLink w t expected_prev (prev_hash e)] else []) @
           (if w = None then [MissingVersion t]
            else if version \<noteq> expected_version then [VersionGap w t expected_version version] else [])
     in rmap (\<lambda>rest. here @ rest)
          (verify_events H (hash_or_genesis (event_hash e)) (version + 1) es))"

definition verify_chain :: "hash_fun \<Rightarrow> ledger_db \<Rightarrow> uuid \<Rightarrow> (bool \<times> chain_problem list) result" where
  "verify_chain H db cid =
     rbind (read_correlation db cid 0) (\<lambda>es.
     rmap (\<lambda>problems. (problems = [], problems)) (verify_events H genesis_hash 1 es))"

text \<open>\<open>SELECT DISTINCT correlation_id\<close>; a clean lineage has no entry in the report.\<close>

definition verify_all_chains :: "hash_fun \<Rightarrow> ledger_db \<Rightarrow> (string \<times> chain_problem list) list result" where
  "verify_all_chains H db =
     rfold (\<lambda>report c.
       rbind (as_uuid (IdText c)) (\<lambda>cid.
       rmap (\<lambda>(ok, problems). if ok then report else dict_set report c problems)
         (verify_chain H db cid)))
       [] (remdups (map c_correlation_id (ledger_rows db)))"

subsection \<open>Snapshots\<close>

fun upsert_snapshot :: "snapshot_row \<Rightarrow> snapshot_row list \<Rightarrow> snapshot_row list" where
  "upsert_snapshot x [] = [x]"
| "upsert_snapshot x (s # ss) =
     (if s_correlation_id s = s_correlation_id x \<and> s_state_version s = s_state_version x
      then x # ss else s # upsert_snapshot x ss)"

definition save_snapshot ::
  "ledger_db \<Rightarrow> uuid \<Rightarrow> int \<Rightarrow> payload \<Rightarrow> datetime \<Rightarrow> ledger_db result" where
  "save_snapshot db cid ver projection now =
     rbind (to_iso now) (\<lambda>ts.
       let j = stored_json (PDict projection)
       in if \<not> json_valid j then Inl IntegrityError
          else Inr (db\<lparr>snapshot_rows := upsert_snapshot
                 \<lparr>s_correlation_id = str_uuid cid, s_state_version = ver, s_projection = j,
                  s_created_at = ts\<rparr> (snapshot_rows db)\<rparr>))"

definition load_snapshot :: "ledger_db \<Rightarrow> uuid \<Rightarrow> (int \<times> pyval) option" where
  "load_snapshot db cid =
     (case sort_key (\<lambda>s. - s_state_version s)
             (filter (\<lambda>s. s_correlation_id s = str_uuid cid) (snapshot_rows db)) of
        [] \<Rightarrow> None
      | s # _ \<Rightarrow> Some (s_state_version s, loads_json (s_projection s)))"

end
