(* ===== verification/Ledger_Invariant.thy ===== *)
theory Ledger_Invariant
  imports Ledger_Store
begin

text \<open>
  The invariant of the ledger's tables and its preservation by every append, whatever the
  interleaving with other writers: versions of a lineage are dense from 1, every row names its
  predecessor's digest, keys and event ids are unique, every row reads back, and the head
  projection holds the latest row of its lineage.
\<close>

subsection \<open>Sorting what is already sorted\<close>

lemma sorted_less_sort_key:
  fixes f :: "'a \<Rightarrow> int"
  assumes "sorted_wrt (<) (map f xs)"
  shows "sort_key f xs = xs" "sort_key (\<lambda>x. - f x) xs = rev xs"
proof -
  from assms have "sorted (map f xs)" "distinct (map f xs)"
    by (simp_all add: strict_sorted_iff)
  then show "sort_key f xs = xs" by (intro sort_key_id_if_sorted)
  have "sort_key (\<lambda>x. - f x) xs = sort_key (\<lambda>x. - f x) (rev xs)"
    using \<open>distinct (map f xs)\<close> by (intro sort_key_mset_eq) (auto simp: distinct_map inj_on_def)
  moreover have "sorted (map (\<lambda>x. - f x) (rev xs))"
    using assms by (simp add: sorted_wrt_map sorted_wrt_rev rev_map[symmetric])
      (erule sorted_wrt_mono_rel[rotated], simp)
  ultimately show "sort_key (\<lambda>x. - f x) xs = rev xs" by (simp add: sort_key_id_if_sorted)
qed

subsection \<open>Linked rows\<close>

fun links_ok :: "string \<Rightarrow> int \<Rightarrow> ledger_row list \<Rightarrow> bool" where
  "links_ok prev ver [] = True"
| "links_ok prev ver (r # rs) =
     (c_prev_hash r = prev \<and> c_state_version r = ver \<and> length (c_event_hash r) = 64 \<and>
      links_ok (c_event_hash r) (ver + 1) rs)"

definition tip_hash :: "string \<Rightarrow> ledger_row list \<Rightarrow> string" where
  "tip_hash prev rs = (if rs = [] then prev else c_event_hash (last rs))"

lemma links_ok_append:
  "links_ok prev ver (rs @ ss) \<longleftrightarrow>
     links_ok prev ver rs \<and> links_ok (tip_hash prev rs) (ver + int (length rs)) ss"
  by (induction rs arbitrary: prev ver) (auto simp: tip_hash_def algebra_simps)

lemma links_ok_versions:
  "links_ok prev ver rs \<Longrightarrow> map c_state_version rs = map (\<lambda>i. ver + int i) [0..<length rs]"
proof (induction rs arbitrary: prev ver)
  case (Cons r rs)
  then have "map c_state_version rs = map (\<lambda>i. ver + 1 + int i) [0..<length rs]" by auto
  also have "\<dots> = map (\<lambda>i. ver + int i) [1..<Suc (length rs)]"
    by (simp add: map_Suc_upt[symmetric] algebra_simps del: upt_Suc)
  finally show ?case using Cons.prems by (simp add: upt_conv_Cons del: upt_Suc)
qed simp

lemma links_ok_sorted:
  assumes "links_ok prev ver rs"
  shows "sorted_wrt (<) (map c_state_version rs)"
  by (simp add: links_ok_versions[OF assms] sorted_wrt_map)

lemma links_ok_bounds:
  assumes "links_ok prev ver rs" "r \<in> set rs"
  shows "ver \<le> c_state_version r" "c_state_version r < ver + int (length rs)"
proof -
  have "c_state_version r \<in> set (map c_state_version rs)" using assms(2) by simp
  then show "ver \<le> c_state_version r" "c_state_version r < ver + int (length rs)"
    using assms(1) by (auto simp: links_ok_versions)
qed

lemma links_ok_last:
  assumes "links_ok prev ver rs" "rs \<noteq> []"
  shows "c_state_version (last rs) = ver + int (length rs) - 1"
proof -
  have "map c_state_version rs ! (length rs - 1) = ver + int (length rs - 1)"
    using assms by (subst links_ok_versions[OF assms(1)]) simp
  then show ?thesis using assms(2) by (simp add: last_conv_nth of_nat_diff Suc_leI)
qed

lemma links_ok_hash_length:
  "links_ok prev ver rs \<Longrightarrow> length prev = 64 \<Longrightarrow> length (tip_hash prev rs) = 64"
  by (induction rs arbitrary: prev ver) (auto simp: tip_hash_def)

subsection \<open>The invariant\<close>

definition row_readable :: "ledger_row \<Rightarrow> bool" where
  "row_readable r \<longleftrightarrow> (case row_to_event r of Inl _ \<Rightarrow> False | Inr _ \<Rightarrow> True)"

definition head_tracks :: "head_row \<Rightarrow> ledger_row \<Rightarrow> bool" where
  "head_tracks h r \<longleftrightarrow>
     h_correlation_id h = c_correlation_id r \<and> h_latest_sequence_id h = c_sequence_id r \<and>
     h_latest_state_version h = c_state_version r \<and> h_latest_event_type h = c_event_type r \<and>
     h_latest_event_hash h = c_event_hash r \<and> h_execution_mode h = c_execution_mode r"

definition head_lookup :: "ledger_db \<Rightarrow> string \<Rightarrow> head_row option" where
  "head_lookup db c = find (\<lambda>h. h_correlation_id h = c) (head_rows db)"

definition last_row :: "ledger_db \<Rightarrow> string \<Rightarrow> ledger_row option" where
  "last_row db c = (let rs = lineage_rows db c in if rs = [] then None else Some (last rs))"

definition chain_inv :: "ledger_db \<Rightarrow> bool" where
  "chain_inv db \<longleftrightarrow>
     (\<forall>c. links_ok genesis_hash 1 (lineage_rows db c)) \<and>
     distinct (map c_idempotency_key (ledger_rows db)) \<and>
     distinct (map c_event_id (ledger_rows db)) \<and>
     sorted_wrt (<) (map c_sequence_id (ledger_rows db)) \<and>
     (\<forall>r \<in> set (ledger_rows db). c_sequence_id r < next_sequence db) \<and>
     (\<forall>r \<in> set (ledger_rows db). row_readable r)"

definition heads_inv :: "ledger_db \<Rightarrow> bool" where
  "heads_inv db \<longleftrightarrow>
     distinct (map h_correlation_id (head_rows db)) \<and>
     (\<forall>c. rel_option head_tracks (head_lookup db c) (last_row db c))"

text \<open>The terminal flag of every head is that of its latest event.\<close>

definition flags_inv :: "ledger_db \<Rightarrow> bool" where
  "flags_inv db \<longleftrightarrow>
     (\<forall>h \<in> set (head_rows db).
        h_is_terminal h = (if h_latest_event_type h \<in> event_value ` set terminal_events then 1 else 0))"

definition ledger_inv :: "ledger_db \<Rightarrow> bool" where
  "ledger_inv db \<longleftrightarrow> chain_inv db \<and> heads_inv db"

lemma ledger_inv_empty: "ledger_inv empty_db" "flags_inv empty_db"
  by (simp_all add: ledger_inv_def chain_inv_def heads_inv_def flags_inv_def empty_db_def lineage_rows_def
      head_lookup_def last_row_def)

lemma chain_inv_links: "chain_inv db \<Longrightarrow> links_ok genesis_hash 1 (lineage_rows db c)"
  by (simp add: chain_inv_def)

lemma latest_row_last:
  assumes "chain_inv db"
  shows "latest_row db c = last_row db c"
  using sorted_less_sort_key(2)[OF links_ok_sorted[OF chain_inv_links[OF assms, of c]]]
  by (cases "lineage_rows db c" rule: rev_cases) (simp_all add: latest_row_def last_row_def)

text \<open>The tip is the number of events of the lineage and the digest of the last one.\<close>

lemma chain_tip_inv:
  assumes "chain_inv db"
  shows "chain_tip db cid =
     (int (length (lineage_rows db (str_uuid cid))), tip_hash genesis_hash (lineage_rows db (str_uuid cid)))"
  using links_ok_last[OF chain_inv_links[OF assms, of "str_uuid cid"]]
  by (auto simp: chain_tip_def latest_row_last[OF assms] last_row_def tip_hash_def Let_def)

subsection \<open>A row reads back as its event\<close>

definition wf_event :: "LedgerEvent \<Rightarrow> bool" where
  "wf_event e \<longleftrightarrow> valid_datetime (recorded_at e) \<and> aware (recorded_at e) \<and> 0 \<le> attempt e"

text \<open>The event with its payload as the column gives it back.\<close>

definition reloaded :: "LedgerEvent \<Rightarrow> LedgerEvent" where
  "reloaded e = e\<lparr>payload := loads_json_members (stored_json_members (payload e))\<rparr>"

lemma optional_uuid_roundtrip [simp]: "optional_uuid (map_option str_uuid x) = Inr x"
  by (cases x) (simp_all add: optional_uuid_def parse_str_uuid)

lemma datetime_aware_id: "aware d \<Longrightarrow> d\<lparr>aware := True\<rparr> = d"
  by simp

lemma insert_params_Inr:
  assumes "insert_params e key = Inr r"
  obtains ver prev h where "state_version e = Some ver" "prev_hash e = Some prev"
    "event_hash e = Some h" "aware (recorded_at e)"
    "r = \<lparr>c_sequence_id = 0, c_event_id = str_uuid (event_id e),
          c_correlation_id = str_uuid (correlation_id e),
          c_session_id = map_option str_uuid (session_id e),
          c_causation_id = map_option str_uuid (causation_id e),
          c_state_version = ver, c_idempotency_key = key, c_attempt = attempt e,
          c_discriminator = discriminator e, c_event_type = event_value (event_type e),
          c_execution_mode = modality_value (execution_mode e), c_agent_role = agent_role e,
          c_worker_image = allocated_worker_image e,
          c_payload = stored_json (PDict (payload e)),
          c_prev_hash = prev, c_event_hash = h, c_recorded_at = isoformat (recorded_at e)\<rparr>"
  using assms by (auto simp: insert_params_def to_iso_def split: option.splits if_splits)

lemma row_roundtrip:
  assumes "insert_params e key = Inr r" "wf_event e"
  shows "row_to_event (r\<lparr>c_sequence_id := seq\<rparr>) = Inr ((reloaded e)\<lparr>sequence_id := Some seq\<rparr>)"
proof -
  have "fromisoformat (isoformat (recorded_at e)) = Inr (recorded_at e)"
    using assms(2) fromisoformat_isoformat by (simp add: wf_event_def)
  moreover obtain ver prev h where "state_version e = Some ver" "prev_hash e = Some prev"
    "event_hash e = Some h" "aware (recorded_at e)" using assms(1) by (rule insert_params_Inr)
  ultimately show ?thesis using assms
    by (auto simp: insert_params_def to_iso_def row_to_event_def reloaded_def validate_event_def
        wf_event_def parse_str_uuid)
qed

subsection \<open>What a successful append does\<close>

text \<open>Every way \<open>append_tx\<close> can return: a suppressed duplicate, or one new row and its head.\<close>

definition new_row :: "LedgerEvent \<Rightarrow> string \<Rightarrow> int \<Rightarrow> ledger_row \<Rightarrow> bool" where
  "new_row e key seq r \<longleftrightarrow> (\<exists>r0. insert_params e key = Inr r0 \<and> r = r0\<lparr>c_sequence_id := seq\<rparr>)"

lemma append_tx_cases:
  assumes "append_tx H e seen db = Inr (e', db')"
  obtains
    (duplicate) key where "idempotency_key H e = Inr key" "db' = db"
      "find_by_key seen key = Inr (Some e') \<or> find_by_key db key = Inr (Some e')"
  | (written) key version prev e1 r0 db1 where
      "idempotency_key H e = Inr key" "find_by_key seen key = Inr None"
      "chain_tip seen (correlation_id e) = (version, prev)"
      "sealed H e (- 1) (version + 1) prev = Inr e1" "insert_params e1 key = Inr r0"
      "insert_ledger r0 db = Inr (next_sequence db, db1)"
      "e' = e1\<lparr>sequence_id := Some (next_sequence db)\<rparr>" "update_head e' db1 = Inr db'"
proof -
  from assms obtain key existing where k: "idempotency_key H e = Inr key"
    and f: "find_by_key seen key = Inr existing"
    by (auto simp: append_tx_def rbind_eq_Inr)
  show thesis
  proof (cases existing)
    case (Some x)
    then show thesis using assms k f by (intro duplicate) (auto simp: append_tx_def)
  next
    case None
    obtain version prev where tip: "chain_tip seen (correlation_id e) = (version, prev)"
      by (cases "chain_tip seen (correlation_id e)")
    from assms k f None tip obtain e1 r0 where s: "sealed H e (- 1) (version + 1) prev = Inr e1"
      and r0: "insert_params e1 key = Inr r0"
      by (auto simp: append_tx_def rbind_eq_Inr)
    note unfold = append_tx_def k f None tip s r0
    show thesis
    proof (cases "insert_ledger r0 db")
      case (Inl err)
      then show thesis using assms k
        by (intro duplicate[OF k]) (auto simp: unfold rbind_eq_Inr split: py_error.splits option.splits)
    next
      case (Inr p)
      obtain seq db1 where p: "p = (seq, db1)" by (cases p)
      then have seq: "seq = next_sequence db"
        using Inr by (auto simp: insert_ledger_def Let_def split: if_splits)
      then show thesis using assms Inr p
        by (intro written[OF k f[unfolded None] tip s r0])
          (auto simp: unfold Let_def rmap_eq_Inr)
    qed
  qed
qed

lemma insert_ledger_Inr:
  assumes "insert_ledger r db = Inr (seq, db')"
  shows "ledger_checks r" "\<forall>r' \<in> set (ledger_rows db). \<not> ledger_conflict r r'" "seq = next_sequence db"
    "db' = db\<lparr>ledger_rows := ledger_rows db @ [r\<lparr>c_sequence_id := seq\<rparr>], next_sequence := seq + 1\<rparr>"
  using assms by (auto simp: insert_ledger_def Let_def split: if_splits)

subsection \<open>Preservation\<close>

definition appended :: "ledger_db \<Rightarrow> ledger_row \<Rightarrow> ledger_db" where
  "appended db r = db\<lparr>ledger_rows := ledger_rows db @ [r], next_sequence := next_sequence db + 1\<rparr>"

lemma lineage_rows_appended:
  "lineage_rows (appended db r) c = lineage_rows db c @ (if c_correlation_id r = c then [r] else [])"
  by (simp add: lineage_rows_def appended_def)

lemma last_row_appended:
  "last_row (appended db r) c = (if c_correlation_id r = c then Some r else last_row db c)"
  by (simp add: last_row_def lineage_rows_appended Let_def)

text \<open>A version that is free in \<open>db\<close> and follows the tip of a prefix of \<open>db\<close> follows the tip of \<open>db\<close>:
  a writer whose tip is stale cannot insert.\<close>

lemma fresh_tip_is_current:
  assumes "chain_inv seen" "chain_inv db" "ledger_rows db = ledger_rows seen @ later"
    and free: "\<forall>r \<in> set (lineage_rows db c). c_state_version r \<noteq> int (length (lineage_rows seen c)) + 1"
  shows "lineage_rows db c = lineage_rows seen c"
proof (rule ccontr)
  let ?more = "filter (\<lambda>r. c_correlation_id r = c) later"
  have split: "lineage_rows db c = lineage_rows seen c @ ?more"
    by (simp add: lineage_rows_def assms(3))
  assume "lineage_rows db c \<noteq> lineage_rows seen c"
  then obtain r rs where more: "?more = r # rs" using split by (cases ?more) auto
  have "links_ok genesis_hash 1 (lineage_rows seen c @ r # rs)"
    using chain_inv_links[OF assms(2), of c] split more by simp
  then have "c_state_version r = int (length (lineage_rows seen c)) + 1"
    by (simp add: links_ok_append)
  then show False using free split more by auto
qed

lemma chain_inv_appended:
  assumes inv: "chain_inv db"
    and r: "c_prev_hash r = tip_hash genesis_hash (lineage_rows db (c_correlation_id r))"
      "c_state_version r = int (length (lineage_rows db (c_correlation_id r))) + 1"
      "c_sequence_id r = next_sequence db" "length (c_event_hash r) = 64" "row_readable r"
    and free: "\<forall>r' \<in> set (ledger_rows db). \<not> ledger_conflict r r'"
  shows "chain_inv (appended db r)"
proof -
  have "links_ok genesis_hash 1 (lineage_rows (appended db r) c)" for c
    using inv r(1,2,4) by (auto simp: chain_inv_def lineage_rows_appended links_ok_append)
  moreover have "c_idempotency_key r \<notin> c_idempotency_key ` set (ledger_rows db)"
    "c_event_id r \<notin> c_event_id ` set (ledger_rows db)"
    using free by (auto simp: ledger_conflict_def)
  ultimately show ?thesis
    using inv r(3,5) by (auto simp: chain_inv_def appended_def sorted_wrt_append less_SucI)
qed

lemma find_upsert_head:
  "find (\<lambda>h. h_correlation_id h = c) (upsert_head x hs) =
     (if c = h_correlation_id x
      then Some (case find (\<lambda>h. h_correlation_id h = c) hs of
         None \<Rightarrow> x
       | Some h \<Rightarrow> x\<lparr>h_session_id := (case h_session_id x of None \<Rightarrow> h_session_id h | Some s \<Rightarrow> Some s),
                      h_opened_at := h_opened_at h\<rparr>)
      else find (\<lambda>h. h_correlation_id h = c) hs)"
  by (induction hs) auto

lemma upsert_head_ids:
  "h_correlation_id ` set (upsert_head x hs) = insert (h_correlation_id x) (h_correlation_id ` set hs)"
  by (induction hs) auto

lemma distinct_upsert_head:
  "distinct (map h_correlation_id hs) \<Longrightarrow> distinct (map h_correlation_id (upsert_head x hs))"
  by (induction hs) (auto simp: upsert_head_ids)

lemma set_upsert_head:
  "h \<in> set (upsert_head x hs) \<Longrightarrow>
     h \<in> set hs \<or> h_latest_event_type h = h_latest_event_type x \<and> h_is_terminal h = h_is_terminal x"
  by (induction hs) (auto split: if_splits)

lemma heads_inv_upsert:
  assumes "heads_inv db" "head_tracks x r"
  shows "heads_inv (appended db r\<lparr>head_rows := upsert_head x (head_rows db)\<rparr>)"
proof -
  let ?db = "appended db r\<lparr>head_rows := upsert_head x (head_rows db)\<rparr>"
  have last: "last_row ?db c = (if c_correlation_id r = c then Some r else last_row db c)" for c
    using last_row_appended[of db r c] by (simp add: last_row_def lineage_rows_def)
  have "rel_option head_tracks (head_lookup ?db c) (last_row ?db c)" for c
  proof (cases "c = h_correlation_id x")
    case True
    then show ?thesis using assms(2) last[of c]
      by (auto simp: head_lookup_def find_upsert_head head_tracks_def split: option.splits)
  next
    case False
    then show ?thesis using assms last[of c]
      by (auto simp: head_lookup_def find_upsert_head head_tracks_def heads_inv_def)
  qed
  then show ?thesis using assms(1)
    by (simp add: heads_inv_def distinct_upsert_head)
qed

lemma terminal_value_iff: "event_value t \<in> event_value ` set terminal_events \<longleftrightarrow> is_terminal_event t"
  using event_value_inj by (auto simp: is_terminal_event_def)

text \<open>The row and the head that a successful append writes.\<close>

definition with_head :: "ledger_db \<Rightarrow> head_row \<Rightarrow> ledger_db" where
  "with_head db x = db\<lparr>head_rows := upsert_head x (head_rows db)\<rparr>"

definition written_row :: "LedgerEvent \<Rightarrow> string \<Rightarrow> ledger_row \<Rightarrow> bool" where
  "written_row e key r \<longleftrightarrow>
     c_correlation_id r = str_uuid (correlation_id e) \<and> c_event_id r = str_uuid (event_id e) \<and>
     c_idempotency_key r = key \<and> sequence_id e = Some (c_sequence_id r) \<and>
     state_version e = Some (c_state_version r) \<and> prev_hash e = Some (c_prev_hash r) \<and>
     event_hash e = Some (c_event_hash r) \<and> c_event_type r = event_value (event_type e) \<and>
     c_payload r = stored_json (PDict (payload e)) \<and> c_execution_mode r = modality_value (execution_mode e) \<and>
     (wf_event e \<longrightarrow> row_to_event r = Inr (reloaded e))"

lemma append_tx_effect:
  assumes "append_tx H e seen db = Inr (e', db')"
  obtains
    (duplicate) key where "idempotency_key H e = Inr key" "db' = db"
      "find_by_key seen key = Inr (Some e') \<or> find_by_key db key = Inr (Some e')"
  | (written) key version prev h r x where
      "idempotency_key H e = Inr key" "find_by_key seen key = Inr None"
      "chain_tip seen (correlation_id e) = (version, prev)"
      "compute_event_digest H prev (correlation_id e) (event_type e) (version + 1) (payload e) (recorded_at e) = Inr h"
      "e' = e\<lparr>sequence_id := Some (next_sequence db), state_version := Some (version + 1),
              prev_hash := Some prev, event_hash := Some h\<rparr>"
      "written_row e' key r" "ledger_checks r" "\<forall>r' \<in> set (ledger_rows db). \<not> ledger_conflict r r'"
      "db' = with_head (appended db r) x" "head_tracks x r"
      "h_is_terminal x = (if is_terminal_event (event_type e) then 1 else 0)"
      "h_latest_event_type x = event_value (event_type e)"
  using assms
proof (cases rule: append_tx_cases)
  case (written key version prev e1 r0 db1)
  let ?r = "r0\<lparr>c_sequence_id := next_sequence db\<rparr>"
  obtain h where h: "compute_event_digest H prev (correlation_id e) (event_type e) (version + 1)
      (payload e) (recorded_at e) = Inr h"
    and e1: "e1 = e\<lparr>sequence_id := Some (- 1), state_version := Some (version + 1),
                  prev_hash := Some prev, event_hash := Some h\<rparr>"
    using sealed_fields[OF written(4)] by blast
  have db1: "db1 = appended db ?r" and ins: "ledger_checks r0" "\<forall>r' \<in> set (ledger_rows db). \<not> ledger_conflict r0 r'"
    using insert_ledger_Inr[OF written(6)] by (simp_all add: appended_def)
  have "wf_event e1 \<longrightarrow> row_to_event ?r = Inr ((reloaded e1)\<lparr>sequence_id := Some (next_sequence db)\<rparr>)"
    using row_roundtrip[OF written(5)] by blast
  then have row: "written_row e' key ?r"
    using written(5,7) by (auto simp: e1 written_row_def wf_event_def reloaded_def elim!: insert_params_Inr)
  obtain x where x: "db' = db1\<lparr>head_rows := upsert_head x (head_rows db1)\<rparr>" "head_tracks x ?r"
    "h_is_terminal x = (if is_terminal_event (event_type e) then 1 else 0)"
    "h_latest_event_type x = event_value (event_type e)"
    using written(8) row by (auto simp: update_head_def e1 written(7) rbind_eq_Inr written_row_def head_tracks_def)
  show thesis
    by (rule that(2)[OF written(1-3) h _ row])
      (use ins x in \<open>simp_all add: e1 written(7) db1 with_head_def ledger_checks_def ledger_conflict_def\<close>)
qed (rule that(1))

lemma lineage_rows_with_head [simp]: "lineage_rows (with_head db x) c = lineage_rows db c"
  by (simp add: lineage_rows_def with_head_def)

lemma chain_inv_with_head [simp]: "chain_inv (with_head db x) = chain_inv db"
  by (simp add: chain_inv_def) (simp add: with_head_def)

definition extends :: "ledger_db \<Rightarrow> ledger_db \<Rightarrow> bool" where
  "extends db seen \<longleftrightarrow> (\<exists>later. ledger_rows db = ledger_rows seen @ later)"

lemma extends_refl [simp]: "extends db db"
  by (simp add: extends_def)

lemma extends_trans: "extends c b \<Longrightarrow> extends b a \<Longrightarrow> extends c a"
  by (auto simp: extends_def)

text \<open>The ledger is append-only.\<close>

lemma append_tx_extends: "append_tx H e seen db = Inr (e', db') \<Longrightarrow> extends db' db"
  by (erule append_tx_effect) (auto simp: extends_def with_head_def appended_def)

lemma append_tx_chain_inv:
  assumes tx: "append_tx H e seen db = Inr (e', db')" and wf: "wf_event e"
    and inv: "chain_inv seen" "chain_inv db" "extends db seen"
  shows "chain_inv db'"
  using tx
proof (cases rule: append_tx_effect)
  case (written key version prev h r x)
  let ?c = "c_correlation_id r"
  have e': "wf_event e'" using wf by (simp add: written(5) wf_event_def)
  from inv(3) obtain later where later: "ledger_rows db = ledger_rows seen @ later"
    by (auto simp: extends_def)
  have c: "?c = str_uuid (correlation_id e)" and rv: "c_state_version r = version + 1"
    "c_prev_hash r = prev" "c_sequence_id r = next_sequence db"
    using written(6) by (auto simp: written_row_def written(5))
  have tip: "version = int (length (lineage_rows seen ?c))" "prev = tip_hash genesis_hash (lineage_rows seen ?c)"
    using chain_tip_inv[OF inv(1), of "correlation_id e"] written(3) c by auto
  have "lineage_rows db ?c = lineage_rows seen ?c"
    by (rule fresh_tip_is_current[OF inv(1,2) later])
      (use written(8) rv tip in \<open>auto simp: ledger_conflict_def lineage_rows_def\<close>)
  then have "chain_inv (appended db r)"
    using rv tip written(6,7,8) e' inv(2)
    by (intro chain_inv_appended) (auto simp: ledger_checks_def row_readable_def written_row_def)
  then show ?thesis by (simp add: written(9))
qed (use inv in simp)

lemma append_tx_heads_inv:
  assumes "append_tx H e seen db = Inr (e', db')" "heads_inv db"
  shows "heads_inv db'"
  using assms(1)
  by (cases rule: append_tx_effect)
    (use assms(2) heads_inv_upsert in \<open>auto simp: with_head_def appended_def\<close>)

lemma append_tx_flags_inv:
  assumes "append_tx H e seen db = Inr (e', db')" "flags_inv db"
  shows "flags_inv db'"
  using assms(1)
proof (cases rule: append_tx_effect)
  case (written key version prev h r x)
  have "h_is_terminal g = (if h_latest_event_type g \<in> event_value ` set terminal_events then 1 else 0)"
    if "g \<in> set (head_rows db')" for g
  proof -
    have "g \<in> set (upsert_head x (head_rows db))"
      using that by (simp add: written(9) with_head_def appended_def)
    then show ?thesis
      using set_upsert_head[of g x "head_rows db"] assms(2) written(11,12)
      by (metis flags_inv_def terminal_value_iff)
  qed
  then show ?thesis by (simp add: flags_inv_def)
qed (use assms(2) in simp)

subsection \<open>Concurrent writers\<close>

text \<open>
  A run of the store: any number of processes append, and each transaction reads any state
  committed earlier in the run. The states are listed newest first; \<open>P\<close> is a property that all
  appended events have.
\<close>

inductive ledger_run :: "hash_fun \<Rightarrow> (LedgerEvent \<Rightarrow> bool) \<Rightarrow> ledger_db list \<Rightarrow> bool" for H P where
  run_empty: "ledger_run H P [empty_db]"
| run_append: "ledger_run H P (db # past) \<Longrightarrow> seen \<in> set (db # past) \<Longrightarrow> wf_event e \<Longrightarrow>
     append_tx H e seen db = Inr (e', db') \<Longrightarrow> P e \<Longrightarrow> ledger_run H P (db' # db # past)"

inductive_cases ledger_run_ConsE: "ledger_run H P (db # past)"

lemma ledger_run_inv:
  "ledger_run H P dbs \<Longrightarrow> dbs \<noteq> [] \<and> (\<forall>d \<in> set dbs. ledger_inv d \<and> flags_inv d \<and> extends (hd dbs) d)"
proof (induction rule: ledger_run.induct)
  case run_empty
  then show ?case using ledger_inv_empty by simp
next
  case (run_append db past seen e e' db')
  have chain: "chain_inv db'"
    by (rule append_tx_chain_inv[OF run_append.hyps(4,3)])
      (use run_append in \<open>auto simp: ledger_inv_def\<close>)
  have "heads_inv db'" "flags_inv db'"
    using append_tx_heads_inv[OF run_append.hyps(4)] append_tx_flags_inv[OF run_append.hyps(4)] run_append.IH
    by (auto simp: ledger_inv_def)
  moreover have "extends db' d" if "d \<in> set (db # past)" for d
    using extends_trans[OF append_tx_extends[OF run_append.hyps(4)]] run_append.IH that by auto
  ultimately show ?case using chain run_append.IH by (auto simp: ledger_inv_def)
qed

lemma append_event_ledger_inv:
  assumes "ledger_inv db" "wf_event e"
  shows "ledger_inv (snd (append_event H e db))"
proof (cases "append_tx H e db db")
  case (Inr p)
  then show ?thesis
    using assms append_tx_chain_inv[of H e db db] append_tx_heads_inv[of H e db db]
    by (cases p) (auto simp: append_event_def commit_def ledger_inv_def)
qed (use assms in \<open>simp add: append_event_def commit_def\<close>)

lemma append_event_flags_inv:
  assumes "flags_inv db"
  shows "flags_inv (snd (append_event H e db))"
  using assms append_tx_flags_inv[of H e db db]
  by (cases "append_tx H e db db") (auto simp: append_event_def commit_def)

lemma append_event_extends: "extends (snd (append_event H e db)) db"
  using append_tx_extends[of H e db db]
  by (cases "append_tx H e db db") (auto simp: append_event_def commit_def)

end
