(* ===== verification/Ledger_Integrity.thy ===== *)
theory Ledger_Integrity
  imports Ledger_Invariant
begin

text \<open>
  What the ledger's callers rely on: an append of a fresh event succeeds and takes the next
  version, a redelivered event is answered with the stored one and changes nothing, a ledger
  written through \<open>append\<close> verifies, and a lineage that verifies cannot differ from another one
  with the same final digest without a collision of the hash.
\<close>

subsection \<open>Reading rows\<close>

lemma row_to_event_fields:
  assumes "row_to_event r = Inr e"
  shows "sequence_id e = Some (c_sequence_id r)" "state_version e = Some (c_state_version r)"
    "prev_hash e = Some (c_prev_hash r)" "event_hash e = Some (c_event_hash r)"
    "event_of_value (c_event_type r) = Inr (event_type e)" "parse_uuid (c_correlation_id r) = Inr (correlation_id e)"
    "attempt e = c_attempt r" "discriminator e = c_discriminator r"
    "payload_of_json (c_payload r) = Inr (payload e)" "parse_uuid (c_event_id r) = Inr (event_id e)"
  using assms by (auto simp: row_to_event_def validate_event_def rbind_eq_Inr split: if_splits)

lemma rmapM_total:
  assumes "\<And>x. x \<in> set xs \<Longrightarrow> \<exists>y. f x = Inr y"
  shows "\<exists>ys. rmapM f xs = Inr ys"
  using assms
proof (induction xs)
  case (Cons x xs)
  then obtain y ys where "f x = Inr y" "rmapM f xs = Inr ys" by (metis list.set_intros)
  then show ?case by simp
qed simp

lemma row_readableE:
  assumes "row_readable r" obtains e where "row_to_event r = Inr e"
  using assms by (auto simp: row_readable_def split: sum.splits)

lemma chain_inv_readable: "chain_inv db \<Longrightarrow> r \<in> set (ledger_rows db) \<Longrightarrow> \<exists>e. row_to_event r = Inr e"
  using row_readableE unfolding chain_inv_def by metis

lemma read_correlation_inv:
  assumes "chain_inv db" "0 \<le> v"
  shows "read_correlation db cid v = rmapM row_to_event (drop (nat v) (lineage_rows db (str_uuid cid)))"
proof -
  let ?rs = "lineage_rows db (str_uuid cid)"
  have links: "links_ok genesis_hash 1 ?rs" by (rule chain_inv_links[OF assms(1)])
  have low: "filter (\<lambda>r. c_state_version r > v) (take (nat v) ?rs) = []"
  proof (cases "nat v \<le> length ?rs")
    case True
    have "links_ok genesis_hash 1 (take (nat v) ?rs)"
      using links links_ok_append[of genesis_hash 1 "take (nat v) ?rs" "drop (nat v) ?rs"] by simp
    then show ?thesis using links_ok_bounds(2)[of genesis_hash 1 "take (nat v) ?rs"] assms(2) True
      by (fastforce simp: filter_empty_conv)
  next
    case False
    then show ?thesis using links_ok_bounds(2)[OF links] by (fastforce simp: filter_empty_conv)
  qed
  have "filter (\<lambda>r. c_state_version r > v) (drop (nat v) ?rs) = drop (nat v) ?rs"
  proof (cases "nat v \<le> length ?rs")
    case True
    have "links_ok (tip_hash genesis_hash (take (nat v) ?rs)) (1 + v) (drop (nat v) ?rs)"
      using links links_ok_append[of genesis_hash 1 "take (nat v) ?rs" "drop (nat v) ?rs"] True assms(2)
      by (simp add: min_absorb2)
    then show ?thesis using links_ok_bounds(1) by (fastforce simp: filter_id_conv)
  qed simp
  then have "filter (\<lambda>r. c_state_version r > v) ?rs = drop (nat v) ?rs"
    using low by (metis append_Nil append_take_drop_id filter_append)
  moreover have "sorted_wrt (<) (map c_state_version (drop (nat v) ?rs))"
    using links_ok_sorted[OF links] by (simp add: drop_map[symmetric] sorted_wrt_drop)
  ultimately show ?thesis by (simp add: read_correlation_def sorted_less_sort_key(1))
qed

lemma read_correlation_total:
  assumes "chain_inv db" "0 \<le> v"
  shows "\<exists>es. read_correlation db cid v = Inr es"
  unfolding read_correlation_inv[OF assms]
  using chain_inv_readable[OF assms(1)]
  by (intro rmapM_total) (auto simp: lineage_rows_def dest: in_set_dropD)

subsection \<open>Redelivery\<close>

lemma find_by_key_unique:
  assumes "distinct (map c_idempotency_key (ledger_rows db))" "r \<in> set (ledger_rows db)"
  shows "find_by_key db (c_idempotency_key r) = rmap Some (row_to_event r)"
proof -
  have "find (\<lambda>x. c_idempotency_key x = c_idempotency_key r) rs = Some r"
    if "distinct (map c_idempotency_key rs)" "r \<in> set rs" for rs
    using that by (induction rs) auto
  from this[OF assms] show ?thesis by (simp add: find_by_key_def)
qed

lemma find_SomeD: "find P xs = Some x \<Longrightarrow> x \<in> set xs \<and> P x"
  by (auto simp: find_Some_iff)

lemma find_by_key_Some:
  assumes "find_by_key db key = Inr (Some e)"
  obtains r where "r \<in> set (ledger_rows db)" "c_idempotency_key r = key" "row_to_event r = Inr e"
  using assms
  by (auto simp: find_by_key_def rmap_eq_Inr split: option.splits dest: find_SomeD)

lemma reloaded_row: "row_to_event r = Inr e \<Longrightarrow> reloaded e = e"
proof -
  assume "row_to_event r = Inr e"
  then have "payload_of_json (c_payload r) = Inr (payload e)" by (rule row_to_event_fields)
  then obtain ms where "payload e = loads_json_members ms" by (cases "c_payload r") (simp_all, metis)
  then have "loads_json_members (stored_json_members (payload e)) = payload e"
    by (simp add: stored_loads)
  then show "reloaded e = e" by (simp add: reloaded_def)
qed

text \<open>After an append under a key, the ledger answers for that key with the appended event.\<close>

lemma append_tx_key_found:
  assumes tx: "append_tx H e seen db = Inr (e', db')" and wf: "wf_event e"
    and inv: "chain_inv seen" "chain_inv db" "extends db seen"
    and key: "idempotency_key H e = Inr key"
  shows "find_by_key db' key = Inr (Some (reloaded e'))"
  using tx
proof (cases rule: append_tx_effect)
  case (duplicate key')
  have sub: "r \<in> set (ledger_rows db)" if "r \<in> set (ledger_rows seen)" for r
    using inv(3) that by (auto simp: extends_def)
  obtain r where r: "r \<in> set (ledger_rows db)" "c_idempotency_key r = key'" "row_to_event r = Inr e'"
    using duplicate(3) find_by_key_Some sub by metis
  have "find_by_key db (c_idempotency_key r) = rmap Some (row_to_event r)"
    by (rule find_by_key_unique) (use inv(2) r(1) in \<open>simp_all add: chain_inv_def\<close>)
  then show ?thesis using r duplicate(1,2) key reloaded_row[OF r(3)] by simp
next
  case (written key' version prev h r x)
  have "chain_inv db'" by (rule append_tx_chain_inv[OF tx wf inv])
  moreover have "r \<in> set (ledger_rows db')" by (simp add: written(9) with_head_def appended_def)
  ultimately have "find_by_key db' (c_idempotency_key r) = rmap Some (row_to_event r)"
    by (intro find_by_key_unique) (simp_all add: chain_inv_def)
  moreover have "wf_event e'" using wf by (simp add: written(5) wf_event_def)
  ultimately show ?thesis using written(1,6) key by (simp add: written_row_def)
qed

lemma append_event_Inr:
  "append_event H e db = (Inr e', db') \<longleftrightarrow> append_tx H e db db = Inr (e', db')"
  by (auto simp: append_event_def commit_def split: sum.splits prod.splits)

lemma append_event_redelivery:
  assumes first: "append_event H e db = (Inr e1, db1)" and wf: "wf_event e" and inv: "chain_inv db"
    and same: "idempotency_key H e2 = idempotency_key H e"
  shows "append_event H e2 db1 = (Inr (reloaded e1), db1)"
proof -
  have tx: "append_tx H e db db = Inr (e1, db1)" using first by (simp add: append_event_Inr)
  then obtain key where key: "idempotency_key H e = Inr key" by (cases rule: append_tx_effect) auto
  have "find_by_key db1 key = Inr (Some (reloaded e1))"
    by (rule append_tx_key_found[OF tx wf inv inv _ key]) simp
  then show ?thesis using key same by (simp add: append_event_Inr append_tx_def)
qed

subsection \<open>A fresh append succeeds\<close>

lemma find_by_key_fresh: "key \<notin> c_idempotency_key ` set (ledger_rows db) \<Longrightarrow> find_by_key db key = Inr None"
  by (auto simp: find_by_key_def find_None_iff split: option.splits dest!: find_SomeD)

text \<open>The row of an event sealed at the tip meets every constraint of the table.\<close>

lemma tip_row_accepted:
  assumes "hex_digest H" and inv: "chain_inv db"
    and r: "c_prev_hash r = tip_hash genesis_hash (lineage_rows db (c_correlation_id r))"
      "c_state_version r = int (length (lineage_rows db (c_correlation_id r))) + 1"
      "c_event_hash r = H m" "json_valid (c_payload r)"
      "c_idempotency_key r \<notin> c_idempotency_key ` set (ledger_rows db)"
      "c_event_id r \<notin> c_event_id ` set (ledger_rows db)"
  shows "insert_ledger r db =
     Inr (next_sequence db, appended db (r\<lparr>c_sequence_id := next_sequence db\<rparr>))"
proof -
  have "ledger_checks r"
    using r hex_digest.digest_length[OF assms(1)] links_ok_hash_length[OF chain_inv_links[OF inv]]
    by (simp add: ledger_checks_def)
  moreover have "\<not> ledger_conflict r r'" if "r' \<in> set (ledger_rows db)" for r'
  proof -
    have "c_state_version r' < 1 + int (length (lineage_rows db (c_correlation_id r)))"
      if "c_correlation_id r' = c_correlation_id r"
      by (rule links_ok_bounds(2)[OF chain_inv_links[OF inv]])
        (use that \<open>r' \<in> set (ledger_rows db)\<close> in \<open>simp add: lineage_rows_def\<close>)
    then show ?thesis using that r(2,5,6) by (auto simp: ledger_conflict_def image_iff)
  qed
  ultimately show ?thesis by (simp add: insert_ledger_def appended_def Let_def)
qed

lemma append_event_fresh:
  assumes H: "hex_digest H" and inv: "chain_inv db" and wf: "wf_event e"
    and enc: "fallback_json (PDict (payload e)) = Inr j" "json_valid (stored_json (PDict (payload e)))"
    and key: "idempotency_key H e = Inr key"
    and fresh: "key \<notin> c_idempotency_key ` set (ledger_rows db)"
      "str_uuid (event_id e) \<notin> c_event_id ` set (ledger_rows db)"
  obtains e' db' r where "append_event H e db = (Inr e', db')" "ledger_rows db' = ledger_rows db @ [r]"
    "written_row e' key r" "row_to_event r = Inr (reloaded e')"
    "c_state_version r = int (length (lineage_rows db (str_uuid (correlation_id e)))) + 1"
proof -
  let ?rs = "lineage_rows db (str_uuid (correlation_id e))"
  let ?prev = "tip_hash genesis_hash ?rs" and ?n = "int (length ?rs)"
  obtain m where m: "digest_material ?prev (correlation_id e) (event_type e) (?n + 1)
      (payload e) (recorded_at e) = Inr m"
    using enc(1) by (simp add: digest_material_eq del: fallback_json.simps)
  define e1 where "e1 = e\<lparr>sequence_id := Some (- 1), state_version := Some (?n + 1),
    prev_hash := Some ?prev, event_hash := Some (H m)\<rparr>"
  have sealed: "sealed H e (- 1) (?n + 1) ?prev = Inr e1"
    using m by (simp add: sealed_def compute_event_digest_def e1_def)
  obtain r0 where r0: "insert_params e1 key = Inr r0" "c_correlation_id r0 = str_uuid (correlation_id e)"
    "c_prev_hash r0 = ?prev" "c_state_version r0 = ?n + 1" "c_event_hash r0 = H m"
    "c_payload r0 = stored_json (PDict (payload e))" "c_idempotency_key r0 = key"
    "c_event_id r0 = str_uuid (event_id e)"
    using wf by (simp add: insert_params_def e1_def to_iso_def wf_event_def)
  have ins: "insert_ledger r0 db =
      Inr (next_sequence db, appended db (r0\<lparr>c_sequence_id := next_sequence db\<rparr>))"
    by (rule tip_row_accepted[OF H inv, where m = m]) (use r0 enc(2) fresh in simp_all)
  obtain e' db' where "e' = e1\<lparr>sequence_id := Some (next_sequence db)\<rparr>"
    "update_head e' (appended db (r0\<lparr>c_sequence_id := next_sequence db\<rparr>)) = Inr db'"
    using wf by (simp add: update_head_def e1_def to_iso_def wf_event_def)
  then have tx: "append_tx H e db db = Inr (e', db')"
    by (simp add: append_tx_def key find_by_key_fresh[OF fresh(1)] chain_tip_inv[OF inv]
        sealed r0(1) ins Let_def)
  from tx show thesis
  proof (cases rule: append_tx_effect)
    case (duplicate key')
    then show thesis using key find_by_key_fresh[OF fresh(1)] by auto
  next
    case (written key' version prev h r x)
    have "wf_event e'" using wf by (simp add: written(5) wf_event_def)
    moreover have "version = ?n" using written(3) chain_tip_inv[OF inv] by simp
    moreover have "key' = key" using written(1) key by simp
    ultimately show thesis
      using written by (intro that[of e' db' r]) (simp_all add: append_event_Inr tx written_row_def with_head_def appended_def)
  qed
qed

subsection \<open>A ledger written by append verifies\<close>

definition digests_inv :: "hash_fun \<Rightarrow> ledger_db \<Rightarrow> bool" where
  "digests_inv H db \<longleftrightarrow>
     (\<forall>r \<in> set (ledger_rows db). \<forall>e. row_to_event r = Inr e \<longrightarrow> verify_digest H e = Inr True)"

lemma verify_digest_reloaded:
  "storable_members (payload e) \<Longrightarrow> verify_digest H (reloaded e) = verify_digest H e"
proof -
  assume "storable_members (payload e)"
  then have "fallback_json (PDict (payload (reloaded e))) = fallback_json (PDict (payload e))"
    by (simp add: reloaded_def fallback_storable fallback_loads)
  then show ?thesis
    using compute_event_digest_cong[of "payload (reloaded e)" "payload e"]
    by (simp add: verify_digest_def reloaded_def split: option.splits)
qed

lemma append_tx_digests_inv:
  assumes tx: "append_tx H e seen db = Inr (e', db')" and wf: "wf_event e"
    and st: "storable_members (payload e)" and inv: "digests_inv H db"
  shows "digests_inv H db'"
  using tx
proof (cases rule: append_tx_effect)
  case (written key version prev h r x)
  have "wf_event e'" using wf by (simp add: written(5) wf_event_def)
  then have "row_to_event r = Inr (reloaded e')" using written(6) by (simp add: written_row_def)
  moreover have "verify_digest H (reloaded e') = Inr True"
    using st written(4) by (subst verify_digest_reloaded) (simp_all add: written(5) verify_digest_def)
  ultimately show ?thesis using inv
    by (auto simp: digests_inv_def written(9) with_head_def appended_def)
qed (use inv in simp)

lemma verify_linked_rows:
  assumes "links_ok prev ver rs" "rmapM row_to_event rs = Inr es"
    and "\<And>r e. r \<in> set rs \<Longrightarrow> row_to_event r = Inr e \<Longrightarrow> verify_digest H e = Inr True"
  shows "verify_events H prev ver es = Inr []"
  using assms
proof (induction rs arbitrary: prev ver es)
  case (Cons r rs)
  from Cons.prems(2) obtain e es' where es: "row_to_event r = Inr e" "rmapM row_to_event rs = Inr es'"
    "es = e # es'" by (auto simp: rbind_eq_Inr)
  have "verify_events H (c_event_hash r) (ver + 1) es' = Inr []"
    using Cons.prems es by (intro Cons.IH) auto
  moreover have "verify_digest H e = Inr True" using Cons.prems(3)[of r e] es(1) by simp
  moreover have "c_event_hash r \<noteq> []" using Cons.prems(1) by auto
  ultimately show ?case
    using Cons.prems(1) row_to_event_fields[OF es(1)] by (simp add: es(3) hash_or_genesis_def)
qed simp

lemma verify_chain_inv:
  assumes "chain_inv db" "digests_inv H db"
  shows "verify_chain H db cid = Inr (True, [])"
proof -
  obtain es where es: "read_correlation db cid 0 = Inr es" using read_correlation_total[OF assms(1)] by force
  then have rows: "rmapM row_to_event (lineage_rows db (str_uuid cid)) = Inr es"
    using read_correlation_inv[OF assms(1), of 0] by simp
  have "verify_events H genesis_hash 1 es = Inr []"
    by (rule verify_linked_rows[OF chain_inv_links[OF assms(1)] rows])
      (use assms(2) in \<open>auto simp: digests_inv_def lineage_rows_def\<close>)
  then show ?thesis by (simp add: verify_chain_def es)
qed

lemma verify_all_chains_inv:
  assumes "chain_inv db" "digests_inv H db"
  shows "verify_all_chains H db = Inr []"
proof -
  have "rfold (\<lambda>report c. rbind (as_uuid (IdText c)) (\<lambda>cid.
          rmap (\<lambda>(ok, problems). if ok then report else dict_set report c problems) (verify_chain H db cid)))
        [] cs = Inr []" if "\<And>c. c \<in> set cs \<Longrightarrow> \<exists>u. parse_uuid c = Inr u" for cs
    using that
  proof (induction cs)
    case (Cons c cs)
    then obtain u where "parse_uuid c = Inr u" by (meson list.set_intros(1))
    with Cons show ?case by (simp add: verify_chain_inv[OF assms])
  qed simp
  moreover have "\<exists>u. parse_uuid c = Inr u" if "c \<in> set (remdups (map c_correlation_id (ledger_rows db)))" for c
    using that chain_inv_readable[OF assms(1)] row_to_event_fields(6) by fastforce
  ultimately show ?thesis unfolding verify_all_chains_def by blast
qed

subsection \<open>Tamper evidence\<close>

text \<open>What the digest of a stored event covers, and the text it hashes.\<close>

definition event_material :: "LedgerEvent \<Rightarrow> string result" where
  "event_material e =
     (case (prev_hash e, state_version e) of
        (Some prev, Some ver) \<Rightarrow>
          digest_material prev (correlation_id e) (event_type e) ver (payload e) (recorded_at e)
      | _ \<Rightarrow> Inl TypeError)"

definition same_covered :: "LedgerEvent \<Rightarrow> LedgerEvent \<Rightarrow> bool" where
  "same_covered e e' \<longleftrightarrow>
     correlation_id e = correlation_id e' \<and> event_type e = event_type e' \<and>
     state_version e = state_version e' \<and> prev_hash e = prev_hash e' \<and>
     payload_equiv (payload e) (payload e') \<and> isoformat (recorded_at e) = isoformat (recorded_at e')"

fun chain_verified :: "hash_fun \<Rightarrow> string \<Rightarrow> int \<Rightarrow> LedgerEvent list \<Rightarrow> bool" where
  "chain_verified H prev ver [] = True"
| "chain_verified H prev ver (e # es) =
     (verify_digest H e = Inr True \<and> prev_hash e = Some prev \<and> state_version e = Some ver \<and>
      chain_verified H (hash_or_genesis (event_hash e)) (ver + 1) es)"

lemma verify_events_iff: "verify_events H prev ver es = Inr [] \<longleftrightarrow> chain_verified H prev ver es"
proof (induction es arbitrary: prev ver)
  case (Cons e es)
  show ?case
    by (cases "verify_digest H e"; cases "state_version e")
      (auto simp: Let_def rmap_eq_Inr Cons.IH)
qed simp

definition events_tip :: "string \<Rightarrow> LedgerEvent list \<Rightarrow> string" where
  "events_tip prev es = (if es = [] then prev else hash_or_genesis (event_hash (last es)))"

lemma chain_verified_snoc:
  "chain_verified H prev ver (es @ [e]) \<longleftrightarrow>
     chain_verified H prev ver es \<and> verify_digest H e = Inr True \<and>
     prev_hash e = Some (events_tip prev es) \<and> state_version e = Some (ver + int (length es))"
  by (induction es arbitrary: prev ver) (auto simp: events_tip_def algebra_simps)

lemma verified_digest:
  assumes "verify_digest H e = Inr True"
  obtains m where "event_material e = Inr m" "event_hash e = Some (H m)"
  using assms by (auto simp: verify_digest_def event_material_def compute_event_digest_def rmap_eq_Inr
      split: option.splits)

lemma same_hash_same_fields:
  assumes H: "hex_digest H" and ok: "verify_digest H e = Inr True" "verify_digest H e' = Inr True"
    and wf: "wf_payload (payload e)" "wf_payload (payload e')"
    and hash: "hash_or_genesis (event_hash e) = hash_or_genesis (event_hash e')"
    and safe: "\<not> digest_collision H (event_material e) (event_material e')"
  shows "same_covered e e'"
proof -
  obtain m m' where m: "event_material e = Inr m" "event_hash e = Some (H m)"
    "event_material e' = Inr m'" "event_hash e' = Some (H m')"
    using verified_digest[OF ok(1)] verified_digest[OF ok(2)] by metis
  have "H x \<noteq> []" for x using hex_digest.digest_length[OF H, of x] by auto
  then have "H m = H m'" using hash m by (simp add: hash_or_genesis_def)
  then have "m = m'" using safe m by (simp add: digest_collision_def)
  moreover obtain prev ver prev' ver' where pv: "prev_hash e = Some prev" "state_version e = Some ver"
    "prev_hash e' = Some prev'" "state_version e' = Some ver'"
    using m(1,3) by (auto simp: event_material_def split: option.splits)
  ultimately have "digest_material prev (correlation_id e) (event_type e) ver (payload e) (recorded_at e) = Inr m"
    "digest_material prev' (correlation_id e') (event_type e') ver' (payload e') (recorded_at e') = Inr m"
    using m(1,3) by (simp_all add: event_material_def)
  from digest_material_inj[OF this wf] show ?thesis by (simp add: same_covered_def pv)
qed

lemma chain_binds_history:
  assumes H: "hex_digest H"
    and "chain_verified H prev ver es" "chain_verified H prev ver es'"
    and "es \<noteq> []" "es' \<noteq> []"
    and "hash_or_genesis (event_hash (last es)) = hash_or_genesis (event_hash (last es'))"
    and "\<And>e. e \<in> set es \<Longrightarrow> wf_payload (payload e)" "\<And>e. e \<in> set es' \<Longrightarrow> wf_payload (payload e)"
    and "\<And>e e'. e \<in> set es \<Longrightarrow> e' \<in> set es' \<Longrightarrow> \<not> digest_collision H (event_material e) (event_material e')"
  shows "list_all2 same_covered es es'"
  using assms(2-)
proof (induction es arbitrary: es' rule: rev_induct)
  case (snoc e es)
  from \<open>es' \<noteq> []\<close> obtain fs f where es': "es' = fs @ [f]" by (cases es' rule: rev_cases) auto
  have v: "chain_verified H prev ver es" "chain_verified H prev ver fs"
    "prev_hash e = Some (events_tip prev es)" "prev_hash f = Some (events_tip prev fs)"
    "state_version e = Some (ver + int (length es))" "state_version f = Some (ver + int (length fs))"
    using snoc.prems(1,2) by (simp_all add: es' chain_verified_snoc)
  have same: "same_covered e f"
    using snoc.prems by (intro same_hash_same_fields[OF H]) (simp_all add: es' chain_verified_snoc)
  then have len: "length es = length fs" and tip: "events_tip prev es = events_tip prev fs"
    using v by (simp_all add: same_covered_def)
  have "list_all2 same_covered es fs"
  proof (cases "es = []")
    case True
    then show ?thesis using len by simp
  next
    case False
    then have "fs \<noteq> []" using len by auto
    with False show ?thesis using snoc.prems v tip
      by (intro snoc.IH) (simp_all add: es' events_tip_def)
  qed
  with same show ?case by (simp add: es' list_all2_appendI)
qed simp

text \<open>A ledger that concurrent writers built from storable payloads verifies, lineage by lineage.\<close>

lemma ledger_run_digests:
  assumes "ledger_run H (\<lambda>e. storable_members (payload e)) dbs"
  shows "\<forall>d \<in> set dbs. digests_inv H d"
  using assms
proof (induction rule: ledger_run.induct)
  case run_empty
  then show ?case by (simp add: digests_inv_def empty_db_def)
next
  case (run_append db past seen e e' db')
  then show ?case using append_tx_digests_inv[OF run_append.hyps(4,3,5)] by simp
qed

lemma ledger_run_verifies:
  assumes "ledger_run H (\<lambda>e. storable_members (payload e)) dbs" "d \<in> set dbs"
  shows "verify_chain H d cid = Inr (True, [])" "verify_all_chains H d = Inr []"
  using ledger_run_digests[OF assms(1)] ledger_run_inv[OF assms(1)] assms(2)
    verify_chain_inv verify_all_chains_inv by (auto simp: ledger_inv_def)

text \<open>The same for the verifier of the store: equal tip hashes pin down the whole history.\<close>

lemma verify_chain_verified:
  assumes "verify_chain H db cid = Inr (True, ps)" "read_correlation db cid 0 = Inr es"
  shows "chain_verified H genesis_hash 1 es"
  using assms by (auto simp: verify_chain_def rmap_eq_Inr verify_events_iff)

lemma verify_chain_binds_history:
  assumes "hex_digest H"
    and "verify_chain H db cid = Inr (True, [])" "read_correlation db cid 0 = Inr es" "es \<noteq> []"
    and "verify_chain H db' cid = Inr (True, [])" "read_correlation db' cid 0 = Inr es'" "es' \<noteq> []"
    and "event_hash (last es) = event_hash (last es')"
    and "\<And>e. e \<in> set es \<union> set es' \<Longrightarrow> wf_payload (payload e)"
    and "\<And>e e'. e \<in> set es \<Longrightarrow> e' \<in> set es' \<Longrightarrow> \<not> digest_collision H (event_material e) (event_material e')"
  shows "list_all2 same_covered es es'"
  using chain_binds_history[OF assms(1) verify_chain_verified[OF assms(2,3)] verify_chain_verified[OF assms(5,6)]]
    assms by simp

subsection \<open>Payloads that do not survive the column\<close>

text \<open>A timestamp in a payload is digested with \<open>T\<close> between date and time and stored with a blank.\<close>

lemma isoformat_sep_nth10: "isoformat_sep sep d ! 10 = sep"
  by (simp add: isoformat_sep_def nth_append)

lemma datetime_payload_not_equiv:
  "\<not> payload_equiv [(k, PScalar (SDatetime d))]
       (loads_json_members (stored_json_members [(k, PScalar (SDatetime d))]))"
proof
  let ?b = "JObj [(k, JStr (isoformat_sep (CHR '' '') d))]"
  assume "payload_equiv [(k, PScalar (SDatetime d))]
       (loads_json_members (stored_json_members [(k, PScalar (SDatetime d))]))"
  then have "json_equiv (JObj [(k, JStr (isoformat d))]) ?b"
    by (simp add: payload_equiv_def)
  then have "isoformat d = isoformat_sep (CHR '' '') d"
    using json_equiv_sort[of _ ?b] by fastforce
  then show False
    using isoformat_sep_nth10[of "CHR ''T''" d] isoformat_sep_nth10[of "CHR '' ''" d] by (simp add: isoformat_def)
qed

lemma datetime_payload_detected:
  assumes H: "hex_digest H" and e: "verify_digest H e = Inr True"
    and p: "payload e = [(k, PScalar (SDatetime d))]"
    and safe: "\<not> digest_collision H (event_material e) (event_material (reloaded e))"
  shows "verify_digest H (reloaded e) = Inr False"
proof (rule ccontr)
  assume not: "verify_digest H (reloaded e) \<noteq> Inr False"
  have "verify_digest H (reloaded e) = Inr True \<or> verify_digest H (reloaded e) = Inr False"
    using e by (auto simp: verify_digest_def reloaded_def p compute_event_digest_def digest_material_def
        canonical_json_def split: option.splits)
  with not have "verify_digest H (reloaded e) = Inr True" by simp
  then have "same_covered e (reloaded e)"
    using e safe by (intro same_hash_same_fields[OF H]) (auto simp: p wf_payload_def reloaded_def)
  then show False using datetime_payload_not_equiv[of k d] by (simp add: same_covered_def reloaded_def p)
qed

end
