(* ===== verification/Ledger_Replay.thy ===== *)
theory Ledger_Replay
  imports Ledger_Integrity Dynamic_Values
begin

text \<open>
  Replay (\<open>paa.ledger.replay\<close>): the fold of a lineage's events into a \<open>TaskProjection\<close>, and
  \<open>project\<close>, which starts it from a snapshot when there is one.

  \<open>model_copy(update=...)\<close> does not validate, so a field that is copied from a payload holds
  whatever the payload held: those fields are \<open>pyval\<close>. The conversions that can raise (\<open>int\<close>,
  \<open>len\<close>, \<open>TaskPhase(...)\<close>) are error branches. \<open>TaskProjection.model_validate\<close> is code of the
  pydantic package and a parameter of \<open>project\<close>.
\<close>

subsection \<open>Phases\<close>

datatype TaskPhase =
    CREATED | QUEUED | HYDRATING | PLANNING | POLICY_REVIEW | EXECUTING | VALIDATING
  | AWAITING_HUMAN | COMMITTED | FAILED | BLOCKED | ROLLED_BACK | ABANDONED

fun phase_value :: "TaskPhase \<Rightarrow> string" where
  "phase_value CREATED = ''CREATED''"
| "phase_value QUEUED = ''QUEUED''"
| "phase_value HYDRATING = ''HYDRATING''"
| "phase_value PLANNING = ''PLANNING''"
| "phase_value POLICY_REVIEW = ''POLICY_REVIEW''"
| "phase_value EXECUTING = ''EXECUTING''"
| "phase_value VALIDATING = ''VALIDATING''"
| "phase_value AWAITING_HUMAN = ''AWAITING_HUMAN''"
| "phase_value COMMITTED = ''COMMITTED''"
| "phase_value FAILED = ''FAILED''"
| "phase_value BLOCKED = ''BLOCKED''"
| "phase_value ROLLED_BACK = ''ROLLED_BACK''"
| "phase_value ABANDONED = ''ABANDONED''"

definition all_phases :: "TaskPhase list" where
  "all_phases =
     [CREATED, QUEUED, HYDRATING, PLANNING, POLICY_REVIEW, EXECUTING, VALIDATING,
      AWAITING_HUMAN, COMMITTED, FAILED, BLOCKED, ROLLED_BACK, ABANDONED]"

definition terminal_phases :: "TaskPhase list" where
  "terminal_phases = [COMMITTED, FAILED, BLOCKED, ABANDONED]"

definition resumable_phases :: "TaskPhase list" where
  "resumable_phases =
     [CREATED, QUEUED, HYDRATING, PLANNING, POLICY_REVIEW, EXECUTING, VALIDATING, ROLLED_BACK]"

definition phase_is_terminal :: "TaskPhase \<Rightarrow> bool" where
  "phase_is_terminal p \<longleftrightarrow> p \<in> set terminal_phases"

definition phase_is_resumable :: "TaskPhase \<Rightarrow> bool" where
  "phase_is_resumable p \<longleftrightarrow> p \<in> set resumable_phases"

text \<open>\<open>TaskPhase(x)\<close> of a payload value.\<close>

fun phase_of_value :: "pyval \<Rightarrow> TaskPhase result" where
  "phase_of_value (PScalar (SStr s)) =
     (case find (\<lambda>p. phase_value p = s) all_phases of None \<Rightarrow> Inl ValueError | Some p \<Rightarrow> Inr p)"
| "phase_of_value _ = Inl ValueError"

subsection \<open>The projection\<close>

record TaskProjection =
  t_correlation_id :: string
  t_session_id :: "string option"
  t_phase :: TaskPhase
  t_modality :: ComplexityModality
  t_state_version :: int
  t_request :: pyval
  t_context_packet :: pyval
  t_plan_steps :: pyval
  t_current_step_index :: int
  t_completed_steps :: "int list"
  t_policy_decision :: pyval
  t_policy_reason :: pyval
  t_workspace_path :: pyval
  t_checkpoint_manifest_hash :: pyval
  t_applied_patch_sha256 :: pyval
  t_validation_verdict :: pyval
  t_attempts :: int
  t_rollback_count :: int
  t_escalation_count :: int
  t_tokens_consumed :: int
  t_user_corrections :: int
  t_errors :: "payload list"
  t_awaiting_reason :: pyval
  t_created_at :: "datetime option"
  t_updated_at :: "datetime option"
  t_unknown_events :: "string list"

definition new_projection :: "string \<Rightarrow> TaskProjection" where
  "new_projection cid =
     \<lparr>t_correlation_id = cid, t_session_id = None, t_phase = CREATED, t_modality = STANDARD,
      t_state_version = 0, t_request = PDict [], t_context_packet = PNone, t_plan_steps = PList [],
      t_current_step_index = 0, t_completed_steps = [], t_policy_decision = PNone,
      t_policy_reason = PNone, t_workspace_path = PNone, t_checkpoint_manifest_hash = PNone,
      t_applied_patch_sha256 = PNone, t_validation_verdict = PNone, t_attempts = 0,
      t_rollback_count = 0, t_escalation_count = 0, t_tokens_consumed = 0,
      t_user_corrections = 0, t_errors = [], t_awaiting_reason = PNone, t_created_at = None,
      t_updated_at = None, t_unknown_events = []\<rparr>"

definition projection_is_terminal :: "TaskProjection \<Rightarrow> bool" where
  "projection_is_terminal st \<longleftrightarrow> phase_is_terminal (t_phase st)"

definition needs_recovery :: "TaskProjection \<Rightarrow> bool" where
  "needs_recovery st \<longleftrightarrow> \<not> projection_is_terminal st \<and> phase_is_resumable (t_phase st)"

subsection \<open>The fold\<close>

fun phase_map :: "EventType \<Rightarrow> TaskPhase option" where
  "phase_map TASK_REQUESTED = Some CREATED"
| "phase_map TASK_QUEUED = Some QUEUED"
| "phase_map CONTEXT_HYDRATION_REQUESTED = Some HYDRATING"
| "phase_map CONTEXT_HYDRATED = Some PLANNING"
| "phase_map PLAN_COMPILED = Some POLICY_REVIEW"
| "phase_map POLICY_CLEARED = Some EXECUTING"
| "phase_map EXECUTION_STARTED = Some EXECUTING"
| "phase_map CRITIQUE_CONCLUDED = Some VALIDATING"
| "phase_map EXECUTION_COMPLETED = Some VALIDATING"
| "phase_map MUTATION_COMMITTED = Some COMMITTED"
| "phase_map EXECUTION_FAILED = Some FAILED"
| "phase_map POLICY_BLOCKED = Some BLOCKED"
| "phase_map SECURITY_VIOLATION = Some BLOCKED"
| "phase_map HUMAN_GATE_REJECTED = Some BLOCKED"
| "phase_map TASK_ABANDONED = Some ABANDONED"
| "phase_map AWAITING_HUMAN_ATTESTATION = Some AWAITING_HUMAN"
| "phase_map STATE_ROLLBACK_TRIGGERED = Some ROLLED_BACK"
| "phase_map _ = None"

definition no_phase_change :: "EventType list" where
  "no_phase_change =
     [HUMAN_GATE_CLEARED, VALIDATION_FAILED, USER_CORRECTION, MODEL_ESCALATED,
      RECOVERY_REPLAY_COMPLETED]"

text \<open>\<open>payload.get(k)\<close> and \<open>payload.get(k, default)\<close>\<close>

definition pget :: "payload \<Rightarrow> string \<Rightarrow> pyval" where
  "pget p k = dict_get_default p k PNone"

text \<open>The updates every event makes.\<close>

definition apply_common :: "TaskProjection \<Rightarrow> LedgerEvent \<Rightarrow> TaskProjection" where
  "apply_common st e =
     (let v = (case state_version e of None \<Rightarrow> t_state_version st
               | Some v \<Rightarrow> if v = 0 then t_state_version st else v);
          created = (case t_created_at st of None \<Rightarrow> Some (recorded_at e) | Some d \<Rightarrow> Some d);
          session = (case session_id e of
              None \<Rightarrow> t_session_id st
            | Some u \<Rightarrow> if t_session_id st = None \<or> t_session_id st = Some [] then Some (str_uuid u)
                        else t_session_id st);
          t = event_type e;
          (ph, unknown) = (case phase_map t of
              Some p \<Rightarrow> (p, t_unknown_events st)
            | None \<Rightarrow> (t_phase st,
                if t \<notin> set no_phase_change \<and> event_value t \<notin> set (t_unknown_events st)
                then t_unknown_events st @ [event_value t] else t_unknown_events st))
      in st\<lparr>t_state_version := v, t_updated_at := Some (recorded_at e), t_modality := execution_mode e,
            t_created_at := created, t_session_id := session, t_phase := ph,
            t_unknown_events := unknown\<rparr>)"

definition set_if_truthy :: "(pyval \<Rightarrow> TaskProjection \<Rightarrow> TaskProjection) \<Rightarrow> pyval \<Rightarrow> TaskProjection \<Rightarrow> TaskProjection" where
  "set_if_truthy upd v st = (if truthy v then upd v st else st)"

text \<open>\<open>if wp := payload.get('workspace_path')\<close> and the same for the manifest hash.\<close>

definition started_workspace :: "payload \<Rightarrow> TaskProjection \<Rightarrow> TaskProjection" where
  "started_workspace p s =
     set_if_truthy (\<lambda>v x. x\<lparr>t_checkpoint_manifest_hash := v\<rparr>) (pget p ''checkpoint_manifest_hash'')
       (set_if_truthy (\<lambda>v x. x\<lparr>t_workspace_path := v\<rparr>) (pget p ''workspace_path'') s)"

text \<open>
  The match on the event type: \<open>st\<close> is the state before the event, \<open>s\<close> the state with the common
  updates.
\<close>

fun apply_specific ::
  "EventType \<Rightarrow> payload \<Rightarrow> TaskProjection \<Rightarrow> TaskProjection \<Rightarrow> TaskProjection result" where
  "apply_specific TASK_REQUESTED p st s =
     Inr (set_if_truthy (\<lambda>v x. x\<lparr>t_workspace_path := v\<rparr>) (pget p ''workspace_path'')
       (s\<lparr>t_request := dict_get_default p ''request'' (PDict p)\<rparr>))"
| "apply_specific CONTEXT_HYDRATED p st s = Inr (s\<lparr>t_context_packet := pget p ''context_packet''\<rparr>)"
| "apply_specific PLAN_COMPILED p st s =
     Inr (s\<lparr>t_plan_steps := dict_get_default p ''execution_steps'' (PList []),
            t_current_step_index := 0, t_completed_steps := []\<rparr>)"
| "apply_specific POLICY_CLEARED p st s =
     Inr (s\<lparr>t_policy_decision := dict_get_default p ''decision'' (PStr ''POLICY_CLEARED''),
            t_policy_reason := pget p ''reason''\<rparr>)"
| "apply_specific POLICY_BLOCKED p st s =
     Inr (s\<lparr>t_policy_decision := dict_get_default p ''decision'' (PStr ''POLICY_BLOCKED''),
            t_policy_reason := pget p ''reason''\<rparr>)"
| "apply_specific SECURITY_VIOLATION p st s =
     Inr (s\<lparr>t_policy_decision := dict_get_default p ''decision'' (PStr ''SECURITY_VIOLATION''),
            t_policy_reason := pget p ''reason''\<rparr>)"
| "apply_specific EXECUTION_STARTED p st s =
     (let s1 = s\<lparr>t_attempts := t_attempts st + 1\<rparr>; idx = pget p ''step_index''
      in rmap (started_workspace p)
           (if idx = PNone then Inr s1
            else rmap (\<lambda>i. s1\<lparr>t_current_step_index := i\<rparr>) (py_int idx)))"
| "apply_specific EXECUTION_COMPLETED p st s =
     rbind (py_int (dict_get_default p ''step_index'' (PInt (t_current_step_index st)))) (\<lambda>idx.
     rbind (py_int (dict_get_default p ''tokens_consumed'' (PInt 0))) (\<lambda>tokens.
     rbind (py_len (t_plan_steps st)) (\<lambda>n.
       let completed = (if idx \<in> set (t_completed_steps st) then t_completed_steps st
                        else t_completed_steps st @ [idx])
       in Inr (s\<lparr>t_completed_steps := completed, t_current_step_index := idx + 1,
                 t_tokens_consumed := t_tokens_consumed st + tokens,
                 t_phase := (if int (length completed) < n then EXECUTING else t_phase s)\<rparr>))))"
| "apply_specific EXECUTION_FAILED p st s =
     Inr (s\<lparr>t_errors := t_errors st @ [dict_merge [(''event'', PStr ''EXECUTION_FAILED'')] p]\<rparr>)"
| "apply_specific VALIDATION_FAILED p st s =
     Inr (s\<lparr>t_errors := t_errors st @ [dict_merge [(''event'', PStr ''VALIDATION_FAILED'')] p],
            t_phase := EXECUTING,
            t_validation_verdict := dict_get_default p ''verdict'' (PStr ''FAIL_REJECT_RETRY'')\<rparr>)"
| "apply_specific CRITIQUE_CONCLUDED p st s = Inr (s\<lparr>t_validation_verdict := pget p ''verdict''\<rparr>)"
| "apply_specific MUTATION_COMMITTED p st s =
     Inr (s\<lparr>t_applied_patch_sha256 := pget p ''applied_patch_sha256'',
            t_checkpoint_manifest_hash :=
              dict_get_default p ''checkpoint_manifest_hash'' (t_checkpoint_manifest_hash st)\<rparr>)"
| "apply_specific AWAITING_HUMAN_ATTESTATION p st s = Inr (s\<lparr>t_awaiting_reason := pget p ''reason''\<rparr>)"
| "apply_specific HUMAN_GATE_CLEARED p st s =
     rmap (\<lambda>ph. s\<lparr>t_awaiting_reason := PNone, t_phase := ph\<rparr>)
       (phase_of_value (dict_get_default p ''resume_phase'' (PStr (phase_value EXECUTING))))"
| "apply_specific STATE_ROLLBACK_TRIGGERED p st s =
     (let s1 = s\<lparr>t_rollback_count := t_rollback_count st + 1,
                 t_checkpoint_manifest_hash :=
                   dict_get_default p ''restored_manifest_hash'' (t_checkpoint_manifest_hash st)\<rparr>;
          restored_to = pget p ''restored_step_index''
      in if restored_to = PNone then Inr s1
         else rmap (\<lambda>i. s1\<lparr>t_completed_steps := filter (\<lambda>x. x < i) (t_completed_steps st),
                           t_current_step_index := i\<rparr>) (py_int restored_to))"
| "apply_specific USER_CORRECTION p st s = Inr (s\<lparr>t_user_corrections := t_user_corrections st + 1\<rparr>)"
| "apply_specific MODEL_ESCALATED p st s = Inr (s\<lparr>t_escalation_count := t_escalation_count st + 1\<rparr>)"
| "apply_specific _ p st s = Inr s"

definition apply_event :: "TaskProjection \<Rightarrow> LedgerEvent \<Rightarrow> TaskProjection result" where
  "apply_event st e = apply_specific (event_type e) (payload e) st (apply_common st e)"

definition replay :: "LedgerEvent list \<Rightarrow> TaskProjection option \<Rightarrow> TaskProjection result" where
  "replay events initial =
     (case (events, initial) of
        ([], None) \<Rightarrow> Inl ValueError
      | (_, Some st) \<Rightarrow> rfold apply_event st events
      | (e # _, None) \<Rightarrow> rfold apply_event (new_projection (str_uuid (correlation_id e))) events)"

text \<open>\<open>project\<close>; \<open>validate\<close> is \<open>TaskProjection.model_validate\<close>, whose exceptions are a cache miss.\<close>

definition snapshot_start ::
  "(pyval \<Rightarrow> TaskProjection result) \<Rightarrow> ledger_db \<Rightarrow> uuid \<Rightarrow> bool \<Rightarrow> TaskProjection option \<times> int" where
  "snapshot_start validate db cid use_snapshot =
     (case (if use_snapshot then load_snapshot db cid else None) of
        None \<Rightarrow> (None, 0)
      | Some (version, data) \<Rightarrow>
          (case validate data of Inl _ \<Rightarrow> (None, 0) | Inr st \<Rightarrow> (Some st, version)))"

definition project ::
  "(pyval \<Rightarrow> TaskProjection result) \<Rightarrow> ledger_db \<Rightarrow> uuid \<Rightarrow> bool \<Rightarrow> TaskProjection result" where
  "project validate db cid use_snapshot =
     (let (initial, from_version) = snapshot_start validate db cid use_snapshot
      in rbind (read_correlation db cid from_version) (\<lambda>events.
         case (events, initial) of
           ([], Some st) \<Rightarrow> Inr st
         | _ \<Rightarrow> replay events initial))"

end
