(* ===== verification/Replay_Properties.thy ===== *)
theory Replay_Properties
  imports Ledger_Replay
begin

text \<open>
  Properties of the replay fold: it recognises every event type, a terminal event ends in a
  terminal phase, counters count, replaying from a checkpoint is replaying from the start, and
  the fold cannot fail on payloads whose numeric and phase fields have their types.
\<close>

subsection \<open>The common updates\<close>

lemma phase_map_complete: "phase_map t = None \<longleftrightarrow> t \<in> set no_phase_change"
  by (cases t) (simp_all add: no_phase_change_def)

lemma apply_common_simps [simp]:
  "t_correlation_id (apply_common st e) = t_correlation_id st"
  "t_request (apply_common st e) = t_request st"
  "t_plan_steps (apply_common st e) = t_plan_steps st"
  "t_current_step_index (apply_common st e) = t_current_step_index st"
  "t_completed_steps (apply_common st e) = t_completed_steps st"
  "t_attempts (apply_common st e) = t_attempts st"
  "t_rollback_count (apply_common st e) = t_rollback_count st"
  "t_escalation_count (apply_common st e) = t_escalation_count st"
  "t_user_corrections (apply_common st e) = t_user_corrections st"
  "t_errors (apply_common st e) = t_errors st"
  "t_awaiting_reason (apply_common st e) = t_awaiting_reason st"
  "t_updated_at (apply_common st e) = Some (recorded_at e)"
  "t_modality (apply_common st e) = execution_mode e"
  by (simp_all add: apply_common_def Let_def split: option.splits)

lemma apply_common_unknown [simp]: "t_unknown_events (apply_common st e) = t_unknown_events st"
  using phase_map_complete[of "event_type e"]
  by (auto simp: apply_common_def Let_def split: option.splits)

lemma apply_common_phase [simp]:
  "t_phase (apply_common st e) = (case phase_map (event_type e) of Some p \<Rightarrow> p | None \<Rightarrow> t_phase st)"
  by (simp add: apply_common_def Let_def split: option.splits)

lemma apply_common_version:
  "t_state_version (apply_common st e) =
     (case state_version e of None \<Rightarrow> t_state_version st | Some v \<Rightarrow> if v = 0 then t_state_version st else v)"
  by (simp add: apply_common_def Let_def split: option.splits)

lemma started_workspace_simps [simp]:
  "t_unknown_events (started_workspace p s) = t_unknown_events s"
  "t_correlation_id (started_workspace p s) = t_correlation_id s"
  "t_state_version (started_workspace p s) = t_state_version s"
  "t_updated_at (started_workspace p s) = t_updated_at s"
  "t_attempts (started_workspace p s) = t_attempts s"
  "t_rollback_count (started_workspace p s) = t_rollback_count s"
  "t_completed_steps (started_workspace p s) = t_completed_steps s"
  "t_plan_steps (started_workspace p s) = t_plan_steps s"
  "t_phase (started_workspace p s) = t_phase s"
  by (simp_all add: started_workspace_def set_if_truthy_def)

subsection \<open>One step\<close>

text \<open>What every successful step keeps or sets, whatever the event.\<close>

lemma apply_specific_keeps:
  "ensures (apply_specific t p st s) (\<lambda>st'. t_unknown_events st' = t_unknown_events s \<and> t_correlation_id st' = t_correlation_id s \<and>
    t_state_version st' = t_state_version s \<and> t_updated_at st' = t_updated_at s)"
  by (cases t) (simp_all add: Let_def set_if_truthy_def ensuresI)

lemma apply_specific_attempts:
  "t_attempts s = t_attempts st \<Longrightarrow>
   ensures (apply_specific t p st s) (\<lambda>st'. t_attempts st' = t_attempts st + (if t = EXECUTION_STARTED then 1 else 0))"
  by (cases t) (simp_all add: Let_def set_if_truthy_def ensuresI)

lemma apply_specific_rollbacks:
  "t_rollback_count s = t_rollback_count st \<Longrightarrow>
   ensures (apply_specific t p st s) (\<lambda>st'. t_rollback_count st' = t_rollback_count st + (if t = STATE_ROLLBACK_TRIGGERED then 1 else 0))"
  by (cases t) (simp_all add: Let_def set_if_truthy_def ensuresI)

lemma apply_specific_completed:
  "t_completed_steps s = t_completed_steps st \<Longrightarrow> distinct (t_completed_steps st) \<Longrightarrow>
   ensures (apply_specific t p st s) (\<lambda>st'. distinct (t_completed_steps st'))"
  by (cases t) (simp_all add: Let_def set_if_truthy_def ensuresI)

lemma apply_specific_plan:
  "ensures (apply_specific t p st s) (\<lambda>st'. t_plan_steps st' =
    (if t = PLAN_COMPILED then dict_get_default p ''execution_steps'' (PList []) else t_plan_steps s))"
  by (cases t) (simp_all add: Let_def set_if_truthy_def ensuresI)

lemma apply_event_keeps:
  assumes "apply_event st e = Inr st'"
  shows "t_unknown_events st' = t_unknown_events st" "t_correlation_id st' = t_correlation_id st"
    "t_state_version st' = t_state_version (apply_common st e)" "t_updated_at st' = Some (recorded_at e)"
  using ensuresD[OF apply_specific_keeps assms[unfolded apply_event_def]] by simp_all

lemma apply_event_attempts:
  assumes "apply_event st e = Inr st'"
  shows "t_attempts st' = t_attempts st + (if event_type e = EXECUTION_STARTED then 1 else 0)"
  by (rule ensuresD[OF apply_specific_attempts assms[unfolded apply_event_def]]) simp

lemma apply_event_rollbacks:
  assumes "apply_event st e = Inr st'"
  shows "t_rollback_count st' = t_rollback_count st + (if event_type e = STATE_ROLLBACK_TRIGGERED then 1 else 0)"
  by (rule ensuresD[OF apply_specific_rollbacks assms[unfolded apply_event_def]]) simp

lemma apply_event_completed:
  assumes "apply_event st e = Inr st'" "distinct (t_completed_steps st)"
  shows "distinct (t_completed_steps st')"
  by (rule ensuresD[OF apply_specific_completed assms(1)[unfolded apply_event_def]]) (use assms(2) in simp_all)

text \<open>A terminal event always applies and leaves a terminal phase.\<close>

lemma apply_event_terminal:
  assumes "is_terminal_event (event_type e)"
  shows "\<exists>st'. apply_event st e = Inr st' \<and> projection_is_terminal st'"
  using assms
  by (cases "event_type e")
    (simp_all add: is_terminal_event_def terminal_events_def apply_event_def
      projection_is_terminal_def phase_is_terminal_def terminal_phases_def)

text \<open>Only four kinds of step move a lineage out of a human gate.\<close>

definition gate_neutral :: "EventType list" where
  "gate_neutral = [USER_CORRECTION, MODEL_ESCALATED, RECOVERY_REPLAY_COMPLETED]"

lemma apply_event_gate:
  assumes "apply_event st e = Inr st'" "event_type e \<in> set gate_neutral"
  shows "t_phase st' = t_phase st \<and> t_awaiting_reason st' = t_awaiting_reason st"
  using assms by (auto simp: apply_event_def gate_neutral_def)

subsection \<open>Whole histories\<close>

lemma replay_Some: "replay es (Some st) = rfold apply_event st es"
  by (cases es) (simp_all add: replay_def)

lemma replay_Cons: "replay (e # es) None = rfold apply_event (new_projection (str_uuid (correlation_id e))) (e # es)"
  by (simp add: replay_def)

lemma replay_append:
  assumes "xs \<noteq> []"
  shows "replay (xs @ ys) None = rbind (replay xs None) (\<lambda>st. replay ys (Some st))"
proof -
  obtain e es where xs: "xs = e # es" using assms by (cases xs) auto
  show ?thesis
    unfolding xs append_Cons replay_Cons replay_Some
    unfolding append_Cons[symmetric] rfold_append ..
qed

definition count_type :: "EventType \<Rightarrow> LedgerEvent list \<Rightarrow> nat" where
  "count_type t es = length (filter (\<lambda>e. event_type e = t) es)"

lemma rfold_attempts:
  "rfold apply_event st es = Inr st' \<Longrightarrow> t_attempts st' = t_attempts st + int (count_type EXECUTION_STARTED es)"
proof (induction es arbitrary: st)
  case (Cons e es)
  then obtain s where "apply_event st e = Inr s" "rfold apply_event s es = Inr st'"
    by (auto simp: rbind_eq_Inr)
  then show ?case using Cons.IH[of s] apply_event_attempts[of st e s] by (simp add: count_type_def)
qed (simp add: count_type_def)

lemma rfold_rollbacks:
  "rfold apply_event st es = Inr st' \<Longrightarrow>
     t_rollback_count st' = t_rollback_count st + int (count_type STATE_ROLLBACK_TRIGGERED es)"
proof (induction es arbitrary: st)
  case (Cons e es)
  then obtain s where "apply_event st e = Inr s" "rfold apply_event s es = Inr st'"
    by (auto simp: rbind_eq_Inr)
  then show ?case using Cons.IH[of s] apply_event_rollbacks[of st e s] by (simp add: count_type_def)
qed (simp add: count_type_def)

lemma rfold_correlation: "rfold apply_event st es = Inr st' \<Longrightarrow> t_correlation_id st' = t_correlation_id st"
  by (erule rfold_invariant[where P = "\<lambda>s. t_correlation_id s = t_correlation_id st"])
    (auto dest: apply_event_keeps)

lemma rfold_unknown: "rfold apply_event st es = Inr st' \<Longrightarrow> t_unknown_events st' = t_unknown_events st"
  by (erule rfold_invariant[where P = "\<lambda>s. t_unknown_events s = t_unknown_events st"])
    (auto dest: apply_event_keeps)

lemma rfold_completed:
  "rfold apply_event st es = Inr st' \<Longrightarrow> distinct (t_completed_steps st) \<Longrightarrow> distinct (t_completed_steps st')"
  by (erule rfold_invariant[where P = "\<lambda>s. distinct (t_completed_steps s)"])
    (auto dest: apply_event_completed)

subsection \<open>Payloads the fold cannot fail on\<close>

definition int_field :: "payload \<Rightarrow> string \<Rightarrow> bool" where
  "int_field p k \<longleftrightarrow> (case map_of p k of None \<Rightarrow> True | Some v \<Rightarrow> (case py_int v of Inl _ \<Rightarrow> False | Inr _ \<Rightarrow> True))"

definition optional_int_field :: "payload \<Rightarrow> string \<Rightarrow> bool" where
  "optional_int_field p k \<longleftrightarrow> pget p k = PNone \<or> int_field p k"

definition is_sized :: "pyval \<Rightarrow> bool" where
  "is_sized v \<longleftrightarrow> (case py_len v of Inl _ \<Rightarrow> False | Inr _ \<Rightarrow> True)"

definition well_typed_event :: "LedgerEvent \<Rightarrow> bool" where
  "well_typed_event e \<longleftrightarrow>
     (let p = payload e
      in case event_type e of
        PLAN_COMPILED \<Rightarrow> is_sized (dict_get_default p ''execution_steps'' (PList []))
      | EXECUTION_STARTED \<Rightarrow> optional_int_field p ''step_index''
      | EXECUTION_COMPLETED \<Rightarrow> int_field p ''step_index'' \<and> int_field p ''tokens_consumed''
      | STATE_ROLLBACK_TRIGGERED \<Rightarrow> optional_int_field p ''restored_step_index''
      | HUMAN_GATE_CLEARED \<Rightarrow>
          (case map_of p ''resume_phase'' of None \<Rightarrow> True
           | Some v \<Rightarrow> v \<in> PStr ` phase_value ` set all_phases)
      | _ \<Rightarrow> True)"

lemma int_field_Inr: "int_field p k \<Longrightarrow> \<exists>i. py_int (dict_get_default p k (PInt d)) = Inr i"
  by (auto simp: int_field_def dict_get_default_def split: option.splits sum.splits)

lemma optional_int_field_Inr: "optional_int_field p k \<Longrightarrow> pget p k \<noteq> PNone \<Longrightarrow> \<exists>i. py_int (pget p k) = Inr i"
  by (auto simp: optional_int_field_def int_field_def pget_def dict_get_default_def split: option.splits sum.splits)

lemma phase_of_value_value: "phase_of_value (PStr (phase_value ph)) = Inr ph"
  by (cases ph) (simp_all add: all_phases_def)

lemma apply_specific_total:
  assumes "well_typed_event e" "is_sized (t_plan_steps st)"
  shows "\<exists>st'. apply_specific (event_type e) (payload e) st s = Inr st'"
proof (cases "event_type e")
  case EXECUTION_STARTED
  then show ?thesis using assms(1) optional_int_field_Inr[of "payload e" "''step_index''"]
    by (cases "pget (payload e) ''step_index'' = PNone") (auto simp: well_typed_event_def)
next
  case EXECUTION_COMPLETED
  obtain n where "py_len (t_plan_steps st) = Inr n"
    using assms(2) by (auto simp: is_sized_def split: sum.splits)
  moreover obtain i k where
    "py_int (dict_get_default (payload e) ''step_index'' (PInt (t_current_step_index st))) = Inr i"
    "py_int (dict_get_default (payload e) ''tokens_consumed'' (PInt 0)) = Inr k"
    using assms(1) EXECUTION_COMPLETED int_field_Inr by (simp add: well_typed_event_def Let_def) blast
  ultimately show ?thesis using EXECUTION_COMPLETED by (simp add: Let_def)
next
  case STATE_ROLLBACK_TRIGGERED
  then show ?thesis using assms(1) optional_int_field_Inr[of "payload e" "''restored_step_index''"]
    by (cases "pget (payload e) ''restored_step_index'' = PNone") (auto simp: well_typed_event_def)
next
  case HUMAN_GATE_CLEARED
  then have "\<exists>ph. phase_of_value (dict_get_default (payload e) ''resume_phase'' (PStr (phase_value EXECUTING))) = Inr ph"
    using assms(1) phase_of_value_value
    by (auto simp: well_typed_event_def dict_get_default_def simp del: phase_value.simps phase_of_value.simps split: option.splits)
  then show ?thesis using HUMAN_GATE_CLEARED by (auto simp del: phase_value.simps phase_of_value.simps)
qed simp_all

lemma apply_specific_sized:
  assumes "apply_specific (event_type e) (payload e) st s = Inr st'" "well_typed_event e" "is_sized (t_plan_steps s)"
  shows "is_sized (t_plan_steps st')"
proof (cases "event_type e = PLAN_COMPILED")
  case True
  then show ?thesis using ensuresD[OF apply_specific_plan assms(1)] assms(2)
    by (simp add: well_typed_event_def Let_def)
qed (use ensuresD[OF apply_specific_plan assms(1)] assms(3) in simp)

lemma rfold_apply_total:
  assumes "list_all well_typed_event es" "is_sized (t_plan_steps st)"
  shows "\<exists>st'. rfold apply_event st es = Inr st'"
  using assms
proof (induction es arbitrary: st)
  case (Cons e es)
  obtain s where s: "apply_event st e = Inr s"
    using apply_specific_total[of e st] Cons.prems by (auto simp: apply_event_def)
  then have "is_sized (t_plan_steps s)"
    using apply_specific_sized[of e st "apply_common st e" s] Cons.prems by (simp add: apply_event_def)
  then show ?case using Cons s by simp
qed simp

lemma replay_total:
  assumes "es \<noteq> []" "list_all well_typed_event es"
  shows "\<exists>st. replay es None = Inr st"
proof -
  obtain e es' where "es = e # es'" using assms(1) by (cases es) auto
  then show ?thesis using rfold_apply_total[OF assms(2), of "new_projection (str_uuid (correlation_id e))"]
    by (simp add: replay_Cons new_projection_def is_sized_def del: rfold.simps)
qed

subsection \<open>Projecting a stored lineage\<close>

lemma rmapM_append:
  "rmapM f (xs @ ys) = rbind (rmapM f xs) (\<lambda>us. rmap (\<lambda>vs. us @ vs) (rmapM f ys))"
proof (induction xs)
  case Nil
  then show ?case by (cases "rmapM f ys") simp_all
next
  case (Cons x xs)
  then show ?case by (cases "f x"; cases "rmapM f xs"; cases "rmapM f ys") simp_all
qed

lemma project_full:
  "project validate db cid False = rbind (read_correlation db cid 0) (\<lambda>es. replay es None)"
  by (cases "read_correlation db cid 0") (auto simp: project_def snapshot_start_def split: list.splits)

text \<open>A snapshot of the first \<open>v\<close> events is a cache: projecting with it is projecting without it.\<close>

lemma project_with_snapshot:
  assumes inv: "chain_inv db" and snap: "load_snapshot db cid = Some (v, data)" "validate data = Inr st" "0 \<le> v"
    and first: "rmapM row_to_event (take (nat v) (lineage_rows db (str_uuid cid))) = Inr es" "es \<noteq> []"
      "replay es None = Inr st"
  shows "project validate db cid True = project validate db cid False"
proof -
  obtain fs where fs: "read_correlation db cid v = Inr fs" using read_correlation_total[OF inv snap(3)] by blast
  then have "rmapM row_to_event (drop (nat v) (lineage_rows db (str_uuid cid))) = Inr fs"
    using read_correlation_inv[OF inv snap(3)] by simp
  then have all: "read_correlation db cid 0 = Inr (es @ fs)"
    using first(1) rmapM_append[of row_to_event "take (nat v) (lineage_rows db (str_uuid cid))" "drop (nat v) (lineage_rows db (str_uuid cid))"]
    by (simp add: read_correlation_inv[OF inv])
  have "project validate db cid True = replay fs (Some st)"
    using fs snap by (auto simp: project_def snapshot_start_def replay_Some split: list.splits)
  also have "\<dots> = replay (es @ fs) None" using replay_append[OF first(2)] first(3) by simp
  also have "\<dots> = project validate db cid False" by (simp add: project_full all)
  finally show ?thesis .
qed

text \<open>The projection of a lineage stands at the version of its last event.\<close>

lemma replay_version:
  assumes "replay es None = Inr st" "es \<noteq> []" "state_version (last es) = Some v" "v \<noteq> 0"
  shows "t_state_version st = v" "t_updated_at st = Some (recorded_at (last es))"
proof -
  obtain e es' where es: "es = e # es'" using assms(2) by (cases es) auto
  have split: "es = butlast es @ [last es]" using assms(2) by simp
  from assms(1) have "rfold apply_event (new_projection (str_uuid (correlation_id e))) es = Inr st"
    by (simp add: es replay_Cons del: rfold.simps)
  then obtain s where "apply_event s (last es) = Inr st"
    by (subst (asm) split) (auto simp: rfold_append rbind_eq_Inr)
  from apply_event_keeps[OF this] show "t_state_version st = v" "t_updated_at st = Some (recorded_at (last es))"
    using assms(3,4) by (simp_all add: apply_common_version)
qed

lemma project_version:
  assumes "chain_inv db" "project validate db cid False = Inr st"
  shows "t_state_version st = int (length (lineage_rows db (str_uuid cid)))"
proof -
  let ?rs = "lineage_rows db (str_uuid cid)"
  obtain es where es: "rmapM row_to_event ?rs = Inr es" "replay es None = Inr st"
    using assms(2) read_correlation_inv[OF assms(1), of 0] by (auto simp: project_full rbind_eq_Inr)
  then have "es \<noteq> []" by (auto simp: replay_def)
  then have ne: "?rs \<noteq> []" using es(1) by auto
  then have split: "?rs = butlast ?rs @ [last ?rs]" by simp
  obtain e es' where "row_to_event (last ?rs) = Inr e" "es = es' @ [e]"
    using es(1) by (subst (asm) split) (auto simp: rmapM_append rbind_eq_Inr rmap_eq_Inr)
  then have "state_version (last es) = Some (int (length ?rs))"
    using links_ok_last[OF chain_inv_links[OF assms(1)] ne] by (simp add: row_to_event_fields)
  then show ?thesis using replay_version(1)[OF es(2) \<open>es \<noteq> []\<close>] ne by simp
qed

text \<open>
  A lineage whose last event is terminal is terminal: folding a terminal event onto any
  projection succeeds and gives a terminal phase, so the ledger's terminal flag and the
  projection never disagree about a closed lineage.
\<close>

lemma terminal_event_closes:
  assumes "rfold apply_event st es = Inr st1" "is_terminal_event (event_type e)"
  shows "\<exists>st2. rfold apply_event st (es @ [e]) = Inr st2 \<and> projection_is_terminal st2"
  using apply_event_terminal[OF assms(2), of st1] assms(1) by (auto simp: rfold_append)

end
