(* ===== verification/Actions.thy ===== *)
theory Actions
  imports Prelude
begin

text \<open>
  Stateful code as actions: functions from a world to a value or an exception, and the world they leave either way,
  with the rules that show that an action keeps a predicate of its world.
\<close>

subsection \<open>Actions\<close>

text \<open>An action over a world, with exceptions of type \<open>'e\<close>; the ledger's own raise \<open>py_error\<close>.\<close>

type_synonym ('e, 'w, 'a) action = "'w \<Rightarrow> ('e + 'a) \<times> 'w"

type_synonym ('w, 'a) act = "(py_error, 'w, 'a) action"

definition act_return :: "'a \<Rightarrow> ('e, 'w, 'a) action" where
  "act_return a w = (Inr a, w)"

definition act_lift :: "'e + 'a \<Rightarrow> ('e, 'w, 'a) action" where
  "act_lift r w = (r, w)"

definition act_bind :: "('e, 'w, 'a) action \<Rightarrow> ('a \<Rightarrow> ('e, 'w, 'b) action) \<Rightarrow> ('e, 'w, 'b) action" where
  "act_bind m f w = (case m w of (Inl err, w') \<Rightarrow> (Inl err, w') | (Inr a, w') \<Rightarrow> f a w')"

definition act_read :: "('w \<Rightarrow> ('e, 'w, 'a) action) \<Rightarrow> ('e, 'w, 'a) action" where
  "act_read f w = f w w"

lemma act_lift_Inr [simp]: "act_lift (Inr a) w = (Inr a, w)"
  by (simp add: act_lift_def)

lemma act_bind_Inr [simp]: "m w = (Inr a, w') \<Longrightarrow> act_bind m f w = f a w'"
  by (simp add: act_bind_def)

lemma act_bind_Inl [simp]: "m w = (Inl e, w') \<Longrightarrow> act_bind m f w = (Inl e, w')"
  by (simp add: act_bind_def)

lemma act_return_simp [simp]: "act_return a w = (Inr a, w)"
  by (simp add: act_return_def)

subsection \<open>What an action keeps\<close>

definition keeps :: "('w \<Rightarrow> bool) \<Rightarrow> ('e, 'w, 'a) action \<Rightarrow> bool" where
  "keeps P m \<longleftrightarrow> (\<forall>w. P w \<longrightarrow> P (snd (m w)))"

named_theorems keeps_intros \<open>preservation of a predicate by an action\<close>

lemma keeps_return [keeps_intros]: "keeps P (act_return a)"
  by (simp add: keeps_def act_return_def)

lemma keeps_lift [keeps_intros]: "keeps P (act_lift r)"
  by (simp add: keeps_def act_lift_def)

lemma keeps_bind [keeps_intros]: "keeps P m \<Longrightarrow> (\<And>a. keeps P (f a)) \<Longrightarrow> keeps P (act_bind m f)"
  by (auto simp: keeps_def act_bind_def split: prod.splits sum.splits)

text \<open>An action that reads the world it starts in.\<close>

lemma keeps_read: "(\<And>w0. keeps P (f w0)) \<Longrightarrow> keeps P (\<lambda>w. f w w)"
  by (simp add: keeps_def)

lemma keeps_act_read [keeps_intros]: "(\<And>w. keeps P (f w)) \<Longrightarrow> keeps P (act_read f)"
  by (simp add: keeps_def act_read_def)

lemma keeps_if [keeps_intros]: "(b \<Longrightarrow> keeps P m) \<Longrightarrow> (\<not> b \<Longrightarrow> keeps P m') \<Longrightarrow> keeps P (if b then m else m')"
  by simp

lemma keeps_option [keeps_intros]:
  "keeps P m \<Longrightarrow> (\<And>a. keeps P (f a)) \<Longrightarrow> keeps P (case x of None \<Rightarrow> m | Some a \<Rightarrow> f a)"
  by (cases x) simp_all

lemma keeps_prod [keeps_intros]: "(\<And>a b. keeps P (f a b)) \<Longrightarrow> keeps P (case x of (a, b) \<Rightarrow> f a b)"
  by (cases x) simp_all

text \<open>Preservation by the runs that return.\<close>

definition keeps_ok :: "('w \<Rightarrow> bool) \<Rightarrow> ('e, 'w, 'a) action \<Rightarrow> bool" where
  "keeps_ok P m \<longleftrightarrow> (\<forall>w a w'. P w \<longrightarrow> m w = (Inr a, w') \<longrightarrow> P w')"

named_theorems keeps_ok_intros \<open>preservation of a predicate by an action that returns\<close>

lemma keeps_ok_return [keeps_ok_intros]: "keeps_ok P (act_return a)"
  by (simp add: keeps_ok_def)

lemma keeps_ok_bind [keeps_ok_intros]:
  assumes "keeps_ok P m" "\<And>a. keeps_ok P (f a)"
  shows "keeps_ok P (act_bind m f)"
  unfolding keeps_ok_def
proof (intro allI impI)
  fix w b w'
  assume "P w" "act_bind m f w = (Inr b, w')"
  then obtain a w1 where "m w = (Inr a, w1)" "f a w1 = (Inr b, w')" by (auto simp: act_bind_def split: prod.splits sum.splits)
  then show "P w'" using assms \<open>P w\<close> unfolding keeps_ok_def by blast
qed

lemma keeps_ok_act_read [keeps_ok_intros]: "(\<And>w. keeps_ok P (f w)) \<Longrightarrow> keeps_ok P (act_read f)"
  unfolding keeps_ok_def act_read_def by blast

lemma keeps_ok_if [keeps_ok_intros]: "(b \<Longrightarrow> keeps_ok P m) \<Longrightarrow> (\<not> b \<Longrightarrow> keeps_ok P m') \<Longrightarrow> keeps_ok P (if b then m else m')"
  by simp

lemma keeps_ok_prod [keeps_ok_intros]: "(\<And>a b. keeps_ok P (f a b)) \<Longrightarrow> keeps_ok P (case x of (a, b) \<Rightarrow> f a b)"
  by (cases x) simp_all

lemma keeps_ok_option [keeps_ok_intros]:
  "keeps_ok P m \<Longrightarrow> (\<And>a. keeps_ok P (f a)) \<Longrightarrow> keeps_ok P (case x of None \<Rightarrow> m | Some a \<Rightarrow> f a)"
  by (cases x) simp_all

lemma keeps_ok_sum [keeps_ok_intros]:
  "(\<And>e. keeps_ok P (f e)) \<Longrightarrow> (\<And>a. keeps_ok P (g a)) \<Longrightarrow> keeps_ok P (case x of Inl e \<Rightarrow> f e | Inr a \<Rightarrow> g a)"
  by (cases x) simp_all

lemma keeps_okD: "keeps_ok P m \<Longrightarrow> m w = (Inr a, w') \<Longrightarrow> P w \<Longrightarrow> P w'"
  unfolding keeps_ok_def by blast

lemma keepsD: "keeps P m \<Longrightarrow> m w = (r, w') \<Longrightarrow> P w \<Longrightarrow> P w'"
  unfolding keeps_def by (metis snd_conv)

end
