(* ===== verification/Ledger_Recovery.thy ===== *)
theory Ledger_Recovery
  imports Replay_Properties Actions
begin

text \<open>
  The post-crash boot sweep (\<open>paa.ledger.recovery\<close>) as a state machine over a world: the ledger's
  tables, the table of recovery marks, the filesystem, the messages handed to the requeuer and a
  tick that numbers the calls of \<open>uuid.uuid4()\<close> and \<open>utc_now()\<close>.

  The environment holds what the engine is constructed with. The snapshotter and the requeuer
  are protocols that the engine is handed an implementation of, and pydantic's validation is
  code of another package: they are fields of the environment. An action returns its value or
  the exception it raised, and the world it leaves either way.
\<close>

subsection \<open>The world and the environment\<close>

record mark_row =
  m_id :: string
  m_correlation_id :: string
  m_state_version :: int
  m_workspace_path :: string
  m_manifest :: json
  m_manifest_hash :: string
  m_created_at :: string

type_synonym manifest = "(string \<times> string) list"

record 'fs world =
  w_db :: ledger_db
  w_marks :: "mark_row list"
  w_fs :: 'fs
  w_queue :: "payload list"
  w_tick :: nat

record 'fs snapshot_ops =
  so_exists :: "'fs \<Rightarrow> string \<Rightarrow> bool"
  so_manifest :: "'fs \<Rightarrow> string \<Rightarrow> manifest result"
  so_manifest_hash :: "manifest \<Rightarrow> string"
  so_restore :: "'fs \<Rightarrow> string \<Rightarrow> manifest \<Rightarrow> string list result \<times> 'fs"

record 'fs recovery_env =
  e_hash :: hash_fun
  e_validate :: "pyval \<Rightarrow> TaskProjection result"
  e_snapshotter :: "'fs snapshot_ops option"
  e_requeuer :: "(payload \<Rightarrow> bool) option"
  e_max_attempts :: int
  e_verify_chains :: bool
  e_uuid4 :: "nat \<Rightarrow> uuid"
  e_utc_now :: "nat \<Rightarrow> datetime"

definition tick :: "('e, 'fs world, nat) action" where
  "tick w = (Inr (w_tick w), w\<lparr>w_tick := Suc (w_tick w)\<rparr>)"

text \<open>\<open>LedgerEvent.create(...)\<close> followed by \<open>store.append(...)\<close>\<close>

definition emit ::
  "'fs recovery_env \<Rightarrow> uuid \<Rightarrow> EventType \<Rightarrow> uuid option \<Rightarrow> payload \<Rightarrow> int \<Rightarrow> string option
     \<Rightarrow> ('fs world, LedgerEvent) act" where
  "emit env cid t sid p att disc =
     act_bind tick (\<lambda>n.
     act_bind (act_lift (create_event (e_uuid4 env n) cid t sid p att disc (e_utc_now env n))) (\<lambda>e w.
       let (r, db) = append_event (e_hash env) e (w_db w) in (r, w\<lparr>w_db := db\<rparr>)))"

subsection \<open>Checkpoints\<close>

definition manifest_json :: "manifest \<Rightarrow> json" where
  "manifest_json m = stored_json (PDict (map (\<lambda>(k, v). (k, PStr v)) m))"

fun manifest_of_members :: "(string \<times> json) list \<Rightarrow> manifest result" where
  "manifest_of_members [] = Inr []"
| "manifest_of_members ((k, JStr v) # ms) = rmap (\<lambda>m. (k, v) # m) (manifest_of_members ms)"
| "manifest_of_members _ = Inl TypeError"

fun manifest_of_json :: "json \<Rightarrow> manifest result" where
  "manifest_of_json (JObj ms) = manifest_of_members ms"
| "manifest_of_json _ = Inl TypeError"

text \<open>\<open>ON CONFLICT(correlation_id, state_version) DO UPDATE\<close>: the row keeps its id.\<close>

fun upsert_mark :: "mark_row \<Rightarrow> mark_row list \<Rightarrow> mark_row list" where
  "upsert_mark x [] = [x]"
| "upsert_mark x (m # ms) =
     (if m_correlation_id m = m_correlation_id x \<and> m_state_version m = m_state_version x
      then x\<lparr>m_id := m_id m\<rparr> # ms else m # upsert_mark x ms)"

definition checkpoint ::
  "'fs recovery_env \<Rightarrow> uuid \<Rightarrow> int \<Rightarrow> string \<Rightarrow> ('fs world, string) act" where
  "checkpoint env cid ver path =
     (case e_snapshotter env of
        None \<Rightarrow> act_return []
      | Some ops \<Rightarrow>
          (\<lambda>w. act_bind (act_lift (so_manifest ops (w_fs w) path)) (\<lambda>m.
             let h = so_manifest_hash ops m
             in act_bind tick (\<lambda>n.
                act_bind (act_lift (to_iso (e_utc_now env n))) (\<lambda>ts w.
                  (Inr h, w\<lparr>w_marks := upsert_mark
                     \<lparr>m_id = str_uuid (e_uuid4 env n), m_correlation_id = str_uuid cid,
                      m_state_version = ver, m_workspace_path = path,
                      m_manifest = manifest_json m, m_manifest_hash = h, m_created_at = ts\<rparr>
                     (w_marks w)\<rparr>)))) w))"

definition latest_mark :: "'fs world \<Rightarrow> uuid \<Rightarrow> mark_row option" where
  "latest_mark w cid =
     (case sort_key (\<lambda>m. - m_state_version m)
             (filter (\<lambda>m. m_correlation_id m = str_uuid cid) (w_marks w)) of
        [] \<Rightarrow> None | m # _ \<Rightarrow> Some m)"

subsection \<open>One lineage\<close>

datatype RecoveryOutcome =
    RESUMED | OUTCOME_ROLLED_BACK | PARKED_HUMAN | OUTCOME_ABANDONED | UNRECOVERABLE
  | ALREADY_TERMINAL

fun outcome_value :: "RecoveryOutcome \<Rightarrow> string" where
  "outcome_value RESUMED = ''RESUMED''"
| "outcome_value OUTCOME_ROLLED_BACK = ''ROLLED_BACK''"
| "outcome_value PARKED_HUMAN = ''PARKED_HUMAN''"
| "outcome_value OUTCOME_ABANDONED = ''ABANDONED''"
| "outcome_value UNRECOVERABLE = ''UNRECOVERABLE''"
| "outcome_value ALREADY_TERMINAL = ''ALREADY_TERMINAL''"

datatype recovery_detail = NoDetail | Reason pyval | Attempts int int | Raised py_error

record CorrelationRecovery =
  cr_correlation_id :: uuid
  cr_outcome :: RecoveryOutcome
  cr_phase :: TaskPhase
  cr_drifted :: "string list"
  cr_restored :: "string list"
  cr_detail :: recovery_detail

definition recovery_result ::
  "uuid \<Rightarrow> RecoveryOutcome \<Rightarrow> TaskPhase \<Rightarrow> string list \<Rightarrow> string list \<Rightarrow> recovery_detail \<Rightarrow> CorrelationRecovery" where
  "recovery_result cid outcome ph drifted restored detail =
     \<lparr>cr_correlation_id = cid, cr_outcome = outcome, cr_phase = ph, cr_drifted = drifted,
      cr_restored = restored, cr_detail = detail\<rparr>"

definition session_uuid :: "TaskProjection \<Rightarrow> uuid option result" where
  "session_uuid st =
     (case t_session_id st of
        None \<Rightarrow> Inr None
      | Some s \<Rightarrow> if s = [] then Inr None else rmap Some (parse_uuid s))"

definition str_list :: "string list \<Rightarrow> pyval" where
  "str_list xs = PList (map PStr xs)"

definition mark_head_terminal :: "'fs recovery_env \<Rightarrow> uuid \<Rightarrow> ('fs world, unit) act" where
  "mark_head_terminal env cid =
     act_bind tick (\<lambda>n.
     act_bind (act_lift (to_iso (e_utc_now env n))) (\<lambda>ts w.
       (Inr (), w\<lparr>w_db := (w_db w)\<lparr>head_rows := map (\<lambda>h.
          if h_correlation_id h = str_uuid cid then h\<lparr>h_is_terminal := 1, h_updated_at := ts\<rparr> else h)
          (head_rows (w_db w))\<rparr>\<rparr>)))"

definition abandon :: "'fs recovery_env \<Rightarrow> TaskProjection \<Rightarrow> string \<Rightarrow> ('fs world, LedgerEvent) act" where
  "abandon env st reason =
     act_bind (act_lift (parse_uuid (t_correlation_id st))) (\<lambda>cid.
     act_bind (act_lift (session_uuid st)) (\<lambda>sid.
       emit env cid TASK_ABANDONED sid
         [(''reason'', PStr reason), (''attempts'', PInt (t_attempts st))] 0
         (Some (''recovery-v'' @ str_int (t_state_version st)))))"

definition drifted_paths :: "manifest \<Rightarrow> manifest \<Rightarrow> string list" where
  "drifted_paths expected actual =
     (let ke = map fst expected; ka = map fst actual
      in sort (filter (\<lambda>p. p \<notin> set ka) ke @ filter (\<lambda>p. p \<notin> set ke) ka @
               filter (\<lambda>p. p \<in> set ka \<and> map_of expected p \<noteq> map_of actual p) ke))"

definition reconcile_workspace ::
  "'fs recovery_env \<Rightarrow> TaskProjection \<Rightarrow> ('fs world, string list \<times> string list) act" where
  "reconcile_workspace env st =
     act_bind (act_lift (parse_uuid (t_correlation_id st))) (\<lambda>cid w.
       case e_snapshotter env of
         None \<Rightarrow> (Inr ([], []), w)
       | Some ops \<Rightarrow>
           if \<not> truthy (t_workspace_path st) then (Inr ([], []), w)
           else case latest_mark w cid of
             None \<Rightarrow> (Inr ([], []), w)
           | Some mark \<Rightarrow>
               let root = m_workspace_path mark
               in if \<not> so_exists ops (w_fs w) root then (Inr ([], []), w)
                  else act_bind (act_lift (so_manifest ops (w_fs w) root)) (\<lambda>actual.
                    if so_manifest_hash ops actual = m_manifest_hash mark then act_return ([], [])
                    else act_bind (act_lift (manifest_of_json (m_manifest mark))) (\<lambda>expected w.
                      let (r, fs) = so_restore ops (w_fs w) root expected
                      in (rmap (\<lambda>restored. (drifted_paths expected actual, restored)) r,
                          w\<lparr>w_fs := fs\<rparr>))) w)"

text \<open>\<open>min(projection.completed_steps, default=0)\<close>\<close>

definition min_step :: "int list \<Rightarrow> int" where
  "min_step xs = (if xs = [] then 0 else Min (set xs))"

definition record_rollback ::
  "'fs recovery_env \<Rightarrow> TaskProjection \<Rightarrow> string list \<Rightarrow> string list \<Rightarrow> ('fs world, LedgerEvent) act" where
  "record_rollback env st drifted restored =
     act_bind (act_lift (parse_uuid (t_correlation_id st))) (\<lambda>cid w.
     act_bind (act_lift (session_uuid st)) (\<lambda>sid.
       emit env cid STATE_ROLLBACK_TRIGGERED sid
         [(''reason'', PStr ''post_crash_workspace_drift''),
          (''drifted_paths'', str_list (take 100 drifted)),
          (''restored_paths'', str_list (take 100 restored)),
          (''restored_manifest_hash'',
             (case latest_mark w cid of None \<Rightarrow> PNone | Some m \<Rightarrow> PStr (m_manifest_hash m))),
          (''restored_step_index'', PInt (min_step (t_completed_steps st)))]
         (t_rollback_count st) (Some (''recovery-v'' @ str_int (t_state_version st)))) w)"

text \<open>A failed enqueue is logged and swallowed; the message is lost.\<close>

definition requeue :: "'fs recovery_env \<Rightarrow> TaskProjection \<Rightarrow> ('fs world, unit) act" where
  "requeue env st w =
     (case e_requeuer env of
        None \<Rightarrow> (Inr (), w)
      | Some accepts \<Rightarrow>
          let msg = [(''correlation_id'', PStr (t_correlation_id st)),
                     (''session_id'', (case t_session_id st of None \<Rightarrow> PNone | Some s \<Rightarrow> PStr s)),
                     (''resume_phase'', PStr (phase_value (t_phase st))),
                     (''resume_step_index'', PInt (t_current_step_index st)),
                     (''recovered'', PBool True)]
          in (Inr (), if accepts msg then w\<lparr>w_queue := w_queue w @ [msg]\<rparr> else w))"

definition record_sweep ::
  "'fs recovery_env \<Rightarrow> TaskProjection \<Rightarrow> RecoveryOutcome \<Rightarrow> string list \<Rightarrow> ('fs world, unit) act" where
  "record_sweep env st outcome drifted =
     act_bind (act_lift (parse_uuid (t_correlation_id st))) (\<lambda>cid w.
     act_bind (act_lift (latest_event (w_db w) cid)) (\<lambda>latest.
       if map_option event_type latest = Some RECOVERY_REPLAY_COMPLETED then act_return ()
       else act_bind (act_lift (session_uuid st)) (\<lambda>sid.
            act_bind (emit env cid RECOVERY_REPLAY_COMPLETED sid
              [(''outcome'', PStr (outcome_value outcome)),
               (''phase'', PStr (phase_value (t_phase st))),
               (''replayed_to_version'', PInt (t_state_version st)),
               (''drifted_paths'', str_list (take 50 drifted))]
              0 (Some (''sweep-v'' @ str_int (t_state_version st)))) (\<lambda>_. act_return ()))) w)"

text \<open>What follows the projection in \<open>recover_correlation\<close>.\<close>

definition recover_projected ::
  "'fs recovery_env \<Rightarrow> uuid \<Rightarrow> TaskProjection \<Rightarrow> ('fs world, CorrelationRecovery) act" where
  "recover_projected env cid st =
     (if projection_is_terminal st then
        act_bind (mark_head_terminal env cid) (\<lambda>_.
          act_return (recovery_result cid ALREADY_TERMINAL (t_phase st) [] [] NoDetail))
      else if t_phase st = AWAITING_HUMAN then
        act_return (recovery_result cid PARKED_HUMAN (t_phase st) [] [] (Reason (t_awaiting_reason st)))
      else if t_attempts st \<ge> e_max_attempts env then
        act_bind (abandon env st ''retry ceiling exceeded during recovery'') (\<lambda>_.
          act_return (recovery_result cid OUTCOME_ABANDONED (t_phase st) [] []
            (Attempts (t_attempts st) (e_max_attempts env))))
      else
        act_bind (reconcile_workspace env st) (\<lambda>(drifted, restored).
        act_bind (if drifted \<noteq> [] then act_bind (record_rollback env st drifted restored)
                    (\<lambda>_. act_return OUTCOME_ROLLED_BACK)
                  else act_return RESUMED) (\<lambda>outcome.
        act_bind (requeue env st) (\<lambda>_.
        act_bind (record_sweep env st outcome drifted) (\<lambda>_.
          act_return (recovery_result cid outcome (t_phase st) drifted restored NoDetail))))))"

definition recover_correlation ::
  "'fs recovery_env \<Rightarrow> CorrelationHead \<Rightarrow> ('fs world, CorrelationRecovery) act" where
  "recover_correlation env ch w =
     act_bind (act_lift (project (e_validate env) (w_db w) (hd_correlation_id ch) True))
       (recover_projected env (hd_correlation_id ch)) w"

subsection \<open>The sweep\<close>

record RecoveryReport =
  rp_scanned :: nat
  rp_recoveries :: "CorrelationRecovery list"
  rp_chain_problems :: "(string \<times> chain_problem list) list"

definition report_count :: "RecoveryReport \<Rightarrow> RecoveryOutcome \<Rightarrow> nat" where
  "report_count rp outcome = length (filter (\<lambda>r. cr_outcome r = outcome) (rp_recoveries rp))"

text \<open>One bad lineage must not abort the sweep.\<close>

definition recover_guarded ::
  "'fs recovery_env \<Rightarrow> CorrelationHead \<Rightarrow> 'fs world \<Rightarrow> CorrelationRecovery \<times> 'fs world" where
  "recover_guarded env ch w =
     (case recover_correlation env ch w of
        (Inr r, w') \<Rightarrow> (r, w')
      | (Inl err, w') \<Rightarrow>
          (recovery_result (hd_correlation_id ch) UNRECOVERABLE FAILED [] [] (Raised err), w'))"

fun recover_all ::
  "'fs recovery_env \<Rightarrow> CorrelationHead list \<Rightarrow> 'fs world \<Rightarrow> CorrelationRecovery list \<times> 'fs world" where
  "recover_all env [] w = ([], w)"
| "recover_all env (h # hs) w =
     (let (r, w1) = recover_guarded env h w; (rs, w2) = recover_all env hs w1 in (r # rs, w2))"

definition boot_sweep :: "'fs recovery_env \<Rightarrow> int \<Rightarrow> ('fs world, RecoveryReport) act" where
  "boot_sweep env limit w =
     act_bind (act_lift (if e_verify_chains env then verify_all_chains (e_hash env) (w_db w) else Inr [])) (\<lambda>problems.
     act_bind (act_lift (open_correlations (w_db w) limit)) (\<lambda>heads w.
       let (rs, w') = recover_all env heads w
       in (Inr \<lparr>rp_scanned = length heads, rp_recoveries = rs, rp_chain_problems = problems\<rparr>, w'))) w"

end
