(* ===== verification/Recovery_Properties.thy ===== *)
theory Recovery_Properties
  imports Ledger_Recovery
begin

text \<open>
  Properties of the boot sweep: it returns whatever happens to a single lineage, it only appends
  to the ledger and keeps its invariant, it never clears a human gate, it closes lineages at the
  retry ceiling, and a second sweep adds nothing to the ledger. Two theorems record what a sweep
  does to a lineage beyond its contract.
\<close>

subsection \<open>The ledger is kept\<close>

definition env_ok :: "'fs recovery_env \<Rightarrow> bool" where
  "env_ok env \<longleftrightarrow> (\<forall>n. valid_datetime (e_utc_now env n) \<and> aware (e_utc_now env n))"

definition grown :: "ledger_db \<Rightarrow> 'fs world \<Rightarrow> bool" where
  "grown db0 w \<longleftrightarrow> ledger_inv (w_db w) \<and> extends (w_db w) db0"

lemma create_event_wf:
  assumes "create_event eid cid t sid p att disc ts = Inr e" "valid_datetime ts"
  shows "wf_event e \<and> correlation_id e = cid \<and> event_type e = t \<and> payload e = p \<and> execution_mode e = STANDARD"
  using assms by (auto simp: create_event_def validate_event_def wf_event_def split: if_splits)

lemma keeps_tick [keeps_intros]: "keeps (grown db0) tick"
  by (simp add: keeps_def tick_def grown_def)

lemma keeps_emit [keeps_intros]:
  assumes "env_ok env"
  shows "keeps (grown db0) (emit env cid t sid p att disc)"
  unfolding keeps_def
proof (intro allI impI)
  fix w :: "'a world"
  assume w: "grown db0 w"
  let ?n = "w_tick w"
  show "grown db0 (snd (emit env cid t sid p att disc w))"
  proof (cases "create_event (e_uuid4 env ?n) cid t sid p att disc (e_utc_now env ?n)")
    case (Inl err)
    then show ?thesis using w
      by (simp add: emit_def act_bind_def tick_def act_lift_def grown_def)
  next
    case (Inr e)
    have "wf_event e" using create_event_wf[OF Inr] assms by (simp add: env_ok_def)
    then show ?thesis
      using w Inr append_event_ledger_inv append_event_extends extends_trans
      by (auto simp: emit_def act_bind_def tick_def act_lift_def grown_def split: prod.splits) (metis snd_conv)+
  qed
qed

lemma heads_inv_mark:
  assumes "heads_inv db" "\<And>h r. head_tracks (f h) r = head_tracks h r" "\<And>h. h_correlation_id (f h) = h_correlation_id h"
  shows "heads_inv (db\<lparr>head_rows := map f (head_rows db)\<rparr>)"
proof -
  have "find (\<lambda>h. h_correlation_id h = c) (map f hs) = map_option f (find (\<lambda>h. h_correlation_id h = c) hs)" for c hs
    by (induction hs) (simp_all add: assms(3))
  moreover have "(\<lambda>x. head_tracks (f x)) = head_tracks" using assms(2) by (simp add: fun_eq_iff)
  ultimately show ?thesis using assms(1,3)
    by (simp add: heads_inv_def head_lookup_def last_row_def lineage_rows_def comp_def option.rel_map)
qed

lemma keeps_mark_head [keeps_intros]: "keeps (grown db0) (mark_head_terminal env cid)"
proof -
  have "grown db0 (w\<lparr>w_db := (w_db w)\<lparr>head_rows := map (\<lambda>h.
      if h_correlation_id h = c then h\<lparr>h_is_terminal := 1, h_updated_at := ts\<rparr> else h) (head_rows (w_db w))\<rparr>\<rparr>)"
    if "grown db0 w" for w :: "'a world" and c ts
  proof -
    have "heads_inv ((w_db w)\<lparr>head_rows := map (\<lambda>h.
      if h_correlation_id h = c then h\<lparr>h_is_terminal := 1, h_updated_at := ts\<rparr> else h) (head_rows (w_db w))\<rparr>)"
      by (rule heads_inv_mark) (use that in \<open>auto simp: grown_def ledger_inv_def head_tracks_def\<close>)
    then show ?thesis using that
      by (simp add: grown_def ledger_inv_def chain_inv_def extends_def lineage_rows_def)
  qed
  then have set: "keeps (grown db0) (\<lambda>w :: 'a world. (Inr (), w\<lparr>w_db := (w_db w)\<lparr>head_rows := map (\<lambda>h.
      if h_correlation_id h = str_uuid cid then h\<lparr>h_is_terminal := 1, h_updated_at := ts\<rparr> else h)
      (head_rows (w_db w))\<rparr>\<rparr>))" for ts
    by (simp add: keeps_def)
  show ?thesis unfolding mark_head_terminal_def by (intro keeps_intros set)
qed

lemma keeps_requeue [keeps_intros]: "keeps (grown db0) (requeue env st)"
  by (simp add: keeps_def requeue_def grown_def Let_def split: option.splits)

lemma keeps_reconcile [keeps_intros]: "keeps (grown db0) (reconcile_workspace env st)"
proof -
  have "grown db0 (w\<lparr>w_fs := fs\<rparr>) = grown db0 w" for w :: "'a world" and fs by (simp add: grown_def)
  then show ?thesis
    by (auto simp: keeps_def reconcile_workspace_def act_bind_def act_lift_def act_return_def Let_def
        split: sum.splits prod.splits option.splits if_splits)
qed

lemma keeps_abandon [keeps_intros]: "env_ok env \<Longrightarrow> keeps (grown db0) (abandon env st reason)"
  unfolding abandon_def by (intro keeps_intros)

lemma keeps_rollback [keeps_intros]: "env_ok env \<Longrightarrow> keeps (grown db0) (record_rollback env st d r)"
  unfolding record_rollback_def by (rule keeps_bind[OF keeps_lift], rule keeps_read, intro keeps_intros)

lemma keeps_sweep_event [keeps_intros]: "env_ok env \<Longrightarrow> keeps (grown db0) (record_sweep env st oc d)"
  unfolding record_sweep_def by (rule keeps_bind[OF keeps_lift], rule keeps_read, intro keeps_intros)

lemma keeps_projected [keeps_intros]: "env_ok env \<Longrightarrow> keeps (grown db0) (recover_projected env cid st)"
  unfolding recover_projected_def by (intro keeps_intros)

lemma keeps_recover: "env_ok env \<Longrightarrow> keeps (grown db0) (recover_correlation env ch)"
  unfolding recover_correlation_def[abs_def] by (rule keeps_read) (intro keeps_intros)

lemma recover_all_grown:
  assumes "env_ok env" "grown db0 w"
  shows "grown db0 (snd (recover_all env hs w))"
  using assms(2)
proof (induction hs arbitrary: w)
  case (Cons h hs)
  have "grown db0 (snd (recover_guarded env h w))"
    using keeps_recover[OF assms(1)] Cons.prems
    by (auto simp: recover_guarded_def keeps_def split: prod.splits sum.splits) (metis snd_conv)+
  then show ?case using Cons.IH by (simp add: split_beta)
qed simp

lemma boot_sweep_grown:
  assumes "env_ok env" "ledger_inv (w_db w)"
  shows "grown (w_db w) (snd (boot_sweep env limit w))"
proof -
  have "grown (w_db w) w" using assms(2) by (simp add: grown_def)
  then show ?thesis using recover_all_grown[OF assms(1)]
    by (auto simp: boot_sweep_def act_bind_def act_lift_def split_beta split: sum.splits)
qed

subsection \<open>The sweep returns\<close>

definition head_readable :: "head_row \<Rightarrow> bool" where
  "head_readable h \<longleftrightarrow>
     (\<exists>u. parse_uuid (h_correlation_id h) = Inr u) \<and> (\<exists>s. optional_uuid (h_session_id h) = Inr s) \<and>
     (\<exists>t. event_of_value (h_latest_event_type h) = Inr t) \<and>
     (\<exists>d. fromisoformat (h_opened_at h) = Inr d) \<and> (\<exists>d. fromisoformat (h_updated_at h) = Inr d)"

definition heads_readable :: "ledger_db \<Rightarrow> bool" where
  "heads_readable db \<longleftrightarrow> (\<forall>h \<in> set (head_rows db). head_readable h)"

lemma correlation_head_total: "head_readable h \<Longrightarrow> \<exists>c. correlation_head h = Inr c"
  by (auto simp: head_readable_def correlation_head_def)

lemma upsert_head_readable:
  "head_readable x \<Longrightarrow> \<forall>h \<in> set hs. head_readable h \<Longrightarrow> h \<in> set (upsert_head x hs) \<Longrightarrow> head_readable h"
  by (induction hs) (auto simp: head_readable_def split: if_splits option.splits)

lemma update_head_readable:
  assumes "update_head e db = Inr db'" "wf_event e" "heads_readable db"
  shows "heads_readable db'"
proof -
  obtain x where x: "head_rows db' = upsert_head x (head_rows db)"
    "h_correlation_id x = str_uuid (correlation_id e)" "h_session_id x = map_option str_uuid (session_id e)"
    "h_latest_event_type x = event_value (event_type e)"
    "h_opened_at x = isoformat (recorded_at e)" "h_updated_at x = isoformat (recorded_at e)"
    using assms(1) by (auto simp: update_head_def to_iso_def split: option.splits if_splits)
  have "fromisoformat (isoformat (recorded_at e)) = Inr (recorded_at e)"
    using assms(2) fromisoformat_isoformat by (simp add: wf_event_def)
  then have "head_readable x" by (simp add: head_readable_def x(2-) parse_str_uuid)
  then show ?thesis using assms(3) upsert_head_readable[of x "head_rows db"]
    unfolding heads_readable_def x(1) by blast
qed

lemma append_tx_heads_readable:
  assumes "append_tx H e seen db = Inr (e', db')" "wf_event e" "heads_readable db"
  shows "heads_readable db'"
  using assms(1)
proof (cases rule: append_tx_cases)
  case (written key version prev e1 r0 db1)
  obtain h where "e1 = e\<lparr>sequence_id := Some (- 1), state_version := Some (version + 1),
      prev_hash := Some prev, event_hash := Some h\<rparr>"
    using sealed_fields[OF written(4)] by blast
  then have "wf_event e'" using assms(2) by (simp add: written(7) wf_event_def)
  moreover have "heads_readable db1"
    using assms(3) insert_ledger_Inr(4)[OF written(6)] by (simp add: heads_readable_def)
  ultimately show ?thesis by (rule update_head_readable[OF written(8)])
qed (use assms(3) in simp)

lemma verify_digest_total:
  assumes "row_to_event r = Inr e"
  shows "\<exists>b. verify_digest H e = Inr b"
proof -
  obtain ms where "payload e = loads_json_members ms"
    using row_to_event_fields(9)[OF assms] by (cases "c_payload r") (simp_all, metis)
  then show ?thesis
    using row_to_event_fields[OF assms]
    by (simp add: verify_digest_def compute_event_digest_def digest_material_eq fallback_loads)
qed

lemma verify_events_total:
  assumes "\<And>e. e \<in> set es \<Longrightarrow> \<exists>b. verify_digest H e = Inr b"
  shows "\<exists>ps. verify_events H prev ver es = Inr ps"
  using assms
proof (induction es arbitrary: prev ver)
  case (Cons e es)
  then obtain b where "verify_digest H e = Inr b" by (meson list.set_intros(1))
  moreover have "\<exists>ps. verify_events H p v es = Inr ps" for p v using Cons by simp
  ultimately show ?case by (simp add: Let_def) (metis rmap_simps(2))
qed simp

lemma rmapM_set: "rmapM f xs = Inr ys \<Longrightarrow> y \<in> set ys \<Longrightarrow> \<exists>x \<in> set xs. f x = Inr y"
  by (induction xs arbitrary: ys) (auto simp: rbind_eq_Inr)

lemma verify_chain_total:
  assumes "chain_inv db"
  shows "\<exists>r. verify_chain H db cid = Inr r"
proof -
  obtain es where es: "read_correlation db cid 0 = Inr es" using read_correlation_total[OF assms] by force
  then have "\<exists>b. verify_digest H e = Inr b" if "e \<in> set es" for e
    using that verify_digest_total rmapM_set by (fastforce simp: read_correlation_def)
  then show ?thesis using verify_events_total[of es H genesis_hash 1] es by (auto simp: verify_chain_def)
qed

lemma rfold_total:
  assumes "\<And>s x. x \<in> set xs \<Longrightarrow> \<exists>s'. f s x = Inr s'"
  shows "\<exists>s'. rfold f s xs = Inr s'"
  using assms
proof (induction xs arbitrary: s)
  case (Cons x xs)
  then obtain s' where "f s x = Inr s'" by (meson list.set_intros(1))
  then show ?case using Cons by simp
qed simp

lemma verify_all_chains_total:
  assumes "chain_inv db"
  shows "\<exists>report. verify_all_chains H db = Inr report"
  unfolding verify_all_chains_def
proof (rule rfold_total)
  fix report c
  assume "c \<in> set (remdups (map c_correlation_id (ledger_rows db)))"
  then obtain u where "parse_uuid c = Inr u"
    using chain_inv_readable[OF assms] row_to_event_fields(6) by fastforce
  then show "\<exists>s'. rbind (as_uuid (IdText c)) (\<lambda>cid. rmap (\<lambda>(ok, problems).
      if ok then report else dict_set report c problems) (verify_chain H db cid)) = Inr s'"
    using verify_chain_total[OF assms, of H u] by auto
qed

lemma recover_all_length: "length (fst (recover_all env hs w)) = length hs"
  by (induction hs arbitrary: w) (simp_all add: split_beta)

lemma recovery_result_cid [simp]: "cr_correlation_id (recovery_result cid oc ph d r det) = cid"
  by (simp add: recovery_result_def)

lemma recover_projected_cid:
  "recover_projected env cid st w = (Inr r, w') \<Longrightarrow> cr_correlation_id r = cid"
  by (auto simp: recover_projected_def act_bind_def act_return_def split: if_splits prod.splits sum.splits)

lemma recover_all_ids: "map cr_correlation_id (fst (recover_all env hs w)) = map hd_correlation_id hs"
proof (induction hs arbitrary: w)
  case (Cons h hs)
  have "cr_correlation_id (fst (recover_guarded env h w)) = hd_correlation_id h"
    using recover_projected_cid[of env "hd_correlation_id h"]
    by (auto simp: recover_guarded_def recover_correlation_def act_bind_def act_lift_def split: prod.splits sum.splits)
  then show ?case using Cons.IH by (simp add: split_beta)
qed simp

lemma open_correlations_total:
  assumes "heads_readable db"
  shows "\<exists>hs. open_correlations db limit = Inr hs"
  unfolding open_correlations_def
  using assms correlation_head_total
  by (intro rmapM_total) (auto simp: heads_readable_def sql_limit_def split: if_splits dest!: in_set_takeD)

lemma boot_sweep_returns:
  assumes "chain_inv (w_db w)" "heads_readable (w_db w)"
  obtains hs report w' where "open_correlations (w_db w) limit = Inr hs"
    "boot_sweep env limit w = (Inr report, w')" "rp_scanned report = length hs"
    "map cr_correlation_id (rp_recoveries report) = map hd_correlation_id hs"
proof -
  obtain hs where hs: "open_correlations (w_db w) limit = Inr hs"
    using open_correlations_total[OF assms(2)] by blast
  obtain problems where
    "(if e_verify_chains env then verify_all_chains (e_hash env) (w_db w) else Inr []) = Inr problems"
    using verify_all_chains_total[OF assms(1)] by (cases "e_verify_chains env") auto
  then have "boot_sweep env limit w =
      (Inr \<lparr>rp_scanned = length hs, rp_recoveries = fst (recover_all env hs w), rp_chain_problems = problems\<rparr>,
       snd (recover_all env hs w))"
    by (simp add: boot_sweep_def act_bind_def act_lift_def hs split_beta)
  then show thesis using that[OF hs] recover_all_ids by fastforce
qed

subsection \<open>The human gate\<close>

lemma rfold_gate:
  assumes "rfold apply_event st es = Inr st'" "\<And>e. e \<in> set es \<Longrightarrow> event_type e \<in> set gate_neutral"
  shows "t_phase st' = t_phase st \<and> t_awaiting_reason st' = t_awaiting_reason st"
  by (rule rfold_invariant[OF assms(1), where P = "\<lambda>s. t_phase s = t_phase st \<and> t_awaiting_reason s = t_awaiting_reason st"])
    (use assms(2) apply_event_gate in \<open>fastforce+\<close>)

text \<open>A history that ends at a human gate, with only bookkeeping events after it, projects to the gate.\<close>

lemma replay_at_gate:
  assumes es: "es = before @ gate # after" and st: "replay es None = Inr st"
    and gate: "event_type gate = AWAITING_HUMAN_ATTESTATION"
    and after: "\<And>e. e \<in> set after \<Longrightarrow> event_type e \<in> set gate_neutral"
  shows "t_phase st = AWAITING_HUMAN \<and> t_awaiting_reason st = pget (payload gate) ''reason''"
proof -
  obtain e0 rest where "es = e0 # rest" using es by (cases before) auto
  then have "rfold apply_event (new_projection (str_uuid (correlation_id e0))) es = Inr st"
    using st by (simp add: replay_Cons del: rfold.simps)
  then obtain s1 s2 where "apply_event s1 gate = Inr s2" "rfold apply_event s2 after = Inr st"
    by (auto simp: es rfold_append rbind_eq_Inr)
  then show ?thesis using rfold_gate[OF _ after] gate by (auto simp: apply_event_def)
qed

lemma recover_parks:
  assumes "project (e_validate env) (w_db w) (hd_correlation_id ch) True = Inr st" "t_phase st = AWAITING_HUMAN"
  shows "recover_correlation env ch w =
    (Inr (recovery_result (hd_correlation_id ch) PARKED_HUMAN AWAITING_HUMAN [] [] (Reason (t_awaiting_reason st))), w)"
  using assms by (simp add: recover_correlation_def recover_projected_def act_bind_def act_lift_def act_return_def
      projection_is_terminal_def phase_is_terminal_def terminal_phases_def)

subsection \<open>One more event in a lineage\<close>

lemma project_no_snapshot:
  "load_snapshot db cid = None \<Longrightarrow> project validate db cid True = project validate db cid False"
  by (simp add: project_def snapshot_start_def)

lemma project_extended:
  assumes inv: "chain_inv db" "chain_inv db'" and rows: "ledger_rows db' = ledger_rows db @ [r]"
    and r: "c_correlation_id r = str_uuid cid" "row_to_event r = Inr e"
    and st: "project validate db cid False = Inr st"
  shows "project validate db' cid False = apply_event st e"
proof -
  obtain es where es: "rmapM row_to_event (lineage_rows db (str_uuid cid)) = Inr es" "replay es None = Inr st"
    using st read_correlation_inv[OF inv(1), of 0] by (auto simp: project_full rbind_eq_Inr)
  then have ne: "es \<noteq> []" by (auto simp: replay_def)
  have "lineage_rows db' (str_uuid cid) = lineage_rows db (str_uuid cid) @ [r]"
    using rows r(1) by (simp add: lineage_rows_def)
  then have "read_correlation db' cid 0 = Inr (es @ [e])"
    using es(1) r(2) by (simp add: read_correlation_inv[OF inv(2)] rmapM_append)
  then have "project validate db' cid False = replay (es @ [e]) None" by (simp add: project_full)
  also have "\<dots> = apply_event st e"
    using es(2) by (simp add: replay_append[OF ne] replay_Some) (cases "apply_event st e"; simp)
  finally show ?thesis .
qed

text \<open>What an emitted event adds when it is not suppressed.\<close>

lemma emit_appends:
  assumes em: "emit env cid t sid p att disc w = (Inr e', w')" and env: "env_ok env"
    and inv: "ledger_inv (w_db w)" and new: "ledger_rows (w_db w') \<noteq> ledger_rows (w_db w)"
  obtains r where "ledger_rows (w_db w') = ledger_rows (w_db w) @ [r]" "c_correlation_id r = str_uuid cid"
    "row_to_event r = Inr (reloaded e')" "event_type e' = t" "execution_mode e' = STANDARD" "payload e' = p"
    "snapshot_rows (w_db w') = snapshot_rows (w_db w)" "w_queue w' = w_queue w" "w_marks w' = w_marks w" "w_fs w' = w_fs w"
proof -
  let ?n = "w_tick w"
  obtain e where e: "create_event (e_uuid4 env ?n) cid t sid p att disc (e_utc_now env ?n) = Inr e"
    using em by (cases "create_event (e_uuid4 env ?n) cid t sid p att disc (e_utc_now env ?n)")
      (auto simp: emit_def act_bind_def tick_def act_lift_def)
  have wf: "wf_event e" "correlation_id e = cid" "event_type e = t" "payload e = p" "execution_mode e = STANDARD"
    using create_event_wf[OF e] env by (auto simp: env_ok_def)
  obtain db' where a: "append_event (e_hash env) e (w_db w) = (Inr e', db')"
    and w': "w' = w\<lparr>w_tick := Suc ?n, w_db := db'\<rparr>"
    using em e by (auto simp: emit_def act_bind_def tick_def act_lift_def split: prod.splits)
  from a have "append_tx (e_hash env) e (w_db w) (w_db w) = Inr (e', db')" by (simp add: append_event_Inr)
  then show thesis
  proof (cases rule: append_tx_effect)
    case (duplicate key)
    then show thesis using new w' by simp
  next
    case (written key version prev h r x)
    have "wf_event e'" using wf(1) by (simp add: written(5) wf_event_def)
    then show thesis using written(6) wf
      by (intro that[of r]) (simp_all add: w' written(5,9) written_row_def with_head_def appended_def)
  qed
qed

lemma project_correlation:
  assumes "chain_inv db" "project validate db cid False = Inr st"
  shows "t_correlation_id st = str_uuid cid"
proof -
  obtain es where es: "rmapM row_to_event (lineage_rows db (str_uuid cid)) = Inr es" "replay es None = Inr st"
    using assms read_correlation_inv[OF assms(1), of 0] by (auto simp: project_full rbind_eq_Inr)
  then obtain e es' where "es = e # es'" by (cases es) (auto simp: replay_def)
  moreover have "correlation_id e = cid"
    using rmapM_set[OF es(1), of e] calculation row_to_event_fields(6) parse_str_uuid[of cid]
    by (fastforce simp: lineage_rows_def)
  ultimately show ?thesis using es(2) rfold_correlation[of "new_projection (str_uuid cid)" es st]
    by (simp add: replay_Cons new_projection_def del: rfold.simps)
qed

lemma latest_event_extended:
  assumes "chain_inv db'" "ledger_rows db' = ledger_rows db @ [r]" "c_correlation_id r = str_uuid cid"
    "row_to_event r = Inr e"
  shows "latest_event db' cid = Inr (Some e)"
  using assms(2-) by (simp add: latest_event_def latest_row_last[OF assms(1)] last_row_def lineage_rows_def)

subsection \<open>The retry ceiling\<close>

lemma recover_at_ceiling:
  assumes env: "env_ok env" and inv: "ledger_inv (w_db w)"
    and st: "load_snapshot (w_db w) cid = None" "project (e_validate env) (w_db w) cid False = Inr st"
    and phase: "\<not> projection_is_terminal st" "t_phase st \<noteq> AWAITING_HUMAN" "t_attempts st \<ge> e_max_attempts env"
    and run: "recover_correlation env ch w = (Inr r, w')" "hd_correlation_id ch = cid"
    and new: "ledger_rows (w_db w') \<noteq> ledger_rows (w_db w)"
  shows "cr_outcome r = OUTCOME_ABANDONED"
    and "\<exists>st'. project (e_validate env) (w_db w') cid False = Inr st' \<and> t_phase st' = ABANDONED"
proof -
  have chain: "chain_inv (w_db w)" using inv by (simp add: ledger_inv_def)
  have cid: "parse_uuid (t_correlation_id st) = Inr cid"
    using project_correlation[OF chain st(2)] by (simp add: parse_str_uuid)
  obtain e where ab: "abandon env st ''retry ceiling exceeded during recovery'' w = (Inr e, w')"
    and r: "r = recovery_result cid OUTCOME_ABANDONED (t_phase st) [] [] (Attempts (t_attempts st) (e_max_attempts env))"
    using run st phase
    by (auto simp: recover_correlation_def recover_projected_def act_bind_def act_lift_def act_return_def
        project_no_snapshot split: prod.splits sum.splits)
  show "cr_outcome r = OUTCOME_ABANDONED" by (simp add: r recovery_result_def)
  obtain sid where "emit env cid TASK_ABANDONED sid
      [(''reason'', PStr ''retry ceiling exceeded during recovery''), (''attempts'', PInt (t_attempts st))] 0
      (Some (''recovery-v'' @ str_int (t_state_version st))) w = (Inr e, w')"
    using ab cid by (auto simp: abandon_def act_bind_def act_lift_def split: prod.splits sum.splits)
  then obtain row where row: "ledger_rows (w_db w') = ledger_rows (w_db w) @ [row]"
    "c_correlation_id row = str_uuid cid" "row_to_event row = Inr (reloaded e)" "event_type e = TASK_ABANDONED"
    by (rule emit_appends[OF _ env inv new])
  have "chain_inv (w_db w')"
    using keepsD[OF keeps_recover[OF env, of "w_db w"] run(1)] inv by (simp add: grown_def ledger_inv_def)
  then have "project (e_validate env) (w_db w') cid False = apply_event st (reloaded e)"
    by (rule project_extended[OF chain _ row(1-3) st(2)])
  then show "\<exists>st'. project (e_validate env) (w_db w') cid False = Inr st' \<and> t_phase st' = ABANDONED"
    using row(4) by (simp add: apply_event_def reloaded_def)
qed

subsection \<open>Sweeping twice\<close>

definition resumable_at :: "'fs recovery_env \<Rightarrow> TaskProjection \<Rightarrow> bool" where
  "resumable_at env st \<longleftrightarrow>
     \<not> projection_is_terminal st \<and> t_phase st \<noteq> AWAITING_HUMAN \<and> t_attempts st < e_max_attempts env"

lemma requeue_db [simp]:
  "w_db (snd (requeue env st w)) = w_db w" "fst (requeue env st w) = Inr ()"
  by (simp_all add: requeue_def Let_def split: option.splits)

lemma recover_resumes:
  assumes no_snap: "e_snapshotter env = None" and chain: "chain_inv (w_db w)"
    and st: "load_snapshot (w_db w) cid = None" "project (e_validate env) (w_db w) cid False = Inr st"
    and res: "resumable_at env st" and ch: "hd_correlation_id ch = cid"
  shows "recover_correlation env ch w =
    act_bind (record_sweep env st RESUMED [])
      (\<lambda>_. act_return (recovery_result cid RESUMED (t_phase st) [] [] NoDetail)) (snd (requeue env st w))"
proof -
  have "parse_uuid (t_correlation_id st) = Inr cid"
    using project_correlation[OF chain st(2)] by (simp add: parse_str_uuid)
  moreover obtain w1 where "requeue env st w = (Inr (), w1)"
    using requeue_db(2)[of env st w] by (cases "requeue env st w") simp
  ultimately show ?thesis using assms
    by (simp add: recover_correlation_def recover_projected_def project_no_snapshot resumable_at_def
        reconcile_workspace_def act_bind_def act_lift_def act_return_def)
qed

lemma record_sweep_suppressed:
  assumes "parse_uuid (t_correlation_id st) = Inr cid" "latest_event (w_db w) cid = Inr (Some e)"
    "event_type e = RECOVERY_REPLAY_COMPLETED"
  shows "record_sweep env st oc d w = (Inr (), w)"
  using assms by (simp add: record_sweep_def act_bind_def act_lift_def act_return_def)

lemma record_sweep_appends:
  assumes sw: "record_sweep env st oc d w = (Inr u, w')" and env: "env_ok env" and inv: "ledger_inv (w_db w)"
    and cid: "parse_uuid (t_correlation_id st) = Inr cid"
    and new: "ledger_rows (w_db w') \<noteq> ledger_rows (w_db w)"
  obtains row e where "ledger_rows (w_db w') = ledger_rows (w_db w) @ [row]" "c_correlation_id row = str_uuid cid"
    "row_to_event row = Inr e" "event_type e = RECOVERY_REPLAY_COMPLETED" "execution_mode e = STANDARD"
    "snapshot_rows (w_db w') = snapshot_rows (w_db w)"
proof -
  obtain sid p e where "emit env cid RECOVERY_REPLAY_COMPLETED sid p 0
      (Some (''sweep-v'' @ str_int (t_state_version st))) w = (Inr e, w')"
    using sw cid new
    by (auto simp: record_sweep_def act_bind_def act_lift_def act_return_def split: if_splits prod.splits sum.splits)
  then obtain row where "ledger_rows (w_db w') = ledger_rows (w_db w) @ [row]"
    "c_correlation_id row = str_uuid cid" "row_to_event row = Inr (reloaded e)"
    "event_type e = RECOVERY_REPLAY_COMPLETED" "execution_mode e = STANDARD"
    "snapshot_rows (w_db w') = snapshot_rows (w_db w)"
    by (rule emit_appends[OF _ env inv new])
  then show thesis by (intro that[of row "reloaded e"]) (simp_all add: reloaded_def)
qed

lemma apply_recovery_event:
  assumes "event_type e = RECOVERY_REPLAY_COMPLETED"
  shows "apply_event st e = Inr (apply_common st e)"
  using assms by (simp add: apply_event_def)

text \<open>The state after a recorded sweep of a resumable lineage.\<close>

lemma recover_recorded:
  assumes env: "env_ok env" "e_snapshotter env = None" and inv: "ledger_inv (w_db w)"
    and st: "load_snapshot (w_db w) cid = None" "project (e_validate env) (w_db w) cid False = Inr st"
    and res: "resumable_at env st" and ch: "hd_correlation_id ch = cid"
    and run: "recover_correlation env ch w = (Inr r, w1)"
    and new: "ledger_rows (w_db w1) \<noteq> ledger_rows (w_db w)"
  obtains e where "project (e_validate env) (w_db w1) cid False = Inr (apply_common st e)"
    "event_type e = RECOVERY_REPLAY_COMPLETED" "execution_mode e = STANDARD"
    "latest_event (w_db w1) cid = Inr (Some e)" "load_snapshot (w_db w1) cid = None" "chain_inv (w_db w1)"
proof -
  let ?w = "snd (requeue env st w)"
  have chain: "chain_inv (w_db w)" using inv by (simp add: ledger_inv_def)
  have cid: "parse_uuid (t_correlation_id st) = Inr cid"
    using project_correlation[OF chain st(2)] by (simp add: parse_str_uuid)
  obtain u where sw: "record_sweep env st RESUMED [] ?w = (Inr u, w1)"
    using run recover_resumes[OF env(2) chain st res ch]
    by (auto simp: act_bind_def act_return_def split: prod.splits sum.splits)
  obtain row e where row: "ledger_rows (w_db w1) = ledger_rows (w_db w) @ [row]" "c_correlation_id row = str_uuid cid"
    "row_to_event row = Inr e" "event_type e = RECOVERY_REPLAY_COMPLETED" "execution_mode e = STANDARD"
    "snapshot_rows (w_db w1) = snapshot_rows (w_db w)"
    using record_sweep_appends[OF sw env(1) _ cid] inv new by (metis requeue_db(1))
  have chain1: "chain_inv (w_db w1)"
    using keepsD[OF keeps_recover[OF env(1), of "w_db w"] run] inv by (simp add: grown_def ledger_inv_def)
  show thesis
    using project_extended[OF chain chain1 row(1-3) st(2)] apply_recovery_event[OF row(4)]
      latest_event_extended[OF chain1 row(1-3)] row(4-6) chain1 st(1)
    by (intro that[of e]) (simp_all add: load_snapshot_def)
qed

lemma recover_twice:
  assumes env: "env_ok env" "e_snapshotter env = None" and inv: "ledger_inv (w_db w)"
    and st: "load_snapshot (w_db w) cid = None" "project (e_validate env) (w_db w) cid False = Inr st"
    and res: "resumable_at env st" and ch: "hd_correlation_id ch = cid"
    and run: "recover_correlation env ch w = (Inr r, w1)"
    and new: "ledger_rows (w_db w1) \<noteq> ledger_rows (w_db w)"
  shows "\<exists>w2. recover_correlation env ch w1 =
      (Inr (recovery_result cid RESUMED (t_phase st) [] [] NoDetail), w2) \<and> w_db w2 = w_db w1"
proof -
  from assms obtain e where e: "project (e_validate env) (w_db w1) cid False = Inr (apply_common st e)"
    "event_type e = RECOVERY_REPLAY_COMPLETED" "latest_event (w_db w1) cid = Inr (Some e)"
    "load_snapshot (w_db w1) cid = None" "chain_inv (w_db w1)"
    by (rule recover_recorded)
  have phase: "t_phase (apply_common st e) = t_phase st" using e(2) by simp
  then have res1: "resumable_at env (apply_common st e)"
    using res by (simp add: resumable_at_def projection_is_terminal_def)
  let ?w = "snd (requeue env (apply_common st e) w1)"
  have "record_sweep env (apply_common st e) RESUMED [] ?w = (Inr (), ?w)"
    using project_correlation[OF e(5,1)] e(2,3)
    by (intro record_sweep_suppressed[where cid = cid and e = e]) (simp_all add: parse_str_uuid)
  then show ?thesis
    using recover_resumes[OF env(2) e(5) e(4) e(1) res1 ch] phase
    by (simp add: act_bind_def act_return_def)
qed

subsection \<open>Recovery events are written\<close>

text \<open>With an unused identifier and an unused key, the event of a recovery step reaches the ledger.\<close>

definition fresh_for :: "'fs recovery_env \<Rightarrow> uuid \<Rightarrow> EventType \<Rightarrow> string \<Rightarrow> 'fs world \<Rightarrow> bool" where
  "fresh_for env cid t disc w \<longleftrightarrow>
     e_hash env (idempotency_material cid t 0 (Some disc)) \<notin> c_idempotency_key ` set (ledger_rows (w_db w)) \<and>
     str_uuid (e_uuid4 env (w_tick w)) \<notin> c_event_id ` set (ledger_rows (w_db w))"

lemma emit_fresh:
  assumes H: "hex_digest (e_hash env)" and env: "env_ok env" and inv: "ledger_inv (w_db w)"
    and p: "fallback_json (PDict p) = Inr j" "json_valid (stored_json (PDict p))"
    and fresh: "fresh_for env cid t disc w"
  obtains e' w' where "emit env cid t sid p 0 (Some disc) w = (Inr e', w')"
    "ledger_rows (w_db w') \<noteq> ledger_rows (w_db w)"
proof -
  let ?n = "w_tick w"
  obtain e where e: "create_event (e_uuid4 env ?n) cid t sid p 0 (Some disc) (e_utc_now env ?n) = Inr e"
    using env by (simp add: create_event_def validate_event_def env_ok_def)
  then have fields: "event_id e = e_uuid4 env ?n" "attempt e = 0" "discriminator e = Some disc"
    by (auto simp: create_event_def validate_event_def split: if_splits)
  have wf: "wf_event e" "correlation_id e = cid" "event_type e = t" "payload e = p"
    using create_event_wf[OF e] env by (auto simp: env_ok_def)
  have key: "idempotency_key (e_hash env) e = Inr (e_hash env (idempotency_material cid t 0 (Some disc)))"
    using fields wf by (simp add: idempotency_key_def compute_idempotency_key_def)
  obtain e' db' r where a: "append_event (e_hash env) e (w_db w) = (Inr e', db')"
    "ledger_rows db' = ledger_rows (w_db w) @ [r]"
  proof (rule append_event_fresh[OF H _ wf(1) _ _ key, of "w_db w" j])
    show "chain_inv (w_db w)" using inv by (simp add: ledger_inv_def)
  qed (use p fresh fields wf in \<open>simp_all add: fresh_for_def\<close>)
  show thesis
    by (rule that[of e' "w\<lparr>w_tick := Suc ?n, w_db := db'\<rparr>"])
      (use a e in \<open>simp_all add: emit_def act_bind_def tick_def act_lift_def\<close>)
qed

lemma recover_abandons:
  assumes H: "hex_digest (e_hash env)" and env: "env_ok env" and inv: "ledger_inv (w_db w)"
    and st: "load_snapshot (w_db w) cid = None" "project (e_validate env) (w_db w) cid False = Inr st"
      "session_uuid st = Inr sid"
    and phase: "\<not> projection_is_terminal st" "t_phase st \<noteq> AWAITING_HUMAN" "t_attempts st \<ge> e_max_attempts env"
    and ch: "hd_correlation_id ch = cid"
    and fresh: "fresh_for env cid TASK_ABANDONED (''recovery-v'' @ str_int (t_state_version st)) w"
  obtains r w' st' where "recover_correlation env ch w = (Inr r, w')" "cr_outcome r = OUTCOME_ABANDONED"
    "project (e_validate env) (w_db w') cid False = Inr st'" "t_phase st' = ABANDONED"
proof -
  let ?p = "[(''reason'', PStr ''retry ceiling exceeded during recovery''), (''attempts'', PInt (t_attempts st))]"
  have cid: "parse_uuid (t_correlation_id st) = Inr cid"
    using project_correlation[of "w_db w", OF _ st(2)] inv by (simp add: ledger_inv_def parse_str_uuid)
  obtain j where j: "fallback_json (PDict ?p) = Inr j" "json_valid (stored_json (PDict ?p))" by simp
  obtain e' w' where em: "emit env cid TASK_ABANDONED sid ?p 0 (Some (''recovery-v'' @ str_int (t_state_version st))) w
      = (Inr e', w')" "ledger_rows (w_db w') \<noteq> ledger_rows (w_db w)"
    by (rule emit_fresh[OF H env inv j fresh])
  have run: "recover_correlation env ch w = (Inr (recovery_result cid OUTCOME_ABANDONED (t_phase st) [] []
      (Attempts (t_attempts st) (e_max_attempts env))), w')"
    using st phase ch cid em(1)
    by (simp add: recover_correlation_def recover_projected_def abandon_def act_bind_def act_lift_def
        act_return_def project_no_snapshot)
  from recover_at_ceiling[OF env inv st(1,2) phase run ch em(2)] show thesis
    by (auto intro: that[OF run])
qed

lemma recover_writes:
  assumes H: "hex_digest (e_hash env)" and env: "env_ok env" "e_snapshotter env = None" and inv: "ledger_inv (w_db w)"
    and st: "load_snapshot (w_db w) cid = None" "project (e_validate env) (w_db w) cid False = Inr st"
      "session_uuid st = Inr sid"
    and res: "resumable_at env st" and ch: "hd_correlation_id ch = cid"
    and latest: "latest_event (w_db w) cid = Inr (Some e)" "event_type e \<noteq> RECOVERY_REPLAY_COMPLETED"
    and fresh: "fresh_for env cid RECOVERY_REPLAY_COMPLETED (''sweep-v'' @ str_int (t_state_version st)) w"
  obtains w1 where
    "recover_correlation env ch w = (Inr (recovery_result cid RESUMED (t_phase st) [] [] NoDetail), w1)"
    "ledger_rows (w_db w1) \<noteq> ledger_rows (w_db w)"
proof -
  let ?w = "snd (requeue env st w)"
  let ?p = "[(''outcome'', PStr (outcome_value RESUMED)), (''phase'', PStr (phase_value (t_phase st))),
    (''replayed_to_version'', PInt (t_state_version st)), (''drifted_paths'', str_list (take 50 []))]"
  have chain: "chain_inv (w_db w)" using inv by (simp add: ledger_inv_def)
  have cid: "parse_uuid (t_correlation_id st) = Inr cid"
    using project_correlation[OF chain st(2)] by (simp add: parse_str_uuid)
  obtain j where j: "fallback_json (PDict ?p) = Inr j" "json_valid (stored_json (PDict ?p))"
    by (simp add: str_list_def)
  have fresh': "fresh_for env cid RECOVERY_REPLAY_COMPLETED (''sweep-v'' @ str_int (t_state_version st)) ?w"
    using fresh by (simp add: fresh_for_def requeue_def Let_def split: option.split)
  have inv': "ledger_inv (w_db ?w)" using inv by simp
  obtain e' w' where em: "emit env cid RECOVERY_REPLAY_COMPLETED sid ?p 0
      (Some (''sweep-v'' @ str_int (t_state_version st))) ?w = (Inr e', w')"
    "ledger_rows (w_db w') \<noteq> ledger_rows (w_db ?w)"
    by (rule emit_fresh[OF H env(1) inv' j fresh'])
  have "record_sweep env st RESUMED [] ?w = (Inr (), w')"
    using cid latest st(3) em(1)
    by (simp add: record_sweep_def act_bind_def act_lift_def act_return_def)
  then show thesis
    using recover_resumes[OF env(2) chain st(1,2) res ch] em(2)
    by (intro that[of w']) (simp_all add: act_bind_def act_return_def)
qed

text \<open>What a recovery records resets the modality of the projection.\<close>

lemma recover_modality:
  assumes "env_ok env" "e_snapshotter env = None" "ledger_inv (w_db w)"
    and "load_snapshot (w_db w) cid = None" "project (e_validate env) (w_db w) cid False = Inr st"
    and "resumable_at env st" "hd_correlation_id ch = cid"
    and "recover_correlation env ch w = (Inr r, w1)" "ledger_rows (w_db w1) \<noteq> ledger_rows (w_db w)"
  shows "\<exists>st1. project (e_validate env) (w_db w1) cid False = Inr st1 \<and> t_modality st1 = STANDARD \<and>
    t_phase st1 = t_phase st \<and> t_attempts st1 = t_attempts st \<and> t_completed_steps st1 = t_completed_steps st"
proof -
  from assms obtain e where "project (e_validate env) (w_db w1) cid False = Inr (apply_common st e)"
    "event_type e = RECOVERY_REPLAY_COMPLETED" "execution_mode e = STANDARD"
    by (rule recover_recorded)
  then show ?thesis by simp
qed

end
