(* ===== verification/Gate_Questions.thy ===== *)
theory Gate_Questions
  imports Recovery_Properties
begin

text \<open>
  Human-gate questions (\<open>paa.agents.orchestrator\<close>): which questions a lineage has asked, which of them a
  human has answered, and how a question is named.

  A question is opened by an \<open>AWAITING_HUMAN_ATTESTATION\<close> event and answered by the \<open>HUMAN_GATE_CLEARED\<close> event
  that carries its discriminator. The name of a new question becomes part of the ledger's idempotency
  key, so two questions with one name would be one event.
\<close>

subsection \<open>Roles\<close>

datatype AgentRole =
    ORCHESTRATOR | ROUTER | CONTEXT_BUILDER_PLANNER | STRATEGIC_PLANNER | POLICY_RISK
  | CONTEXT_BUILDER_WORKER | WORKER | CRITIC | MEMORY_CREATOR | MEMORY_CURATOR

fun role_value :: "AgentRole \<Rightarrow> string" where
  "role_value ORCHESTRATOR = ''chief_orchestrator''"
| "role_value ROUTER = ''router''"
| "role_value CONTEXT_BUILDER_PLANNER = ''context_builder_planner''"
| "role_value STRATEGIC_PLANNER = ''strategic_planner''"
| "role_value POLICY_RISK = ''policy_risk''"
| "role_value CONTEXT_BUILDER_WORKER = ''context_builder_worker''"
| "role_value WORKER = ''worker''"
| "role_value CRITIC = ''critic''"
| "role_value MEMORY_CREATOR = ''memory_creator''"
| "role_value MEMORY_CURATOR = ''memory_curator''"

subsection \<open>Questions of a lineage\<close>

record GateQuestion =
  gq_role :: string
  gq_discriminator :: "string option"
  gq_answered :: bool
  gq_payload :: payload

text \<open>The loops run from the last question to the first.\<close>

definition released_question :: "GateQuestion list \<Rightarrow> string option \<Rightarrow> nat option" where
  "released_question qs disc =
     (case disc of
        Some d \<Rightarrow>
          (case find (\<lambda>i. gq_discriminator (qs ! i) = Some d) (rev [0..<length qs]) of
             None \<Rightarrow> None
           | Some i \<Rightarrow> if gq_answered (qs ! i) then None else Some i)
      | None \<Rightarrow> find (\<lambda>i. \<not> gq_answered (qs ! i)) (rev [0..<length qs]))"

definition gate_step :: "GateQuestion list \<Rightarrow> LedgerEvent \<Rightarrow> GateQuestion list" where
  "gate_step qs e =
     (if event_type e = AWAITING_HUMAN_ATTESTATION then
        qs @ [\<lparr>gq_role = (case agent_role e of None \<Rightarrow> [] | Some r \<Rightarrow> r),
               gq_discriminator = discriminator e, gq_answered = False, gq_payload = payload e\<rparr>]
      else if event_type e = HUMAN_GATE_CLEARED then
        (case released_question qs (discriminator e) of
           None \<Rightarrow> qs
         | Some i \<Rightarrow> qs[i := (qs ! i)\<lparr>gq_answered := True\<rparr>])
      else qs)"

definition gate_history :: "LedgerEvent list \<Rightarrow> GateQuestion list" where
  "gate_history events = foldl gate_step [] events"

definition stage_question :: "GateQuestion list \<Rightarrow> AgentRole \<Rightarrow> GateQuestion option" where
  "stage_question qs role = find (\<lambda>q. gq_role q = role_value role) (rev qs)"

definition question_name :: "string \<Rightarrow> nat \<Rightarrow> string" where
  "question_name role n = ''gate:'' @ role @ CHR '':'' # str_int (int n)"

definition gate_discriminator :: "GateQuestion list \<Rightarrow> AgentRole \<Rightarrow> string" where
  "gate_discriminator qs role =
     question_name (role_value role)
       (length (filter (\<lambda>q. gq_role q = role_value role \<and> gq_answered q) qs) + 1)"

subsection \<open>Releases\<close>

lemma find_rev_upt_Some:
  assumes "find P (rev [0..<n]) = Some i"
  shows "i < n \<and> P i \<and> (\<forall>j < n. i < j \<longrightarrow> \<not> P j)"
proof -
  obtain k where k: "k < n" "P (rev [0..<n] ! k)" "i = rev [0..<n] ! k" "\<forall>j < k. \<not> P (rev [0..<n] ! j)"
    using assms by (auto simp: find_Some_iff)
  then have i: "i = n - Suc k" by (simp add: rev_nth)
  have "\<not> P j" if "j < n" "i < j" for j
  proof -
    have "n - Suc j < k" "rev [0..<n] ! (n - Suc j) = j" using that i k(1) by (auto simp: rev_nth)
    then show ?thesis using k(4) by metis
  qed
  with k i show ?thesis by (auto simp: rev_nth)
qed

lemma find_rev_upt_None: "find P (rev [0..<n]) = None \<longleftrightarrow> (\<forall>i < n. \<not> P i)"
  by (auto simp: find_None_iff)

lemma released_question_Some:
  assumes "released_question qs disc = Some i"
  shows "i < length qs" "\<not> gq_answered (qs ! i)" "disc = None \<or> gq_discriminator (qs ! i) = disc"
  using assms by (auto simp: released_question_def dest!: find_rev_upt_Some split: option.splits if_splits)

text \<open>A release answers at most one question: an open one, and the one it names if it names one.\<close>

lemma gate_step_release:
  assumes "event_type e = HUMAN_GATE_CLEARED" "gate_step qs e \<noteq> qs"
  obtains i where "i < length qs" "\<not> gq_answered (qs ! i)"
    "discriminator e = None \<or> gq_discriminator (qs ! i) = discriminator e"
    "gate_step qs e = qs[i := (qs ! i)\<lparr>gq_answered := True\<rparr>]"
proof -
  obtain i where i: "released_question qs (discriminator e) = Some i"
    "gate_step qs e = qs[i := (qs ! i)\<lparr>gq_answered := True\<rparr>]"
    using assms by (auto simp: gate_step_def split: option.splits)
  show thesis by (rule that[OF released_question_Some[OF i(1)] i(2)])
qed

lemma gate_step_unasked:
  assumes "event_type e = HUMAN_GATE_CLEARED" "discriminator e = Some d"
    and "\<forall>q \<in> set qs. gq_discriminator q = Some d \<longrightarrow> gq_answered q"
  shows "gate_step qs e = qs"
  using assms by (auto simp: gate_step_def released_question_def dest!: find_rev_upt_Some split: option.splits)

lemma gate_step_other: "event_type e \<notin> {AWAITING_HUMAN_ATTESTATION, HUMAN_GATE_CLEARED} \<Longrightarrow> gate_step qs e = qs"
  by (simp add: gate_step_def)

lemma gate_history_snoc: "gate_history (es @ [e]) = gate_step (gate_history es) e"
  by (simp add: gate_history_def)

subsection \<open>Names\<close>

lemma role_value_inj: "role_value r = role_value s \<Longrightarrow> r = s"
  by (cases r; cases s) simp_all

lemma role_value_colon: "CHR '':'' \<notin> set (role_value r)"
  by (cases r) simp_all

lemma question_name_inj:
  assumes "question_name (role_value r) m = question_name (role_value s) n"
  shows "r = s \<and> m = n"
proof -
  have "role_value r @ CHR '':'' # str_int (int m) = role_value s @ CHR '':'' # str_int (int n)"
    using assms by (simp add: question_name_def)
  then have "role_value r = role_value s \<and> str_int (int m) = str_int (int n)"
    by (rule append_sep_inj[OF _ role_value_colon role_value_colon])
  then show ?thesis using role_value_inj str_int_inj by fastforce
qed

text \<open>
  The discipline of the orchestrator: a stage asks under the name the questions so far give it, and only
  when its previous question has been answered.
\<close>

definition asked :: "GateQuestion list \<Rightarrow> AgentRole \<Rightarrow> GateQuestion list" where
  "asked qs role = filter (\<lambda>q. gq_role q = role_value role) qs"

definition well_named :: "GateQuestion list \<Rightarrow> bool" where
  "well_named qs \<longleftrightarrow> (\<forall>role. \<forall>i < length (asked qs role).
     gq_discriminator (asked qs role ! i) = Some (question_name (role_value role) (Suc i)) \<and>
     (Suc i < length (asked qs role) \<longrightarrow> gq_answered (asked qs role ! i)))"

lemma stage_question_asked: "stage_question qs role = (if asked qs role = [] then None else Some (last (asked qs role)))"
proof (induction qs rule: rev_induct)
  case (snoc q qs)
  then show ?case by (auto simp: stage_question_def asked_def)
qed (simp add: stage_question_def asked_def)

lemma answered_asked: "filter (\<lambda>q. gq_role q = role_value role \<and> gq_answered q) qs = filter gq_answered (asked qs role)"
  by (simp add: asked_def conj_commute)

lemma filter_all_but_last:
  assumes "\<forall>i. Suc i < length xs \<longrightarrow> P (xs ! i)" "xs \<noteq> []"
  shows "length (filter P xs) = length xs - (if P (last xs) then 0 else 1)"
proof -
  have "filter P (butlast xs) = butlast xs"
    using assms by (auto simp: filter_id_conv in_set_conv_nth nth_butlast)
  then have "filter P xs = butlast xs @ filter P [last xs]"
    using assms(2) by (metis append_butlast_last_id filter_append)
  then show ?thesis using assms(2) by simp
qed

text \<open>
  While the stage's question is open, asking again gives the same name, so the ledger suppresses the
  redelivery; once it is answered, the name is new.
\<close>

lemma gate_discriminator_open:
  assumes "well_named qs" "stage_question qs role = Some q" "\<not> gq_answered q"
  shows "gq_discriminator q = Some (gate_discriminator qs role)"
proof -
  let ?xs = "asked qs role"
  have ne: "?xs \<noteq> []" and q: "q = last ?xs" using assms(2) by (auto simp: stage_question_asked split: if_splits)
  have prev: "\<forall>i. Suc i < length ?xs \<longrightarrow> gq_answered (?xs ! i)"
    using assms(1) Suc_lessD unfolding well_named_def by blast
  have "length (filter gq_answered ?xs) + 1 = length ?xs"
    using filter_all_but_last[OF prev ne] assms(3) q ne by (cases ?xs) auto
  moreover have "gq_discriminator (?xs ! (length ?xs - 1)) = Some (question_name (role_value role) (Suc (length ?xs - 1)))"
    using assms(1) ne by (simp add: well_named_def)
  ultimately show ?thesis
    using ne q by (simp add: gate_discriminator_def answered_asked last_conv_nth)
qed

lemma gate_discriminator_new:
  assumes "well_named qs" "\<forall>q. stage_question qs role = Some q \<longrightarrow> gq_answered q"
    and "q \<in> set qs" "gq_role q = role_value r"
  shows "gq_discriminator q \<noteq> Some (gate_discriminator qs role)"
proof
  let ?xs = "asked qs role"
  assume eq: "gq_discriminator q = Some (gate_discriminator qs role)"
  have "q \<in> set (asked qs r)" using assms(3,4) by (simp add: asked_def)
  then obtain i where i: "i < length (asked qs r)" "q = asked qs r ! i" by (metis in_set_conv_nth)
  then have name: "gq_discriminator q = Some (question_name (role_value r) (Suc i))"
    using assms(1) by (auto simp: well_named_def)
  have prev: "\<forall>i. Suc i < length ?xs \<longrightarrow> gq_answered (?xs ! i)"
    using assms(1) Suc_lessD unfolding well_named_def by blast
  have "length (filter gq_answered ?xs) = length ?xs"
    using assms(2) filter_all_but_last[OF prev] by (cases "?xs = []") (auto simp: stage_question_asked)
  then have "gate_discriminator qs role = question_name (role_value role) (Suc (length ?xs))"
    by (simp add: gate_discriminator_def answered_asked)
  then have "question_name (role_value r) (Suc i) = question_name (role_value role) (Suc (length ?xs))"
    using eq name by simp
  then have "r = role \<and> Suc i = Suc (length ?xs)" by (rule question_name_inj)
  then show False using i(1) by auto
qed

text \<open>Asking and answering keep the discipline.\<close>

lemma well_named_ask:
  assumes "well_named qs" "\<forall>q. stage_question qs role = Some q \<longrightarrow> gq_answered q"
    and "event_type e = AWAITING_HUMAN_ATTESTATION" "agent_role e = Some (role_value role)"
    and "discriminator e = Some (gate_discriminator qs role)"
  shows "well_named (gate_step qs e)"
proof -
  let ?q = "\<lparr>gq_role = role_value role, gq_discriminator = Some (gate_discriminator qs role), gq_answered = False,
    gq_payload = payload e\<rparr>"
  let ?xs = "asked qs role"
  have prev: "\<forall>i. Suc i < length ?xs \<longrightarrow> gq_answered (?xs ! i)"
    using assms(1) Suc_lessD unfolding well_named_def by blast
  have all: "\<forall>i < length ?xs. gq_answered (?xs ! i)"
  proof (intro allI impI)
    fix i assume "i < length ?xs"
    then show "gq_answered (?xs ! i)"
    proof (cases "Suc i = length ?xs")
      case True
      then have ne: "?xs \<noteq> []" by auto
      have "i = length ?xs - 1" using True by linarith
      then have "?xs \<noteq> []" "?xs ! i = last ?xs" using ne by (simp_all add: last_conv_nth)
      then show ?thesis using assms(2) by (simp add: stage_question_asked)
    qed (use prev \<open>i < length ?xs\<close> in simp)
  qed
  then have "filter gq_answered ?xs = ?xs" by (simp add: filter_id_conv all_set_conv_all_nth)
  then have n: "gate_discriminator qs role = question_name (role_value role) (Suc (length ?xs))"
    by (simp add: gate_discriminator_def answered_asked)
  have step: "gate_step qs e = qs @ [?q]" using assms(3-5) by (simp add: gate_step_def)
  have asked: "asked (qs @ [?q]) r = (if r = role then ?xs @ [?q] else asked qs r)" for r
    using role_value_inj by (auto simp: asked_def)
  show ?thesis
    unfolding step well_named_def asked
    using assms(1) all n by (auto simp: well_named_def nth_append less_Suc_eq)
qed

lemma asked_update:
  assumes "i < length qs" "\<not> gq_answered (qs ! i)"
  shows "map gq_discriminator (asked (qs[i := (qs ! i)\<lparr>gq_answered := True\<rparr>]) role) = map gq_discriminator (asked qs role) \<and>
    length (asked (qs[i := (qs ! i)\<lparr>gq_answered := True\<rparr>]) role) = length (asked qs role) \<and>
    (\<forall>k < length (asked qs role). gq_answered (asked qs role ! k) \<longrightarrow>
      gq_answered (asked (qs[i := (qs ! i)\<lparr>gq_answered := True\<rparr>]) role ! k))"
  using assms(1)
proof (induction qs arbitrary: i)
  case (Cons q qs)
  show ?case
  proof (cases i)
    case 0
    then show ?thesis by (auto simp: asked_def nth_Cons split: nat.splits)
  next
    case (Suc j)
    then show ?thesis using Cons.IH[of j] Cons.prems by (auto simp: asked_def nth_Cons split: nat.splits)
  qed
qed simp

lemma well_named_answer:
  assumes "well_named qs" "event_type e = HUMAN_GATE_CLEARED"
  shows "well_named (gate_step qs e)"
proof (cases "gate_step qs e = qs")
  case False
  then obtain i where i: "i < length qs" "\<not> gq_answered (qs ! i)"
    "gate_step qs e = qs[i := (qs ! i)\<lparr>gq_answered := True\<rparr>]"
    using gate_step_release[OF assms(2)] by metis
  have "gq_discriminator (asked (gate_step qs e) role ! k) = gq_discriminator (asked qs role ! k)"
    if "k < length (asked qs role)" for role k
    using asked_update[OF i(1,2), of role] that unfolding i(3) by (metis length_map nth_map)
  then show ?thesis
    using assms(1) asked_update[OF i(1,2)] unfolding well_named_def i(3) by auto
qed (use assms(1) in simp)

subsection \<open>Histories\<close>

text \<open>
  The histories the orchestrator produces: a stage asks when it has no open question, under the name its
  questions give it; humans answer; everything else leaves the questions alone.
\<close>

inductive gate_lineage :: "LedgerEvent list \<Rightarrow> bool" where
  gl_start: "gate_lineage []"
| gl_ask: "gate_lineage es \<Longrightarrow> (\<forall>q. stage_question (gate_history es) role = Some q \<longrightarrow> gq_answered q) \<Longrightarrow>
    event_type e = AWAITING_HUMAN_ATTESTATION \<Longrightarrow> agent_role e = Some (role_value role) \<Longrightarrow>
    discriminator e = Some (gate_discriminator (gate_history es) role) \<Longrightarrow> gate_lineage (es @ [e])"
| gl_answer: "gate_lineage es \<Longrightarrow> event_type e = HUMAN_GATE_CLEARED \<Longrightarrow> gate_lineage (es @ [e])"
| gl_other: "gate_lineage es \<Longrightarrow> event_type e \<notin> {AWAITING_HUMAN_ATTESTATION, HUMAN_GATE_CLEARED} \<Longrightarrow> gate_lineage (es @ [e])"

lemma gate_step_answer_names:
  assumes "event_type e = HUMAN_GATE_CLEARED"
  shows "map gq_discriminator (gate_step qs e) = map gq_discriminator qs" "map gq_role (gate_step qs e) = map gq_role qs"
proof -
  have "map gq_discriminator (gate_step qs e) = map gq_discriminator qs \<and> map gq_role (gate_step qs e) = map gq_role qs"
  proof (cases "gate_step qs e = qs")
    case False
    then obtain i where "i < length qs" "gate_step qs e = qs[i := (qs ! i)\<lparr>gq_answered := True\<rparr>]"
      using gate_step_release[OF assms] by metis
    then show ?thesis by (simp add: map_update list_update_same_conv)
  qed simp
  then show "map gq_discriminator (gate_step qs e) = map gq_discriminator qs" "map gq_role (gate_step qs e) = map gq_role qs" by auto
qed

lemma gate_lineage_names:
  "gate_lineage es \<Longrightarrow> well_named (gate_history es) \<and> (\<forall>q \<in> set (gate_history es). \<exists>r. gq_role q = role_value r) \<and>
    distinct (map gq_discriminator (gate_history es))"
proof (induction rule: gate_lineage.induct)
  case gl_start
  then show ?case by (simp add: gate_history_def well_named_def asked_def)
next
  case (gl_ask es role e)
  let ?qs = "gate_history es"
  have "well_named (gate_step ?qs e)" by (rule well_named_ask) (use gl_ask in auto)
  moreover have "gate_step ?qs e = ?qs @ [\<lparr>gq_role = role_value role, gq_discriminator = Some (gate_discriminator ?qs role),
      gq_answered = False, gq_payload = payload e\<rparr>]"
    using gl_ask.hyps by (simp add: gate_step_def)
  moreover have "Some (gate_discriminator ?qs role) \<notin> set (map gq_discriminator ?qs)"
  proof
    assume "Some (gate_discriminator ?qs role) \<in> set (map gq_discriminator ?qs)"
    then obtain q where q: "q \<in> set ?qs" "gq_discriminator q = Some (gate_discriminator ?qs role)" by auto
    then obtain r where "gq_role q = role_value r" using gl_ask.IH by auto
    from gate_discriminator_new[OF _ gl_ask.hyps(2) q(1) this] q(2) gl_ask.IH show False by simp
  qed
  ultimately show ?case using gl_ask.IH unfolding gate_history_snoc by auto
next
  case (gl_answer es e)
  let ?qs = "gate_history es"
  note names = gate_step_answer_names[OF gl_answer.hyps(2), of ?qs]
  have "\<exists>r. gq_role q = role_value r" if "q \<in> set (gate_step ?qs e)" for q
  proof -
    have "gq_role q \<in> set (map gq_role ?qs)" using that names(2) by (metis imageI list.set_map)
    then show ?thesis using gl_answer.IH by auto
  qed
  then show ?case using gl_answer well_named_answer names(1) unfolding gate_history_snoc by metis
next
  case (gl_other es e)
  then show ?case by (simp add: gate_history_snoc gate_step_other)
qed

end
