(* ===== verification/Cycle_Guard.thy ===== *)
theory Cycle_Guard
  imports Core_Types
begin

text \<open>
  What the two delegation graphs of the program share: a dictionary from a node to the set of
  its successors, and the contract of a cycle check as an interface. A client that only adds
  the edges its check accepts, and removes edges at will, keeps the graph acyclic, and the
  check refuses no edge that would have kept it so.

  A Python set is a list without duplicates whose order stands for its iteration order; nothing
  depends on it.
\<close>

subsection \<open>Adjacency dictionaries\<close>

type_synonym adjacency = "(string \<times> string list) list"

definition succs :: "adjacency \<Rightarrow> string \<Rightarrow> string list" where
  "succs g n = dict_get_default g n []"

definition set_add :: "'a list \<Rightarrow> 'a \<Rightarrow> 'a list" where
  "set_add xs x = (if x \<in> set xs then xs else xs @ [x])"

definition edge_rel :: "adjacency \<Rightarrow> (string \<times> string) set" where
  "edge_rel g = {(x, y). y \<in> set (succs g x)}"

definition is_path :: "adjacency \<Rightarrow> string list \<Rightarrow> bool" where
  "is_path g p = successively (\<lambda>x y. y \<in> set (succs g x)) p"

definition edge_total :: "adjacency \<Rightarrow> int" where
  "edge_total g = sum_list (map (\<lambda>(_, ys). int (length ys)) g)"

lemma succs_set: "succs (dict_set g n ys) m = (if m = n then ys else succs g m)"
  using dict_get_set[of g n ys m] by (simp add: succs_def dict_get_default_def dict_get_def split: option.splits)

lemma succs_not_key: "n \<notin> fst ` set g \<Longrightarrow> succs g n = []"
  by (simp add: succs_def dict_get_default_def map_of_eq_None_iff[THEN iffD2])

text \<open>Visiting a node that was not seen makes progress: fewer keys are left, or nothing is pushed.\<close>

lemma unseen_progress:
  assumes "node \<notin> set seen"
  shows "card (fst ` set g - set (node # seen)) < card (fst ` set g - set seen) \<or>
    card (fst ` set g - set (node # seen)) = card (fst ` set g - set seen) \<and> succs g node = []"
proof (cases "node \<in> fst ` set g")
  case True
  have "card (fst ` set g - set (node # seen)) < card (fst ` set g - set seen)"
    by (rule psubset_card_mono) (use True assms in auto)
  then show ?thesis ..
next
  case False
  then have "fst ` set g - set (node # seen) = fst ` set g - set seen" by auto
  then show ?thesis using succs_not_key[OF False] by simp
qed

lemma path_reaches: "is_path g p \<Longrightarrow> p \<noteq> [] \<Longrightarrow> (hd p, last p) \<in> (edge_rel g)\<^sup>*"
proof (induction p)
  case (Cons x p)
  show ?case
  proof (cases p)
    case (Cons y q)
    then have "(x, y) \<in> edge_rel g" "is_path g p"
      using Cons.prems(1) by (simp_all add: is_path_def edge_rel_def)
    with Cons.IH Cons show ?thesis by (auto intro: converse_rtrancl_into_rtrancl)
  qed simp
qed simp

lemma is_path_snoc: "is_path g (p @ [y]) \<longleftrightarrow> is_path g p \<and> (p \<noteq> [] \<longrightarrow> y \<in> set (succs g (last p)))"
  by (auto simp: is_path_def successively_append_iff)

text \<open>A set of nodes closed under the edges contains all that it reaches.\<close>

lemma closed_reaches:
  assumes "(x, y) \<in> (edge_rel g)\<^sup>*" "x \<in> S" "\<And>u v. u \<in> S \<Longrightarrow> v \<in> set (succs g u) \<Longrightarrow> v \<in> S"
  shows "y \<in> S"
  using assms by (induction rule: rtrancl_induct) (auto simp: edge_rel_def)

subsection \<open>The interface\<close>

locale cycle_guard =
  fixes edges :: "'g \<Rightarrow> (string \<times> string) set"
    and would_cycle :: "'g \<Rightarrow> string \<Rightarrow> string \<Rightarrow> string list option"
    and add_edge :: "'g \<Rightarrow> string \<Rightarrow> string \<Rightarrow> 'g"
    and remove_edge :: "'g \<Rightarrow> string \<Rightarrow> string \<Rightarrow> 'g"
  assumes edges_add: "edges (add_edge g a b) = insert (a, b) (edges g)"
    and edges_remove: "edges (remove_edge g a b) = edges g - {(a, b)}"
    and cycle_sound: "would_cycle g a b = Some p \<Longrightarrow> (b, a) \<in> (edges g)\<^sup>*"
    and cycle_complete: "would_cycle g a b = None \<Longrightarrow> (b, a) \<notin> (edges g)\<^sup>*"
begin

lemma accepted_acyclic:
  assumes "acyclic (edges g)" "would_cycle g a b = None"
  shows "acyclic (edges (add_edge g a b))"
  using assms cycle_complete[OF assms(2)] by (simp add: edges_add acyclic_insert)

lemma removed_acyclic: "acyclic (edges g) \<Longrightarrow> acyclic (edges (remove_edge g a b))"
  by (rule acyclic_subset[of "edges g"]) (auto simp: edges_remove)

text \<open>The check is exact: it refuses an edge if and only if the edge would close a cycle.\<close>

lemma refuses_iff_cyclic:
  assumes "acyclic (edges g)"
  shows "would_cycle g a b \<noteq> None \<longleftrightarrow> \<not> acyclic (insert (a, b) (edges g))"
  using assms cycle_sound cycle_complete by (cases "would_cycle g a b") (auto simp: acyclic_insert)

end

end
