(* ===== verification/Delegation.thy ===== *)
theory Delegation
  imports Cycle_Guard Identifiers
begin

text \<open>
  The delegation graph of a correlation (\<open>paa.agents.delegation\<close>): depth, cycle and node bounds
  checked before an edge is recorded, and the registry of graphs.
\<close>

record DelegationEdge =
  d_sender :: string
  d_target :: string
  d_task_id :: uuid
  d_depth :: int

record DelegationGraph =
  dg_correlation_id :: uuid
  dg_max_depth :: int
  dg_max_nodes :: int
  dg_edges :: adjacency
  dg_node_count :: int

text \<open>
  The loop of \<open>would_cycle\<close>; the top of the stack is the head of the list, so the last successor
  pushed is visited first.
\<close>

function cycle_search ::
  "adjacency \<Rightarrow> string \<Rightarrow> string \<Rightarrow> (string \<times> string list) list \<Rightarrow> string list \<Rightarrow> string list option" where
  "cycle_search g sender target [] seen = None"
| "cycle_search g sender target ((node, path) # rest) seen =
     (if node = sender then Some (path @ [target])
      else if node \<in> set seen then cycle_search g sender target rest seen
      else cycle_search g sender target
             (rev (map (\<lambda>s. (s, path @ [s])) (succs g node)) @ rest) (node # seen))"
  by pat_completeness auto
termination
proof (relation "inv_image (less_than <*lex*> less_than)
    (\<lambda>(g, sender, target, stack, seen). (card (fst ` set g - set seen), length stack))", goal_cases)
  case (3 g sender target node path rest seen)
  then show ?case using unseen_progress[of node seen g] by auto
qed auto

declare cycle_search.simps [simp del]

definition would_cycle :: "DelegationGraph \<Rightarrow> string \<Rightarrow> string \<Rightarrow> string list option" where
  "would_cycle g sender target =
     (if sender = target then Some [sender, target]
      else cycle_search (dg_edges g) sender target [(target, [target])] [])"

definition record_edge :: "DelegationGraph \<Rightarrow> string \<Rightarrow> string \<Rightarrow> DelegationGraph" where
  "record_edge g s t = g\<lparr>dg_edges := dict_set (dg_edges g) s (set_add (succs (dg_edges g) s) t)\<rparr>"

definition propose :: "DelegationEdge \<Rightarrow> DelegationGraph \<Rightarrow> DelegationGraph result" where
  "propose e g =
     (if d_depth e > dg_max_depth g then Inl RecursionGuardError
      else if would_cycle g (d_sender e) (d_target e) \<noteq> None then Inl RecursionGuardError
      else if dg_node_count g + 1 > dg_max_nodes g then Inl RecursionGuardError
      else Inr ((record_edge g (d_sender e) (d_target e))\<lparr>dg_node_count := dg_node_count g + 1\<rparr>))"

text \<open>\<open>self._edges.get(sender, set()).discard(target)\<close>: a missing sender is not created.\<close>

definition discard_edge :: "DelegationGraph \<Rightarrow> string \<Rightarrow> string \<Rightarrow> DelegationGraph" where
  "discard_edge g s t =
     (if s \<in> fst ` set (dg_edges g)
      then g\<lparr>dg_edges := dict_set (dg_edges g) s (filter (\<lambda>x. x \<noteq> t) (succs (dg_edges g) s))\<rparr>
      else g)"

definition release_delegation :: "DelegationEdge \<Rightarrow> DelegationGraph \<Rightarrow> DelegationGraph" where
  "release_delegation e g = discard_edge g (d_sender e) (d_target e)"

definition delegation_edge_count :: "DelegationGraph \<Rightarrow> int" where
  "delegation_edge_count g = edge_total (dg_edges g)"

subsection \<open>The registry\<close>

record DelegationRegistry =
  dr_graphs :: "(uuid \<times> DelegationGraph) list"
  dr_max_depth :: int
  dr_max_nodes :: int

definition graph_for ::
  "uuid \<Rightarrow> int option \<Rightarrow> int option \<Rightarrow> DelegationRegistry \<Rightarrow> DelegationGraph \<times> DelegationRegistry" where
  "graph_for cid max_depth max_nodes r =
     (case dict_get (dr_graphs r) cid of
        Some g \<Rightarrow> (g, r)
      | None \<Rightarrow>
          let g = \<lparr>dg_correlation_id = cid,
                   dg_max_depth = (case max_depth of None \<Rightarrow> dr_max_depth r | Some d \<Rightarrow> d),
                   dg_max_nodes = (case max_nodes of None \<Rightarrow> dr_max_nodes r | Some n \<Rightarrow> n),
                   dg_edges = [], dg_node_count = 0\<rparr>
          in (g, r\<lparr>dr_graphs := dict_set (dr_graphs r) cid g\<rparr>))"

definition discard_graph :: "uuid \<Rightarrow> DelegationRegistry \<Rightarrow> DelegationRegistry" where
  "discard_graph cid r = r\<lparr>dr_graphs := dict_del (dr_graphs r) cid\<rparr>"

definition active_count :: "DelegationRegistry \<Rightarrow> int" where
  "active_count r = int (length (dr_graphs r))"

subsection \<open>The search is exact\<close>

lemma cycle_search_complete:
  assumes "cycle_search g sender target stack seen = None" "sender \<notin> set seen"
    and "\<And>u v. u \<in> set seen \<Longrightarrow> v \<in> set (succs g u) \<Longrightarrow> v \<in> set seen \<union> fst ` set stack"
    and "x \<in> set seen \<union> fst ` set stack"
  shows "(x, sender) \<notin> (edge_rel g)\<^sup>*"
  using assms
proof (induction g sender target stack seen rule: cycle_search.induct)
  case (1 g sender target seen)
  then show ?case using closed_reaches[of x sender g "set seen"] by auto
next
  case (2 g sender target node path rest seen)
  have ne: "node \<noteq> sender" using "2.prems"(1) by (auto simp: cycle_search.simps)
  show ?case
  proof (cases "node \<in> set seen")
    case True
    show ?thesis
      by (rule "2.IH"(1)[OF ne True]) (use ne True "2.prems" in \<open>auto simp: cycle_search.simps\<close>)
  next
    case False
    show ?thesis
      by (rule "2.IH"(2)[OF ne False])
        (use ne False "2.prems" in \<open>auto simp: cycle_search.simps(2) image_Un image_image\<close>)
  qed
qed

lemma cycle_search_sound:
  assumes "cycle_search g sender target stack seen = Some p"
    and "\<And>n path. (n, path) \<in> set stack \<Longrightarrow> path \<noteq> [] \<and> hd path = target \<and> last path = n \<and> is_path g path"
  shows "\<exists>path. p = path @ [target] \<and> path \<noteq> [] \<and> hd path = target \<and> last path = sender \<and> is_path g path"
  using assms
proof (induction g sender target stack seen rule: cycle_search.induct)
  case (2 g sender target node path rest seen)
  have path: "path \<noteq> []" "hd path = target" "last path = node" "is_path g path"
    using "2.prems"(2)[of node path] by auto
  show ?case
  proof (cases "node = sender")
    case True
    then show ?thesis using "2.prems"(1) path by (auto simp: cycle_search.simps(2))
  next
    case ne: False
    show ?thesis
    proof (cases "node \<in> set seen")
      case True
      show ?thesis
        by (rule "2.IH"(1)[OF ne True]) (use ne True "2.prems" in \<open>auto simp: cycle_search.simps(2)\<close>)
    next
      case False
      show ?thesis
        by (rule "2.IH"(2)[OF ne False])
          (use ne False "2.prems" path in \<open>auto simp: cycle_search.simps(2) is_path_snoc path(3)\<close>)
    qed
  qed
qed (simp add: cycle_search.simps)

lemma succs_record: "succs (dg_edges (record_edge g s t)) n =
    (if n = s then set_add (succs (dg_edges g) s) t else succs (dg_edges g) n)"
  by (simp add: record_edge_def succs_set)

lemma is_path_mono:
  "is_path g p \<Longrightarrow> (\<And>n. set (succs g n) \<subseteq> set (succs g' n)) \<Longrightarrow> is_path g' p"
  unfolding is_path_def by (erule successively_mono) blast

text \<open>The list that a refusal reports is a closed walk of the graph with the edge added.\<close>

lemma would_cycle_path:
  assumes "would_cycle g s t = Some p"
  shows "is_path (dg_edges (record_edge g s t)) p \<and> hd p = last p \<and> 2 \<le> length p"
proof (cases "s = t")
  case True
  then show ?thesis using assms
    by (auto simp: would_cycle_def is_path_def succs_record set_add_def)
next
  case False
  then obtain path where p: "p = path @ [t]" "path \<noteq> []" "hd path = t" "last path = s" "is_path (dg_edges g) path"
    using assms cycle_search_sound[of "dg_edges g" s t "[(t, [t])]" "[]" p]
    by (auto simp: would_cycle_def is_path_def)
  have "is_path (dg_edges (record_edge g s t)) path"
    by (rule is_path_mono[OF p(5)]) (auto simp: succs_record set_add_def)
  then have "is_path (dg_edges (record_edge g s t)) (path @ [t])"
    by (simp add: is_path_snoc p(4) succs_record set_add_def)
  then show ?thesis using p(2,3) by (cases path) (simp_all add: p(1))
qed

lemma edge_rel_record: "edge_rel (dg_edges (record_edge g s t)) = insert (s, t) (edge_rel (dg_edges g))"
  by (auto simp: edge_rel_def succs_record set_add_def split: if_splits)

lemma edge_rel_discard: "edge_rel (dg_edges (discard_edge g s t)) = edge_rel (dg_edges g) - {(s, t)}"
  by (auto simp: edge_rel_def discard_edge_def succs_set succs_not_key split: if_splits)

interpretation delegation: cycle_guard "\<lambda>g. edge_rel (dg_edges g)" would_cycle record_edge discard_edge
proof unfold_locales
  fix g s t p
  show "edge_rel (dg_edges (record_edge g s t)) = insert (s, t) (edge_rel (dg_edges g))" by (rule edge_rel_record)
  show "edge_rel (dg_edges (discard_edge g s t)) = edge_rel (dg_edges g) - {(s, t)}" by (rule edge_rel_discard)
  show "(t, s) \<in> (edge_rel (dg_edges g))\<^sup>*" if refused: "would_cycle g s t = Some p"
  proof (cases "s = t")
    case False
    then obtain path where "path \<noteq> []" "hd path = t" "last path = s" "is_path (dg_edges g) path"
      using refused cycle_search_sound[of "dg_edges g" s t "[(t, [t])]" "[]" p]
      by (auto simp: would_cycle_def is_path_def)
    then show ?thesis using path_reaches by metis
  qed simp
  show "(t, s) \<notin> (edge_rel (dg_edges g))\<^sup>*" if "would_cycle g s t = None"
    using that cycle_search_complete[of "dg_edges g" s t "[(t, [t])]" "[]" t]
    by (auto simp: would_cycle_def split: if_splits)
qed

subsection \<open>The graph's invariant\<close>

definition delegation_inv :: "DelegationGraph \<Rightarrow> bool" where
  "delegation_inv g \<longleftrightarrow>
     acyclic (edge_rel (dg_edges g)) \<and> 0 \<le> dg_node_count g \<and> dg_node_count g \<le> max 0 (dg_max_nodes g) \<and>
     distinct (map fst (dg_edges g)) \<and> delegation_edge_count g \<le> dg_node_count g"

lemma edge_total_set:
  "distinct (map fst g) \<Longrightarrow> edge_total (dict_set g n ys) = edge_total g - int (length (succs g n)) + int (length ys)"
proof (induction g n ys rule: dict_set.induct)
  case (2 k' v' d k v)
  then show ?case
    by (auto simp: edge_total_def succs_def dict_get_default_def map_of_eq_None_iff[THEN iffD2] split: option.splits)
qed (simp add: edge_total_def succs_def dict_get_default_def)

lemma propose_Inr:
  assumes "propose e g = Inr g'"
  shows "d_depth e \<le> dg_max_depth g" "would_cycle g (d_sender e) (d_target e) = None"
    "dg_node_count g + 1 \<le> dg_max_nodes g"
    "g' = (record_edge g (d_sender e) (d_target e))\<lparr>dg_node_count := dg_node_count g + 1\<rparr>"
  using assms by (auto simp: propose_def split: if_splits)

lemma propose_inv:
  assumes "propose e g = Inr g'" "delegation_inv g"
  shows "delegation_inv g'"
proof -
  note p = propose_Inr[OF assms(1)]
  have "acyclic (edge_rel (dg_edges g'))"
    using delegation.accepted_acyclic[OF _ p(2)] assms(2) by (simp add: p(4) delegation_inv_def)
  moreover have "delegation_edge_count g' \<le> dg_node_count g'"
    using assms(2) by (auto simp: p(4) delegation_inv_def delegation_edge_count_def record_edge_def edge_total_set set_add_def)
  ultimately show ?thesis
    using assms(2) p(3) by (simp add: p(4) delegation_inv_def record_edge_def dict_set_distinct)
qed

lemma release_inv:
  assumes "delegation_inv g"
  shows "delegation_inv (release_delegation e g)"
proof -
  have "acyclic (edge_rel (dg_edges (release_delegation e g)))"
    using delegation.removed_acyclic assms by (simp add: release_delegation_def delegation_inv_def)
  moreover have "edge_total (dg_edges (release_delegation e g)) \<le> edge_total (dg_edges g)"
    using assms length_filter_le[of "\<lambda>x. x \<noteq> d_target e" "succs (dg_edges g) (d_sender e)"]
    by (simp add: release_delegation_def discard_edge_def delegation_inv_def edge_total_set)
  moreover have "dg_node_count (release_delegation e g) = dg_node_count g"
    "dg_max_nodes (release_delegation e g) = dg_max_nodes g"
    "distinct (map fst (dg_edges (release_delegation e g)))"
    using assms by (simp_all add: release_delegation_def discard_edge_def delegation_inv_def dict_set_distinct)
  ultimately show ?thesis using assms by (simp add: delegation_inv_def delegation_edge_count_def)
qed

text \<open>A run of a graph's life: proposals, whether accepted or refused, and releases.\<close>

inductive delegation_run :: "DelegationGraph \<Rightarrow> DelegationGraph \<Rightarrow> bool" where
  run_refl: "delegation_run g g"
| run_propose: "delegation_run g g1 \<Longrightarrow> propose e g1 = Inr g2 \<Longrightarrow> delegation_run g g2"
| run_refuse: "delegation_run g g1 \<Longrightarrow> propose e g1 = Inl err \<Longrightarrow> delegation_run g g1"
| run_release: "delegation_run g g1 \<Longrightarrow> delegation_run g (release_delegation e g1)"

lemma delegation_run_inv: "delegation_run g g' \<Longrightarrow> delegation_inv g \<Longrightarrow> delegation_inv g' \<and> dg_max_nodes g' = dg_max_nodes g"
proof (induction rule: delegation_run.induct)
  case (run_propose g g1 e g2)
  then show ?case using propose_inv[of e g1 g2] propose_Inr(4)[of e g1 g2] by (simp add: record_edge_def)
next
  case (run_release g g1 e)
  then show ?case using release_inv[of g1 e] by (simp add: release_delegation_def discard_edge_def)
qed simp_all

lemma delegation_inv_new:
  "dict_get (dr_graphs r) cid = None \<Longrightarrow> delegation_inv (fst (graph_for cid d n r))"
  by (simp add: graph_for_def delegation_inv_def edge_rel_def succs_def dict_get_default_def
      delegation_edge_count_def edge_total_def acyclic_def trancl_empty Let_def)

end
