(* ===== verification/Message_Queue.thy ===== *)
theory Message_Queue
  imports Ledger_Store
begin

text \<open>
  The durable queue (\<open>paa.storage.queue.base\<close> and \<open>paa.storage.queue.sqlite_backend\<close>): the table
  \<open>queue_messages\<close> and the operations of \<open>SqliteMessageQueue\<close>, each of them one transaction.

  Instants are microseconds on the UTC axis. The backend compares the ISO texts of two
  timestamps where this model compares the instants; \<open>Timestamps.isoformat_less_iff\<close> is why the
  two orders agree. The clock and the fresh identifier of a call are arguments, and a number of
  seconds is its number of microseconds, as \<open>timedelta\<close> rounds it.
\<close>

type_synonym instant = int

subsection \<open>Messages\<close>

datatype StreamName =
    RAW_TELEMETRY | ORCHESTRATOR_CORE | PLANNER_STRAT | WORKERS_ALLOC | MEMORY_CURATION
  | STREAM_SANDBOX_RUN | CRITIC_AUDIT | WATCHDOG_MONITOR | HEARTBEAT_PING | RETRY_FAILED
  | DEAD_LETTER_POISON

definition control_plane_streams :: "StreamName list" where
  "control_plane_streams = [ORCHESTRATOR_CORE, HEARTBEAT_PING, DEAD_LETTER_POISON]"

definition default_priority :: int where
  "default_priority = 100"

record QueueMessage =
  msg_id :: string
  msg_stream :: StreamName
  msg_correlation_id :: "uuid option"
  msg_session_id :: "uuid option"
  msg_priority :: int
  msg_payload :: payload
  msg_attempts :: int
  msg_max_attempts :: int
  msg_enqueued_at :: instant
  msg_visible_after :: instant

text \<open>\<open>attempts: Field(ge=0)\<close> and \<open>max_attempts: Field(ge=1)\<close>\<close>

definition validate_message :: "QueueMessage \<Rightarrow> QueueMessage result" where
  "validate_message m =
     (if msg_attempts m < 0 \<or> msg_max_attempts m < 1 then Inl ValueError else Inr m)"

definition is_exhausted :: "QueueMessage \<Rightarrow> bool" where
  "is_exhausted m \<longleftrightarrow> msg_attempts m \<ge> msg_max_attempts m"

definition remaining_attempts :: "QueueMessage \<Rightarrow> int" where
  "remaining_attempts m = max 0 (msg_max_attempts m - msg_attempts m)"

subsection \<open>The table\<close>

datatype status = Ready | Claimed | Done | Dead

record queue_row =
  q_id :: string
  q_stream :: StreamName
  q_correlation_id :: "uuid option"
  q_session_id :: "uuid option"
  q_priority :: int
  q_payload :: json
  q_status :: status
  q_attempts :: int
  q_max_attempts :: int
  q_claimed_by :: "string option"
  q_claimed_at :: "instant option"
  q_visible_after :: instant
  q_enqueued_at :: instant
  q_completed_at :: "instant option"
  q_last_error :: "string option"
  q_arrival_seq :: int

type_synonym queue = "queue_row list"

record QueueSettings =
  backpressure_depth :: int
  shed_load_depth :: int
  max_delivery_attempts :: int
  visibility_timeout_us :: int
  entity_lock_ttl_us :: int

text \<open>The field bounds and \<open>_check_depth_ordering\<close>.\<close>

definition validate_queue_settings :: "QueueSettings \<Rightarrow> QueueSettings result" where
  "validate_queue_settings cfg =
     (if backpressure_depth cfg < 1 \<or> shed_load_depth cfg < 1 \<or> max_delivery_attempts cfg < 1
         \<or> visibility_timeout_us cfg \<le> 0 \<or> entity_lock_ttl_us cfg \<le> 0
         \<or> shed_load_depth cfg \<le> backpressure_depth cfg
      then Inl ValueError else Inr cfg)"

text \<open>The rowid that an insert takes, which the trigger copies into \<open>arrival_seq\<close>.\<close>

definition next_rowid :: "queue \<Rightarrow> int" where
  "next_rowid q = foldr max (map q_arrival_seq q) 0 + 1"

definition row_to_message :: "queue_row \<Rightarrow> QueueMessage result" where
  "row_to_message r =
     rbind (payload_of_json (q_payload r)) (\<lambda>p.
       validate_message
         \<lparr>msg_id = q_id r, msg_stream = q_stream r, msg_correlation_id = q_correlation_id r,
          msg_session_id = q_session_id r, msg_priority = q_priority r, msg_payload = p,
          msg_attempts = q_attempts r, msg_max_attempts = q_max_attempts r,
          msg_enqueued_at = q_enqueued_at r, msg_visible_after = q_visible_after r\<rparr>)"

subsection \<open>Publishing\<close>

text \<open>\<open>max_attempts or settings.max_delivery_attempts\<close>\<close>

definition effective_max_attempts :: "QueueSettings \<Rightarrow> int option \<Rightarrow> int" where
  "effective_max_attempts cfg m =
     (case m of None \<Rightarrow> max_delivery_attempts cfg
      | Some n \<Rightarrow> if n = 0 then max_delivery_attempts cfg else n)"

definition enqueue ::
  "QueueSettings \<Rightarrow> string \<Rightarrow> instant \<Rightarrow> StreamName \<Rightarrow> payload \<Rightarrow> int \<Rightarrow> uuid option \<Rightarrow> uuid option
     \<Rightarrow> int \<Rightarrow> int option \<Rightarrow> queue \<Rightarrow> (QueueMessage \<times> queue) result" where
  "enqueue cfg i now stream p prio cid sid delay_us max_att q =
     (let visible = now + max 0 delay_us
      in rbind (validate_message
           \<lparr>msg_id = i, msg_stream = stream, msg_correlation_id = cid, msg_session_id = sid,
            msg_priority = prio, msg_payload = p, msg_attempts = 0,
            msg_max_attempts = effective_max_attempts cfg max_att,
            msg_enqueued_at = now, msg_visible_after = visible\<rparr>) (\<lambda>m.
         let j = stored_json (PDict p)
         in if \<not> json_valid j then Inl IntegrityError
            else if i \<in> q_id ` set q then Inl UniqueViolation
            else Inr (m, q @ [\<lparr>q_id = i, q_stream = stream, q_correlation_id = cid,
              q_session_id = sid, q_priority = prio, q_payload = j, q_status = Ready,
              q_attempts = 0, q_max_attempts = msg_max_attempts m, q_claimed_by = None,
              q_claimed_at = None, q_visible_after = visible, q_enqueued_at = now,
              q_completed_at = None, q_last_error = None, q_arrival_seq = next_rowid q\<rparr>])))"

subsection \<open>Consuming\<close>

definition dispatch_key :: "queue_row \<Rightarrow> int \<times> int \<times> int" where
  "dispatch_key r = (q_priority r, q_enqueued_at r, q_arrival_seq r)"

definition is_eligible :: "StreamName \<Rightarrow> instant \<Rightarrow> queue_row \<Rightarrow> bool" where
  "is_eligible stream now r \<longleftrightarrow>
     q_stream r = stream \<and> q_status r = Ready \<and> q_visible_after r \<le> now"

text \<open>\<open>_SELECT_READY_SQL\<close>\<close>

definition select_ready :: "StreamName \<Rightarrow> instant \<Rightarrow> int \<Rightarrow> queue \<Rightarrow> queue_row list" where
  "select_ready stream now limit q =
     take (nat limit) (sort_key dispatch_key (filter (is_eligible stream now) q))"

text \<open>An UPDATE of the rows with a given id.\<close>

definition update_id :: "string \<Rightarrow> (queue_row \<Rightarrow> queue_row) \<Rightarrow> queue \<Rightarrow> queue" where
  "update_id i f q = map (\<lambda>r. if q_id r = i then f r else r) q"

definition mark_claimed :: "string \<Rightarrow> instant \<Rightarrow> instant \<Rightarrow> queue_row \<Rightarrow> queue_row" where
  "mark_claimed consumer now deadline r =
     r\<lparr>q_status := Claimed, q_claimed_by := Some consumer, q_claimed_at := Some now,
       q_visible_after := deadline\<rparr>"

text \<open>The messages are built after the transaction: a row that cannot be read leaves the claims.\<close>

definition claim ::
  "QueueSettings \<Rightarrow> instant \<Rightarrow> StreamName \<Rightarrow> string \<Rightarrow> int \<Rightarrow> int option \<Rightarrow> queue
     \<Rightarrow> QueueMessage list result \<times> queue" where
  "claim cfg now stream consumer limit timeout q =
     (if limit \<le> 0 then (Inr [], q)
      else
        let deadline = now + (case timeout of None \<Rightarrow> visibility_timeout_us cfg | Some t \<Rightarrow> t);
            rows = select_ready stream now limit q;
            q' = fold (\<lambda>r. update_id (q_id r) (mark_claimed consumer now deadline)) rows q
        in (rmap (map (\<lambda>m. m\<lparr>msg_visible_after := deadline\<rparr>)) (rmapM row_to_message rows), q'))"

definition ack :: "instant \<Rightarrow> string \<Rightarrow> queue \<Rightarrow> bool \<times> queue" where
  "ack now i q =
     (let hit = (\<lambda>r. q_id r = i \<and> (q_status r = Ready \<or> q_status r = Claimed))
      in (\<exists>r \<in> set q. hit r,
          map (\<lambda>r. if hit r then r\<lparr>q_status := Done, q_completed_at := Some now,
                                     q_claimed_by := None, q_claimed_at := None\<rparr> else r) q))"

text \<open>\<open>str(error)[:_MAX_ERROR_CHARS]\<close>: a slice counts code points, not bytes.\<close>

fun clip :: "nat \<Rightarrow> string \<Rightarrow> string" where
  "clip n [] = []"
| "clip n (c # s) =
     (let k = of_char c :: nat
      in if 128 \<le> k \<and> k < 192 then c # clip n s else if n = 0 then [] else c # clip (n - 1) s)"

definition nack ::
  "instant \<Rightarrow> string \<Rightarrow> string \<Rightarrow> int \<Rightarrow> queue \<Rightarrow> QueueMessage option result \<times> queue" where
  "nack now i err retry_delay_us q =
     (case find (\<lambda>r. q_id r = i) q of
        None \<Rightarrow> (Inr None, q)
      | Some r \<Rightarrow>
          if q_status r = Done \<or> q_status r = Dead then (Inr None, q)
          else
            let attempts = q_attempts r + 1;
                exhausted = attempts \<ge> q_max_attempts r;
                visible = (if exhausted then now else now + max 0 retry_delay_us);
                q' = update_id i (\<lambda>x. x\<lparr>q_attempts := attempts,
                       q_status := (if exhausted then Dead else Ready),
                       q_visible_after := visible,
                       q_completed_at := (if exhausted then Some now else None),
                       q_last_error := Some (clip 2000 err),
                       q_claimed_by := None, q_claimed_at := None\<rparr>) q
            in (rmap (\<lambda>m. Some (m\<lparr>msg_attempts := attempts, msg_visible_after := visible\<rparr>))
                  (row_to_message r), q'))"

subsection \<open>Recovery\<close>

definition is_expired :: "instant \<Rightarrow> queue_row \<Rightarrow> bool" where
  "is_expired now r \<longleftrightarrow> q_status r = Claimed \<and> q_visible_after r \<le> now"

definition reclaim_row :: "instant \<Rightarrow> queue_row \<Rightarrow> queue_row" where
  "reclaim_row now r =
     (if q_attempts r + 1 \<ge> q_max_attempts r
      then r\<lparr>q_status := Dead, q_attempts := q_attempts r + 1, q_completed_at := Some now,
             q_last_error := Some ''visibility timeout elapsed without ack; attempts exhausted''\<rparr>
      else r\<lparr>q_status := Ready, q_attempts := q_attempts r + 1, q_visible_after := now,
             q_claimed_by := None, q_claimed_at := None,
             q_last_error := Some ''visibility timeout elapsed without ack''\<rparr>)"

text \<open>The rows are selected first and each is then updated by its id: first those that go back to
  ready, then those that are buried.\<close>

definition reclaim_expired :: "instant \<Rightarrow> queue \<Rightarrow> int \<times> queue" where
  "reclaim_expired now q =
     (let rows = sort_key q_visible_after (filter (is_expired now) q);
          buried = (\<lambda>r. q_attempts r + 1 \<ge> q_max_attempts r);
          upd = (\<lambda>r. update_id (q_id r) (reclaim_row now))
      in (int (length rows),
          fold upd (filter buried rows) (fold upd (filter (\<lambda>r. \<not> buried r) rows) q)))"

subsection \<open>Inspection\<close>

definition depth :: "StreamName \<Rightarrow> queue \<Rightarrow> int" where
  "depth stream q =
     int (length (filter (\<lambda>r. q_stream r = stream \<and> (q_status r = Ready \<or> q_status r = Claimed)) q))"

definition dead_letters :: "StreamName \<Rightarrow> int \<Rightarrow> queue \<Rightarrow> QueueMessage list result" where
  "dead_letters stream limit q =
     rmapM row_to_message
       (sql_limit limit (sort_key (\<lambda>r. - q_enqueued_at r)
         (filter (\<lambda>r. q_stream r = stream \<and> q_status r = Dead) q)))"

definition purge :: "StreamName \<Rightarrow> queue \<Rightarrow> int \<times> queue" where
  "purge stream q =
     (int (length (filter (\<lambda>r. q_stream r = stream) q)), filter (\<lambda>r. q_stream r \<noteq> stream) q)"

end
