(* ===== verification/Backpressure.thy ===== *)
theory Backpressure
  imports Message_Queue
begin

text \<open>
  Queue backpressure (\<open>paa.storage.queue.backpressure\<close>): the classification of a depth, the
  modality ladder, admission under pressure and the combined verdict.
\<close>

datatype BackpressureState = NORMAL | DEGRADED | SHEDDING

definition is_degraded :: "BackpressureState \<Rightarrow> bool" where
  "is_degraded s \<longleftrightarrow> s = DEGRADED \<or> s = SHEDDING"

definition is_shedding :: "BackpressureState \<Rightarrow> bool" where
  "is_shedding s \<longleftrightarrow> s = SHEDDING"

fun degrade_modality :: "ComplexityModality \<Rightarrow> ComplexityModality" where
  "degrade_modality MAX_MODALITY = COMPLEX"
| "degrade_modality COMPLEX = STANDARD"
| "degrade_modality STANDARD = SIMPLE"
| "degrade_modality SIMPLE = SIMPLE"

definition assess :: "QueueSettings \<Rightarrow> int \<Rightarrow> BackpressureState" where
  "assess cfg d =
     (if d \<ge> shed_load_depth cfg then SHEDDING
      else if d \<ge> backpressure_depth cfg then DEGRADED else NORMAL)"

definition should_accept :: "StreamName \<Rightarrow> BackpressureState \<Rightarrow> bool" where
  "should_accept stream s \<longleftrightarrow> \<not> is_shedding s \<or> stream \<in> set control_plane_streams"

record Verdict =
  v_state :: BackpressureState
  v_accepted :: bool
  v_modality :: ComplexityModality

definition plan :: "QueueSettings \<Rightarrow> StreamName \<Rightarrow> int \<Rightarrow> ComplexityModality \<Rightarrow> Verdict" where
  "plan cfg stream d m =
     (let s = assess cfg d
      in \<lparr>v_state = s, v_accepted = should_accept stream s,
          v_modality = (if is_degraded s then degrade_modality m else m)\<rparr>)"

subsection \<open>Lemmas\<close>

fun pressure :: "BackpressureState \<Rightarrow> nat" where
  "pressure NORMAL = 0"
| "pressure DEGRADED = 1"
| "pressure SHEDDING = 2"

lemma assess_mono: "d \<le> d' \<Longrightarrow> shed_load_depth cfg > backpressure_depth cfg \<Longrightarrow>
  pressure (assess cfg d) \<le> pressure (assess cfg d')"
  by (simp add: assess_def)

text \<open>One rung down never gives a task more: every bound of the profile shrinks or stays.\<close>

lemma degrade_profile:
  "token_ceiling (modality_profile (degrade_modality m)) \<le> token_ceiling (modality_profile m)"
  "recursion_ceiling (modality_profile (degrade_modality m)) \<le> recursion_ceiling (modality_profile m)"
  "memory_mb (modality_profile (degrade_modality m)) \<le> memory_mb (modality_profile m)"
  "graph_hops (modality_profile (degrade_modality m)) \<le> graph_hops (modality_profile m)"
  by (cases m; simp)+

lemma degrade_floor: "(degrade_modality ^^ 3) m = SIMPLE"
  by (cases m) (simp_all add: eval_nat_numeral)

text \<open>
  Load shedding is orderly: under a valid configuration, a deeper queue is never classified as less
  loaded; under any load the control plane is still accepted; and the modality chosen under
  pressure never asks for more tokens, recursion, memory or graph hops than the one requested.
\<close>

lemma backpressure_orderly:
  assumes "validate_queue_settings cfg = Inr cfg" "d \<le> d'" "stream \<in> set control_plane_streams"
  shows "pressure (v_state (plan cfg stream d m)) \<le> pressure (v_state (plan cfg stream d' m)) \<and>
    v_accepted (plan cfg stream d m) \<and>
    (let p = modality_profile (v_modality (plan cfg stream d m)); p0 = modality_profile m
     in token_ceiling p \<le> token_ceiling p0 \<and> recursion_ceiling p \<le> recursion_ceiling p0 \<and>
        Core_Types.memory_mb p \<le> Core_Types.memory_mb p0 \<and> graph_hops p \<le> graph_hops p0)"
proof -
  have "shed_load_depth cfg > backpressure_depth cfg"
    using assms(1) by (auto simp: validate_queue_settings_def split: if_splits)
  then show ?thesis
    using assess_mono[OF assms(2)] assms(3) degrade_profile[of m]
    by (simp add: plan_def Let_def should_accept_def)
qed

end
