(* ===== verification/Agents.thy ===== *)
theory Agents
  imports Gate_Questions Delegation Backpressure
begin

text \<open>
  Agents (\<open>paa.agents.base\<close>): messages, execution contexts with their token budget, results, and the
  wrapper every agent runs in.

  The world holds the ledger, the delegation graphs, the queue and whatever state the agents keep. What
  an agent does with a message is an argument (\<open>ag_handle\<close>, the abstract method \<open>handle\<close>): it may change
  the world and charge tokens to its context, and it may raise. An exception of the program's own hierarchy carries its
  payload (\<open>to_payload\<close>); of any other exception only its class is known, and the environment gives
  the payload and the text of those.
\<close>

subsection \<open>Exceptions\<close>

datatype raised = PaaRaised payload | Raised py_error

text \<open>The classes that derive from \<open>PaaError\<close>.\<close>

definition paa_error :: "py_error \<Rightarrow> bool" where
  "paa_error e \<longleftrightarrow> e \<in> {UniqueViolation, IntegrityError, LedgerError, RecursionGuardError, BudgetExceededError,
     LockUnavailableError, StorageError, ValidationError}"

definition error_payload :: "string \<Rightarrow> string \<Rightarrow> payload \<Rightarrow> payload" where
  "error_payload cls msg details = dict_merge [(''error_type'', PStr cls), (''message'', PStr msg)] details"

subsection \<open>Messages, contexts, results\<close>

datatype MessageType =
    TASK_REQUEST | CONTEXT_REQUEST | CONTEXT_RESPONSE | PLAN_PROPOSAL | POLICY_CHECK | EXECUTION_REQUEST
  | EXECUTION_RESULT | REVIEW_RESULT | MEMORY_UPDATE | ESCALATION | REFUSAL | COMPLETION | DELEGATION

fun message_type_value :: "MessageType \<Rightarrow> string" where
  "message_type_value TASK_REQUEST = ''TASK_REQUEST''"
| "message_type_value CONTEXT_REQUEST = ''CONTEXT_REQUEST''"
| "message_type_value CONTEXT_RESPONSE = ''CONTEXT_RESPONSE''"
| "message_type_value PLAN_PROPOSAL = ''PLAN_PROPOSAL''"
| "message_type_value POLICY_CHECK = ''POLICY_CHECK''"
| "message_type_value EXECUTION_REQUEST = ''EXECUTION_REQUEST''"
| "message_type_value EXECUTION_RESULT = ''EXECUTION_RESULT''"
| "message_type_value REVIEW_RESULT = ''REVIEW_RESULT''"
| "message_type_value MEMORY_UPDATE = ''MEMORY_UPDATE''"
| "message_type_value ESCALATION = ''ESCALATION''"
| "message_type_value REFUSAL = ''REFUSAL''"
| "message_type_value COMPLETION = ''COMPLETION''"
| "message_type_value DELEGATION = ''DELEGATION''"

fun permission_value :: "Permission \<Rightarrow> string" where
  "permission_value SANDBOX_RUN = ''PERM_SANDBOX_RUN''"
| "permission_value WRITE_HOT = ''PERM_WRITE_HOT''"
| "permission_value WRITE_COLD = ''PERM_WRITE_COLD''"
| "permission_value NET_EGRESS = ''PERM_NET_EGRESS''"
| "permission_value EXTERNAL_WRITE = ''PERM_EXTERNAL_WRITE''"
| "permission_value FILE_DELETE = ''PERM_FILE_DELETE''"
| "permission_value SCHEMA_MIGRATE = ''PERM_SCHEMA_MIGRATE''"
| "permission_value SECRET_READ = ''PERM_SECRET_READ''"
| "permission_value MODEL_ESCALATE = ''PERM_MODEL_ESCALATE''"
| "permission_value CROSS_SESSION_READ = ''PERM_CROSS_SESSION_READ''"

fun mode_value :: "PermissionMode \<Rightarrow> string" where
  "mode_value AUTO = ''AUTO''"
| "mode_value ASK = ''ASK''"
| "mode_value SUPERVISED = ''SUPERVISED''"
| "mode_value LOCKDOWN = ''LOCKDOWN''"
| "mode_value SAFE = ''SAFE''"
| "mode_value HIGH_RISK = ''HIGH_RISK''"

record AgentMessage =
  am_message_id :: uuid
  am_task_id :: uuid
  am_parent_task_id :: "uuid option"
  am_correlation_id :: uuid
  am_session_id :: "uuid option"
  am_sender :: string
  am_recipient :: string
  am_intent :: MessageType
  am_payload :: payload
  am_recursion_depth :: int
  am_deadline :: "datetime option"
  am_created_at :: datetime

definition is_expired_message :: "AgentMessage \<Rightarrow> datetime \<Rightarrow> bool" where
  "is_expired_message m now = (case am_deadline m of None \<Rightarrow> False | Some d \<Rightarrow> dt_less d now)"

record AgentResult =
  ar_ok :: bool
  ar_value :: pyval
  ar_error :: "payload option"
  ar_tokens_consumed :: int

definition success :: "pyval \<Rightarrow> int \<Rightarrow> AgentResult" where
  "success v tokens = \<lparr>ar_ok = True, ar_value = v, ar_error = None, ar_tokens_consumed = tokens\<rparr>"

definition failure :: "payload \<Rightarrow> AgentResult" where
  "failure p = \<lparr>ar_ok = False, ar_value = PNone, ar_error = Some p, ar_tokens_consumed = 0\<rparr>"

record AgentContext =
  cx_correlation_id :: uuid
  cx_session_id :: "uuid option"
  cx_task_id :: uuid
  cx_parent_task_id :: "uuid option"
  cx_modality :: ComplexityModality
  cx_permission_mode :: PermissionMode
  cx_recursion_depth :: int
  cx_tokens_budget :: int
  cx_tokens_spent :: int

definition tokens_remaining :: "AgentContext \<Rightarrow> int" where
  "tokens_remaining ctx = max 0 (cx_tokens_budget ctx - cx_tokens_spent ctx)"

text \<open>The charge stays booked when it exceeds the budget.\<close>

definition spend :: "AgentContext \<Rightarrow> int \<Rightarrow> (raised + unit) \<times> AgentContext" where
  "spend ctx tokens =
     (let spent = cx_tokens_spent ctx + tokens; ctx1 = ctx\<lparr>cx_tokens_spent := spent\<rparr>
      in if cx_tokens_budget ctx \<noteq> 0 \<and> spent > cx_tokens_budget ctx
         then (Inl (PaaRaised (error_payload ''BudgetExceededError'' ''tokens budget exhausted''
                 [(''budget_kind'', PStr ''tokens''), (''limit'', PInt (cx_tokens_budget ctx)),
                  (''consumed'', PInt spent)])), ctx1)
         else (Inr (), ctx1))"

subsection \<open>The world of the agents\<close>

record 's runtime =
  rt_registry :: DelegationRegistry
  rt_queue :: queue
  rt_agents :: 's

type_synonym 's rt_world = "'s runtime world"

record 's agent =
  ag_name :: string
  ag_required_permissions :: "Permission list"
  ag_can_delegate :: bool
  ag_handle :: "AgentMessage \<Rightarrow> AgentContext \<Rightarrow> 's rt_world \<Rightarrow> (raised + AgentResult) \<times> int \<times> 's rt_world"

record 's orch_env =
  oe_ledger :: "'s runtime recovery_env"
  oe_context_builder :: "'s agent option"
  oe_planner :: "'s agent option"
  oe_policy :: "'s agent option"
  oe_worker :: "'s agent option"
  oe_critic :: "'s agent option"
  oe_agents :: "(string \<times> 's agent) list"
  oe_queue :: "QueueSettings option"
  oe_backpressure :: "(ComplexityModality \<Rightarrow> ComplexityModality) option"
  oe_recovery :: "int option"
  oe_permission_mode :: PermissionMode
  oe_max_step_retries :: int
  oe_instant :: "nat \<Rightarrow> instant"
  oe_payload_of :: "py_error \<Rightarrow> payload"
  oe_text_of :: "py_error \<Rightarrow> string"

type_synonym ('s, 'a) oact = "(raised, 's rt_world, 'a) action"

definition raise_py :: "'s orch_env \<Rightarrow> py_error \<Rightarrow> raised" where
  "raise_py env e = (if paa_error e then PaaRaised (oe_payload_of env e) else Raised e)"

definition lift_py :: "'s orch_env \<Rightarrow> 'a result \<Rightarrow> ('s, 'a) oact" where
  "lift_py env r = act_lift (case r of Inl e \<Rightarrow> Inl (raise_py env e) | Inr a \<Rightarrow> Inr a)"

definition raise :: "payload \<Rightarrow> ('s, 'a) oact" where
  "raise p = act_lift (Inl (PaaRaised p))"

definition child_context :: "'s orch_env \<Rightarrow> AgentContext \<Rightarrow> ('s, AgentContext) oact" where
  "child_context env ctx =
     (let depth = cx_recursion_depth ctx + 1
      in act_bind (lift_py env (token_quota_at_depth (modality_profile (cx_modality ctx)) depth)) (\<lambda>quota.
         act_bind tick (\<lambda>n.
           act_return \<lparr>cx_correlation_id = cx_correlation_id ctx, cx_session_id = cx_session_id ctx,
             cx_task_id = e_uuid4 (oe_ledger env) n, cx_parent_task_id = Some (cx_task_id ctx),
             cx_modality = cx_modality ctx, cx_permission_mode = cx_permission_mode ctx,
             cx_recursion_depth = depth, cx_tokens_budget = quota, cx_tokens_spent = 0\<rparr>)))"

subsection \<open>Running an agent\<close>

definition missing_permissions :: "'s agent \<Rightarrow> AgentContext \<Rightarrow> Permission list" where
  "missing_permissions a ctx = filter (\<lambda>p. \<not> grants (cx_permission_mode ctx) p) (ag_required_permissions a)"

definition permission_denied :: "Permission list \<Rightarrow> PermissionMode \<Rightarrow> payload" where
  "permission_denied missing mode =
     error_payload ''PermissionDeniedError'' ''required permissions are not granted in the active mode''
       [(''missing'', PList (map (PStr \<circ> permission_value) missing)), (''mode'', PStr (mode_value mode))]"

text \<open>A handler returns its result, the tokens its context has spent by then, and the world.\<close>

definition run_handler ::
  "'s orch_env \<Rightarrow> 's agent \<Rightarrow> AgentMessage \<Rightarrow> AgentContext \<Rightarrow> ('s, AgentResult \<times> AgentContext) oact" where
  "run_handler env a msg ctx w =
     (case ag_handle a msg ctx w of
        (Inl (PaaRaised p), spent, w1) \<Rightarrow> (Inr (failure p, ctx\<lparr>cx_tokens_spent := spent\<rparr>), w1)
      | (Inl (Raised e), spent, w1) \<Rightarrow>
          (Inr (failure [(''message'', PStr (oe_text_of env e))], ctx\<lparr>cx_tokens_spent := spent\<rparr>), w1)
      | (Inr r, spent, w1) \<Rightarrow>
          let ctx1 = ctx\<lparr>cx_tokens_spent := spent\<rparr>
          in if ar_tokens_consumed r \<noteq> 0
             then (case spend ctx1 (ar_tokens_consumed r) of
                     (Inl e, _) \<Rightarrow> (Inl e, w1) | (Inr _, ctx2) \<Rightarrow> (Inr (r, ctx2), w1))
             else (Inr (r, ctx1), w1))"

definition agent_run ::
  "'s orch_env \<Rightarrow> 's agent \<Rightarrow> AgentMessage \<Rightarrow> AgentContext \<Rightarrow> ('s, AgentResult \<times> AgentContext) oact" where
  "agent_run env a msg ctx =
     (if missing_permissions a ctx \<noteq> [] then
        act_return (failure (permission_denied (missing_permissions a ctx) (cx_permission_mode ctx)), ctx)
      else if am_deadline msg = None then run_handler env a msg ctx
      else act_bind tick (\<lambda>n.
        if is_expired_message msg (e_utc_now (oe_ledger env) n)
        then act_return (failure [(''message'', PStr (ag_name a @ '': message deadline already passed''))], ctx)
        else run_handler env a msg ctx))"

text \<open>An agent without the permissions of its class is never invoked.\<close>

lemma agent_run_denied:
  assumes "p \<in> set (ag_required_permissions a)" "\<not> grants (cx_permission_mode ctx) p"
  shows "\<exists>r. agent_run env a msg ctx w = (Inr (r, ctx), w) \<and> \<not> ar_ok r"
proof -
  have "missing_permissions a ctx \<noteq> []" using assms by (auto simp: missing_permissions_def filter_empty_conv)
  then show ?thesis by (auto simp: agent_run_def act_return_def failure_def)
qed

text \<open>Running an agent raises only when the budget is spent: every exception of the handler becomes a result.\<close>

lemma agent_run_raises:
  assumes "agent_run env a msg ctx w = (Inl e, w')"
  shows "\<exists>limit consumed. limit \<noteq> 0 \<and> consumed > limit \<and> e = PaaRaised (error_payload ''BudgetExceededError''
    ''tokens budget exhausted'' [(''budget_kind'', PStr ''tokens''), (''limit'', PInt limit), (''consumed'', PInt consumed)])"
  using assms
  by (auto simp: agent_run_def run_handler_def spend_def act_return_def act_bind_def tick_def Let_def
      split: if_splits prod.splits sum.splits raised.splits)

text \<open>A sub-agent's budget is at most half its parent's level.\<close>

lemma child_context_quota:
  assumes "child_context env ctx w = (Inr c, w')" "0 \<le> cx_recursion_depth ctx"
  shows "cx_recursion_depth c = cx_recursion_depth ctx + 1 \<and> 0 \<le> cx_tokens_budget c \<and>
    cx_tokens_budget c * 2 ^ nat (cx_recursion_depth c) \<le> token_ceiling (modality_profile (cx_modality ctx))"
proof -
  obtain q where q: "token_quota_at_depth (modality_profile (cx_modality ctx)) (cx_recursion_depth ctx + 1) = Inr q"
    "cx_tokens_budget c = q" "cx_recursion_depth c = cx_recursion_depth ctx + 1"
    using assms(1) by (auto simp: child_context_def act_bind_def lift_py_def act_lift_def tick_def act_return_def
        Let_def split: sum.splits)
  have "0 \<le> token_ceiling (modality_profile (cx_modality ctx))" by (cases "cx_modality ctx") simp_all
  from token_quota_bounds[OF this q(1)] show ?thesis by (simp add: q)
qed

text \<open>The identity of a context never changes: running an agent only charges tokens to it.\<close>

lemma agent_run_context:
  assumes "agent_run env a msg ctx w = (Inr (r, ctx'), w')"
  shows "\<exists>spent. ctx' = ctx\<lparr>cx_tokens_spent := spent\<rparr>"
proof -
  have "\<exists>spent. ctx = ctx\<lparr>cx_tokens_spent := spent\<rparr>" by (rule exI[of _ "cx_tokens_spent ctx"]) simp
  then show ?thesis using assms
    by (auto simp: agent_run_def run_handler_def spend_def act_return_def act_bind_def tick_def Let_def
        split: if_splits prod.splits sum.splits raised.splits)
qed

end
