(* ===== verification/Policy_Agent.thy ===== *)
theory Policy_Agent
  imports Regex_Search Double_Floats Permissions Agents
begin

text \<open>
  The policy and risk gate (\<open>paa.agents.policy\<close>): how a plan is rendered, the six checks that can block it, the risk
  score, and whether a human must approve.

  Plan values are those of a ledger payload. What the code takes from elsewhere is a field of \<open>policy_env\<close>: the
  rules the query returns, with what each pattern finds, and the embedder with the inner product of its vectors.
  \<open>_flatten\<close> is the function \<open>flat\<close> of the tool permissions, written a second time in the source.
  Logging and latency are left out.
\<close>

subsection \<open>Patterns\<close>

definition rx_opt :: "rx \<Rightarrow> rx" where
  "rx_opt r = RAlt r REps"

text \<open>\<open>(a|b|c)\<close> of words.\<close>

definition rx_words :: "string list \<Rightarrow> rx" where
  "rx_words ws = rx_any (map rx_text ws)"

definition rx_spaces :: rx where
  "rx_spaces = rx_plus rx_space"

definition rm_pattern :: rx where
  "rm_pattern = rx_seq [RBound, rx_text ''rm'', rx_spaces, rx_text ''-'',
     RSet (\<lambda>c. c \<in> set ''rRfF''), rx_opt (RSet (\<lambda>c. c \<in> set ''rRfF'')), RBound]"

definition rmtree_pattern :: rx where
  "rmtree_pattern = rx_seq [RBound, rx_text ''shutil.rmtree'', RBound]"

definition unlink_pattern :: rx where
  "unlink_pattern = rx_seq [RBound, rx_text ''os.'', rx_words [''remove'', ''unlink'', ''rmdir''], RBound]"

definition drop_pattern :: rx where
  "drop_pattern = rx_seq [RBound, rx_text ''drop'', rx_spaces, rx_words [''table'', ''database'', ''schema''], RBound]"

definition truncate_pattern :: rx where
  "truncate_pattern = rx_seq [RBound, rx_text ''truncate'', rx_spaces, rx_text ''table'', RBound]"

definition force_push_pattern :: rx where
  "force_push_pattern = rx_seq [RBound, rx_text ''git'', rx_spaces, rx_text ''push'', rx_spaces,
     RStar rx_not_newline, rx_text ''--force'', RBound]"

definition hard_reset_pattern :: rx where
  "hard_reset_pattern = rx_seq [RBound, rx_text ''git'', rx_spaces, rx_text ''reset'', rx_spaces, rx_text ''--hard'', RBound]"

definition device_pattern :: rx where
  "device_pattern = RAlt (rx_seq [RBound, rx_text ''mkfs'', RBound]) (rx_seq [RBound, rx_text ''dd'', rx_spaces, rx_text ''if=''])"

definition delete_head :: rx where
  "delete_head = rx_seq [RBound, rx_text ''delete'', rx_spaces, rx_text ''from'', rx_spaces, rx_plus rx_wordchar, RStar rx_space]"

definition delete_pattern :: rx where
  "delete_pattern = RSeq delete_head (rx_any [rx_text '';'', RSet (\<lambda>c. c = CHR 0x0A), REnd])"

definition irreversible_patterns :: "(rx \<times> string) list" where
  "irreversible_patterns =
     [(rm_pattern, ''recursive force delete''), (rmtree_pattern, ''recursive tree delete''),
      (unlink_pattern, ''file deletion''), (drop_pattern, ''destructive DDL''), (truncate_pattern, ''table truncation''),
      (force_push_pattern, ''force push''), (hard_reset_pattern, ''hard reset''), (device_pattern, ''raw device write''),
      (delete_pattern, ''unqualified delete'')]"

definition net_pattern :: rx where
  "net_pattern = RSeq RBound (rx_any [rx_text ''requests.'', rx_text ''urllib'', rx_text ''httpx.'', rx_text ''socket.'',
     RSeq (rx_text ''curl'') rx_space, RSeq (rx_text ''wget'') rx_space, rx_text ''aiohttp''])"

definition forbidden_write_roots :: "string list" where
  "forbidden_write_roots =
     [''C:'' @ [CHR 0x5C] @ ''Windows'', ''C:'' @ [CHR 0x5C] @ ''Program Files'',
      ''/etc'', ''/usr'', ''/bin'', ''/sbin'', ''/boot'', ''/System'']"

subsection \<open>Verdicts\<close>

text \<open>The risk is kept in thousandths: every score of a verdict is rounded to three decimals.\<close>

record PolicyVerdict =
  pv_decision :: string
  pv_risk :: nat
  pv_requires_human_gate :: bool
  pv_anti_goal_match :: bool
  pv_reason :: string

definition approved :: "nat \<Rightarrow> bool \<Rightarrow> string \<Rightarrow> PolicyVerdict" where
  "approved risk gate reason = \<lparr>pv_decision = ''STATUS_APPROVED'', pv_risk = risk, pv_requires_human_gate = gate,
     pv_anti_goal_match = False, pv_reason = reason\<rparr>"

definition blocked :: "string \<Rightarrow> bool \<Rightarrow> PolicyVerdict" where
  "blocked reason anti_goal = \<lparr>pv_decision = ''STATUS_BLOCKED'', pv_risk = 1000, pv_requires_human_gate = False,
     pv_anti_goal_match = anti_goal, pv_reason = reason\<rparr>"

definition verdict_dict :: "PolicyVerdict \<Rightarrow> payload" where
  "verdict_dict v =
     [(''decision'', PStr (pv_decision v)), (''risk_score'', PScalar (SFloat (milli_repr (pv_risk v)))),
      (''requires_human_gate'', PBool (pv_requires_human_gate v)), (''anti_goal_match'', PBool (pv_anti_goal_match v)),
      (''reason'', PStr (pv_reason v))]"

subsection \<open>The agent's environment\<close>

text \<open>Settings are floats, given by their \<open>repr\<close>.\<close>

record PolicySettings =
  ps_anti_goal_threshold :: string
  ps_auto_confidence_floor :: string
  ps_always_gate_risk_profile :: string

definition default_policy_settings :: PolicySettings where
  "default_policy_settings =
     \<lparr>ps_anti_goal_threshold = ''0.82'', ps_auto_confidence_floor = ''0.8'', ps_always_gate_risk_profile = ''0.9''\<rparr>"

text \<open>A setting that is validated as a probability is a finite float.\<close>

definition setting :: "string \<Rightarrow> pyfloat" where
  "setting s = (case float_of_text s of Inr x \<Rightarrow> x | Inl _ \<Rightarrow> NaN)"

text \<open>An operator's rule; its pattern finds something, nothing, or is malformed (\<open>re.error\<close>).\<close>

record PolicyRule =
  pr_rule_name :: string
  pr_rule_kind :: string
  pr_finds :: "(string \<Rightarrow> bool) option"
  pr_severity :: string
  pr_is_active :: bool

record 'v policy_env =
  pe_settings :: PolicySettings
  pe_rules :: "PolicyRule list result option"
  pe_workspace_root :: bool
  pe_anti_goals :: "string list"
  pe_embed :: "(string list \<Rightarrow> 'v list result) option"
  pe_dot :: "'v \<Rightarrow> 'v \<Rightarrow> pyfloat"

type_synonym step = payload

subsection \<open>Rendering\<close>

fun join_lines :: "string list \<Rightarrow> string" where
  "join_lines [] = []"
| "join_lines [s] = s"
| "join_lines (s # ss) = s @ CHR 0x0A # join_lines ss"

definition plan_parts :: "string \<Rightarrow> step list \<Rightarrow> string list" where
  "plan_parts goal steps = goal # concat (map (\<lambda>s. map (\<lambda>(k, v). flat v) s) steps)"

definition render :: "string \<Rightarrow> step list \<Rightarrow> string" where
  "render goal steps = join_lines (plan_parts goal steps)"

subsection \<open>Checks\<close>

type_synonym check = "PolicyVerdict option"

text \<open>What a loop over a plan's value iterates over.\<close>

definition iterated :: "pyval \<Rightarrow> pyval list result" where
  "iterated v =
     (case v of
        PList vs \<Rightarrow> Inr vs
      | PDict ms \<Rightarrow> Inr (map (PStr \<circ> fst) ms)
      | PSet xs _ \<Rightarrow> Inr (map PScalar xs)
      | PScalar (SStr s) \<Rightarrow> Inr (map (\<lambda>c. PStr [c]) s)
      | _ \<Rightarrow> Inl TypeError)"

definition permission_of :: "pyval \<Rightarrow> Permission option" where
  "permission_of v = find (\<lambda>p. v = PStr (permission_value p)) all_perms"

definition declared :: "step \<Rightarrow> pyval list result" where
  "declared s = iterated (dict_get_default s ''required_permissions'' (PList []))"

text \<open>The permissions of the names read so far, or the refusal of an unknown one.\<close>

fun read_permissions :: "pyval list \<Rightarrow> Permission list \<Rightarrow> PolicyVerdict + Permission list" where
  "read_permissions [] req = Inr req"
| "read_permissions (n # ns) req =
     (case permission_of n of
        None \<Rightarrow> Inl (blocked (''unknown permission requested: '' @ value_repr n) False)
      | Some p \<Rightarrow> read_permissions ns (if p \<in> set req then req else req @ [p]))"

fun required_permissions :: "step list \<Rightarrow> Permission list \<Rightarrow> (PolicyVerdict + Permission list) result" where
  "required_permissions [] req = Inr (Inr req)"
| "required_permissions (s # ss) req =
     (case declared s of
        Inl e \<Rightarrow> Inl e
      | Inr ns \<Rightarrow>
          (case read_permissions ns req of
             Inl v \<Rightarrow> Inr (Inl v)
           | Inr req' \<Rightarrow> required_permissions ss req'))"

definition check_permissions :: "step list \<Rightarrow> PermissionMode \<Rightarrow> check result" where
  "check_permissions steps mode =
     rbind (required_permissions steps []) (\<lambda>r.
       case r of
         Inl v \<Rightarrow> Inr (Some v)
       | Inr req \<Rightarrow>
           let missing = map permission_value (filter (\<lambda>p. \<not> grants mode p) req)
           in Inr (if missing = [] then None
                   else Some (blocked (''permissions not granted in '' @ mode_value mode @ '': ['' @
                          join_comma (map py_repr (sort_key id missing)) @ '']'') False)))"

definition hashable :: "pyval \<Rightarrow> bool" where
  "hashable v = (case v of PList _ \<Rightarrow> False | PDict _ \<Rightarrow> False | PSet _ _ \<Rightarrow> False | _ \<Rightarrow> True)"

fun declares_egress :: "step list \<Rightarrow> bool result" where
  "declares_egress [] = Inr False"
| "declares_egress (s # ss) =
     rbind (declared s) (\<lambda>ns.
       if \<not> list_all hashable ns then Inl TypeError
       else if list_ex (\<lambda>n. n \<in> {PStr (permission_value NET_EGRESS), PStr (permission_value EXTERNAL_WRITE)}) ns then Inr True
       else declares_egress ss)"

definition check_lockdown :: "string \<Rightarrow> step list \<Rightarrow> PermissionMode \<Rightarrow> check result" where
  "check_lockdown blob steps mode =
     (if mode \<noteq> LOCKDOWN then Inr None
      else if rx_search net_pattern blob then Inr (Some (blocked ''network egress attempted under LOCKDOWN'' False))
      else rbind (declares_egress steps) (\<lambda>e.
             Inr (if e then Some (blocked ''egress/external-write requested under LOCKDOWN'' False) else None)))"

definition check_irreversible :: "string \<Rightarrow> PermissionMode \<Rightarrow> check" where
  "check_irreversible blob mode =
     (if mode \<noteq> SAFE then None
      else map_option (\<lambda>(r, label). blocked (''irreversible operation under SAFE mode: '' @ label) False)
             (find (\<lambda>(r, label). rx_search r blob) irreversible_patterns))"

text \<open>
  What \<open>findall\<close> returns for the pattern of quoted texts with a separator: from a quote, everything up to the next
  quote, if a slash or two backslashes stand between them. A quote without such a text after it is passed over.
\<close>

definition is_quote :: "char \<Rightarrow> bool" where
  "is_quote c \<longleftrightarrow> c = CHR 0x22 \<or> c = CHR 0x27"

definition has_separator :: "string \<Rightarrow> bool" where
  "has_separator s \<longleftrightarrow> CHR ''/'' \<in> set s \<or> has_part [CHR 0x5C, CHR 0x5C] s"

function quoted_paths :: "string \<Rightarrow> string list" where
  "quoted_paths [] = []"
| "quoted_paths (c # s) =
     (if is_quote c then
        let u = takeWhile (\<lambda>d. \<not> is_quote d) s; rest = dropWhile (\<lambda>d. \<not> is_quote d) s
        in if rest \<noteq> [] \<and> has_separator u then u # quoted_paths (drop 1 rest) else quoted_paths rest
      else quoted_paths s)"
  by pat_completeness auto
termination
proof (relation "measure length", goal_cases)
  case (2 c s u rest)
  then show ?case using length_dropWhile_le[of "\<lambda>d. \<not> is_quote d" s] by simp
next
  case (3 c s u rest)
  then show ?case using length_dropWhile_le[of "\<lambda>d. \<not> is_quote d" s] by simp
qed simp_all

definition check_paths :: "'v policy_env \<Rightarrow> string \<Rightarrow> check" where
  "check_paths env blob =
     (case find (\<lambda>r. has_part (lower r) (lower blob)) forbidden_write_roots of
        Some r \<Rightarrow> Some (blocked (''write to protected system path: '' @ r) False)
      | None \<Rightarrow>
          if \<not> pe_workspace_root env then None
          else map_option (\<lambda>u. blocked (''path traversal in argument: '' @ py_repr u) False)
                 (find (has_part ''..'') (quoted_paths blob)))"

text \<open>Rules are read once; a failed query is raised and nothing is kept.\<close>

definition load_rules :: "'v policy_env \<Rightarrow> PolicyRule list option \<Rightarrow> PolicyRule list result \<times> PolicyRule list option" where
  "load_rules env cache =
     (case cache of
        Some rules \<Rightarrow> (Inr rules, cache)
      | None \<Rightarrow>
          (case pe_rules env of
             None \<Rightarrow> (Inr [], Some [])
           | Some (Inl e) \<Rightarrow> (Inl e, None)
           | Some (Inr rows) \<Rightarrow> let rules = filter pr_is_active rows in (Inr rules, Some rules)))"

definition rule_blocks :: "PolicyRule \<Rightarrow> string \<Rightarrow> bool" where
  "rule_blocks r blob \<longleftrightarrow> pr_rule_kind r = ''regex'' \<and> pr_is_active r \<and>
     (case pr_finds r of None \<Rightarrow> False | Some f \<Rightarrow> f blob) \<and> pr_severity r = ''block''"

definition check_rules :: "PolicyRule list \<Rightarrow> string \<Rightarrow> check" where
  "check_rules rules blob =
     map_option (\<lambda>r. blocked (''policy rule '' @ py_repr (pr_rule_name r) @ '' matched'') False)
       (find (\<lambda>r. rule_blocks r blob) rules)"

definition phrase_matches :: "string \<Rightarrow> string \<Rightarrow> bool" where
  "phrase_matches blob goal \<longleftrightarrow> strip_space goal \<noteq> [] \<and> has_part (lower (strip_space goal)) (lower blob)"

text \<open>\<open>zip(..., strict=True)\<close> raises when one side ends before the other.\<close>

fun similar_goal :: "('v \<Rightarrow> pyfloat) \<Rightarrow> string \<Rightarrow> string list \<Rightarrow> 'v list \<Rightarrow> check result" where
  "similar_goal sim threshold [] [] = Inr None"
| "similar_goal sim threshold (g # gs) (v # vs) =
     (if f_leq (setting threshold) (sim v)
      then Inr (Some (blocked (''anti-goal similarity '' @ fixed_text 3 (sim v) @ '' >= '' @ threshold @ '': '' @
             py_repr (take 60 g)) True))
      else similar_goal sim threshold gs vs)"
| "similar_goal sim threshold _ _ = Inl ValueError"

definition check_anti_goals :: "'v policy_env \<Rightarrow> string \<Rightarrow> check result" where
  "check_anti_goals env blob =
     (let goals = pe_anti_goals env
      in if goals = [] then Inr None
         else case pe_embed env of
                None \<Rightarrow>
                  Inr (map_option (\<lambda>g. blocked (''anti-goal phrase matched: '' @ py_repr (take 60 g)) True)
                         (find (phrase_matches blob) goals))
              | Some emb \<Rightarrow>
                  (case emb (blob # goals) of
                     Inl _ \<Rightarrow> Inr (Some (blocked ''anti-goal check unavailable; refusing rather than proceeding unchecked'' False))
                   | Inr [] \<Rightarrow> Inl IndexError
                   | Inr (query # vs) \<Rightarrow>
                       similar_goal (pe_dot env query) (ps_anti_goal_threshold (pe_settings env)) goals vs))"

subsection \<open>Scoring and gating\<close>

definition risk_profile :: "step \<Rightarrow> pyfloat result" where
  "risk_profile s = py_float (dict_get_default s ''risk_profile'' (PScalar (SFloat ''0.0'')))"

fun profile_score :: "step list \<Rightarrow> pyfloat \<Rightarrow> pyfloat result" where
  "profile_score [] score = Inr score"
| "profile_score (s # ss) score = rbind (risk_profile s) (\<lambda>r. profile_score ss (f_max score r))"

definition base_score :: "step list \<Rightarrow> string \<Rightarrow> pyfloat" where
  "base_score steps blob =
     (let s1 = (if list_ex (\<lambda>(r, label). rx_search r blob) irreversible_patterns then Finite (fl (8 / 10)) else Finite 0);
          s2 = (if rx_search net_pattern blob then f_max s1 (Finite (1 / 2)) else s1)
      in f_max s2 (f_min (Finite 1) (to_double (of_nat (length steps) / 20))))"

text \<open>\<open>round(min(1.0, score), 3)\<close>, in thousandths. A score is never below zero.\<close>

definition rounded_risk :: "pyfloat \<Rightarrow> nat" where
  "rounded_risk score = (case f_min (Finite 1) score of Finite q \<Rightarrow> nat (thousandths q) | _ \<Rightarrow> 0)"

definition risk_score :: "step list \<Rightarrow> string \<Rightarrow> nat result" where
  "risk_score steps blob = rbind (profile_score steps (base_score steps blob)) (\<lambda>score. Inr (rounded_risk score))"

definition risk_value :: "nat \<Rightarrow> rat" where
  "risk_value risk = fl (of_nat risk / 1000)"

fun exceeds_profile :: "pyfloat \<Rightarrow> step list \<Rightarrow> bool result" where
  "exceeds_profile limit [] = Inr False"
| "exceeds_profile limit (s # ss) =
     rbind (risk_profile s) (\<lambda>r. if f_leq limit r then Inr True else exceeds_profile limit ss)"

definition mode_gate :: "PolicySettings \<Rightarrow> nat \<Rightarrow> step list \<Rightarrow> PermissionMode \<Rightarrow> bool \<times> string" where
  "mode_gate ps risk steps mode =
     (case mode of
        SUPERVISED \<Rightarrow>
          if list_ex (\<lambda>s. truthy (dict_get_default s ''mutates'' (PBool True))) steps
          then (True, ''SUPERVISED mode gates every mutating step'') else (False, [])
      | ASK \<Rightarrow>
          if risk_value risk \<ge> 1 / 2
          then (True, ''risk '' @ fixed_text 2 (Finite (risk_value risk)) @ '' exceeds tolerance in ASK mode'') else (False, [])
      | AUTO \<Rightarrow>
          (let confidence = Finite (fl (1 - risk_value risk)); limit = ps_auto_confidence_floor ps
           in if f_less confidence (setting limit)
              then (True, ''confidence '' @ fixed_text 2 confidence @ '' below AUTO floor '' @ limit) else (False, []))
      | _ \<Rightarrow> (False, []))"

definition needs_gate :: "PolicySettings \<Rightarrow> nat \<Rightarrow> step list \<Rightarrow> PermissionMode \<Rightarrow> (bool \<times> string) result" where
  "needs_gate ps risk steps mode =
     rbind (exceeds_profile (setting (ps_always_gate_risk_profile ps)) steps) (\<lambda>x.
       Inr (if x then (True, ''step exceeds the always-gate risk profile'')
            else if list_ex (\<lambda>s. truthy (dict_get_default s ''always_human_gate'' PNone)) steps
              then (True, ''step is from an agent class that mandates human approval'')
            else mode_gate ps risk steps mode))"

subsection \<open>The handler\<close>

fun first_verdict :: "check list \<Rightarrow> check" where
  "first_verdict [] = None"
| "first_verdict (Some v # vs) = Some v"
| "first_verdict (None # vs) = first_verdict vs"

definition score_plan :: "'v policy_env \<Rightarrow> PermissionMode \<Rightarrow> step list \<Rightarrow> string \<Rightarrow> PolicyVerdict result" where
  "score_plan env mode steps blob =
     rbind (risk_score steps blob) (\<lambda>risk.
     rbind (needs_gate (pe_settings env) risk steps mode) (\<lambda>(gate, reason).
       Inr (approved risk gate reason)))"

text \<open>All checks are evaluated before the first refusal is looked for.\<close>

definition judge_plan ::
  "'v policy_env \<Rightarrow> PermissionMode \<Rightarrow> string \<Rightarrow> step list \<Rightarrow> PolicyRule list option \<Rightarrow>
     PolicyVerdict result \<times> PolicyRule list option" where
  "judge_plan env mode goal steps cache =
     (let blob = render goal steps
      in case rbind (check_permissions steps mode) (\<lambda>c1. rbind (check_lockdown blob steps mode) (\<lambda>c2.
                Inr [c1, c2, check_irreversible blob mode, check_paths env blob])) of
           Inl e \<Rightarrow> (Inl e, cache)
         | Inr cs \<Rightarrow>
             (case load_rules env cache of
                (Inl e, cache1) \<Rightarrow> (Inl e, cache1)
              | (Inr rules, cache1) \<Rightarrow>
                  (rbind (check_anti_goals env blob) (\<lambda>c6.
                     case first_verdict (cs @ [check_rules rules blob, c6]) of
                       Some v \<Rightarrow> Inr v
                     | None \<Rightarrow> score_plan env mode steps blob), cache1)))"

text \<open>The plan in a message: a goal that is a text, and steps that are dictionaries.\<close>

fun as_steps :: "pyval list \<Rightarrow> step list result" where
  "as_steps [] = Inr []"
| "as_steps (PDict ms # vs) = rbind (as_steps vs) (\<lambda>ss. Inr (ms # ss))"
| "as_steps (_ # vs) = Inl AttributeError"

definition plan_of :: "payload \<Rightarrow> (string \<times> step list) result" where
  "plan_of p =
     rbind (iterated (dict_get_default p ''steps'' (PList []))) (\<lambda>vs.
     rbind (as_steps vs) (\<lambda>steps.
       case dict_get_default p ''goal'' (PStr []) of
         PScalar (SStr goal) \<Rightarrow> Inr (goal, steps)
       | _ \<Rightarrow> Inl TypeError))"

definition policy_handle ::
  "'v policy_env \<Rightarrow> PermissionMode \<Rightarrow> payload \<Rightarrow> PolicyRule list option \<Rightarrow> AgentResult result \<times> PolicyRule list option" where
  "policy_handle env mode p cache =
     (case plan_of p of
        Inl e \<Rightarrow> (Inl e, cache)
      | Inr (goal, steps) \<Rightarrow>
          (case judge_plan env mode goal steps cache of
             (Inl e, cache1) \<Rightarrow> (Inl e, cache1)
           | (Inr v, cache1) \<Rightarrow> (Inr (success (PDict (verdict_dict v)) 0), cache1)))"

text \<open>The agent whose rules are loaded: its answers leave the world alone.\<close>

definition policy_agent :: "'s orch_env \<Rightarrow> 'v policy_env \<Rightarrow> PolicyRule list \<Rightarrow> 's agent" where
  "policy_agent oenv env rules =
     \<lparr>ag_name = ''policy_risk'', ag_required_permissions = [], ag_can_delegate = False,
      ag_handle = (\<lambda>msg ctx w.
        (case fst (policy_handle env (cx_permission_mode ctx) (am_payload msg) (Some rules)) of
           Inl e \<Rightarrow> Inl (raise_py oenv e) | Inr r \<Rightarrow> Inr r,
         cx_tokens_spent ctx, w))\<rparr>"

end
