(* ===== verification/Policy_Properties.thy ===== *)
theory Policy_Properties
  imports Policy_Agent "HOL-Library.Sublist"
begin

text \<open>
  What the policy gate decides: when a plan is approved, that no rule depends on where a command stands in the plan,
  which plans need a human, and what a verdict looks like.
\<close>

subsection \<open>Texts\<close>

lemma has_part_iff: "has_part sub s \<longleftrightarrow> sublist sub s"
proof (induction s)
  case (Cons c s)
  have "take (length sub) (c # s) = sub \<longleftrightarrow> prefix sub (c # s)" by (metis append_eq_conv_conj prefix_def)
  then show ?case using Cons by (simp add: sublist_Cons_right)
qed simp

text \<open>Every part of a plan stands in its text, between line feeds.\<close>

lemma join_lines_part:
  assumes "p \<in> set ps"
  shows "\<exists>pre post. join_lines ps = pre @ p @ post \<and> (pre = [] \<or> last pre = CHR 0x0A) \<and> (post = [] \<or> (\<exists>r. post = CHR 0x0A # r))"
  using assms
proof (induction ps rule: join_lines.induct)
  case (2 s)
  then show ?case by (intro exI[of _ "[]"]) simp
next
  case (3 s t ps)
  show ?case
  proof (cases "p = s")
    case True
    then show ?thesis by (intro exI[of _ "[]"] exI[of _ "CHR 0x0A # join_lines (t # ps)"]) simp
  next
    case False
    then obtain pre post where "join_lines (t # ps) = pre @ p @ post" "pre = [] \<or> last pre = CHR 0x0A"
      "post = [] \<or> (\<exists>r. post = CHR 0x0A # r)"
      using 3 by auto
    then show ?thesis by (intro exI[of _ "s @ CHR 0x0A # pre"] exI[of _ post]) auto
  qed
qed simp

lemma newline_no_word [simp]: "\<not> is_word (CHR 0x0A)"
  by (simp add: is_word_def)

subsection \<open>Patterns do not depend on the place in the plan\<close>

lemmas pattern_defs = rm_pattern_def rmtree_pattern_def unlink_pattern_def drop_pattern_def truncate_pattern_def
  force_push_pattern_def hard_reset_pattern_def device_pattern_def delete_head_def rx_words_def rx_spaces_def rx_opt_def
  rx_plus_def rx_space_def rx_wordchar_def rx_not_newline_def

lemma end_free_text [simp]: "end_free (rx_text w)"
  by (induction w rule: rx_text.induct) simp_all

lemma end_free_patterns:
  "end_free rm_pattern" "end_free rmtree_pattern" "end_free unlink_pattern" "end_free drop_pattern" "end_free truncate_pattern"
  "end_free force_push_pattern" "end_free hard_reset_pattern" "end_free device_pattern" "end_free delete_head" "end_free net_pattern"
  by (simp_all add: pattern_defs net_pattern_def del: rx_text.simps)

text \<open>The pattern of an unqualified delete ends where its part ends: there the larger text has a line feed or ends, too.\<close>

lemma match_any_exists: "rx_match r x y \<Longrightarrow> r \<in> set rs \<Longrightarrow> \<exists>z. rx_match (rx_any rs) x z"
  by (blast intro: match_any_list)

lemma delete_in_context:
  assumes "rx_match delete_pattern x z" "no_word_char q" "t = [] \<or> (\<exists>r. t = CHR 0x0A # r)"
  shows "\<exists>z'. rx_match delete_pattern (in_context q t x) z'"
proof -
  have t: "no_word_char (first_char t)" using assms(3) by (auto simp: first_char_def no_word_char_def)
  obtain y where y: "rx_match delete_head x y" "rx_match (rx_any [rx_text '';'', RSet (\<lambda>c. c = CHR 0x0A), REnd]) y z"
    using assms(1) unfolding delete_pattern_def by (blast elim: rx_match_seqE)
  have h: "rx_match delete_head (in_context q t x) (in_context q t y)"
    by (rule match_in_context[OF assms(2) t y(1) end_free_patterns(9)])
  have newline: "\<exists>z'. rx_match (RSet (\<lambda>c. c = CHR 0x0A)) (p, CHR 0x0A # s) z'" for p s by (blast intro: match_set)
  have "\<exists>z'. rx_match (rx_any [rx_text '';'', RSet (\<lambda>c. c = CHR 0x0A), REnd]) (in_context q t y) z'"
  proof -
    consider "rx_match (rx_text '';'') y z" | "rx_match (RSet (\<lambda>c. c = CHR 0x0A)) y z" | "rx_match REnd y z"
      using y(2) by (auto elim: rx_match_altE)
    then show ?thesis
    proof cases
      case 1
      from match_in_context[OF assms(2) t this] show ?thesis by (rule match_any_exists) (simp_all add: disjI1)
    next
      case 2
      from match_in_context[OF assms(2) t this] show ?thesis by (rule match_any_exists) (simp_all add: disjI1)
    next
      case 3
      then have "snd y = [] \<or> snd y = [CHR 0x0A]" by (auto elim: rx_match_endE simp: at_text_end_def)
      then consider "snd (in_context q t y) = []" | s where "snd (in_context q t y) = CHR 0x0A # s"
        using assms(3) by (auto simp: in_context_def)
      then show ?thesis
      proof cases
        case 1
        then have "rx_match REnd (in_context q t y) (in_context q t y)" by (intro match_end) (simp add: at_text_end_def)
        then show ?thesis by (rule match_any_exists) simp
      next
        case (2 s)
        then obtain z' where "rx_match (RSet (\<lambda>c. c = CHR 0x0A)) (in_context q t y) z'"
          using newline[of "fst (in_context q t y)" s] by (metis prod.collapse)
        then show ?thesis by (rule match_any_exists) simp
      qed
    qed
  qed
  then show ?thesis unfolding delete_pattern_def using h by (blast intro: match_seq)
qed

text \<open>A part of a plan in which a pattern is found makes it found in the plan, wherever the part stands.\<close>

lemma found_in_part:
  assumes "(r, label) \<in> set irreversible_patterns \<or> r = net_pattern" "p \<in> set (plan_parts goal steps)" "rx_search r p"
  shows "rx_search r (render goal steps)"
proof -
  obtain pre post where j: "render goal steps = pre @ p @ post" "pre = [] \<or> last pre = CHR 0x0A" "post = [] \<or> (\<exists>t. post = CHR 0x0A # t)"
    using join_lines_part[OF assms(2)] unfolding render_def by blast
  have q: "no_word_char (if pre = [] then None else Some (last pre))" "no_word_char (first_char post)"
    using j(2,3) by (auto simp: no_word_char_def first_char_def)
  show ?thesis
  proof (cases "end_free r")
    case True
    then show ?thesis using search_in_context[OF assms(3) _ q] j(1) by simp
  next
    case False
    then have r: "r = delete_pattern" using assms(1) end_free_patterns by (auto simp: irreversible_patterns_def)
    obtain u v y where m: "p = u @ v" "rx_match r (pos_at None u v) y" using assms(3) unfolding rx_search_iff by blast
    from delete_in_context[OF m(2)[unfolded r] q(1) j(3)] obtain z' where
      "rx_match r (pos_at None (pre @ u) (v @ post)) z'" unfolding in_context_pos r by blast
    moreover have "render goal steps = (pre @ u) @ (v @ post)" using j(1) m(1) by simp
    ultimately show ?thesis unfolding rx_search_iff by blast
  qed
qed

subsection \<open>Permissions\<close>

text \<open>Every permission that a step declares is one that the mode grants.\<close>

definition permitted :: "step list \<Rightarrow> PermissionMode \<Rightarrow> bool" where
  "permitted steps mode \<longleftrightarrow> (\<forall>s \<in> set steps. \<forall>ns. declared s = Inr ns \<longrightarrow>
     (\<forall>n \<in> set ns. \<exists>p. n = PStr (permission_value p) \<and> grants mode p))"

lemma permission_value_eq: "permission_value p = permission_value q \<longleftrightarrow> p = q"
  by (cases p; cases q) simp_all

lemma permission_of_iff: "permission_of v = Some p \<longleftrightarrow> v = PStr (permission_value p)"
proof
  assume "permission_of v = Some p"
  then show "v = PStr (permission_value p)" by (auto simp: permission_of_def find_Some_iff)
next
  assume v: "v = PStr (permission_value p)"
  then have "permission_of v = find (\<lambda>q. p = q) all_perms" by (simp add: permission_of_def permission_value_eq)
  then show "permission_of v = Some p" by (cases p) (simp_all add: all_perms_def)
qed

lemma permission_of_None: "permission_of v = None \<longleftrightarrow> (\<forall>p. v \<noteq> PStr (permission_value p))"
  using permission_of_iff[of v] by (cases "permission_of v") auto

lemma read_permissions_ok:
  "read_permissions ns req = Inr req' \<Longrightarrow>
     set req' = set req \<union> {p. PStr (permission_value p) \<in> set ns} \<and> (\<forall>n \<in> set ns. \<exists>p. n = PStr (permission_value p))"
proof (induction ns arbitrary: req)
  case (Cons n ns)
  then obtain p where p: "permission_of n = Some p" by (cases "permission_of n") simp_all
  with Cons.prems have "read_permissions ns (if p \<in> set req then req else req @ [p]) = Inr req'" by simp
  from Cons.IH[OF this] p show ?case by (auto simp: permission_of_iff permission_value_eq)
qed simp

lemma read_permissions_unknown:
  "read_permissions ns req = Inl v \<Longrightarrow>
     (\<exists>n \<in> set ns. (\<forall>p. n \<noteq> PStr (permission_value p)) \<and> v = blocked (''unknown permission requested: '' @ value_repr n) False)"
  by (induction ns arbitrary: req) (auto simp: permission_of_None split: option.splits)

lemma required_permissions_ok:
  "required_permissions steps req = Inr (Inr req') \<Longrightarrow>
     set req' = set req \<union> {p. \<exists>s \<in> set steps. \<exists>ns. declared s = Inr ns \<and> PStr (permission_value p) \<in> set ns} \<and>
     (\<forall>s \<in> set steps. \<exists>ns. declared s = Inr ns \<and> (\<forall>n \<in> set ns. \<exists>p. n = PStr (permission_value p)))"
proof (induction steps arbitrary: req)
  case (Cons s steps)
  then obtain ns req1 where s: "declared s = Inr ns" "read_permissions ns req = Inr req1" "required_permissions steps req1 = Inr (Inr req')"
    by (auto split: sum.splits)
  from read_permissions_ok[OF s(2)] Cons.IH[OF s(3)] s(1) show ?case by auto
qed simp

lemma required_permissions_unknown:
  "required_permissions steps req = Inr (Inl v) \<Longrightarrow>
     \<exists>s \<in> set steps. \<exists>ns. declared s = Inr ns \<and> (\<exists>n \<in> set ns. (\<forall>p. n \<noteq> PStr (permission_value p)) \<and>
       v = blocked (''unknown permission requested: '' @ value_repr n) False)"
proof (induction steps arbitrary: req)
  case (Cons s steps)
  then show ?case by (auto split: sum.splits dest!: read_permissions_unknown)
qed simp

lemma check_permissions_iff: "check_permissions steps mode = Inr c \<Longrightarrow> c = None \<longleftrightarrow> permitted steps mode"
proof -
  assume c: "check_permissions steps mode = Inr c"
  then obtain r where r: "required_permissions steps [] = Inr r" by (cases "required_permissions steps []") (simp_all add: check_permissions_def)
  show ?thesis
  proof (cases r)
    case (Inl v)
    with c r have "c = Some v" by (simp add: check_permissions_def)
    moreover have "\<not> permitted steps mode"
      using required_permissions_unknown[OF r[unfolded Inl]] unfolding permitted_def by blast
    ultimately show ?thesis by simp
  next
    case (Inr req)
    note ok = required_permissions_ok[OF r[unfolded Inr]]
    have "c = None \<longleftrightarrow> filter (\<lambda>p. \<not> grants mode p) req = []"
      using c r Inr by (auto simp: check_permissions_def Let_def split: if_splits)
    also have "\<dots> \<longleftrightarrow> (\<forall>p \<in> set req. grants mode p)" by (auto simp: filter_empty_conv)
    also have "\<dots> \<longleftrightarrow> permitted steps mode"
      using ok unfolding permitted_def by (fastforce simp: permission_value_eq)
    finally show ?thesis .
  qed
qed

text \<open>Declared egress never gets as far as the lockdown check: the mode does not grant it.\<close>

lemma permitted_no_egress: "permitted steps LOCKDOWN \<Longrightarrow> declares_egress steps = Inr e \<Longrightarrow> \<not> e"
proof (induction steps)
  case (Cons s steps)
  obtain ns where ns: "declared s = Inr ns" using Cons.prems(2) by (cases "declared s") simp_all
  have "\<forall>n \<in> set ns. \<exists>p. n = PStr (permission_value p) \<and> grants LOCKDOWN p"
    using Cons.prems(1) ns by (simp add: permitted_def)
  then have "\<not> list_ex (\<lambda>n. n \<in> {PStr (permission_value NET_EGRESS), PStr (permission_value EXTERNAL_WRITE)}) ns"
    by (auto simp: list_ex_iff simp flip: permission_value.simps dest!: bspec)
      (auto simp only: permission_value_eq grants_def mode_grants.simps list.set insert_iff empty_iff Permission.distinct)
  moreover have "permitted steps LOCKDOWN" using Cons.prems(1) by (simp add: permitted_def)
  ultimately show ?case using Cons ns by (auto split: if_splits)
qed simp

lemma check_lockdown_iff:
  assumes "check_lockdown blob steps mode = Inr c" "permitted steps mode"
  shows "c = None \<longleftrightarrow> \<not> (mode = LOCKDOWN \<and> rx_search net_pattern blob)"
  using assms permitted_no_egress[of steps]
  by (cases "declares_egress steps") (auto simp: check_lockdown_def split: if_splits)

subsection \<open>Approval\<close>

lemma check_irreversible_iff:
  "check_irreversible blob mode = None \<longleftrightarrow> (mode = SAFE \<longrightarrow> (\<forall>(r, label) \<in> set irreversible_patterns. \<not> rx_search r blob))"
  by (auto simp: check_irreversible_def find_None_iff)

lemma find_exists: "(\<exists>x. find P xs = Some x) \<longleftrightarrow> (\<exists>x \<in> set xs. P x)"
  using find_None_iff[of P xs] by (cases "find P xs") auto

lemma check_paths_iff:
  "check_paths env blob = None \<longleftrightarrow>
     (\<forall>r \<in> set forbidden_write_roots. \<not> sublist (lower r) (lower blob)) \<and>
     (pe_workspace_root env \<longrightarrow> (\<forall>u \<in> set (quoted_paths blob). \<not> sublist ''..'' u))"
  using find_exists[of "\<lambda>r. sublist (lower r) (lower blob)" forbidden_write_roots]
  by (auto simp: check_paths_def find_None_iff has_part_iff split: option.splits)

lemma check_rules_iff: "check_rules rules blob = None \<longleftrightarrow> (\<forall>r \<in> set rules. \<not> rule_blocks r blob)"
  by (auto simp: check_rules_def find_None_iff)

text \<open>No anti-goal of the user is met: by wording, or, with an embedder that answers, by similarity.\<close>

definition anti_goal_free :: "'v policy_env \<Rightarrow> string \<Rightarrow> bool" where
  "anti_goal_free env blob \<longleftrightarrow> pe_anti_goals env = [] \<or>
     (case pe_embed env of
        None \<Rightarrow> \<forall>g \<in> set (pe_anti_goals env). strip_space g \<noteq> [] \<longrightarrow> \<not> sublist (lower (strip_space g)) (lower blob)
      | Some emb \<Rightarrow> \<exists>query vs. emb (blob # pe_anti_goals env) = Inr (query # vs) \<and>
          (\<forall>v \<in> set vs. \<not> f_leq (setting (ps_anti_goal_threshold (pe_settings env))) (pe_dot env query v)))"

lemma similar_goal_iff: "similar_goal sim threshold gs vs = Inr c \<Longrightarrow> c = None \<longleftrightarrow> (\<forall>v \<in> set vs. \<not> f_leq (setting threshold) (sim v))"
  by (induction sim threshold gs vs rule: similar_goal.induct) (auto split: if_splits)

lemma check_anti_goals_iff: "check_anti_goals env blob = Inr c \<Longrightarrow> c = None \<longleftrightarrow> anti_goal_free env blob"
proof (cases "pe_anti_goals env = []")
  case False
  assume c: "check_anti_goals env blob = Inr c"
  show ?thesis
  proof (cases "pe_embed env")
    case None
    then show ?thesis using c False
      by (auto simp: check_anti_goals_def anti_goal_free_def Let_def find_None_iff phrase_matches_def has_part_iff)
  next
    case (Some emb)
    show ?thesis
    proof (cases "emb (blob # pe_anti_goals env)")
      case (Inl e)
      then show ?thesis using c False Some by (auto simp: check_anti_goals_def anti_goal_free_def)
    next
      case (Inr ws)
      then obtain query vs where ws: "ws = query # vs" using c False Some by (cases ws) (simp_all add: check_anti_goals_def)
      have "similar_goal (pe_dot env query) (ps_anti_goal_threshold (pe_settings env)) (pe_anti_goals env) vs = Inr c"
        using c False Some Inr ws by (simp add: check_anti_goals_def)
      from similar_goal_iff[OF this] show ?thesis using False Some Inr ws by (simp add: anti_goal_free_def)
    qed
  qed
qed (simp add: check_anti_goals_def anti_goal_free_def)

subsection \<open>Verdicts\<close>

lemma first_verdict_None: "first_verdict vs = None \<longleftrightarrow> (\<forall>v \<in> set vs. v = None)"
  by (induction vs rule: first_verdict.induct) simp_all

lemma first_verdict_Some: "first_verdict vs = Some v \<Longrightarrow> Some v \<in> set vs"
  by (induction vs rule: first_verdict.induct) auto

text \<open>A verdict is that of the first check that refuses, or comes from the score of a plan that none refuses.\<close>

lemma judge_cases:
  assumes "judge_plan env mode goal steps cache = (Inr v, cache')"
  obtains rules c1 c2 c6 where "fst (load_rules env cache) = Inr rules" "cache' = snd (load_rules env cache)"
    "check_permissions steps mode = Inr c1" "check_lockdown (render goal steps) steps mode = Inr c2"
    "check_anti_goals env (render goal steps) = Inr c6"
    "(case first_verdict [c1, c2, check_irreversible (render goal steps) mode, check_paths env (render goal steps),
        check_rules rules (render goal steps), c6] of Some v \<Rightarrow> Inr v | None \<Rightarrow> score_plan env mode steps (render goal steps)) = Inr v"
proof -
  let ?blob = "render goal steps"
  have "\<exists>c1 c2. check_permissions steps mode = Inr c1 \<and> check_lockdown ?blob steps mode = Inr c2"
    using assms by (cases "check_permissions steps mode"; cases "check_lockdown ?blob steps mode")
      (simp_all add: judge_plan_def Let_def rbind_def)
  then obtain c1 c2 where c: "check_permissions steps mode = Inr c1" "check_lockdown ?blob steps mode = Inr c2" by blast
  obtain rules where rules: "fst (load_rules env cache) = Inr rules"
    using assms c by (cases "load_rules env cache"; cases "fst (load_rules env cache)")
      (simp_all add: judge_plan_def Let_def rbind_def)
  obtain c6 where c6: "check_anti_goals env ?blob = Inr c6"
    using assms c rules by (cases "load_rules env cache"; cases "check_anti_goals env ?blob")
      (simp_all add: judge_plan_def Let_def rbind_def)
  have "(case first_verdict [c1, c2, check_irreversible ?blob mode, check_paths env ?blob, check_rules rules ?blob, c6] of
      Some v \<Rightarrow> Inr v | None \<Rightarrow> score_plan env mode steps ?blob) = Inr v" "cache' = snd (load_rules env cache)"
    using assms c rules c6 by (cases "load_rules env cache", simp add: judge_plan_def Let_def rbind_def)+
  then show ?thesis using that rules c c6 by blast
qed

definition is_refusal :: "PolicyVerdict \<Rightarrow> bool" where
  "is_refusal v \<longleftrightarrow> (\<exists>reason anti_goal. v = blocked reason anti_goal)"

lemma refusal_not_approved: "is_refusal v \<Longrightarrow> pv_decision v = ''STATUS_BLOCKED''"
  by (auto simp: is_refusal_def blocked_def)

lemma is_refusal_blocked [simp]: "is_refusal (blocked reason anti_goal)"
  by (auto simp: is_refusal_def)

lemma check_permissions_refusal: "check_permissions steps mode = Inr (Some v) \<Longrightarrow> is_refusal v"
proof -
  assume c: "check_permissions steps mode = Inr (Some v)"
  then obtain r where r: "required_permissions steps [] = Inr r" by (cases "required_permissions steps []") (simp_all add: check_permissions_def)
  show ?thesis
  proof (cases r)
    case (Inl u)
    with required_permissions_unknown[OF r[unfolded Inl]] c r show ?thesis by (auto simp: check_permissions_def)
  next
    case (Inr req)
    with c r show ?thesis by (auto simp: check_permissions_def Let_def split: if_splits)
  qed
qed

lemma similar_goal_refusal: "similar_goal sim threshold gs vs = Inr (Some v) \<Longrightarrow> is_refusal v"
  by (induction sim threshold gs vs rule: similar_goal.induct) (auto split: if_splits)

lemma check_anti_goals_refusal: "check_anti_goals env blob = Inr (Some v) \<Longrightarrow> is_refusal v"
  by (auto simp: check_anti_goals_def Let_def split: if_splits option.splits sum.splits list.splits
      dest: similar_goal_refusal)

lemma check_refusals:
  "check_lockdown blob steps mode = Inr (Some v) \<Longrightarrow> is_refusal v"
  "check_irreversible blob mode = Some v \<Longrightarrow> is_refusal v"
  "check_paths env blob = Some v \<Longrightarrow> is_refusal v"
  "check_rules rules blob = Some v \<Longrightarrow> is_refusal v"
  by (auto simp: check_lockdown_def check_irreversible_def check_paths_def check_rules_def rbind_eq_Inr
      split: if_splits option.splits prod.splits)

text \<open>What must hold of a plan, in its mode, to be approved.\<close>

definition approvable :: "'v policy_env \<Rightarrow> PermissionMode \<Rightarrow> string \<Rightarrow> step list \<Rightarrow> PolicyRule list \<Rightarrow> bool" where
  "approvable env mode goal steps rules \<longleftrightarrow>
     permitted steps mode \<and>
     (mode = LOCKDOWN \<longrightarrow> \<not> rx_search net_pattern (render goal steps)) \<and>
     (mode = SAFE \<longrightarrow> (\<forall>(r, label) \<in> set irreversible_patterns. \<not> rx_search r (render goal steps))) \<and>
     (\<forall>root \<in> set forbidden_write_roots. \<not> sublist (lower root) (lower (render goal steps))) \<and>
     (pe_workspace_root env \<longrightarrow> (\<forall>u \<in> set (quoted_paths (render goal steps)). \<not> sublist ''..'' u)) \<and>
     (\<forall>r \<in> set rules. \<not> rule_blocks r (render goal steps)) \<and>
     anti_goal_free env (render goal steps)"

lemma judge_approves:
  assumes "judge_plan env mode goal steps cache = (Inr v, cache')"
  obtains rules where "fst (load_rules env cache) = Inr rules"
    "if approvable env mode goal steps rules then score_plan env mode steps (render goal steps) = Inr v else is_refusal v"
proof -
  let ?blob = "render goal steps"
  obtain rules c1 c2 c6 where j: "fst (load_rules env cache) = Inr rules"
    "check_permissions steps mode = Inr c1" "check_lockdown ?blob steps mode = Inr c2" "check_anti_goals env ?blob = Inr c6"
    "(case first_verdict [c1, c2, check_irreversible ?blob mode, check_paths env ?blob, check_rules rules ?blob, c6] of
      Some v \<Rightarrow> Inr v | None \<Rightarrow> score_plan env mode steps ?blob) = Inr v"
    using assms by (rule judge_cases) blast
  let ?cs = "[c1, c2, check_irreversible ?blob mode, check_paths env ?blob, check_rules rules ?blob, c6]"
  have none: "first_verdict ?cs = None \<longleftrightarrow> approvable env mode goal steps rules"
    unfolding first_verdict_None approvable_def
    using check_permissions_iff[OF j(2)] check_lockdown_iff[OF j(3)] check_irreversible_iff[of ?blob mode]
      check_paths_iff[of env ?blob] check_rules_iff[of rules ?blob] check_anti_goals_iff[OF j(4)]
    by simp blast
  have "if approvable env mode goal steps rules then score_plan env mode steps ?blob = Inr v else is_refusal v"
  proof (cases "first_verdict ?cs")
    case None
    then show ?thesis using j(5) none by simp
  next
    case (Some u)
    have "is_refusal u"
      using first_verdict_Some[OF Some] j(2-4)
      by (auto dest: check_permissions_refusal check_anti_goals_refusal check_refusals dest!: sym[of "Some u"])
    then show ?thesis using Some j(5) none by simp
  qed
  then show ?thesis using that j(1) by blast
qed

subsection \<open>Scores\<close>

lemma profile_score_at_least: "profile_score steps s = Inr s' \<Longrightarrow> at_least c s \<Longrightarrow> at_least c s'"
  by (induction steps arbitrary: s) (auto simp: rbind_eq_Inr at_least_max)

lemma risk_floor: "8 / 10 \<le> fl (8 / 10)"
  by code_simp

definition irreversible_text :: "string \<Rightarrow> bool" where
  "irreversible_text blob \<longleftrightarrow> (\<exists>(r, label) \<in> set irreversible_patterns. rx_search r blob)"

lemma base_score_at_least: "at_least (if irreversible_text blob then 8 / 10 else 0) (base_score steps blob)"
  using risk_floor unfolding base_score_def Let_def irreversible_text_def list_ex_iff
  by (intro at_least_max) (auto intro!: at_least_max)

lemma rounded_risk_bounds:
  assumes "at_least (of_nat k / 1000) score" "k \<le> 1000"
  shows "k \<le> rounded_risk score" "rounded_risk score \<le> 1000"
proof -
  have "(of_nat k / 1000 :: rat) \<le> 1" using assms(2) by (simp add: field_simps)
  from min_one[OF assms(1) this] obtain q where q: "f_min (Finite 1) score = Finite q" "of_nat k / 1000 \<le> q" "q \<le> 1" by blast
  have "int k \<le> thousandths q" unfolding thousandths_def by (rule round_even_ge) (use q(2) in \<open>simp add: field_simps\<close>)
  moreover have "thousandths q \<le> 1000" unfolding thousandths_def using round_even_le[of "q * 1000" 1000] q(3) by simp
  ultimately show "k \<le> rounded_risk score" "rounded_risk score \<le> 1000" using q(1) by (simp_all add: rounded_risk_def)
qed

lemma risk_score_bounds:
  assumes "risk_score steps blob = Inr risk"
  shows "risk \<le> 1000" "irreversible_text blob \<Longrightarrow> 800 \<le> risk"
proof -
  obtain s where s: "profile_score steps (base_score steps blob) = Inr s" "risk = rounded_risk s"
    using assms by (auto simp: risk_score_def rbind_eq_Inr)
  note low = profile_score_at_least[OF s(1) base_score_at_least]
  have "at_least (of_nat 0 / 1000) s" by (rule at_least_mono[OF low]) simp
  from rounded_risk_bounds(2)[OF this] show "risk \<le> 1000" by (simp add: s(2))
  assume "irreversible_text blob"
  with low have "at_least (of_nat 800 / 1000) s" by simp
  from rounded_risk_bounds(1)[OF this] show "800 \<le> risk" by (simp add: s(2))
qed

subsection \<open>Gating\<close>

lemma score_plan_approves:
  assumes "score_plan env mode steps blob = Inr v"
  obtains risk gate reason where "v = approved risk gate reason" "risk_score steps blob = Inr risk"
    "needs_gate (pe_settings env) risk steps mode = Inr (gate, reason)"
  using assms by (auto simp: score_plan_def rbind_eq_Inr split: prod.splits)

text \<open>A step that a human has to approve in any mode.\<close>

definition always_gated :: "PolicySettings \<Rightarrow> step list \<Rightarrow> bool" where
  "always_gated ps steps \<longleftrightarrow>
     (\<exists>s \<in> set steps. \<exists>r. risk_profile s = Inr r \<and> f_leq (setting (ps_always_gate_risk_profile ps)) r) \<or>
     (\<exists>s \<in> set steps. truthy (dict_get_default s ''always_human_gate'' PNone))"

lemma exceeds_profile_iff:
  "exceeds_profile limit steps = Inr x \<Longrightarrow> x \<longleftrightarrow> (\<exists>s \<in> set steps. \<exists>r. risk_profile s = Inr r \<and> f_leq limit r)"
  if "\<forall>s \<in> set steps. \<exists>r. risk_profile s = Inr r"
  using that by (induction steps) (auto simp: rbind_eq_Inr split: if_splits)

lemma profile_score_defined: "profile_score steps s = Inr s' \<Longrightarrow> \<forall>t \<in> set steps. \<exists>r. risk_profile t = Inr r"
  by (induction steps arbitrary: s) (auto simp: rbind_eq_Inr)

lemma needs_gate_iff:
  assumes "risk_score steps blob = Inr risk" "needs_gate ps risk steps mode = Inr (gate, reason)"
  shows "gate \<longleftrightarrow> always_gated ps steps \<or> fst (mode_gate ps risk steps mode)"
proof -
  have "\<forall>s \<in> set steps. \<exists>r. risk_profile s = Inr r"
    using assms(1) profile_score_defined by (auto simp: risk_score_def rbind_eq_Inr)
  note x = exceeds_profile_iff[OF this]
  obtain b where b: "exceeds_profile (setting (ps_always_gate_risk_profile ps)) steps = Inr b"
    using assms(2) by (auto simp: needs_gate_def rbind_eq_Inr)
  from x[OF b] b assms(2) show ?thesis
    by (auto simp: needs_gate_def always_gated_def list_ex_iff rbind_eq_Inr split: if_splits)
qed

lemma risk_value_bounds:
  assumes "800 \<le> risk" "risk \<le> 1000"
  shows "1 / 2 \<le> risk_value risk" "fl (1 - risk_value risk) \<le> 201 / 1000"
proof -
  have q: "8 / 10 \<le> (of_nat risk / 1000 :: rat)" "(of_nat risk / 1000 :: rat) \<le> 1" using assms by simp_all
  have "1 / 2 ^ 1 \<le> (of_nat risk / 1000 :: rat)" using q(1) by simp
  note x = fl_bounds[OF this _ q(2)]
  then have low: "8 / 10 - 1 / 2 ^ 53 \<le> risk_value risk" unfolding risk_value_def using q(1) by simp
  then show "1 / 2 \<le> risk_value risk" by simp
  have "fl (1 - risk_value risk) \<le> 201 / 1000"
  proof (cases "risk = 1000")
    case False
    then have "of_nat risk / 1000 \<le> (999 / 1000 :: rat)" using assms(2) by simp
    then have "risk_value risk \<le> 999 / 1000 + 1 / 2 ^ 53" unfolding risk_value_def using x(2) by simp
    then have "1 / 2 ^ 11 \<le> 1 - risk_value risk" by simp
    moreover have "1 - risk_value risk \<le> 2 / 10 + 1 / 2 ^ 53" using low by simp
    ultimately show ?thesis using fl_bounds(2)[of 11 "1 - risk_value risk"] by simp
  qed (simp add: risk_value_def)
  then show "fl (1 - risk_value risk) \<le> 201 / 1000" .
qed

text \<open>
  The modes that gate by risk do so for every plan with an irreversible operation, if the floor of AUTO is more than 0.201.
\<close>

lemma irreversible_gated:
  assumes "irreversible_text blob" "risk_score steps blob = Inr risk" "mode = ASK \<or> mode = AUTO \<and>
    f_less (Finite (201 / 1000)) (setting (ps_auto_confidence_floor ps))"
  shows "fst (mode_gate ps risk steps mode)"
proof -
  have "800 \<le> risk" "risk \<le> 1000" using risk_score_bounds[OF assms(2)] assms(1) by simp_all
  note r = risk_value_bounds[OF this]
  have "f_less (Finite (fl (1 - risk_value risk))) (setting (ps_auto_confidence_floor ps))" if "mode = AUTO"
    using assms(3) that r(2) by (cases "setting (ps_auto_confidence_floor ps)") auto
  then show ?thesis using assms(3) r(1) by (auto simp: mode_gate_def Let_def)
qed

subsection \<open>The form of a verdict\<close>

definition verdict_shape :: "payload \<Rightarrow> bool" where
  "verdict_shape d \<longleftrightarrow> map fst d = [''decision'', ''risk_score'', ''requires_human_gate'', ''anti_goal_match'', ''reason''] \<and>
     (\<exists>score q. dict_get d ''risk_score'' = Some (PScalar (SFloat score)) \<and> float_of_text score = Inr (Finite q) \<and> 0 \<le> q \<and> q \<le> 1) \<and>
     (\<exists>reason. dict_get d ''reason'' = Some (PStr reason)) \<and>
     (\<exists>gate anti. dict_get d ''requires_human_gate'' = Some (PBool gate) \<and> dict_get d ''anti_goal_match'' = Some (PBool anti) \<and>
        (dict_get d ''decision'' = Some (PStr ''STATUS_APPROVED'') \<and> \<not> anti \<or>
         dict_get d ''decision'' = Some (PStr ''STATUS_BLOCKED'') \<and> \<not> gate))"

lemma verdict_dict_shape:
  assumes "pv_risk v \<le> 1000" "pv_decision v = ''STATUS_APPROVED'' \<and> \<not> pv_anti_goal_match v \<or>
    pv_decision v = ''STATUS_BLOCKED'' \<and> \<not> pv_requires_human_gate v"
  shows "verdict_shape (verdict_dict v)"
proof -
  have "float_of_text (milli_repr (pv_risk v)) = Inr (Finite (fl (of_nat (pv_risk v) / 1000)))"
    by (rule read_milli_repr[OF assms(1)])
  with fl_unit[OF assms(1)] assms(2) show ?thesis
    by (auto simp: verdict_shape_def verdict_dict_def dict_get_def)
qed

lemma judge_shape:
  assumes "judge_plan env mode goal steps cache = (Inr v, cache')"
  shows "verdict_shape (verdict_dict v)"
proof -
  from assms obtain rules where
    "if approvable env mode goal steps rules then score_plan env mode steps (render goal steps) = Inr v else is_refusal v"
    by (rule judge_approves)
  then consider "is_refusal v" | risk gate reason where "v = approved risk gate reason" "risk_score steps (render goal steps) = Inr risk"
    by (auto elim: score_plan_approves split: if_splits)
  then show ?thesis
  proof cases
    case 1
    then show ?thesis by (intro verdict_dict_shape) (auto simp: is_refusal_def blocked_def)
  next
    case 2
    then show ?thesis using risk_score_bounds(1) by (intro verdict_dict_shape) (simp_all add: approved_def)
  qed
qed

subsection \<open>The rules\<close>

text \<open>Rules are read at most once: afterwards the table is not looked at.\<close>

lemma load_rules_cached:
  "load_rules env (Some rules) = (Inr rules, Some rules)"
  "fst (load_rules env cache) = Inr rules \<Longrightarrow> snd (load_rules env cache) = Some rules"
  by (auto simp: load_rules_def Let_def split: option.splits sum.splits)

lemma judge_cache:
  assumes "judge_plan env mode goal steps cache = (Inr v, cache')"
  shows "\<exists>rules. cache' = Some rules \<and> judge_plan env mode goal steps (Some rules) = (Inr v, Some rules)"
proof -
  from assms obtain rules c1 c2 c6 where j: "fst (load_rules env cache) = Inr rules" "cache' = snd (load_rules env cache)"
    by (rule judge_cases)
  then have "cache' = Some rules" using load_rules_cached(2) by metis
  moreover have "judge_plan env mode goal steps (Some rules) = (Inr v, Some rules)"
    using assms j by (cases "load_rules env cache") (simp add: judge_plan_def Let_def load_rules_cached(1) split: sum.splits)
  ultimately show ?thesis by blast
qed

end
