(* ===== verification/Orchestrator.thy ===== *)
theory Orchestrator
  imports Agents Py_Texts
begin

text \<open>
  The chief orchestrator (\<open>paa.agents.orchestrator\<close>): submitting a task, driving it through hydration,
  planning, policy review, execution and commit, opening and clearing human gates, and mediating
  delegation. Every transition is an event of the ledger; the state of a task is always the projection
  of its lineage.

  The agents are arguments (\<open>Agents\<close>). Logging and metrics are left out.
\<close>

subsection \<open>Values\<close>

definition nonempty_or :: "pyval \<Rightarrow> pyval \<Rightarrow> pyval" where
  "nonempty_or v d = (if truthy v then v else d)"

definition as_dict :: "pyval \<Rightarrow> payload" where
  "as_dict v = (case v of PDict ms \<Rightarrow> ms | _ \<Rightarrow> [])"

text \<open>\<open>state.request.get(key, default)\<close>\<close>

definition request_get :: "TaskProjection \<Rightarrow> string \<Rightarrow> pyval \<Rightarrow> pyval result" where
  "request_get st k d =
     (case t_request st of PDict ms \<Rightarrow> Inr (dict_get_default ms k d) | _ \<Rightarrow> Inl AttributeError)"

text \<open>\<open>enumerate(x)\<close> of a value of unknown type.\<close>

definition py_enumerate :: "pyval \<Rightarrow> (int \<times> pyval) list result" where
  "py_enumerate v =
     (case v of
        PList vs \<Rightarrow> Inr (zip (map int [0..<length vs]) vs)
      | PDict ms \<Rightarrow> Inr (zip (map int [0..<length ms]) (map (PStr \<circ> fst) ms))
      | PScalar (SStr s) \<Rightarrow> Inr (zip (map int [0..<length s]) (map (\<lambda>c. PStr [c]) s))
      | PSet xs _ \<Rightarrow> Inr (zip (map int [0..<length xs]) (map PScalar xs))
      | _ \<Rightarrow> Inl TypeError)"

text \<open>\<open>float(x)\<close> of an int, as its \<open>repr\<close>: the nearest double, in the fewest digits that name it.\<close>

definition shortest_digits :: "nat \<Rightarrow> nat \<times> nat" where
  "shortest_digits n =
     (let len = length (str_int (int n));
          cand = (\<lambda>k. (n + 10 ^ (len - k) div 2) div 10 ^ (len - k))
      in case find (\<lambda>k. round53 (cand k * 10 ^ (len - k)) = n) [1..<18] of
           None \<Rightarrow> (n, 0) | Some k \<Rightarrow> (cand k, len - k))"

definition float_repr_int :: "int \<Rightarrow> string result" where
  "float_repr_int i =
     (let n = round53 (nat \<bar>i\<bar>); sign = (if i < 0 then ''-'' else [])
      in if n \<ge> 2 ^ 1024 then Inl OverflowError
         else if n < 10 ^ 16 then Inr (sign @ str_int (int n) @ ''.0'')
         else let (m, ex) = shortest_digits n; ds = str_int (int m);
                  sig = rev (dropWhile (\<lambda>c. c = CHR ''0'') (rev ds));
                  e10 = length ds + ex - 1
              in Inr (sign @ take 1 sig @ (if length sig = 1 then [] else CHR ''.'' # drop 1 sig) @
                      ''e+'' @ str_int (int e10)))"

definition risk_score_of :: "payload \<Rightarrow> pyval option result" where
  "risk_score_of p =
     (case pget p ''risk_score'' of
        PScalar (SInt i) \<Rightarrow> rmap (\<lambda>r. Some (PScalar (SFloat r))) (float_repr_int i)
      | PScalar (SFloat r) \<Rightarrow> Inr (Some (PScalar (SFloat r)))
      | _ \<Rightarrow> Inr None)"

subsection \<open>The ledger\<close>

definition new_event ::
  "uuid \<Rightarrow> uuid \<Rightarrow> EventType \<Rightarrow> uuid option \<Rightarrow> payload \<Rightarrow> ComplexityModality \<Rightarrow> AgentRole \<Rightarrow> int \<Rightarrow> string option
     \<Rightarrow> datetime \<Rightarrow> LedgerEvent result" where
  "new_event eid cid t sid p mode role att disc ts =
     validate_event
       \<lparr>sequence_id = None, state_version = None, prev_hash = None, event_hash = None,
        event_id = eid, correlation_id = cid, session_id = sid, causation_id = None,
        event_type = t, execution_mode = mode, agent_role = Some (role_value role),
        allocated_worker_image = ''paa/base_worker:v4.1'', attempt = att, discriminator = disc,
        payload = p, recorded_at = ts\<rparr>"

definition emit_event ::
  "'s orch_env \<Rightarrow> uuid \<Rightarrow> EventType \<Rightarrow> uuid option \<Rightarrow> payload \<Rightarrow> ComplexityModality \<Rightarrow> AgentRole \<Rightarrow> int \<Rightarrow> string option
     \<Rightarrow> ('s, LedgerEvent) oact" where
  "emit_event env cid t sid p mode role att disc =
     act_bind tick (\<lambda>n.
     act_bind (lift_py env (new_event (e_uuid4 (oe_ledger env) n) cid t sid p mode role att disc
         (e_utc_now (oe_ledger env) n))) (\<lambda>e w.
       let (r, db) = append_event (e_hash (oe_ledger env)) e (w_db w)
       in lift_py env r (w\<lparr>w_db := db\<rparr>)))"

definition task_state :: "'s orch_env \<Rightarrow> uuid \<Rightarrow> ('s, TaskProjection) oact" where
  "task_state env cid w = lift_py env (project (e_validate (oe_ledger env)) (w_db w) cid True) w"

definition lineage_questions :: "'s orch_env \<Rightarrow> uuid \<Rightarrow> ('s, GateQuestion list) oact" where
  "lineage_questions env cid w = lift_py env (rmap gate_history (read_correlation (w_db w) cid 0)) w"

definition open_gate :: "'s orch_env \<Rightarrow> AgentContext \<Rightarrow> AgentRole \<Rightarrow> payload \<Rightarrow> ('s, TaskProjection) oact" where
  "open_gate env ctx role p =
     act_bind (lineage_questions env (cx_correlation_id ctx)) (\<lambda>qs.
     act_bind (emit_event env (cx_correlation_id ctx) AWAITING_HUMAN_ATTESTATION (cx_session_id ctx) p
         (cx_modality ctx) role 0 (Some (gate_discriminator qs role))) (\<lambda>_.
       task_state env (cx_correlation_id ctx)))"

definition context_for :: "'s orch_env \<Rightarrow> TaskProjection \<Rightarrow> ('s, AgentContext) oact" where
  "context_for env st =
     act_bind (lift_py env (parse_uuid (t_correlation_id st))) (\<lambda>cid.
     act_bind (lift_py env (session_uuid st)) (\<lambda>sid.
     act_bind tick (\<lambda>n.
       act_return \<lparr>cx_correlation_id = cid, cx_session_id = sid, cx_task_id = e_uuid4 (oe_ledger env) n,
         cx_parent_task_id = None, cx_modality = t_modality st, cx_permission_mode = oe_permission_mode env,
         cx_recursion_depth = 0, cx_tokens_budget = token_ceiling (modality_profile (t_modality st)),
         cx_tokens_spent = 0\<rparr>)))"

text \<open>An event of a stage, and the state it leads to.\<close>

definition record_event ::
  "'s orch_env \<Rightarrow> AgentContext \<Rightarrow> EventType \<Rightarrow> payload \<Rightarrow> AgentRole \<Rightarrow> string option
     \<Rightarrow> ('s, TaskProjection \<times> AgentContext) oact" where
  "record_event env ctx t p role disc =
     act_bind (emit_event env (cx_correlation_id ctx) t (cx_session_id ctx) p (cx_modality ctx) role 0 disc) (\<lambda>_.
     act_bind (task_state env (cx_correlation_id ctx)) (\<lambda>st. act_return (st, ctx)))"

definition orch_message :: "'s orch_env \<Rightarrow> AgentContext \<Rightarrow> MessageType \<Rightarrow> payload \<Rightarrow> ('s, AgentMessage) oact" where
  "orch_message env ctx intent p =
     act_bind tick (\<lambda>n.
       act_return \<lparr>am_message_id = e_uuid4 (oe_ledger env) n, am_task_id = cx_task_id ctx,
         am_parent_task_id = None, am_correlation_id = cx_correlation_id ctx,
         am_session_id = cx_session_id ctx, am_sender = role_value ORCHESTRATOR,
         am_recipient = message_type_value intent, am_intent = intent, am_payload = p,
         am_recursion_depth = cx_recursion_depth ctx, am_deadline = None,
         am_created_at = e_utc_now (oe_ledger env) n\<rparr>)"

subsection \<open>Submission\<close>

record TaskRequest =
  tr_goal :: string
  tr_modality :: "ComplexityModality option"
  tr_session_id :: "uuid option"
  tr_workspace_path :: "string option"
  tr_target_agent :: "string option"
  tr_required_slots :: "string list option"
  tr_metadata :: "payload option"

definition optional_text :: "string option \<Rightarrow> pyval" where
  "optional_text s = (case s of None \<Rightarrow> PNone | Some t \<Rightarrow> PStr t)"

definition nonempty_text :: "string option \<Rightarrow> bool" where
  "nonempty_text s = (case s of None \<Rightarrow> False | Some t \<Rightarrow> t \<noteq> [])"

definition classify :: "TaskRequest \<Rightarrow> ComplexityModality" where
  "classify r =
     (let goal = lower (tr_goal r)
      in if nonempty_text (tr_target_agent r) \<and> code_points goal < 80 then SIMPLE
         else if list_ex (\<lambda>k. has_part k goal) [''migrate'', ''refactor everything'', ''redesign'', ''architect'']
         then MAX_MODALITY
         else if list_ex (\<lambda>k. has_part k goal) [''refactor'', ''implement'', ''build'', ''debug'', ''fix'']
         then COMPLEX
         else STANDARD)"

text \<open>The depth of the queue is read, but only logged.\<close>

definition apply_backpressure :: "'s orch_env \<Rightarrow> ComplexityModality \<Rightarrow> ComplexityModality" where
  "apply_backpressure env m =
     (case (oe_backpressure env, oe_queue env) of
        (Some degrade, Some _) \<Rightarrow> degrade m
      | _ \<Rightarrow> m)"

definition request_payload :: "TaskRequest \<Rightarrow> payload" where
  "request_payload r =
     (''request'', PDict (dict_merge
        [(''goal'', PStr (tr_goal r)), (''target_agent'', optional_text (tr_target_agent r)),
         (''required_slots'', str_list (case tr_required_slots r of None \<Rightarrow> [] | Some s \<Rightarrow> s))]
        (case tr_metadata r of None \<Rightarrow> [] | Some m \<Rightarrow> m))) #
     (if nonempty_text (tr_workspace_path r) then [(''workspace_path'', optional_text (tr_workspace_path r))] else [])"

definition enqueue_task :: "'s orch_env \<Rightarrow> uuid \<Rightarrow> string \<Rightarrow> ('s, unit) oact" where
  "enqueue_task env cid goal =
     (case oe_queue env of
        None \<Rightarrow> act_return ()
      | Some cfg \<Rightarrow>
          act_bind tick (\<lambda>n w.
            (case enqueue cfg (str_uuid (e_uuid4 (oe_ledger env) n)) (oe_instant env n) ORCHESTRATOR_CORE
                    [(''correlation_id'', PStr (str_uuid cid)), (''goal'', PStr goal)]
                    default_priority (Some cid) None 0 None (rt_queue (w_fs w)) of
               Inl e \<Rightarrow> (Inl (raise_py env e), w)
             | Inr (_, q) \<Rightarrow> (Inr (), w\<lparr>w_fs := (w_fs w)\<lparr>rt_queue := q\<rparr>\<rparr>))))"

definition submit :: "'s orch_env \<Rightarrow> TaskRequest \<Rightarrow> ('s, uuid) oact" where
  "submit env r =
     act_bind tick (\<lambda>n.
     let cid = e_uuid4 (oe_ledger env) n;
         modality = (case tr_modality r of None \<Rightarrow> classify r | Some m \<Rightarrow> m);
         degraded = apply_backpressure env modality
     in act_bind (emit_event env cid TASK_REQUESTED (tr_session_id r) (request_payload r) modality ORCHESTRATOR 0 None) (\<lambda>_.
        act_bind (emit_event env cid TASK_QUEUED (tr_session_id r) [(''modality'', PStr (modality_value degraded))]
            degraded ORCHESTRATOR 0 None) (\<lambda>_.
        act_bind (enqueue_task env cid (tr_goal r)) (\<lambda>_. act_return cid))))"

subsection \<open>Hydration\<close>

text \<open>What follows the builder's answer.\<close>

definition accept_packet :: "'s orch_env \<Rightarrow> AgentResult \<Rightarrow> AgentContext \<Rightarrow> ('s, TaskProjection \<times> AgentContext) oact" where
  "accept_packet env result ctx =
     (if \<not> ar_ok result then
        raise (error_payload ''PaaError'' ''context hydration failed''
          [(''cause'', PDict (case ar_error result of None \<Rightarrow> [] | Some p \<Rightarrow> p))])
      else
        let packet = as_dict (ar_value result)
        in if pget packet ''routing_directive'' = PStr ''HARD_STOP_ESCALATE_TO_USER'' then
             act_bind (open_gate env ctx CONTEXT_BUILDER_PLANNER
               [(''reason'', PStr ''insufficient context density''),
                (''directive'', PStr ''HARD_STOP_ESCALATE_TO_USER''),
                (''vacant_slots'', dict_get_default packet ''vacant_slots'' (PList []))]) (\<lambda>st.
               act_return (st, ctx))
           else record_event env ctx CONTEXT_HYDRATED [(''context_packet'', PDict packet)] CONTEXT_BUILDER_PLANNER None)"

definition ask_builder ::
  "'s orch_env \<Rightarrow> 's agent \<Rightarrow> TaskProjection \<Rightarrow> AgentContext \<Rightarrow> ('s, TaskProjection \<times> AgentContext) oact" where
  "ask_builder env builder st ctx =
     act_bind (emit_event env (cx_correlation_id ctx) CONTEXT_HYDRATION_REQUESTED (cx_session_id ctx) []
         (cx_modality ctx) CONTEXT_BUILDER_PLANNER 0 None) (\<lambda>_.
     act_bind (lift_py env (request_get st ''goal'' (PStr []))) (\<lambda>goal.
     act_bind (lift_py env (request_get st ''required_slots'' (PList []))) (\<lambda>slots.
     act_bind (orch_message env ctx CONTEXT_REQUEST [(''goal'', goal), (''required_slots'', slots)]) (\<lambda>msg.
     act_bind (agent_run env builder msg ctx) (\<lambda>(result, ctx1). accept_packet env result ctx1)))))"

definition hydrate ::
  "'s orch_env \<Rightarrow> TaskProjection \<Rightarrow> AgentContext \<Rightarrow> ('s, TaskProjection \<times> AgentContext) oact" where
  "hydrate env st ctx =
     (case oe_context_builder env of
        None \<Rightarrow> act_return (st, ctx)
      | Some builder \<Rightarrow>
          if t_context_packet st \<noteq> PNone then act_return (st, ctx)
          else act_bind (lineage_questions env (cx_correlation_id ctx)) (\<lambda>qs.
            if stage_question qs CONTEXT_BUILDER_PLANNER \<noteq> None then act_return (st, ctx)
            else ask_builder env builder st ctx))"

subsection \<open>Planning\<close>

definition bypassed_plan :: "pyval \<Rightarrow> pyval \<Rightarrow> payload" where
  "bypassed_plan goal target =
     [(''execution_steps'', PList [PDict [(''index'', PInt 0), (''action'', goal),
         (''agent'', nonempty_or target (PStr ''worker''))]]),
      (''bypassed_planner'', PBool True)]"

text \<open>What follows the planner's answer.\<close>

definition accept_plan :: "'s orch_env \<Rightarrow> AgentResult \<Rightarrow> AgentContext \<Rightarrow> ('s, TaskProjection \<times> AgentContext) oact" where
  "accept_plan env result ctx =
     (if \<not> ar_ok result then
        raise (error_payload ''PaaError'' ''planning failed''
          [(''cause'', PDict (case ar_error result of None \<Rightarrow> [] | Some p \<Rightarrow> p))])
      else
        let plan = as_dict (ar_value result); steps = dict_get_default plan ''execution_steps'' (PList [])
        in act_bind (lift_py env (py_len steps)) (\<lambda>n.
           act_bind (lift_py env (max_plan_nodes (modality_profile (cx_modality ctx)))) (\<lambda>ceil.
             if n > ceil then
               raise (error_payload ''RecursionGuardError'' ''plan exceeds the expanded-node ceiling for this modality''
                 [(''depth'', PInt n), (''ceiling'', PInt ceil), (''cycle'', PNone)])
             else
               record_event env ctx PLAN_COMPILED
                 [(''execution_steps'', steps),
                  (''step_requirements'', dict_get_default plan ''step_requirements'' (PDict []))]
                 STRATEGIC_PLANNER None)))"

definition plan_stage ::
  "'s orch_env \<Rightarrow> TaskProjection \<Rightarrow> AgentContext \<Rightarrow> ('s, TaskProjection \<times> AgentContext) oact" where
  "plan_stage env st ctx =
     (case oe_planner env of
        None \<Rightarrow> act_return (st, ctx)
      | Some planner \<Rightarrow>
          if truthy (t_plan_steps st) then act_return (st, ctx)
          else if cx_modality ctx = SIMPLE then
            act_bind (lift_py env (request_get st ''goal'' (PStr []))) (\<lambda>goal.
            act_bind (lift_py env (request_get st ''target_agent'' PNone)) (\<lambda>target.
              record_event env ctx PLAN_COMPILED (bypassed_plan goal target) STRATEGIC_PLANNER None))
          else
            act_bind (lift_py env (request_get st ''goal'' (PStr []))) (\<lambda>goal.
            act_bind (orch_message env ctx PLAN_PROPOSAL
                [(''goal'', goal), (''context'', nonempty_or (t_context_packet st) (PDict []))]) (\<lambda>msg.
            act_bind (agent_run env planner msg ctx) (\<lambda>(result, ctx1). accept_plan env result ctx1))))"

subsection \<open>Policy review\<close>

definition with_score :: "payload \<Rightarrow> pyval option \<Rightarrow> payload" where
  "with_score p score = (case score of None \<Rightarrow> p | Some v \<Rightarrow> dict_set p ''risk_score'' v)"

definition human_clearance :: "GateQuestion \<Rightarrow> pyval option \<Rightarrow> payload" where
  "human_clearance q score =
     with_score [(''decision'', PStr ''STATUS_APPROVED''), (''reason'', PStr ''human attestation granted''),
       (''released_by'', PStr ''human''), (''gate'', optional_text (gq_discriminator q))] score"

definition is_blocked_verdict :: "AgentResult \<Rightarrow> bool" where
  "is_blocked_verdict result \<longleftrightarrow>
     \<not> ar_ok result \<or> pget (as_dict (ar_value result)) ''decision'' = PStr ''STATUS_BLOCKED''"

definition block_event :: "AgentResult \<Rightarrow> EventType" where
  "block_event result =
     (if truthy (pget (as_dict (ar_value result)) ''anti_goal_match'') then SECURITY_VIOLATION else POLICY_BLOCKED)"

definition block_payload :: "AgentResult \<Rightarrow> payload" where
  "block_payload result =
     dict_merge [(''decision'', PStr ''STATUS_BLOCKED''),
        (''reason'', nonempty_or (pget (as_dict (ar_value result)) ''reason'') (PStr ''policy refused the plan''))]
       (case ar_error result of None \<Rightarrow> [] | Some p \<Rightarrow> p)"

definition apply_verdict ::
  "'s orch_env \<Rightarrow> AgentResult \<Rightarrow> AgentContext \<Rightarrow> ('s, TaskProjection \<times> AgentContext) oact" where
  "apply_verdict env result ctx =
     (let verdict = as_dict (ar_value result)
      in if is_blocked_verdict result then
           record_event env ctx (block_event result) (block_payload result) POLICY_RISK None
         else if truthy (pget verdict ''requires_human_gate'') then
           act_bind (lift_py env (risk_score_of verdict)) (\<lambda>score.
           act_bind (open_gate env ctx POLICY_RISK
               (with_score [(''reason'', dict_get_default verdict ''reason'' (PStr ''human attestation required''))] score)) (\<lambda>st.
             act_return (st, ctx)))
         else
           record_event env ctx POLICY_CLEARED
             [(''decision'', PStr ''STATUS_APPROVED''),
              (''risk_score'', dict_get_default verdict ''risk_score'' (PScalar (SFloat ''0.0'')))] POLICY_RISK None)"

definition check_policy ::
  "'s orch_env \<Rightarrow> TaskProjection \<Rightarrow> AgentContext \<Rightarrow> ('s, TaskProjection \<times> AgentContext) oact" where
  "check_policy env st ctx =
     (case oe_policy env of
        None \<Rightarrow> act_return (st, ctx)
      | Some policy \<Rightarrow>
          if t_policy_decision st \<noteq> PNone then act_return (st, ctx)
          else act_bind (lineage_questions env (cx_correlation_id ctx)) (\<lambda>qs.
            case stage_question qs POLICY_RISK of
              Some q \<Rightarrow>
                if gq_answered q then
                  act_bind (lift_py env (risk_score_of (gq_payload q))) (\<lambda>score.
                    record_event env ctx POLICY_CLEARED (human_clearance q score) POLICY_RISK (gq_discriminator q))
                else act_return (st, ctx)
            | None \<Rightarrow>
                act_bind (lift_py env (request_get st ''goal'' (PStr []))) (\<lambda>goal.
                act_bind (orch_message env ctx POLICY_CHECK [(''steps'', t_plan_steps st), (''goal'', goal)]) (\<lambda>msg.
                act_bind (agent_run env policy msg ctx) (\<lambda>(result, ctx1). apply_verdict env result ctx1)))))"

subsection \<open>Execution\<close>

definition step_name :: "int \<Rightarrow> string" where
  "step_name i = ''step-'' @ str_int i"

definition critique :: "'s orch_env \<Rightarrow> AgentContext \<Rightarrow> int \<Rightarrow> AgentResult \<Rightarrow> ('s, bool) oact" where
  "critique env ctx i result =
     (case oe_critic env of
        None \<Rightarrow> act_return True
      | Some critic \<Rightarrow>
          act_bind (orch_message env ctx REVIEW_RESULT [(''step_index'', PInt i), (''output'', ar_value result)]) (\<lambda>msg.
          act_bind (child_context env ctx) (\<lambda>cctx.
          act_bind (agent_run env critic msg cctx) (\<lambda>(review, _).
            let verdict = pget (as_dict (ar_value review)) ''verdict''
            in act_bind (emit_event env (cx_correlation_id ctx) CRITIQUE_CONCLUDED (cx_session_id ctx)
                   [(''step_index'', PInt i), (''verdict'', nonempty_or verdict (PStr ''FAIL_REJECT_RETRY''))]
                   (cx_modality ctx) CRITIC 0 (Some (step_name i))) (\<lambda>_.
                 act_return (ar_ok review \<and> verdict = PStr ''PASS''))))))"

definition rejection :: "int \<Rightarrow> int \<Rightarrow> AgentResult \<Rightarrow> payload" where
  "rejection i att result =
     dict_merge [(''step_index'', PInt i), (''attempt'', PInt att)]
       (case ar_error result of
          None \<Rightarrow> [(''verdict'', PStr ''FAIL_REJECT_RETRY'')]
        | Some p \<Rightarrow> if p = [] then [(''verdict'', PStr ''FAIL_REJECT_RETRY'')] else p)"

text \<open>What follows the worker's answer; the value tells whether the step is done.\<close>

definition judge_step :: "'s orch_env \<Rightarrow> AgentContext \<Rightarrow> int \<Rightarrow> int \<Rightarrow> AgentResult \<Rightarrow> ('s, bool) oact" where
  "judge_step env ctx i att result =
     act_bind (if ar_ok result then critique env ctx i result else act_return False) (\<lambda>passed.
       if passed then
         act_bind (emit_event env (cx_correlation_id ctx) EXECUTION_COMPLETED (cx_session_id ctx)
             [(''step_index'', PInt i), (''tokens_consumed'', PInt (ar_tokens_consumed result))]
             (cx_modality ctx) WORKER att (Some (step_name i))) (\<lambda>_. act_return True)
       else
         act_bind (emit_event env (cx_correlation_id ctx) VALIDATION_FAILED (cx_session_id ctx)
             (rejection i att result) (cx_modality ctx) CRITIC att (Some (step_name i))) (\<lambda>_. act_return False))"

definition attempt_step ::
  "'s orch_env \<Rightarrow> 's agent \<Rightarrow> AgentContext \<Rightarrow> int \<Rightarrow> pyval \<Rightarrow> int \<Rightarrow> ('s, bool) oact" where
  "attempt_step env worker ctx i step att =
     act_bind (emit_event env (cx_correlation_id ctx) EXECUTION_STARTED (cx_session_id ctx)
         [(''step_index'', PInt i), (''step'', step)] (cx_modality ctx) WORKER att (Some (step_name i))) (\<lambda>_.
     act_bind (orch_message env ctx EXECUTION_REQUEST [(''step'', step), (''index'', PInt i)]) (\<lambda>msg.
     act_bind (child_context env ctx) (\<lambda>cctx.
     act_bind (agent_run env worker msg cctx) (\<lambda>(result, _). judge_step env ctx i att result))))"

fun attempt_until ::
  "'s orch_env \<Rightarrow> 's agent \<Rightarrow> AgentContext \<Rightarrow> int \<Rightarrow> pyval \<Rightarrow> int list \<Rightarrow> ('s, unit) oact" where
  "attempt_until env worker ctx i step [] =
     raise (error_payload ''PaaError'' ''step exhausted its retry budget''
       [(''step_index'', PInt i), (''retries'', PInt (oe_max_step_retries env))])"
| "attempt_until env worker ctx i step (att # atts) =
     act_bind (attempt_step env worker ctx i step att) (\<lambda>done.
       if done then act_return () else attempt_until env worker ctx i step atts)"

fun execute_from ::
  "'s orch_env \<Rightarrow> 's agent \<Rightarrow> AgentContext \<Rightarrow> TaskProjection \<Rightarrow> (int \<times> pyval) list \<Rightarrow> ('s, TaskProjection) oact" where
  "execute_from env worker ctx st [] = act_return st"
| "execute_from env worker ctx st ((i, step) # rest) =
     (if i \<in> set (t_completed_steps st) then execute_from env worker ctx st rest
      else act_bind (attempt_until env worker ctx i step [0..oe_max_step_retries env]) (\<lambda>_.
           act_bind (task_state env (cx_correlation_id ctx)) (\<lambda>st1.
             execute_from env worker ctx st1 rest)))"

definition execute_steps :: "'s orch_env \<Rightarrow> TaskProjection \<Rightarrow> AgentContext \<Rightarrow> ('s, TaskProjection) oact" where
  "execute_steps env st ctx =
     (case oe_worker env of
        None \<Rightarrow> act_return st
      | Some worker \<Rightarrow>
          act_bind (lift_py env (py_enumerate (t_plan_steps st))) (\<lambda>steps.
            execute_from env worker ctx st steps))"

definition commit_stage :: "'s orch_env \<Rightarrow> TaskProjection \<Rightarrow> AgentContext \<Rightarrow> ('s, TaskProjection) oact" where
  "commit_stage env st ctx =
     act_bind (emit_event env (cx_correlation_id ctx) MUTATION_COMMITTED (cx_session_id ctx)
         [(''steps_completed'', PInt (int (length (t_completed_steps st)))),
          (''tokens_consumed'', PInt (t_tokens_consumed st))] (cx_modality ctx) ORCHESTRATOR 0 None) (\<lambda>_.
       task_state env (cx_correlation_id ctx))"

subsection \<open>Driving a task\<close>

record TaskOutcome =
  to_correlation_id :: uuid
  to_phase :: TaskPhase
  to_projection :: TaskProjection
  to_error :: "payload option"

definition outcome :: "uuid \<Rightarrow> TaskProjection \<Rightarrow> payload option \<Rightarrow> TaskOutcome" where
  "outcome cid st err = \<lparr>to_correlation_id = cid, to_phase = t_phase st, to_projection = st, to_error = err\<rparr>"

definition outcome_ok :: "TaskOutcome \<Rightarrow> bool" where
  "outcome_ok o' \<longleftrightarrow> to_phase o' = COMMITTED"

text \<open>An exception leaves \<open>state\<close> as the last finished stage left it.\<close>

definition in_state :: "TaskProjection \<Rightarrow> ('s, 'a) oact \<Rightarrow> (raised \<times> TaskProjection, 's rt_world, 'a) action" where
  "in_state st m w = (case m w of (Inl e, w1) \<Rightarrow> (Inl (e, st), w1) | (Inr a, w1) \<Rightarrow> (Inr a, w1))"

definition run_stages ::
  "'s orch_env \<Rightarrow> TaskProjection \<Rightarrow> AgentContext \<Rightarrow> (raised \<times> TaskProjection, 's rt_world, TaskProjection) action" where
  "run_stages env st ctx =
     act_bind (in_state st (hydrate env st ctx)) (\<lambda>(st1, ctx1).
       if t_phase st1 = AWAITING_HUMAN then act_return st1
       else
         act_bind (in_state st1 (plan_stage env st1 ctx1)) (\<lambda>(st2, ctx2).
         act_bind (in_state st2 (check_policy env st2 ctx2)) (\<lambda>(st3, ctx3).
           if t_phase st3 \<in> {BLOCKED, AWAITING_HUMAN} then act_return st3
           else
             act_bind (in_state st3 (execute_steps env st3 ctx3)) (\<lambda>st4.
               if t_phase st4 = AWAITING_HUMAN then act_return st4
               else in_state st4 (commit_stage env st4 ctx3)))))"

definition handle_failure ::
  "'s orch_env \<Rightarrow> uuid \<Rightarrow> AgentContext \<Rightarrow> TaskProjection \<Rightarrow> payload \<Rightarrow> ('s, TaskOutcome) oact" where
  "handle_failure env cid ctx st p =
     act_bind (emit_event env (cx_correlation_id ctx) EXECUTION_FAILED (cx_session_id ctx) p (cx_modality ctx)
         ORCHESTRATOR (t_attempts st) None) (\<lambda>_.
     act_bind (task_state env cid) (\<lambda>st1. act_return (outcome (cx_correlation_id ctx) st1 (Some p))))"

definition discard_delegations :: "uuid \<Rightarrow> 's rt_world \<Rightarrow> 's rt_world" where
  "discard_delegations cid w = w\<lparr>w_fs := (w_fs w)\<lparr>rt_registry := discard_graph cid (rt_registry (w_fs w))\<rparr>\<rparr>"

definition drive :: "'s orch_env \<Rightarrow> uuid \<Rightarrow> TaskProjection \<Rightarrow> AgentContext \<Rightarrow> ('s, TaskOutcome) oact" where
  "drive env cid st ctx w =
     (let (r, w1) =
        (case run_stages env st ctx w of
           (Inr st1, w1) \<Rightarrow> (Inr (outcome (cx_correlation_id ctx) st1 None), w1)
         | (Inl (PaaRaised p, st1), w1) \<Rightarrow> handle_failure env cid ctx st1 p w1
         | (Inl (Raised e, st1), w1) \<Rightarrow> (Inl (Raised e), w1))
      in (r, discard_delegations (cx_correlation_id ctx) w1))"

definition run_task :: "'s orch_env \<Rightarrow> uuid \<Rightarrow> ('s, TaskOutcome) oact" where
  "run_task env cid =
     act_bind (task_state env cid) (\<lambda>st.
       if projection_is_terminal st then act_return (outcome cid st None)
       else act_bind (context_for env st) (drive env cid st))"

subsection \<open>Delegation\<close>

text \<open>
  The graph of the correlation is found again after the agent has run, so that edges added and released
  by nested delegations are kept; a graph that was discarded meanwhile is not put back.
\<close>

definition release_in_registry :: "uuid \<Rightarrow> DelegationEdge \<Rightarrow> 's rt_world \<Rightarrow> 's rt_world" where
  "release_in_registry cid edge w =
     (let reg = rt_registry (w_fs w)
      in case dict_get (dr_graphs reg) cid of
           None \<Rightarrow> w
         | Some g \<Rightarrow> w\<lparr>w_fs := (w_fs w)\<lparr>rt_registry := reg\<lparr>dr_graphs :=
             dict_set (dr_graphs reg) cid (release_delegation edge g)\<rparr>\<rparr>\<rparr>)"

definition refused :: "'s orch_env \<Rightarrow> AgentResult" where
  "refused env = failure (oe_payload_of env RecursionGuardError)"

definition delegate_to ::
  "'s orch_env \<Rightarrow> 's agent \<Rightarrow> string \<Rightarrow> string \<Rightarrow> MessageType \<Rightarrow> payload \<Rightarrow> AgentContext \<Rightarrow> int \<Rightarrow> ('s, AgentResult) oact" where
  "delegate_to env a sender target intent p ctx nodes w =
     (let profile = modality_profile (cx_modality ctx);
          (g, reg) = graph_for (cx_correlation_id ctx) (Some (recursion_ceiling profile)) (Some nodes) (rt_registry (w_fs w));
          w1 = w\<lparr>w_fs := (w_fs w)\<lparr>rt_registry := reg\<rparr>\<rparr>
      in act_bind (child_context env ctx) (\<lambda>cctx w2.
           let edge = \<lparr>d_sender = sender, d_target = target, d_task_id = cx_task_id cctx,
                       d_depth = cx_recursion_depth cctx\<rparr>
           in case propose edge g of
                Inl _ \<Rightarrow> (Inr (refused env), w2)
              | Inr g1 \<Rightarrow>
                  let w3 = w2\<lparr>w_fs := (w_fs w2)\<lparr>rt_registry := (rt_registry (w_fs w2))\<lparr>dr_graphs :=
                        dict_set (dr_graphs (rt_registry (w_fs w2))) (cx_correlation_id ctx) g1\<rparr>\<rparr>\<rparr>;
                      (r, w5) = act_bind tick (\<lambda>n.
                        agent_run env a \<lparr>am_message_id = e_uuid4 (oe_ledger env) n, am_task_id = cx_task_id cctx,
                          am_parent_task_id = Some (cx_task_id ctx), am_correlation_id = cx_correlation_id ctx,
                          am_session_id = cx_session_id ctx, am_sender = sender, am_recipient = target,
                          am_intent = intent, am_payload = p, am_recursion_depth = cx_recursion_depth cctx,
                          am_deadline = None, am_created_at = e_utc_now (oe_ledger env) n\<rparr> cctx) w3
                  in (case r of Inl e \<Rightarrow> Inl e | Inr (res, _) \<Rightarrow> Inr res,
                      release_in_registry (cx_correlation_id ctx) edge w5)) w1)"

definition mediate_delegation ::
  "'s orch_env \<Rightarrow> string \<Rightarrow> string \<Rightarrow> MessageType \<Rightarrow> payload \<Rightarrow> AgentContext \<Rightarrow> ('s, AgentResult) oact" where
  "mediate_delegation env sender target intent p ctx =
     (case dict_get (oe_agents env) target of
        None \<Rightarrow> act_return (failure [(''message'', PStr (''no agent registered under '' @ py_repr target))])
      | Some a \<Rightarrow>
          act_bind (lift_py env (max_plan_nodes (modality_profile (cx_modality ctx)))) (\<lambda>nodes.
            delegate_to env a sender target intent p ctx nodes))"

text \<open>\<open>Agent.delegate\<close> of a registered agent.\<close>

definition agent_delegate ::
  "'s orch_env \<Rightarrow> 's agent \<Rightarrow> string \<Rightarrow> MessageType \<Rightarrow> payload \<Rightarrow> AgentContext \<Rightarrow> ('s, AgentResult) oact" where
  "agent_delegate env a target intent p ctx =
     (if \<not> ag_can_delegate a then
        raise (error_payload ''RecursionGuardError'' (ag_name a @ '' is not permitted to delegate'')
          [(''depth'', PNone), (''ceiling'', PNone), (''cycle'', PNone)])
      else mediate_delegation env (ag_name a) target intent p ctx)"

definition register_agent :: "'s agent \<Rightarrow> 's orch_env \<Rightarrow> 's orch_env" where
  "register_agent a env = env\<lparr>oe_agents := dict_set (oe_agents env) (ag_name a) a\<rparr>"

text \<open>The constructor registers the collaborators it was given, in order.\<close>

definition register_all :: "'s agent option list \<Rightarrow> 's orch_env \<Rightarrow> 's orch_env" where
  "register_all as env = foldl (\<lambda>v a. case a of None \<Rightarrow> v | Some b \<Rightarrow> register_agent b v) env as"

subsection \<open>Human decisions\<close>

definition gate_resume_phase :: "string \<Rightarrow> TaskPhase" where
  "gate_resume_phase role =
     (if role = role_value CONTEXT_BUILDER_PLANNER then PLANNING else EXECUTING)"

definition not_awaiting :: "uuid \<Rightarrow> TaskProjection \<Rightarrow> payload" where
  "not_awaiting cid st =
     error_payload ''PaaError'' ''task is not awaiting human attestation''
       [(''correlation_id'', PStr (str_uuid cid)), (''phase'', PStr (phase_value (t_phase st)))]"

definition clear_human_gate ::
  "'s orch_env \<Rightarrow> uuid \<Rightarrow> bool \<Rightarrow> TaskPhase option \<Rightarrow> string option \<Rightarrow> ('s, TaskProjection) oact" where
  "clear_human_gate env cid approved resume note =
     act_bind (task_state env cid) (\<lambda>st.
       if t_phase st \<noteq> AWAITING_HUMAN then raise (not_awaiting cid st)
       else act_bind (lineage_questions env cid) (\<lambda>qs.
         case find (\<lambda>q. \<not> gq_answered q) (rev qs) of
           None \<Rightarrow> raise (not_awaiting cid st)
         | Some q \<Rightarrow>
             let ph = (case resume of None \<Rightarrow> gate_resume_phase (gq_role q) | Some r \<Rightarrow> r)
             in act_bind (lift_py env (session_uuid st)) (\<lambda>sid.
                act_bind (emit_event env cid (if approved then HUMAN_GATE_CLEARED else HUMAN_GATE_REJECTED) sid
                    [(''resume_phase'', PStr (phase_value ph)), (''note'', optional_text note),
                     (''gate'', optional_text (gq_discriminator q)), (''gate_role'', PStr (gq_role q))]
                    (t_modality st) ORCHESTRATOR (t_attempts st) (gq_discriminator q)) (\<lambda>_.
                  task_state env cid))))"

definition record_correction :: "'s orch_env \<Rightarrow> uuid \<Rightarrow> string \<Rightarrow> ('s, unit) oact" where
  "record_correction env cid correction =
     act_bind (task_state env cid) (\<lambda>st.
     act_bind (emit_event env cid USER_CORRECTION None [(''correction'', PStr correction)] (t_modality st)
         ORCHESTRATOR (t_user_corrections st) None) (\<lambda>_. act_return ()))"

definition boot :: "'s orch_env \<Rightarrow> ('s, RecoveryReport option) oact" where
  "boot env =
     (case oe_recovery env of
        None \<Rightarrow> act_return None
      | Some limit \<Rightarrow>
          (\<lambda>w. case boot_sweep (oe_ledger env) limit w of
             (Inl e, w1) \<Rightarrow> (Inl (raise_py env e), w1)
           | (Inr report, w1) \<Rightarrow> (Inr (Some report), w1)))"

end
