(* ===== verification/Orchestrator_Properties.thy ===== *)
theory Orchestrator_Properties
  imports Orchestrator
begin

text \<open>
  What the orchestrator guarantees whatever its agents answer: events are appended or suppressed as the
  ledger's idempotency decides, a parked task stays where it is, and executing a plan starts each step at
  most as often as the retry budget allows. Two lemmas record what suppression does to repeated steps.
\<close>

subsection \<open>Emitting\<close>

abbreviation "hash_of env \<equiv> e_hash (oe_ledger env)"

definition event_key :: "'s orch_env \<Rightarrow> uuid \<Rightarrow> EventType \<times> int \<times> string option \<Rightarrow> string" where
  "event_key env cid k = hash_of env (idempotency_material cid (fst k) (fst (snd k)) (snd (snd k)))"

definition known_keys :: "'s rt_world \<Rightarrow> string set" where
  "known_keys w = c_idempotency_key ` set (ledger_rows (w_db w))"

definition known_ids :: "'s rt_world \<Rightarrow> string set" where
  "known_ids w = c_event_id ` set (ledger_rows (w_db w))"

lemma new_event_fields:
  assumes "new_event eid cid t sid p mode role att disc ts = Inr e" "valid_datetime ts"
  shows "wf_event e" "event_id e = eid" "correlation_id e = cid" "event_type e = t" "session_id e = sid" "payload e = p"
    "execution_mode e = mode" "agent_role e = Some (role_value role)" "attempt e = att" "discriminator e = disc" "0 \<le> att"
    "idempotency_key H e = Inr (H (idempotency_material cid t att disc))"
  using assms
  by (auto simp: new_event_def validate_event_def wf_event_def idempotency_key_def compute_idempotency_key_def
      split: if_splits)

lemma new_event_total: "0 \<le> att \<Longrightarrow> aware ts \<Longrightarrow> \<exists>e. new_event eid cid t sid p mode role att disc ts = Inr e"
  by (simp add: new_event_def validate_event_def)

text \<open>The world after an emission: the clock has ticked, the ledger is what the append made of it.\<close>

lemma emit_event_append:
  assumes "new_event (e_uuid4 (oe_ledger env) (w_tick w)) cid t sid p mode role att disc (e_utc_now (oe_ledger env) (w_tick w)) = Inr e"
    and "append_event (hash_of env) e (w_db w) = (r, db)"
  shows "emit_event env cid t sid p mode role att disc w =
    (case r of Inl err \<Rightarrow> Inl (raise_py env err) | Inr e' \<Rightarrow> Inr e', w\<lparr>w_tick := Suc (w_tick w), w_db := db\<rparr>)"
  using assms by (simp add: emit_event_def act_bind_def tick_def lift_py_def act_lift_def)

lemma emit_event_cases:
  assumes "emit_event env cid t sid p mode role att disc w = (r, w')"
  obtains (refused) e where "r = Inl e" "w' = w\<lparr>w_tick := Suc (w_tick w)\<rparr>"
  | (appended) e res db where
    "new_event (e_uuid4 (oe_ledger env) (w_tick w)) cid t sid p mode role att disc (e_utc_now (oe_ledger env) (w_tick w)) = Inr e"
    "append_event (hash_of env) e (w_db w) = (res, db)"
    "r = (case res of Inl err \<Rightarrow> Inl (raise_py env err) | Inr e' \<Rightarrow> Inr e')" "w' = w\<lparr>w_tick := Suc (w_tick w), w_db := db\<rparr>"
proof (cases "new_event (e_uuid4 (oe_ledger env) (w_tick w)) cid t sid p mode role att disc (e_utc_now (oe_ledger env) (w_tick w))")
  case (Inl err)
  then show thesis
    using assms by (intro refused[of "raise_py env err"]) (auto simp: emit_event_def act_bind_def tick_def lift_py_def act_lift_def)
next
  case (Inr e)
  obtain res db where "append_event (hash_of env) e (w_db w) = (res, db)" by (cases "append_event (hash_of env) e (w_db w)")
  with emit_event_append[OF Inr this] assms show thesis by (intro appended[OF Inr]) auto
qed

lemma keeps_emit_event [keeps_intros]:
  assumes "env_ok (oe_ledger env)"
  shows "keeps (grown db0) (emit_event env cid t sid p mode role att disc)"
  unfolding keeps_def
proof (intro allI impI)
  fix w :: "'a rt_world"
  assume w: "grown db0 w"
  obtain r w' where r: "emit_event env cid t sid p mode role att disc w = (r, w')"
    by (cases "emit_event env cid t sid p mode role att disc w")
  then show "grown db0 (snd (emit_event env cid t sid p mode role att disc w))"
  proof (cases rule: emit_event_cases)
    case (appended e res db)
    have "wf_event e" using new_event_fields(1)[OF appended(1)] assms by (simp add: env_ok_def)
    then show ?thesis
      using w append_event_ledger_inv[of "w_db w" e "hash_of env"] append_event_extends[of "hash_of env" e "w_db w"]
        extends_trans[of db "w_db w" db0] appended(2,4) r
      by (simp add: grown_def)
  qed (use w r in \<open>simp add: grown_def\<close>)
qed

text \<open>A key that is already recorded: the ledger stays as it is and the recorded event is returned.\<close>

lemma emit_event_suppressed:
  assumes "env_ok (oe_ledger env)" "chain_inv (w_db w)" "0 \<le> att"
    and "event_key env cid (t, att, disc) \<in> known_keys w"
  shows "\<exists>e. emit_event env cid t sid p mode role att disc w = (Inr e, w\<lparr>w_tick := Suc (w_tick w)\<rparr>)"
proof -
  let ?n = "w_tick w"
  obtain e where e: "new_event (e_uuid4 (oe_ledger env) ?n) cid t sid p mode role att disc (e_utc_now (oe_ledger env) ?n) = Inr e"
    using new_event_total assms(1,3) by (metis env_ok_def)
  have key: "idempotency_key (hash_of env) e = Inr (event_key env cid (t, att, disc))"
    using new_event_fields(12)[OF e] assms(1) by (simp add: env_ok_def event_key_def)
  obtain r where r: "r \<in> set (ledger_rows (w_db w))" "c_idempotency_key r = event_key env cid (t, att, disc)"
    using assms(4) by (auto simp: known_keys_def)
  obtain e' where "row_to_event r = Inr e'" using chain_inv_readable[OF assms(2) r(1)] by blast
  then have "find_by_key (w_db w) (event_key env cid (t, att, disc)) = Inr (Some e')"
    using find_by_key_unique[OF _ r(1)] assms(2) r(2) by (simp add: chain_inv_def)
  then have "append_event (hash_of env) e (w_db w) = (Inr e', w_db w)"
    using key by (simp add: append_event_Inr append_tx_def)
  from emit_event_append[OF e this] show ?thesis by simp
qed

subsection \<open>A parked task\<close>

lemma lift_py_Inr [simp]: "lift_py env (Inr a) w = (Inr a, w)"
  by (simp add: lift_py_def)

lemma tick_simp [simp]: "tick w = (Inr (w_tick w), w\<lparr>w_tick := Suc (w_tick w)\<rparr>)"
  by (simp add: tick_def)

definition hydration_settled :: "'s orch_env \<Rightarrow> TaskProjection \<Rightarrow> LedgerEvent list \<Rightarrow> bool" where
  "hydration_settled env st es \<longleftrightarrow> oe_context_builder env = None \<or> t_context_packet st \<noteq> PNone \<or>
     stage_question (gate_history es) CONTEXT_BUILDER_PLANNER \<noteq> None"

lemma hydrate_settled:
  assumes "hydration_settled env st es" "read_correlation (w_db w) (cx_correlation_id ctx) 0 = Inr es"
  shows "hydrate env st ctx w = (Inr (st, ctx), w)"
  using assms
  by (auto simp: hydrate_def hydration_settled_def lineage_questions_def act_bind_def split: option.splits)

lemma context_for_total:
  assumes "t_correlation_id st = str_uuid cid" "session_uuid st = Inr sid"
  shows "\<exists>ctx. context_for env st w = (Inr ctx, w\<lparr>w_tick := Suc (w_tick w)\<rparr>) \<and> cx_correlation_id ctx = cid \<and>
    cx_session_id ctx = sid \<and> cx_modality ctx = t_modality st \<and> cx_tokens_spent ctx = 0 \<and> cx_recursion_depth ctx = 0 \<and>
    cx_permission_mode ctx = oe_permission_mode env"
  using assms by (simp add: context_for_def parse_str_uuid act_bind_def)

text \<open>
  A task that waits for a human is not driven: no agent is asked and nothing is written, whatever agents
  are installed.
\<close>

lemma run_task_parked:
  assumes st: "project (e_validate (oe_ledger env)) (w_db w) cid True = Inr st" "t_phase st = AWAITING_HUMAN"
    and ids: "t_correlation_id st = str_uuid cid" "session_uuid st = Inr sid"
    and es: "read_correlation (w_db w) cid 0 = Inr es" "hydration_settled env st es"
  shows "run_task env cid w =
    (Inr (outcome cid st None), discard_delegations cid (w\<lparr>w_tick := Suc (w_tick w)\<rparr>))"
proof -
  obtain ctx where ctx: "context_for env st w = (Inr ctx, w\<lparr>w_tick := Suc (w_tick w)\<rparr>)" "cx_correlation_id ctx = cid"
    using context_for_total[OF ids, of env w] by blast
  have "\<not> projection_is_terminal st"
    using st(2) by (simp add: projection_is_terminal_def phase_is_terminal_def terminal_phases_def)
  moreover have "hydrate env st ctx (w\<lparr>w_tick := Suc (w_tick w)\<rparr>) = (Inr (st, ctx), w\<lparr>w_tick := Suc (w_tick w)\<rparr>)"
    by (rule hydrate_settled[OF es(2)]) (simp add: es(1) ctx(2))
  ultimately show ?thesis
    using st ctx by (simp add: run_task_def task_state_def drive_def run_stages_def in_state_def act_bind_def)
qed

subsection \<open>Suppressed repetitions\<close>

text \<open>
  An agent that answers at a fixed cost, when its context affords it, and leaves the world alone. Contexts are those that
  the orchestrator makes: they carry its permission mode.
\<close>

definition affords :: "'s orch_env \<Rightarrow> AgentContext \<Rightarrow> int \<Rightarrow> bool" where
  "affords env ctx cost \<longleftrightarrow> cx_permission_mode ctx = oe_permission_mode env \<and>
     (cx_tokens_budget ctx = 0 \<or> cx_tokens_spent ctx + cost \<le> cx_tokens_budget ctx)"

definition answers :: "'s orch_env \<Rightarrow> 's agent \<Rightarrow> (AgentMessage \<Rightarrow> AgentResult) \<Rightarrow> int \<Rightarrow> bool" where
  "answers env a f cost \<longleftrightarrow> (\<forall>msg ctx w. am_deadline msg = None \<longrightarrow> affords env ctx cost \<longrightarrow>
     agent_run env a msg ctx w = (Inr (f msg, ctx\<lparr>cx_tokens_spent := cx_tokens_spent ctx + cost\<rparr>), w))"

lemma answers_run: "answers env a f cost \<Longrightarrow> am_deadline msg = None \<Longrightarrow> affords env ctx cost \<Longrightarrow>
    agent_run env a msg ctx w = (Inr (f msg, ctx\<lparr>cx_tokens_spent := cx_tokens_spent ctx + cost\<rparr>), w)"
  by (simp add: answers_def)

text \<open>What a sub-agent of this context may spend.\<close>

definition child_affords :: "'s orch_env \<Rightarrow> AgentContext \<Rightarrow> int \<Rightarrow> bool" where
  "child_affords env ctx cost \<longleftrightarrow> cx_permission_mode ctx = oe_permission_mode env \<and>
     (\<forall>q. token_quota_at_depth (modality_profile (cx_modality ctx)) (cx_recursion_depth ctx + 1) = Inr q \<longrightarrow> q = 0 \<or> cost \<le> q)"

lemma orch_message_total:
  "\<exists>msg. orch_message env ctx intent p w = (Inr msg, w\<lparr>w_tick := Suc (w_tick w)\<rparr>) \<and> am_deadline msg = None \<and>
    am_intent msg = intent \<and> am_payload msg = p"
  by (simp add: orch_message_def act_bind_def)

lemma child_context_total:
  assumes "0 \<le> cx_recursion_depth ctx"
  shows "\<exists>c. child_context env ctx w = (Inr c, w\<lparr>w_tick := Suc (w_tick w)\<rparr>) \<and> (child_affords env ctx cost \<longrightarrow> affords env c cost)"
proof -
  obtain q where "token_quota_at_depth (modality_profile (cx_modality ctx)) (cx_recursion_depth ctx + 1) = Inr q"
    using token_quota_Inr[of "cx_recursion_depth ctx + 1"] assms by auto
  then show ?thesis by (auto simp: child_context_def Let_def act_bind_def child_affords_def affords_def)
qed

lemma chain_inv_tick: "chain_inv (w_db (w\<lparr>w_tick := n\<rparr>)) = chain_inv (w_db w)" by simp

text \<open>
  Executing a step again under an attempt number that is already recorded: the worker runs, the step
  counts as done, and the ledger shows nothing of it.
\<close>

lemma attempt_step_unrecorded:
  assumes env: "env_ok (oe_ledger env)" and inv: "chain_inv (w_db w)" and cx: "0 \<le> cx_recursion_depth ctx"
    and worker: "answers env worker f cost" "child_affords env ctx cost" "\<And>msg. ar_ok (f msg)" and critic: "oe_critic env = None"
    and att: "0 \<le> att"
    and known: "event_key env (cx_correlation_id ctx) (EXECUTION_STARTED, att, Some (step_name i)) \<in> known_keys w"
      "event_key env (cx_correlation_id ctx) (EXECUTION_COMPLETED, att, Some (step_name i)) \<in> known_keys w"
  shows "\<exists>w'. attempt_step env worker ctx i step att w = (Inr True, w') \<and> w_db w' = w_db w"
proof -
  let ?w = "\<lambda>n. w\<lparr>w_tick := n\<rparr>"
  have keys: "known_keys (?w n) = known_keys w" for n by (simp add: known_keys_def)
  obtain e1 where e1: "emit_event env (cx_correlation_id ctx) EXECUTION_STARTED (cx_session_id ctx)
      [(''step_index'', PInt i), (''step'', step)] (cx_modality ctx) WORKER att (Some (step_name i)) w =
      (Inr e1, ?w (Suc (w_tick w)))"
    using emit_event_suppressed[OF env inv att known(1)] by blast
  obtain msg where msg: "orch_message env ctx EXECUTION_REQUEST [(''step'', step), (''index'', PInt i)] (?w (Suc (w_tick w)))
      = (Inr msg, ?w (Suc (Suc (w_tick w))))" "am_deadline msg = None"
    using orch_message_total[of env ctx EXECUTION_REQUEST _ "?w (Suc (w_tick w))"] by auto
  obtain c where c: "child_context env ctx (?w (Suc (Suc (w_tick w)))) = (Inr c, ?w (Suc (Suc (Suc (w_tick w)))))"
    "affords env c cost"
    using child_context_total[OF cx, of env "?w (Suc (Suc (w_tick w)))" cost] worker(2) by auto
  note r = answers_run[OF worker(1) msg(2) c(2)]
  obtain e2 where "emit_event env (cx_correlation_id ctx) EXECUTION_COMPLETED (cx_session_id ctx)
      [(''step_index'', PInt i), (''tokens_consumed'', PInt (ar_tokens_consumed (f msg)))] (cx_modality ctx) WORKER att
      (Some (step_name i)) (?w (Suc (Suc (Suc (w_tick w))))) = (Inr e2, ?w (Suc (Suc (Suc (Suc (w_tick w))))))"
    using emit_event_suppressed[OF env _ att, of "?w (Suc (Suc (Suc (w_tick w))))" "cx_correlation_id ctx" EXECUTION_COMPLETED]
      inv known(2) keys by force
  then show ?thesis
    using e1 msg c(1) r worker(3) critic by (simp add: attempt_step_def judge_step_def critique_def)
qed

text \<open>
  The verdict of a second critique of the same step is never recorded: the event has no attempt number,
  so the first verdict stays in the ledger.
\<close>

lemma critique_unrecorded:
  assumes env: "env_ok (oe_ledger env)" and inv: "chain_inv (w_db w)" and cx: "0 \<le> cx_recursion_depth ctx"
    and critic: "oe_critic env = Some critic" "answers env critic f cost" "child_affords env ctx cost"
    and known: "event_key env (cx_correlation_id ctx) (CRITIQUE_CONCLUDED, 0, Some (step_name i)) \<in> known_keys w"
  shows "\<exists>passed w'. critique env ctx i result w = (Inr passed, w') \<and> w_db w' = w_db w"
proof -
  let ?w = "\<lambda>n. w\<lparr>w_tick := n\<rparr>"
  let ?n = "Suc (Suc (w_tick w))"
  obtain msg where msg: "orch_message env ctx REVIEW_RESULT [(''step_index'', PInt i), (''output'', ar_value result)] w
      = (Inr msg, ?w (Suc (w_tick w)))" "am_deadline msg = None"
    using orch_message_total[of env ctx REVIEW_RESULT _ w] by auto
  obtain c where c: "child_context env ctx (?w (Suc (w_tick w))) = (Inr c, ?w ?n)" "affords env c cost"
    using child_context_total[OF cx, of env "?w (Suc (w_tick w))" cost] critic(3) by auto
  note r = answers_run[OF critic(2) msg(2) c(2)]
  have "event_key env (cx_correlation_id ctx) (CRITIQUE_CONCLUDED, 0, Some (step_name i)) \<in> known_keys (?w ?n)"
    using known by (simp add: known_keys_def)
  then obtain e where "emit_event env (cx_correlation_id ctx) CRITIQUE_CONCLUDED (cx_session_id ctx)
      [(''step_index'', PInt i), (''verdict'', nonempty_or (pget (as_dict (ar_value (f msg))) ''verdict'') (PStr ''FAIL_REJECT_RETRY''))]
      (cx_modality ctx) CRITIC 0 (Some (step_name i)) (?w ?n) = (Inr e, ?w (Suc ?n))"
    using emit_event_suppressed[OF env _ order_refl, of "?w ?n"] inv by force
  then show ?thesis using msg c(1) r critic(1) by (simp add: critique_def Let_def)
qed

subsection \<open>The retry budget\<close>

definition started :: "'s rt_world \<Rightarrow> nat" where
  "started w = length (filter (\<lambda>r. c_event_type r = event_value EXECUTION_STARTED) (ledger_rows (w_db w)))"

text \<open>An action that records at most so many starts, whether it returns or raises.\<close>

definition adds :: "nat \<Rightarrow> ('e, 's rt_world, 'a) action \<Rightarrow> bool" where
  "adds n m \<longleftrightarrow> (\<forall>w. started (snd (m w)) \<le> started w + n)"

named_theorems adds_intros \<open>bounds on the starts an action records\<close>

lemma addsD: "adds n m \<Longrightarrow> m w = (r, w') \<Longrightarrow> started w' \<le> started w + n"
  unfolding adds_def by (metis snd_conv)

lemma adds_return [adds_intros]: "adds n (act_return a)"
  by (simp add: adds_def act_return_def)

lemma adds_lift [adds_intros]: "adds n (act_lift r)"
  by (simp add: adds_def act_lift_def)

lemma adds_lift_py [adds_intros]: "adds n (lift_py env r)"
  by (simp add: lift_py_def adds_lift)

lemma adds_raise [adds_intros]: "adds n (raise p)"
  by (simp add: raise_def adds_lift)

lemma adds_tick [adds_intros]: "adds n tick"
  by (simp add: adds_def started_def)

lemma adds_bind: "adds n m \<Longrightarrow> (\<And>a. adds k (f a)) \<Longrightarrow> adds (n + k) (act_bind m f)"
  unfolding adds_def
proof
  fix w
  assume m: "\<forall>w. started (snd (m w)) \<le> started w + n" and f: "\<And>a. \<forall>w. started (snd (f a w)) \<le> started w + k"
  obtain r w1 where r: "m w = (r, w1)" by (cases "m w")
  have 1: "started w1 \<le> started w + n" using m[rule_format, of w] r by simp
  show "started (snd (act_bind m f w)) \<le> started w + (n + k)"
  proof (cases r)
    case (Inr a)
    then show ?thesis using r 1 f[rule_format, of a w1] by simp
  qed (use r 1 in simp)
qed

lemma adds_bind_left: "adds n m \<Longrightarrow> (\<And>a. adds 0 (f a)) \<Longrightarrow> adds n (act_bind m f)"
  using adds_bind[of n m 0 f] by simp

lemma adds_bind_right [adds_intros]: "adds 0 m \<Longrightarrow> (\<And>a. adds n (f a)) \<Longrightarrow> adds n (act_bind m f)"
  using adds_bind[of 0 m n f] by simp

lemma adds_if [adds_intros]: "(b \<Longrightarrow> adds n m) \<Longrightarrow> (\<not> b \<Longrightarrow> adds n m') \<Longrightarrow> adds n (if b then m else m')"
  by simp

lemma adds_option [adds_intros]: "adds n m \<Longrightarrow> (\<And>a. adds n (f a)) \<Longrightarrow> adds n (case x of None \<Rightarrow> m | Some a \<Rightarrow> f a)"
  by (cases x) simp_all

lemma adds_prod [adds_intros]: "(\<And>a b. adds n (f a b)) \<Longrightarrow> adds n (case x of (a, b) \<Rightarrow> f a b)"
  by (cases x) simp_all

lemma adds_mono: "adds n m \<Longrightarrow> n \<le> k \<Longrightarrow> adds k m"
  unfolding adds_def using le_trans by (metis add_le_mono1 add.commute)

lemma adds_emit: "adds (if t = EXECUTION_STARTED then 1 else 0) (emit_event env cid t sid p mode role att disc)"
  unfolding adds_def
proof
  fix w :: "'a rt_world"
  obtain r w' where r: "emit_event env cid t sid p mode role att disc w = (r, w')"
    by (cases "emit_event env cid t sid p mode role att disc w")
  then show "started (snd (emit_event env cid t sid p mode role att disc w)) \<le> started w + (if t = EXECUTION_STARTED then 1 else 0)"
  proof (cases rule: emit_event_cases)
    case (appended e res db)
    have t: "event_type e = t" using appended(1) by (auto simp: new_event_def validate_event_def split: if_splits)
    show ?thesis
    proof (cases res)
      case (Inl err)
      then have "db = w_db w" using appended(2) by (auto simp: append_event_def commit_def split: sum.splits prod.splits)
      then show ?thesis using r appended(4) by (simp add: started_def)
    next
      case (Inr e')
      then have "append_tx (hash_of env) e (w_db w) (w_db w) = Inr (e', db)" using appended(2) by (simp add: append_event_Inr)
      then show ?thesis
      proof (cases rule: append_tx_effect)
        case (written key version prev h row x)
        have "c_event_type row = event_value t" using written(5,6) t by (simp add: written_row_def)
        then show ?thesis
          using r appended(4) event_value_inj[of t EXECUTION_STARTED]
          by (auto simp: started_def written(9) with_head_def appended_def)
      qed (use r appended(4) in \<open>simp add: started_def\<close>)
    qed
  qed (use r in \<open>simp add: started_def\<close>)
qed

lemma adds_emit_other [adds_intros]: "t \<noteq> EXECUTION_STARTED \<Longrightarrow> adds 0 (emit_event env cid t sid p mode role att disc)"
  using adds_emit[where t = t] by simp

lemma adds_emit_started [adds_intros]: "adds 1 (emit_event env cid EXECUTION_STARTED sid p mode role att disc)"
  using adds_emit[where t = EXECUTION_STARTED] by simp

lemma adds_task_state [adds_intros]: "adds n (task_state env cid)"
  by (simp add: adds_def task_state_def[abs_def] lift_py_def act_lift_def)

lemma adds_message [adds_intros]: "adds n (orch_message env ctx intent p)"
  unfolding orch_message_def by (intro adds_intros)

lemma adds_child [adds_intros]: "adds n (child_context env ctx)"
  unfolding child_context_def Let_def by (intro adds_intros)

text \<open>Agents that do not record starts of their own.\<close>

definition no_starts :: "'s agent \<Rightarrow> bool" where
  "no_starts a \<longleftrightarrow> (\<forall>msg ctx w. started (snd (snd (ag_handle a msg ctx w))) \<le> started w)"

lemma adds_agent [adds_intros]: "no_starts a \<Longrightarrow> adds n (agent_run env a msg ctx)"
proof -
  assume a: "no_starts a"
  have "adds 0 (run_handler env a msg ctx)"
    unfolding adds_def
  proof
    fix w
    have "started (snd (snd (ag_handle a msg ctx w))) \<le> started w" using a by (simp add: no_starts_def)
    then show "started (snd (run_handler env a msg ctx w)) \<le> started w + 0"
      by (auto simp: run_handler_def spend_def Let_def split: prod.splits sum.splits raised.splits)
  qed
  then have h: "adds n (run_handler env a msg ctx)" by (rule adds_mono) simp
  show ?thesis unfolding agent_run_def by (intro adds_intros h)
qed

definition quiet_agents :: "'s orch_env \<Rightarrow> bool" where
  "quiet_agents env \<longleftrightarrow> (\<forall>a. oe_worker env = Some a \<or> oe_critic env = Some a \<longrightarrow> no_starts a)"

lemma adds_critique [adds_intros]: "quiet_agents env \<Longrightarrow> adds 0 (critique env ctx i result)"
  unfolding critique_def Let_def
  by (cases "oe_critic env") (auto intro!: adds_intros simp: quiet_agents_def split: prod.splits)

lemma adds_judge [adds_intros]: "quiet_agents env \<Longrightarrow> adds 0 (judge_step env ctx i att result)"
  unfolding judge_step_def by (auto intro!: adds_intros)

lemma adds_attempt: "quiet_agents env \<Longrightarrow> no_starts worker \<Longrightarrow> adds 1 (attempt_step env worker ctx i step att)"
  unfolding attempt_step_def by (rule adds_bind_left[OF adds_emit_started]) (auto intro!: adds_intros split: prod.splits)

lemma adds_attempts:
  assumes "quiet_agents env" "no_starts worker"
  shows "adds (length atts) (attempt_until env worker ctx i step atts)"
proof (induction atts)
  case (Cons att atts)
  have "adds (1 + length atts) (attempt_until env worker ctx i step (att # atts))"
    unfolding attempt_until.simps by (rule adds_bind[OF adds_attempt[OF assms]]) (auto intro!: adds_intros Cons.IH)
  then show ?case by simp
qed (auto intro: adds_intros)

lemma adds_execute:
  assumes "quiet_agents env" "no_starts worker"
  shows "adds (length steps * nat (oe_max_step_retries env + 1)) (execute_from env worker ctx st steps)"
proof (induction steps arbitrary: st)
  case (Cons s steps)
  obtain i step where s: "s = (i, step)" by (cases s)
  let ?k = "nat (oe_max_step_retries env + 1)"
  have "adds ?k (attempt_until env worker ctx i step [0..oe_max_step_retries env])"
    using adds_attempts[OF assms, of "[0..oe_max_step_retries env]"] by simp
  then have "adds (?k + length steps * ?k) (act_bind (attempt_until env worker ctx i step [0..oe_max_step_retries env])
      (\<lambda>_. act_bind (task_state env (cx_correlation_id ctx)) (\<lambda>st1. execute_from env worker ctx st1 steps)))"
    by (rule adds_bind) (intro adds_intros Cons.IH)
  moreover have "adds (?k + length steps * ?k) (execute_from env worker ctx st steps)"
    by (rule adds_mono[OF Cons.IH]) simp
  ultimately show ?case by (simp add: s)
qed (auto intro: adds_intros)

lemma execute_steps_bound:
  assumes "quiet_agents env" "py_enumerate (t_plan_steps st) = Inr steps"
    and "execute_steps env st ctx w = (r, w')"
  shows "started w' \<le> started w + length steps * nat (oe_max_step_retries env + 1)"
proof (cases "oe_worker env")
  case None
  then show ?thesis using assms(3) by (simp add: execute_steps_def)
next
  case (Some worker)
  have "adds (length steps * nat (oe_max_step_retries env + 1)) (execute_from env worker ctx st steps)"
    by (rule adds_execute) (use assms(1) Some in \<open>auto simp: quiet_agents_def\<close>)
  moreover have "execute_from env worker ctx st steps w = (r, w')"
    using assms(2,3) Some by (simp add: execute_steps_def)
  ultimately show ?thesis by (rule addsD)
qed

end
