(* ===== verification/Task_Lifecycle.thy ===== *)
theory Task_Lifecycle
  imports Orchestrator_Properties
begin

text \<open>
  Total correctness of the orchestrator: when the agents do their part, a submitted task is driven to
  its commit and the ledger tells exactly that story; when the policy refuses, nothing is executed.

  \<open>total P m Q\<close> states that the action \<open>m\<close>, started where \<open>P\<close> holds, returns, and leaves \<open>Q\<close>.
\<close>

subsection \<open>Total correctness of actions\<close>

definition total :: "('w \<Rightarrow> bool) \<Rightarrow> ('e, 'w, 'a) action \<Rightarrow> ('a \<Rightarrow> 'w \<Rightarrow> bool) \<Rightarrow> bool" where
  "total P m Q \<longleftrightarrow> (\<forall>w. P w \<longrightarrow> (\<exists>a w'. m w = (Inr a, w') \<and> Q a w'))"

lemma totalI: "(\<And>w. P w \<Longrightarrow> \<exists>a w'. m w = (Inr a, w') \<and> Q a w') \<Longrightarrow> total P m Q"
  by (simp add: total_def)

lemma totalE:
  assumes "total P m Q" "P w"
  obtains a w' where "m w = (Inr a, w')" "Q a w'"
  using assms by (auto simp: total_def)

lemma total_bind: "total P m R \<Longrightarrow> (\<And>a. total (R a) (f a) Q) \<Longrightarrow> total P (act_bind m f) Q"
proof (rule totalI)
  fix w assume m: "total P m R" and f: "\<And>a. total (R a) (f a) Q" and w: "P w"
  obtain a w1 where 1: "m w = (Inr a, w1)" "R a w1" by (rule totalE[OF m w])
  obtain b w2 where "f a w1 = (Inr b, w2)" "Q b w2" by (rule totalE[OF f 1(2)])
  with 1 show "\<exists>b w'. act_bind m f w = (Inr b, w') \<and> Q b w'" by simp
qed

lemma total_return: "(\<And>w. P w \<Longrightarrow> Q a w) \<Longrightarrow> total P (act_return a) Q"
  by (simp add: total_def)

lemma total_weaken: "total P m Q \<Longrightarrow> (\<And>w. P' w \<Longrightarrow> P w) \<Longrightarrow> (\<And>a w. Q a w \<Longrightarrow> Q' a w) \<Longrightarrow> total P' m Q'"
  unfolding total_def by metis

lemma total_exists: "(\<And>x. total (P x) m Q) \<Longrightarrow> total (\<lambda>w. \<exists>x. P x w) m Q"
  by (auto simp: total_def)

lemma total_fact: "(A \<Longrightarrow> total P m Q) \<Longrightarrow> total (\<lambda>w. A \<and> P w) m Q"
  by (auto simp: total_def)

lemma total_then: "total P m (\<lambda>a w. A a \<and> R a w) \<Longrightarrow> (\<And>a. A a \<Longrightarrow> total (R a) (f a) Q) \<Longrightarrow> total P (act_bind m f) Q"
  by (rule total_bind) (auto intro: total_fact)

lemma total_lift_py: "r = Inr a \<Longrightarrow> (\<And>w. P w \<Longrightarrow> Q a w) \<Longrightarrow> total P (lift_py env r) Q"
  by (simp add: total_def)

subsection \<open>Where a lineage stands\<close>

definition encodable :: "payload \<Rightarrow> bool" where
  "encodable p \<longleftrightarrow> storable_members p \<and> json_valid_members (stored_json_members p)"

definition reload :: "payload \<Rightarrow> payload" where
  "reload p = loads_json_members (stored_json_members p)"

definition lineage_at :: "uuid \<Rightarrow> LedgerEvent list \<Rightarrow> TaskProjection \<Rightarrow> 's rt_world \<Rightarrow> bool" where
  "lineage_at cid es st w \<longleftrightarrow> ledger_inv (w_db w) \<and> load_snapshot (w_db w) cid = None \<and>
     read_correlation (w_db w) cid 0 = Inr es \<and> rfold apply_event (new_projection (str_uuid cid)) es = Inr st"

text \<open>
  Identifiers drawn before the tick \<open>N\<close> are unused, at least \<open>c\<close> of them are left, and the keys in \<open>K\<close> are
  unused.
\<close>

definition room :: "'s orch_env \<Rightarrow> uuid \<Rightarrow> nat \<Rightarrow> (EventType \<times> int \<times> string option) set \<Rightarrow> nat \<Rightarrow> 's rt_world \<Rightarrow> bool" where
  "room env cid N K c w \<longleftrightarrow> w_tick w + c \<le> N \<and>
     (\<forall>n. w_tick w \<le> n \<longrightarrow> n < N \<longrightarrow> str_uuid (e_uuid4 (oe_ledger env) n) \<notin> known_ids w) \<and>
     (\<forall>k \<in> K. event_key env cid k \<notin> known_keys w)"

definition orch_ok :: "'s orch_env \<Rightarrow> uuid \<Rightarrow> nat \<Rightarrow> (EventType \<times> int \<times> string option) set \<Rightarrow> bool" where
  "orch_ok env cid N K \<longleftrightarrow> hex_digest (hash_of env) \<and> env_ok (oe_ledger env) \<and>
     inj_on (e_uuid4 (oe_ledger env)) {..<N} \<and> inj_on (event_key env cid) K"

lemma lineage_at_tick [simp]: "lineage_at cid es st (w\<lparr>w_tick := n\<rparr>) = lineage_at cid es st w"
  by (simp add: lineage_at_def)

lemma room_tick: "room env cid N K (Suc c) w \<Longrightarrow> room env cid N K c (w\<lparr>w_tick := Suc (w_tick w)\<rparr>)"
  by (auto simp: room_def known_ids_def known_keys_def)

lemma room_le: "room env cid N K c w \<Longrightarrow> c' \<le> c \<Longrightarrow> K' \<subseteq> K \<Longrightarrow> room env cid N K' c' w"
  by (auto simp: room_def)

lemma dict_get_reload: "dict_get (reload p) k = map_option (loads_json \<circ> stored_json) (dict_get p k)"
  by (induction p) (auto simp: reload_def dict_get_def)

lemma pget_reload: "pget (reload p) k = (case dict_get p k of None \<Rightarrow> PNone | Some v \<Rightarrow> loads_json (stored_json v))"
  using dict_get_reload[of p k] by (simp add: pget_def dict_get_default_def dict_get_def split: option.split)

lemma get_reload: "dict_get_default (reload p) k d = (case dict_get p k of None \<Rightarrow> d | Some v \<Rightarrow> loads_json (stored_json v))"
  using dict_get_reload[of p k] by (simp add: dict_get_default_def dict_get_def split: option.split)

lemma lineage_correlation:
  assumes "chain_inv db" "read_correlation db cid 0 = Inr es" "e \<in> set es"
  shows "correlation_id e = cid"
proof -
  obtain r where "r \<in> set (lineage_rows db (str_uuid cid))" "row_to_event r = Inr e"
    using rmapM_set[of row_to_event _ es e] assms by (auto simp: read_correlation_inv)
  then show ?thesis using row_to_event_fields(6) parse_str_uuid[of cid] by (fastforce simp: lineage_rows_def)
qed

lemma project_lineage:
  assumes "lineage_at cid es st w" "es \<noteq> []"
  shows "project validate (w_db w) cid True = Inr st"
proof -
  have inv: "chain_inv (w_db w)" using assms(1) by (simp add: lineage_at_def ledger_inv_def)
  have "correlation_id (hd es) = cid"
    using lineage_correlation[OF inv] assms by (simp add: lineage_at_def)
  then have "replay es None = Inr st"
    using assms by (cases es) (auto simp: lineage_at_def replay_Cons simp del: rfold.simps)
  then show ?thesis
    using assms(1) by (simp add: lineage_at_def project_no_snapshot project_full)
qed

lemma total_task_state:
  assumes "es \<noteq> []" "\<And>w. P w \<Longrightarrow> lineage_at cid es st w" "\<And>w. P w \<Longrightarrow> Q st w"
  shows "total P (task_state env cid) Q"
proof (rule totalI)
  fix w assume w: "P w"
  have "project (e_validate (oe_ledger env)) (w_db w) cid True = Inr st"
    by (rule project_lineage[OF assms(2)[OF w] assms(1)])
  then show "\<exists>a w'. task_state env cid w = (Inr a, w') \<and> Q a w'" using assms(3)[OF w] by (simp add: task_state_def)
qed

text \<open>The event an emission adds, as the ledger gives it back.\<close>

definition emitted ::
  "EventType \<Rightarrow> payload \<Rightarrow> ComplexityModality \<Rightarrow> uuid option \<Rightarrow> AgentRole \<Rightarrow> int \<Rightarrow> string option \<Rightarrow> LedgerEvent \<Rightarrow> bool" where
  "emitted t p mode sid role att disc e \<longleftrightarrow> event_type e = t \<and> payload e = reload p \<and> execution_mode e = mode \<and>
     session_id e = sid \<and> agent_role e = Some (role_value role) \<and> attempt e = att \<and> discriminator e = disc"

lemma append_event_written:
  assumes "append_event H e db = (Inr e', db')" "ledger_rows db' \<noteq> ledger_rows db" "wf_event e"
  obtains key r where "idempotency_key H e = Inr key" "ledger_rows db' = ledger_rows db @ [r]"
    "snapshot_rows db' = snapshot_rows db" "c_correlation_id r = str_uuid (correlation_id e)"
    "c_event_id r = str_uuid (event_id e)" "c_idempotency_key r = key"
    "row_to_event r = Inr (reloaded e')" "reload (payload e) = payload (reloaded e')"
    "event_type e' = event_type e" "execution_mode e' = execution_mode e" "session_id e' = session_id e"
    "agent_role e' = agent_role e" "attempt e' = attempt e" "discriminator e' = discriminator e"
proof -
  have "append_tx H e db db = Inr (e', db')" using assms(1) by (simp add: append_event_Inr)
  then show thesis
  proof (cases rule: append_tx_effect)
    case (written key version prev h r x)
    have "wf_event e'" using assms(3) by (simp add: written(5) wf_event_def)
    then show thesis
      using written by (intro that[of key r]) (simp_all add: with_head_def appended_def written_row_def reloaded_def reload_def)
  qed (use assms(2) in simp)
qed

lemma emit_event_total:
  assumes ok: "orch_ok env cid N K" and K: "(t, att, disc) \<in> K" "0 \<le> att" and p: "encodable p"
    and "next": "\<And>e. emitted t p mode sid role att disc e \<Longrightarrow> \<exists>st'. apply_event st e = Inr st' \<and> Q e st'"
  shows "total (\<lambda>w. lineage_at cid es st w \<and> room env cid N K (Suc c) w)
    (emit_event env cid t sid p mode role att disc)
    (\<lambda>_ w. \<exists>e st'. emitted t p mode sid role att disc e \<and> Q e st' \<and> lineage_at cid (es @ [e]) st' w \<and>
       room env cid N (K - {(t, att, disc)}) c w)"
proof (rule totalI)
  fix w assume w: "lineage_at cid es st w \<and> room env cid N K (Suc c) w"
  let ?n = "w_tick w" and ?H = "hash_of env" and ?k = "(t, att, disc)"
  have H: "hex_digest ?H" and env: "env_ok (oe_ledger env)" using ok by (auto simp: orch_ok_def)
  have inv: "ledger_inv (w_db w)" "chain_inv (w_db w)" using w by (auto simp: lineage_at_def ledger_inv_def)
  obtain e where e: "new_event (e_uuid4 (oe_ledger env) ?n) cid t sid p mode role att disc (e_utc_now (oe_ledger env) ?n) = Inr e"
    using new_event_total K(2) env by (metis env_ok_def)
  note f = new_event_fields[OF e]
  have ts: "valid_datetime (e_utc_now (oe_ledger env) ?n)" using env by (simp add: env_ok_def)
  have "?n < N" using w by (simp add: room_def)
  obtain e' db' r where a: "append_event ?H e (w_db w) = (Inr e', db')" "ledger_rows db' = ledger_rows (w_db w) @ [r]"
  proof (rule append_event_fresh[OF H inv(2) f(1)[OF ts] _ _ f(12)[OF ts, of ?H], of "JObj (stored_json_members p)"])
    show "fallback_json (PDict (payload e)) = Inr (JObj (stored_json_members p))" "json_valid (stored_json (PDict (payload e)))"
      using p f(6)[OF ts] by (simp_all add: encodable_def fallback_storable)
    show "?H (idempotency_material cid t att disc) \<notin> c_idempotency_key ` set (ledger_rows (w_db w))"
      using w K(1) by (force simp: room_def event_key_def known_keys_def)
    show "str_uuid (event_id e) \<notin> c_event_id ` set (ledger_rows (w_db w))"
      using w f(2)[OF ts] \<open>?n < N\<close> by (auto simp: room_def known_ids_def)
  qed
  obtain key where key: "idempotency_key ?H e = Inr key" "snapshot_rows db' = snapshot_rows (w_db w)"
    "c_correlation_id r = str_uuid (correlation_id e)" "c_event_id r = str_uuid (event_id e)" "c_idempotency_key r = key"
    "row_to_event r = Inr (reloaded e')" "reload (payload e) = payload (reloaded e')"
    "event_type e' = event_type e" "execution_mode e' = execution_mode e" "session_id e' = session_id e"
    "agent_role e' = agent_role e" "attempt e' = attempt e" "discriminator e' = discriminator e"
    using append_event_written[OF a(1) _ f(1)[OF ts]] a(2) by (metis append_self_conv last_snoc list.distinct(1) same_append_eq)
  let ?e = "reloaded e'" and ?w = "w\<lparr>w_tick := Suc ?n, w_db := db'\<rparr>"
  have em: "emitted t p mode sid role att disc ?e"
    using key f(3-10)[OF ts] by (simp add: emitted_def reloaded_def)
  obtain st' where st': "apply_event st ?e = Inr st'" "Q ?e st'" using "next"[OF em] by blast
  have inv': "ledger_inv db'" using append_event_ledger_inv[OF inv(1) f(1)[OF ts], of ?H] a(1) by simp
  have "lineage_rows db' (str_uuid cid) = lineage_rows (w_db w) (str_uuid cid) @ [r]"
    using a(2) key(3) f(3)[OF ts] by (simp add: lineage_rows_def)
  then have read: "read_correlation db' cid 0 = Inr (es @ [?e])"
    using w inv(2) inv' key(6) by (simp add: lineage_at_def ledger_inv_def read_correlation_inv rmapM_append)
  have at: "lineage_at cid (es @ [?e]) st' ?w"
    using w read inv' key(2) st'(1) by (simp add: lineage_at_def load_snapshot_def rfold_append)
  have fresh_ids: "str_uuid (e_uuid4 (oe_ledger env) n) \<notin> known_ids ?w" if "Suc ?n \<le> n" "n < N" for n
  proof -
    have "e_uuid4 (oe_ledger env) n \<noteq> e_uuid4 (oe_ledger env) ?n"
      using inj_onD[of "e_uuid4 (oe_ledger env)" "{..<N}" n ?n] ok that \<open>?n < N\<close> by (auto simp: orch_ok_def)
    then show ?thesis
      using w that key(4) f(2)[OF ts] str_uuid_inj by (auto simp: room_def known_ids_def a(2))
  qed
  have fresh_keys: "event_key env cid k \<notin> known_keys ?w" if "k \<in> K - {?k}" for k
  proof -
    have "event_key env cid k \<noteq> event_key env cid ?k" using ok that K(1) by (auto simp: orch_ok_def inj_on_def)
    moreover have "key = event_key env cid ?k" using key(1) f(12)[OF ts, of ?H] by (simp add: event_key_def)
    ultimately show ?thesis using w that key(5) by (auto simp: room_def known_keys_def a(2))
  qed
  have "room env cid N (K - {?k}) c ?w" using w fresh_ids fresh_keys by (auto simp: room_def)
  with em st'(2) at emit_event_append[OF e a(1)]
  show "\<exists>a w'. emit_event env cid t sid p mode role att disc w = (Inr a, w') \<and>
      (\<exists>e st'. emitted t p mode sid role att disc e \<and> Q e st' \<and> lineage_at cid (es @ [e]) st' w' \<and>
        room env cid N (K - {?k}) c w')"
    by auto
qed

subsection \<open>Stages\<close>

definition stage ::
  "'s orch_env \<Rightarrow> uuid \<Rightarrow> nat \<Rightarrow> EventType list \<Rightarrow> TaskProjection \<Rightarrow> (EventType \<times> int \<times> string option) set \<Rightarrow> nat
     \<Rightarrow> 's rt_world \<Rightarrow> bool" where
  "stage env cid N types st K c w \<longleftrightarrow>
     (\<exists>es. lineage_at cid es st w \<and> map event_type es = types) \<and> room env cid N K c w"

lemma orch_ok_subset: "orch_ok env cid N K \<Longrightarrow> K' \<subseteq> K \<Longrightarrow> orch_ok env cid N K'"
  by (auto simp: orch_ok_def intro: inj_on_subset)

lemma stage_tick: "stage env cid N types st K (Suc c) w \<Longrightarrow> stage env cid N types st K c (w\<lparr>w_tick := Suc (w_tick w)\<rparr>)"
  using room_tick by (auto simp: stage_def)

lemma stage_mono: "stage env cid N types st K c w \<Longrightarrow> K' \<subseteq> K \<Longrightarrow> c' \<le> c \<Longrightarrow> stage env cid N types st K' c' w"
  using room_le by (fastforce simp: stage_def)

lemma total_stage_state:
  assumes "types \<noteq> []"
  shows "total (stage env cid N types st K c) (task_state env cid) (\<lambda>st' w. st' = st \<and> stage env cid N types st K c w)"
proof (rule totalI)
  fix w assume w: "stage env cid N types st K c w"
  then obtain es where "lineage_at cid es st w" "es \<noteq> []" using assms by (auto simp: stage_def)
  from project_lineage[OF this] w
  show "\<exists>a w'. task_state env cid w = (Inr a, w') \<and> a = st \<and> stage env cid N types st K c w'"
    by (simp add: task_state_def)
qed

lemma emit_stage:
  assumes ok: "orch_ok env cid N K0" "K \<subseteq> K0" and K: "(t, att, disc) \<in> K" "0 \<le> att" and p: "encodable p"
    and "next": "\<And>e. emitted t p mode sid role att disc e \<Longrightarrow> \<exists>st'. apply_event st e = Inr st' \<and> Q st'"
  shows "total (stage env cid N types st K (Suc c)) (emit_event env cid t sid p mode role att disc)
    (\<lambda>_ w. \<exists>st'. Q st' \<and> stage env cid N (types @ [t]) st' (K - {(t, att, disc)}) c w)"
proof (rule totalI)
  fix w assume w: "stage env cid N types st K (Suc c) w"
  then obtain es where es: "lineage_at cid es st w" "map event_type es = types" "room env cid N K (Suc c) w"
    by (auto simp: stage_def)
  have "total (\<lambda>w. lineage_at cid es st w \<and> room env cid N K (Suc c) w) (emit_event env cid t sid p mode role att disc)
    (\<lambda>_ w. \<exists>e st'. emitted t p mode sid role att disc e \<and> Q st' \<and> lineage_at cid (es @ [e]) st' w \<and>
       room env cid N (K - {(t, att, disc)}) c w)"
    by (rule emit_event_total[OF orch_ok_subset[OF ok] K p "next"])
  then obtain a w' e st' where r: "emit_event env cid t sid p mode role att disc w = (Inr a, w')"
    "emitted t p mode sid role att disc e" "Q st'" "lineage_at cid (es @ [e]) st' w'" "room env cid N (K - {(t, att, disc)}) c w'"
    using es by (auto simp: total_def)
  have "map event_type (es @ [e]) = types @ [t]" using es(2) r(2) by (simp add: emitted_def)
  then show "\<exists>a w'. emit_event env cid t sid p mode role att disc w = (Inr a, w') \<and>
      (\<exists>st'. Q st' \<and> stage env cid N (types @ [t]) st' (K - {(t, att, disc)}) c w')"
    using r unfolding stage_def by blast
qed

text \<open>An emission followed by reading the state back.\<close>

lemma emit_state:
  assumes ok: "orch_ok env cid N K0" "K \<subseteq> K0" and K: "(t, att, disc) \<in> K" "0 \<le> att" and p: "encodable p"
    and "next": "\<And>e. emitted t p mode sid role att disc e \<Longrightarrow> \<exists>st'. apply_event st e = Inr st' \<and> Q st'"
  shows "total (stage env cid N types st K (Suc c))
    (act_bind (emit_event env cid t sid p mode role att disc) (\<lambda>_. task_state env cid))
    (\<lambda>st' w. Q st' \<and> stage env cid N (types @ [t]) st' (K - {(t, att, disc)}) c w)"
proof (rule total_bind[OF emit_stage[OF ok K p "next"]], assumption, rule total_exists, rule total_fact)
  fix st' assume "Q st'"
  then show "total (stage env cid N (types @ [t]) st' (K - {(t, att, disc)}) c) (task_state env cid)
      (\<lambda>st' w. Q st' \<and> stage env cid N (types @ [t]) st' (K - {(t, att, disc)}) c w)"
    by (intro total_weaken[OF total_stage_state]) auto
qed

lemma act_bind_assoc: "act_bind (act_bind m f) g = act_bind m (\<lambda>a. act_bind (f a) g)"
  by (auto simp: act_bind_def fun_eq_iff split: prod.splits sum.splits)

lemma total_questions:
  assumes "set types \<inter> {AWAITING_HUMAN_ATTESTATION, HUMAN_GATE_CLEARED} = {}"
  shows "total (stage env cid N types st K c) (lineage_questions env cid) (\<lambda>qs w. qs = [] \<and> stage env cid N types st K c w)"
proof (rule totalI)
  fix w assume w: "stage env cid N types st K c w"
  then obtain es where es: "read_correlation (w_db w) cid 0 = Inr es" "map event_type es = types"
    by (auto simp: stage_def lineage_at_def)
  have "gate_history es = []" using assms unfolding es(2)[symmetric]
  proof (induction es rule: rev_induct)
    case (snoc e es)
    then show ?case by (auto simp: gate_history_snoc gate_step_def)
  qed (simp add: gate_history_def)
  then show "\<exists>a w'. lineage_questions env cid w = (Inr a, w') \<and> a = [] \<and> stage env cid N types st K c w'"
    using w es(1) by (simp add: lineage_questions_def)
qed

lemma total_message:
  "total (stage env cid N types st K (Suc c)) (orch_message env ctx intent p)
    (\<lambda>msg w. (am_deadline msg = None \<and> am_payload msg = p) \<and> stage env cid N types st K c w)"
proof (rule totalI)
  fix w assume w: "stage env cid N types st K (Suc c) w"
  show "\<exists>a w'. orch_message env ctx intent p w = (Inr a, w') \<and>
      (am_deadline a = None \<and> am_payload a = p) \<and> stage env cid N types st K c w'"
    using orch_message_total[of env ctx intent p w] stage_tick[OF w] by auto
qed

lemma total_child:
  assumes "0 \<le> cx_recursion_depth ctx" "child_affords env ctx cost"
  shows "total (stage env cid N types st K (Suc c)) (child_context env ctx)
    (\<lambda>cctx w. affords env cctx cost \<and> stage env cid N types st K c w)"
proof (rule totalI)
  fix w assume w: "stage env cid N types st K (Suc c) w"
  show "\<exists>a w'. child_context env ctx w = (Inr a, w') \<and> affords env a cost \<and> stage env cid N types st K c w'"
    using child_context_total[OF assms(1), of env w cost] assms(2) stage_tick[OF w] by auto
qed

lemma total_agent:
  assumes "answers env a f cost" "am_deadline msg = None" "affords env ctx cost"
  shows "total P (agent_run env a msg ctx)
    (\<lambda>r w. r = (f msg, ctx\<lparr>cx_tokens_spent := cx_tokens_spent ctx + cost\<rparr>) \<and> P w)"
  using answers_run[OF assms] by (simp add: total_def)

subsection \<open>Recording an event\<close>

lemma record_event_total:
  assumes ok: "orch_ok env cid N K0" "K \<subseteq> K0" and K: "(t, 0, disc) \<in> K" and p: "encodable p"
    and ctx: "cx_correlation_id ctx = cid"
    and "next": "\<And>e. emitted t p (cx_modality ctx) (cx_session_id ctx) role 0 disc e \<Longrightarrow> \<exists>st'. apply_event st e = Inr st' \<and> Q st'"
  shows "total (stage env cid N types st K (Suc c)) (record_event env ctx t p role disc)
    (\<lambda>r w. (Q (fst r) \<and> snd r = ctx) \<and> stage env cid N (types @ [t]) (fst r) (K - {(t, 0, disc)}) c w)"
proof -
  have "total (stage env cid N types st K (Suc c))
     (act_bind (act_bind (emit_event env cid t (cx_session_id ctx) p (cx_modality ctx) role 0 disc) (\<lambda>_. task_state env cid))
        (\<lambda>st. act_return (st, ctx)))
    (\<lambda>r w. (Q (fst r) \<and> snd r = ctx) \<and> stage env cid N (types @ [t]) (fst r) (K - {(t, 0, disc)}) c w)"
    by (rule total_bind[OF emit_state[OF ok K _ p "next"]]) (auto intro: total_return)
  then show ?thesis by (simp add: record_event_def act_bind_assoc ctx)
qed

lemma total_request:
  assumes "t_request st = PDict ms"
  shows "total P (lift_py env (request_get st k d)) (\<lambda>v w. v = dict_get_default ms k d \<and> P w)"
  by (rule total_lift_py) (simp_all add: request_get_def assms)

text \<open>Values the ledger stores and gives back.\<close>

definition storable_value :: "pyval \<Rightarrow> bool" where
  "storable_value v \<longleftrightarrow> storable v \<and> json_valid (stored_json v)"

definition reloaded_value :: "pyval \<Rightarrow> pyval" where
  "reloaded_value v = loads_json (stored_json v)"

lemma encodable_members: "encodable p \<longleftrightarrow> (\<forall>(k, v) \<in> set p. storable_value v)"
proof -
  have "encodable [] \<longleftrightarrow> True" "encodable ((k, v) # ms) \<longleftrightarrow> storable_value v \<and> encodable ms" for k v ms
    by (auto simp: encodable_def storable_value_def)
  then show ?thesis by (induction p) auto
qed

lemma storable_value_simps [simp]: "storable_value (PInt i)" "storable_value (PStr s)" "storable_value (PDict ms) \<longleftrightarrow> encodable ms"
  by (simp_all add: storable_value_def encodable_def)

lemma storable_value_list: "storable_value (PList vs) \<longleftrightarrow> (\<forall>v \<in> set vs. storable_value v)"
proof -
  have "storable_value (PList (v # vs)) \<longleftrightarrow> storable_value v \<and> storable_value (PList vs)" for v vs
    by (auto simp: storable_value_def)
  moreover have "storable_value (PList [])" by (simp add: storable_value_def)
  ultimately show ?thesis by (induction vs) auto
qed

lemma reloaded_value_list: "reloaded_value (PList vs) = PList (map reloaded_value vs)"
  by (induction vs) (auto simp: reloaded_value_def)

lemma storable_reloaded [simp]: "storable_value (reloaded_value v) \<longleftrightarrow> json_valid (stored_json v)"
  by (simp add: storable_value_def reloaded_value_def loads_json_storable stored_loads)

lemma reload_get: "dict_get_default (reload p) k d = (case dict_get p k of None \<Rightarrow> d | Some v \<Rightarrow> reloaded_value v)"
  using get_reload[of p k d] by (auto simp: reloaded_value_def split: option.splits)

lemma reloaded_scalars [simp]: "reloaded_value (PInt i) = PInt i" "reloaded_value (PStr s) = PStr s"
  by (simp_all add: reloaded_value_def)

subsection \<open>How the projection moves\<close>

text \<open>Where a task stands before planning, before review, and while \<open>k\<close> of its steps are done.\<close>

definition unplanned :: "payload \<Rightarrow> TaskProjection \<Rightarrow> bool" where
  "unplanned ms st \<longleftrightarrow> t_request st = PDict ms \<and> t_plan_steps st = PList [] \<and> t_policy_decision st = PNone \<and>
     t_phase st \<noteq> AWAITING_HUMAN"

definition planned :: "payload \<Rightarrow> pyval list \<Rightarrow> TaskProjection \<Rightarrow> bool" where
  "planned ms steps st \<longleftrightarrow> t_request st = PDict ms \<and> t_plan_steps st = PList steps \<and> t_policy_decision st = PNone \<and>
     t_completed_steps st = []"

definition executed :: "pyval list \<Rightarrow> nat \<Rightarrow> TaskProjection \<Rightarrow> bool" where
  "executed steps k st \<longleftrightarrow> t_plan_steps st = PList steps \<and> t_completed_steps st = map int [0..<k] \<and>
     t_phase st \<noteq> AWAITING_HUMAN \<and> t_phase st \<noteq> BLOCKED"

lemma common_simps [simp]:
  "t_request (apply_common st e) = t_request st" "t_plan_steps (apply_common st e) = t_plan_steps st"
  "t_policy_decision (apply_common st e) = t_policy_decision st" "t_completed_steps (apply_common st e) = t_completed_steps st"
  "t_context_packet (apply_common st e) = t_context_packet st"
  by (simp_all add: apply_common_def Let_def split: option.split)

lemma common_phase: "phase_map (event_type e) = Some ph \<Longrightarrow> t_phase (apply_common st e) = ph"
  by (simp add: apply_common_def Let_def)

lemma apply_requested_hydration:
  assumes "emitted CONTEXT_HYDRATION_REQUESTED p mode sid role att disc e" "unplanned ms st"
  shows "\<exists>st'. apply_event st e = Inr st' \<and> unplanned ms st'"
  using assms by (simp add: emitted_def apply_event_def unplanned_def common_phase)

lemma apply_hydrated:
  assumes "emitted CONTEXT_HYDRATED p mode sid role att disc e" "unplanned ms st"
  shows "\<exists>st'. apply_event st e = Inr st' \<and> unplanned ms st'"
  using assms by (simp add: emitted_def apply_event_def unplanned_def common_phase)

lemma apply_planned:
  assumes "emitted PLAN_COMPILED p mode sid role att disc e" "unplanned ms st" "dict_get p ''execution_steps'' = Some (PList steps)"
  shows "\<exists>st'. apply_event st e = Inr st' \<and> planned ms (map reloaded_value steps) st'"
  using assms by (simp add: emitted_def apply_event_def unplanned_def planned_def reload_get reloaded_value_list)

lemma apply_cleared:
  assumes "emitted POLICY_CLEARED p mode sid role att disc e" "planned ms steps st"
  shows "\<exists>st'. apply_event st e = Inr st' \<and> executed steps 0 st'"
  using assms by (simp add: emitted_def apply_event_def planned_def executed_def common_phase)

lemma apply_refused:
  assumes "emitted t p mode sid role att disc e" "t = POLICY_BLOCKED \<or> t = SECURITY_VIOLATION"
  shows "\<exists>st'. apply_event st e = Inr st' \<and> t_phase st' = BLOCKED"
  using assms by (auto simp: emitted_def apply_event_def common_phase)

lemma apply_started:
  assumes "emitted EXECUTION_STARTED p mode sid role att disc e" "executed steps k st"
    and "dict_get p ''step_index'' = Some (PInt i)"
  shows "\<exists>st'. apply_event st e = Inr st' \<and> executed steps k st'"
proof -
  have ws: "executed steps k (started_workspace q s) = executed steps k s" for q s
    by (simp add: executed_def started_workspace_def set_if_truthy_def)
  have "pget (reload p) ''step_index'' = PInt i" using assms(3) by (simp add: pget_def reload_get)
  then show ?thesis
    using assms(1,2) by (simp add: emitted_def apply_event_def Let_def ws) (simp add: executed_def common_phase)
qed

lemma apply_critiqued:
  assumes "emitted CRITIQUE_CONCLUDED p mode sid role att disc e" "executed steps k st"
  shows "\<exists>st'. apply_event st e = Inr st' \<and> executed steps k st'"
  using assms by (simp add: emitted_def apply_event_def executed_def common_phase)

lemma apply_completed:
  assumes "emitted EXECUTION_COMPLETED p mode sid role att disc e" "executed steps k st"
    and "dict_get p ''step_index'' = Some (PInt (int k))" "dict_get p ''tokens_consumed'' = Some (PInt n)"
  shows "\<exists>st'. apply_event st e = Inr st' \<and> executed steps (Suc k) st'"
proof -
  have "int k \<notin> set (t_completed_steps st)" using assms(2) by (auto simp: executed_def)
  then show ?thesis
    using assms by (simp add: emitted_def apply_event_def executed_def common_phase reload_get Let_def)
qed

lemma apply_committed:
  assumes "emitted MUTATION_COMMITTED p mode sid role att disc e" "executed steps k st"
  shows "\<exists>st'. apply_event st e = Inr st' \<and> t_phase st' = COMMITTED \<and> t_completed_steps st' = map int [0..<k]"
  using assms by (simp add: emitted_def apply_event_def executed_def common_phase)

subsection \<open>The stages of a cooperative run\<close>

definition charged :: "AgentContext \<Rightarrow> int \<Rightarrow> AgentContext" where
  "charged ctx cost = ctx\<lparr>cx_tokens_spent := cx_tokens_spent ctx + cost\<rparr>"

lemma charged_simps [simp]:
  "cx_correlation_id (charged ctx n) = cx_correlation_id ctx" "cx_session_id (charged ctx n) = cx_session_id ctx"
  "cx_modality (charged ctx n) = cx_modality ctx" "cx_permission_mode (charged ctx n) = cx_permission_mode ctx" "cx_recursion_depth (charged ctx n) = cx_recursion_depth ctx"
  by (simp_all add: charged_def)

lemma total_agent_answer:
  assumes "answers env a f cost" "am_deadline msg = None" "affords env ctx cost"
  shows "total P (agent_run env a msg ctx) (\<lambda>r w. r = (f msg, charged ctx cost) \<and> P w)"
  using total_agent[OF assms] by (simp add: charged_def)

text \<open>The keys of the events a task records once, and those of its first \<open>n\<close> steps.\<close>

definition once :: "EventType \<Rightarrow> EventType \<times> int \<times> string option" where
  "once t = (t, 0, None)"

definition step_keys :: "nat \<Rightarrow> (EventType \<times> int \<times> string option) set" where
  "step_keys i = (\<lambda>t. (t, 0, Some (step_name (int i)))) ` {EXECUTION_STARTED, CRITIQUE_CONCLUDED, EXECUTION_COMPLETED}"

lemma hydrate_total:
  assumes ok: "orch_ok env cid N K0" "K \<subseteq> K0" "{once CONTEXT_HYDRATION_REQUESTED, once CONTEXT_HYDRATED} \<subseteq> K"
    and ctx: "cx_correlation_id ctx = cid" and st: "t_context_packet st = PNone" "unplanned ms st"
    and types: "set types \<inter> {AWAITING_HUMAN_ATTESTATION, HUMAN_GATE_CLEARED} = {}"
    and b: "oe_context_builder env = Some b" "answers env b f cost" "affords env ctx cost"
    and f: "\<And>msg. ar_ok (f msg) \<and> ar_value (f msg) = PDict packet"
    and packet: "pget packet ''routing_directive'' \<noteq> PStr ''HARD_STOP_ESCALATE_TO_USER''" "encodable packet"
  shows "total (stage env cid N types st K (Suc (Suc (Suc c)))) (hydrate env st ctx)
    (\<lambda>r w. (unplanned ms (fst r) \<and> snd r = charged ctx cost) \<and>
      stage env cid N (types @ [CONTEXT_HYDRATION_REQUESTED, CONTEXT_HYDRATED]) (fst r)
        (K - {once CONTEXT_HYDRATION_REQUESTED, once CONTEXT_HYDRATED}) c w)"
    (is "total _ _ ?Q")
proof -
  let ?k1 = "once CONTEXT_HYDRATION_REQUESTED" and ?k2 = "once CONTEXT_HYDRATED"
  have K: "(CONTEXT_HYDRATION_REQUESTED, 0, None) \<in> K" "(CONTEXT_HYDRATED, 0, None) \<in> K - {?k1}" "K - {?k1} \<subseteq> K0"
    "K - {?k1} - {?k2} = K - {?k1, ?k2}"
    using ok(2,3) by (auto simp: once_def)
  have accepted: "total (stage env cid N (types @ [CONTEXT_HYDRATION_REQUESTED]) st1 (K - {?k1}) (Suc c))
      (accept_packet env (f msg) (charged ctx cost)) ?Q" if "unplanned ms st1" for st1 msg
  proof -
    have "total (stage env cid N (types @ [CONTEXT_HYDRATION_REQUESTED]) st1 (K - {?k1}) (Suc c))
        (record_event env (charged ctx cost) CONTEXT_HYDRATED [(''context_packet'', PDict packet)] CONTEXT_BUILDER_PLANNER None)
        (\<lambda>r w. (unplanned ms (fst r) \<and> snd r = charged ctx cost) \<and>
          stage env cid N ((types @ [CONTEXT_HYDRATION_REQUESTED]) @ [CONTEXT_HYDRATED]) (fst r)
            (K - {?k1} - {(CONTEXT_HYDRATED, 0, None)}) c w)"
      by (rule record_event_total[OF ok(1) K(3) K(2)])
        (use packet(2) ctx apply_hydrated that in \<open>auto simp: encodable_members[of "[_]"]\<close>)
    moreover have "accept_packet env (f msg) (charged ctx cost) =
        record_event env (charged ctx cost) CONTEXT_HYDRATED [(''context_packet'', PDict packet)] CONTEXT_BUILDER_PLANNER None"
      using f[of msg] packet(1) by (simp add: accept_packet_def Let_def as_dict_def)
    ultimately show ?thesis using K(4) by (simp add: once_def)
  qed
  have asked: "total (stage env cid N types st K (Suc (Suc (Suc c)))) (ask_builder env b st ctx) ?Q"
    unfolding ask_builder_def ctx
  proof (rule total_bind[OF emit_stage[OF ok(1,2) K(1) order_refl]])
    show "encodable []" by (simp add: encodable_members)
    show "\<exists>st'. apply_event st e = Inr st' \<and> unplanned ms st'"
      if "emitted CONTEXT_HYDRATION_REQUESTED [] (cx_modality ctx) (cx_session_id ctx) CONTEXT_BUILDER_PLANNER 0 None e" for e
      by (rule apply_requested_hydration[OF that st(2)])
  next
    fix e
    have "t_request st = PDict ms" using st(2) by (simp add: unplanned_def)
    note request = total_request[OF this]
    show "total (\<lambda>w. \<exists>st'. unplanned ms st' \<and> stage env cid N (types @ [CONTEXT_HYDRATION_REQUESTED]) st'
          (K - {(CONTEXT_HYDRATION_REQUESTED, 0, None)}) (Suc (Suc c)) w)
      (act_bind (lift_py env (request_get st ''goal'' (PStr []))) (\<lambda>goal.
        act_bind (lift_py env (request_get st ''required_slots'' (PList []))) (\<lambda>slots.
        act_bind (orch_message env ctx CONTEXT_REQUEST [(''goal'', goal), (''required_slots'', slots)]) (\<lambda>msg.
        act_bind (agent_run env b msg ctx) (\<lambda>(result, ctx1). accept_packet env result ctx1))))) ?Q"
      unfolding once_def[symmetric]
      apply (rule total_exists, rule total_fact)
      apply (rule total_then[OF request], rule total_then[OF request], rule total_then[OF total_message])
      apply (rule total_then[OF total_agent_answer[OF b(2) _ b(3)]])
       apply simp
      apply (simp only: prod.case, rule accepted, assumption)
      done
  qed
  have "hydrate env st ctx = act_bind (lineage_questions env cid) (\<lambda>qs.
      if stage_question qs CONTEXT_BUILDER_PLANNER \<noteq> None then act_return (st, ctx) else ask_builder env b st ctx)"
    using b(1) st(1) ctx by (simp add: hydrate_def)
  then show ?thesis
    by (simp only:) (rule total_then[OF total_questions[OF types]], simp add: stage_question_def asked del: conj_assoc)
qed

lemma plan_total:
  assumes ok: "orch_ok env cid N K0" "K \<subseteq> K0" "once PLAN_COMPILED \<in> K"
    and ctx: "cx_correlation_id ctx = cid" "cx_modality ctx \<noteq> SIMPLE" and st: "unplanned ms st"
    and b: "oe_planner env = Some b" "answers env b f cost" "affords env ctx cost"
    and f: "\<And>msg. ar_ok (f msg) \<and> ar_value (f msg) = PDict pl"
    and plan: "dict_get pl ''execution_steps'' = Some (PList steps)" "storable_value (PList steps)"
      "storable_value (dict_get_default pl ''step_requirements'' (PDict []))"
    and ceil: "max_plan_nodes (modality_profile (cx_modality ctx)) = Inr ceil" "int (length steps) \<le> ceil"
  shows "total (stage env cid N types st K (Suc (Suc c))) (plan_stage env st ctx)
    (\<lambda>r w. (planned ms (map reloaded_value steps) (fst r) \<and> snd r = charged ctx cost) \<and>
      stage env cid N (types @ [PLAN_COMPILED]) (fst r) (K - {once PLAN_COMPILED}) c w)"
    (is "total _ _ ?Q")
proof -
  let ?p = "[(''execution_steps'', PList steps),
    (''step_requirements'', dict_get_default pl ''step_requirements'' (PDict []))]"
  have K: "(PLAN_COMPILED, 0, None) \<in> K" using ok(3) by (simp add: once_def)
  have accepted: "total (stage env cid N types st K (Suc c)) (accept_plan env (f msg) (charged ctx cost)) ?Q" for msg
  proof -
    have "dict_get_default pl ''execution_steps'' (PList []) = PList steps"
      using plan(1) by (simp add: dict_get_default_def dict_get_def)
    then have "accept_plan env (f msg) (charged ctx cost) = record_event env (charged ctx cost) PLAN_COMPILED ?p STRATEGIC_PLANNER None"
      using f[of msg] ceil by (simp add: accept_plan_def Let_def as_dict_def fun_eq_iff)
    moreover have "total (stage env cid N types st K (Suc c)) (record_event env (charged ctx cost) PLAN_COMPILED ?p STRATEGIC_PLANNER None)
        (\<lambda>r w. (planned ms (map reloaded_value steps) (fst r) \<and> snd r = charged ctx cost) \<and>
          stage env cid N (types @ [PLAN_COMPILED]) (fst r) (K - {(PLAN_COMPILED, 0, None)}) c w)"
    proof (rule record_event_total[OF ok(1,2) K])
      show "\<exists>st'. apply_event st e = Inr st' \<and> planned ms (map reloaded_value steps) st'"
        if "emitted PLAN_COMPILED ?p (cx_modality (charged ctx cost)) (cx_session_id (charged ctx cost)) STRATEGIC_PLANNER 0 None e" for e
        by (rule apply_planned[OF that st]) (simp add: dict_get_def)
    qed (use plan ctx(1) in \<open>auto simp: encodable_members[of "_ # _"]\<close>)
    ultimately show ?thesis by (simp add: once_def)
  qed
  have "t_request st = PDict ms" "\<not> truthy (t_plan_steps st)" using st by (simp_all add: unplanned_def)
  note request = total_request[OF this(1)] and unset = this(2)
  show ?thesis
    unfolding plan_stage_def b(1) using unset ctx(2)
    apply (simp del: conj_assoc)
    apply (rule total_then[OF request], rule total_then[OF total_message])
    apply (rule total_then[OF total_agent_answer[OF b(2) _ b(3)]])
     apply simp
    apply (simp only: prod.case, rule accepted)
    done
qed

lemma verdict_total:
  assumes ctx: "cx_correlation_id ctx = cid" and st: "planned ms steps st"
    and types: "set types \<inter> {AWAITING_HUMAN_ATTESTATION, HUMAN_GATE_CLEARED} = {}"
    and b: "oe_policy env = Some b" "answers env b f cost" "affords env ctx cost"
    and verdict: "\<And>msg. dict_get (am_payload msg) ''steps'' = Some (PList steps) \<Longrightarrow>
      total (stage env cid N types st K c) (apply_verdict env (f msg) (charged ctx cost)) Q"
  shows "total (stage env cid N types st K (Suc c)) (check_policy env st ctx) Q"
proof -
  have "t_request st = PDict ms" "t_policy_decision st = PNone" and steps: "t_plan_steps st = PList steps"
    using st by (simp_all add: planned_def)
  note request = total_request[OF this(1)] and unset = this(2)
  show ?thesis
    unfolding check_policy_def b(1) ctx using unset
    apply (simp del: conj_assoc)
    apply (rule total_then[OF total_questions[OF types]])
    apply (simp add: stage_question_def del: conj_assoc)
    apply (rule total_then[OF request], rule total_then[OF total_message])
    apply (rule total_then[OF total_agent_answer[OF b(2) _ b(3)]])
     apply simp
    apply (simp only: prod.case, rule verdict)
    apply (simp add: steps dict_get_def)
    done
qed

lemma cleared_total:
  assumes ok: "orch_ok env cid N K0" "K \<subseteq> K0" "once POLICY_CLEARED \<in> K"
    and ctx: "cx_correlation_id ctx = cid" and st: "planned ms steps st"
    and verdict: "ar_ok result" "ar_value result = PDict v" "pget v ''decision'' \<noteq> PStr ''STATUS_BLOCKED''"
      "\<not> truthy (pget v ''requires_human_gate'')" "storable_value (dict_get_default v ''risk_score'' (PScalar (SFloat ''0.0'')))"
  shows "total (stage env cid N types st K (Suc c)) (apply_verdict env result ctx)
    (\<lambda>r w. (executed steps 0 (fst r) \<and> snd r = ctx) \<and>
      stage env cid N (types @ [POLICY_CLEARED]) (fst r) (K - {once POLICY_CLEARED}) c w)"
proof -
  have "apply_verdict env result ctx = record_event env ctx POLICY_CLEARED [(''decision'', PStr ''STATUS_APPROVED''),
      (''risk_score'', dict_get_default v ''risk_score'' (PScalar (SFloat ''0.0'')))] POLICY_RISK None"
    using verdict by (simp add: apply_verdict_def is_blocked_verdict_def Let_def as_dict_def)
  then show ?thesis
    unfolding once_def
    by (simp only:) (rule record_event_total[OF ok(1,2) _ _ ctx apply_cleared[OF _ st]],
      use ok(3) verdict(5) in \<open>auto simp: once_def encodable_members[of "_ # _"]\<close>)
qed

text \<open>A refusal: whatever else the verdict says, the task is blocked.\<close>

lemma refused_total:
  assumes ok: "orch_ok env cid N K0" "K \<subseteq> K0" "once (block_event result) \<in> K" and ctx: "cx_correlation_id ctx = cid"
    and verdict: "is_blocked_verdict result" "encodable (block_payload result)"
  shows "total (stage env cid N types st K (Suc c)) (apply_verdict env result ctx)
    (\<lambda>r w. (t_phase (fst r) = BLOCKED \<and> snd r = ctx) \<and>
      stage env cid N (types @ [block_event result]) (fst r) (K - {once (block_event result)}) c w)"
proof -
  have t: "block_event result = POLICY_BLOCKED \<or> block_event result = SECURITY_VIOLATION" by (simp add: block_event_def)
  have "apply_verdict env result ctx = record_event env ctx (block_event result) (block_payload result) POLICY_RISK None"
    using verdict by (simp add: apply_verdict_def)
  then show ?thesis
    unfolding once_def
    by (simp only:) (rule record_event_total[OF ok(1,2) _ verdict(2) ctx apply_refused[OF _ t]],
      use ok(3) in \<open>auto simp: once_def\<close>)
qed

subsection \<open>Executing the steps\<close>

text \<open>A critic, when there is one, that passes every result.\<close>

definition critic_passes :: "'s orch_env \<Rightarrow> AgentContext \<Rightarrow> bool" where
  "critic_passes env ctx \<longleftrightarrow> (\<forall>a. oe_critic env = Some a \<longrightarrow> (\<exists>f cost. answers env a f cost \<and> child_affords env ctx cost \<and>
     (\<forall>msg. ar_ok (f msg) \<and> pget (as_dict (ar_value (f msg))) ''verdict'' = PStr ''PASS'')))"

definition critique_types :: "'s orch_env \<Rightarrow> EventType list" where
  "critique_types env = (if oe_critic env = None then [] else [CRITIQUE_CONCLUDED])"

definition critique_cost :: "'s orch_env \<Rightarrow> nat" where
  "critique_cost env = (if oe_critic env = None then 0 else 3)"

abbreviation step_key :: "EventType \<Rightarrow> nat \<Rightarrow> EventType \<times> int \<times> string option" where
  "step_key t i \<equiv> (t, 0, Some (step_name (int i)))"

lemma critique_total:
  assumes ok: "orch_ok env cid N K0" "K \<subseteq> K0" "step_key CRITIQUE_CONCLUDED k \<in> K"
    and ctx: "cx_correlation_id ctx = cid" "0 \<le> cx_recursion_depth ctx" and st: "executed steps k st" and critic: "critic_passes env ctx"
  shows "total (stage env cid N types st K (critique_cost env + c)) (critique env ctx (int k) result)
    (\<lambda>passed w. passed \<and> (\<exists>st'. executed steps k st' \<and>
      stage env cid N (types @ critique_types env) st' (K - {step_key CRITIQUE_CONCLUDED k}) c w))"
proof (cases "oe_critic env")
  case None
  show ?thesis
    unfolding critique_def None critique_cost_def critique_types_def
    by simp (rule total_return, use stage_mono[of env cid N types st K c _ "K - {step_key CRITIQUE_CONCLUDED k}" c] st in auto)
next
  case (Some a)
  obtain f cost where a: "answers env a f cost" "child_affords env ctx cost"
    "\<And>msg. ar_ok (f msg) \<and> pget (as_dict (ar_value (f msg))) ''verdict'' = PStr ''PASS''"
    using critic Some by (auto simp: critic_passes_def)
  let ?p = "[(''step_index'', PInt (int k)), (''verdict'', PStr ''PASS'')]"
  have emitted: "total (stage env cid N types st K (Suc c))
      (act_bind (emit_event env cid CRITIQUE_CONCLUDED (cx_session_id ctx) ?p (cx_modality ctx) CRITIC 0 (Some (step_name (int k))))
        (\<lambda>_. act_return True))
      (\<lambda>passed w. passed \<and> (\<exists>st'. executed steps k st' \<and>
        stage env cid N (types @ [CRITIQUE_CONCLUDED]) st' (K - {step_key CRITIQUE_CONCLUDED k}) c w))"
  proof (rule total_bind[OF emit_stage[OF ok order_refl]])
    show "encodable ?p" by (simp add: encodable_members)
    show "\<exists>st'. apply_event st e = Inr st' \<and> executed steps k st'"
      if "emitted CRITIQUE_CONCLUDED ?p (cx_modality ctx) (cx_session_id ctx) CRITIC 0 (Some (step_name (int k))) e" for e
      by (rule apply_critiqued[OF that st])
  qed (auto intro: total_return)
  have 3: "3 + c = Suc (Suc (Suc c))" by simp
  show ?thesis
    unfolding critique_def Some critique_cost_def critique_types_def
    apply (simp add: ctx(1) 3 del: add_Suc conj_assoc)
    apply (rule total_then[OF total_message], rule total_then[OF total_child[OF ctx(2) a(2)]])
    apply (rule total_then[OF total_agent_answer[OF a(1)]])
      apply simp_all[2]
    apply (simp only: prod.case Let_def)
    using a(3) emitted by (simp add: nonempty_or_def)
qed

lemma attempt_total:
  assumes ok: "orch_ok env cid N K0" "K \<subseteq> K0" "step_keys k \<subseteq> K"
    and ctx: "cx_correlation_id ctx = cid" "0 \<le> cx_recursion_depth ctx" and st: "executed steps k st"
    and worker: "answers env a f cost" "child_affords env ctx cost" "\<And>msg. ar_ok (f msg)" and critic: "critic_passes env ctx"
    and step: "storable_value step"
  shows "total (stage env cid N types st K (4 + critique_cost env + c)) (attempt_step env a ctx (int k) step 0)
    (\<lambda>finished w. finished \<and> (\<exists>st'. executed steps (Suc k) st' \<and>
      stage env cid N (types @ EXECUTION_STARTED # critique_types env @ [EXECUTION_COMPLETED]) st' (K - step_keys k) c w))"
    (is "total _ _ ?Q")
proof -
  let ?p = "[(''step_index'', PInt (int k)), (''step'', step)]"
  let ?K1 = "K - {step_key EXECUTION_STARTED k}" and ?K2 = "K - {step_key EXECUTION_STARTED k} - {step_key CRITIQUE_CONCLUDED k}"
  let ?t1 = "types @ [EXECUTION_STARTED]"
  have K: "step_key EXECUTION_STARTED k \<in> K" "step_key CRITIQUE_CONCLUDED k \<in> ?K1" "step_key EXECUTION_COMPLETED k \<in> ?K2"
    "?K1 \<subseteq> K0" "?K2 \<subseteq> K0" "?K2 - {step_key EXECUTION_COMPLETED k} = K - step_keys k"
    using ok(2,3) by (auto simp: step_keys_def)
  have completed: "total (stage env cid N (?t1 @ critique_types env) st2 ?K2 (Suc c))
      (act_bind (emit_event env cid EXECUTION_COMPLETED (cx_session_id ctx)
          [(''step_index'', PInt (int k)), (''tokens_consumed'', PInt n)] (cx_modality ctx) WORKER 0 (Some (step_name (int k))))
        (\<lambda>_. act_return True)) ?Q" if st2: "executed steps k st2" for st2 n
  proof (rule total_bind[OF emit_stage[OF ok(1) K(5,3) order_refl]])
    show "encodable [(''step_index'', PInt (int k)), (''tokens_consumed'', PInt n)]" by (simp add: encodable_members)
    show "\<exists>st'. apply_event st2 e = Inr st' \<and> executed steps (Suc k) st'"
      if "emitted EXECUTION_COMPLETED [(''step_index'', PInt (int k)), (''tokens_consumed'', PInt n)] (cx_modality ctx)
        (cx_session_id ctx) WORKER 0 (Some (step_name (int k))) e" for e
      by (rule apply_completed[OF that st2]) (simp_all add: dict_get_def)
  qed (auto intro: total_return simp: K(6))
  have judged: "total (stage env cid N ?t1 st1 ?K1 (critique_cost env + Suc c)) (judge_step env ctx (int k) 0 (f msg)) ?Q"
    if st1: "executed steps k st1" for st1 msg
    unfolding judge_step_def ctx(1) if_P[OF worker(3)]
    by (rule total_then[OF critique_total[OF ok(1) K(4,2) ctx st1 critic]], subst if_P, assumption,
      rule total_exists, rule total_fact, rule completed)
  have cost: "4 + critique_cost env + c = Suc (Suc (Suc (critique_cost env + Suc c)))" by simp
  show ?thesis
    unfolding attempt_step_def ctx(1) cost
  proof (rule total_bind[OF emit_stage[OF ok(1,2) K(1) order_refl]])
    show "encodable ?p" using step by (simp add: encodable_members)
    show "\<exists>st'. apply_event st e = Inr st' \<and> executed steps k st'"
      if "emitted EXECUTION_STARTED ?p (cx_modality ctx) (cx_session_id ctx) WORKER 0 (Some (step_name (int k))) e" for e
      by (rule apply_started[OF that st]) (simp add: dict_get_def)
  next
    fix e
    show "total (\<lambda>w. \<exists>st'. executed steps k st' \<and> stage env cid N ?t1 st' ?K1 (Suc (Suc (critique_cost env + Suc c))) w)
      (act_bind (orch_message env ctx EXECUTION_REQUEST [(''step'', step), (''index'', PInt (int k))]) (\<lambda>msg.
        act_bind (child_context env ctx) (\<lambda>cctx.
        act_bind (agent_run env a msg cctx) (\<lambda>(result, _). judge_step env ctx (int k) 0 result)))) ?Q"
      apply (rule total_exists, rule total_fact)
      apply (rule total_then[OF total_message], rule total_then[OF total_child[OF ctx(2) worker(2)]])
      apply (rule total_then[OF total_agent_answer[OF worker(1)]])
        apply simp_all[2]
      apply (simp only: prod.case, rule judged, assumption)
      done
  qed
qed

definition step_types :: "'s orch_env \<Rightarrow> EventType list" where
  "step_types env = EXECUTION_STARTED # critique_types env @ [EXECUTION_COMPLETED]"

definition step_cost :: "'s orch_env \<Rightarrow> nat" where
  "step_cost env = 4 + critique_cost env"

lemma attempts_total:
  assumes "total P (attempt_step env a ctx i step 0) (\<lambda>finished w. finished \<and> R w)" "0 \<le> oe_max_step_retries env"
  shows "total P (attempt_until env a ctx i step [0..oe_max_step_retries env]) (\<lambda>_. R)"
proof -
  have "[0..oe_max_step_retries env] = 0 # [1..oe_max_step_retries env]" using assms(2) by (simp add: upto_rec1)
  then show ?thesis
    by (simp only: attempt_until.simps) (rule total_then[OF assms(1)], subst if_P, assumption, rule total_return)
qed

lemma step_name_inj: "step_name i = step_name j \<Longrightarrow> i = j"
proof -
  assume "step_name i = step_name j"
  then have "int_of_text (str_int i) = int_of_text (str_int j)" by (simp add: step_name_def)
  then show "i = j" by (simp add: int_of_text_str_int)
qed

lemma step_keys_disjoint: "i \<noteq> j \<Longrightarrow> step_keys i \<inter> step_keys j = {}"
  using step_name_inj by (fastforce simp: step_keys_def)

text \<open>The keys of the steps from \<open>k\<close> on.\<close>

definition steps_keys :: "nat \<Rightarrow> nat \<Rightarrow> (EventType \<times> int \<times> string option) set" where
  "steps_keys k n = (\<Union>i \<in> {k..<n}. step_keys i)"

lemma steps_keys_Suc: "k < n \<Longrightarrow> steps_keys k n = step_keys k \<union> steps_keys (Suc k) n"
proof -
  assume "k < n"
  then have "{k..<n} = insert k {Suc k..<n}" by auto
  then show ?thesis by (simp add: steps_keys_def)
qed

lemma steps_keys_split:
  assumes "k < n" "steps_keys k n \<subseteq> K"
  shows "step_keys k \<subseteq> K" "steps_keys (Suc k) n \<subseteq> K - step_keys k" "K - step_keys k - steps_keys (Suc k) n = K - steps_keys k n"
proof -
  have "step_keys k \<inter> step_keys i = {}" if "i \<in> {Suc k..<n}" for i
    by (rule step_keys_disjoint) (use that in simp)
  then have d: "step_keys k \<inter> steps_keys (Suc k) n = {}" unfolding steps_keys_def by blast
  show "step_keys k \<subseteq> K" "steps_keys (Suc k) n \<subseteq> K - step_keys k" "K - step_keys k - steps_keys (Suc k) n = K - steps_keys k n"
    using assms(2) d unfolding steps_keys_Suc[OF assms(1)] by blast+
qed

lemma execute_total:
  assumes ok: "orch_ok env cid N K0" and retries: "0 \<le> oe_max_step_retries env"
    and ctx: "cx_correlation_id ctx = cid" "0 \<le> cx_recursion_depth ctx"
    and worker: "answers env a f cost" "child_affords env ctx cost" "\<And>msg. ar_ok (f msg)" and critic: "critic_passes env ctx"
    and steps: "\<And>s. s \<in> set steps \<Longrightarrow> storable_value s"
  shows "K \<subseteq> K0 \<Longrightarrow> steps_keys k (length steps) \<subseteq> K \<Longrightarrow> executed steps k st \<Longrightarrow> k \<le> length steps \<Longrightarrow> types \<noteq> [] \<Longrightarrow>
    total (stage env cid N types st K ((length steps - k) * step_cost env + c))
      (execute_from env a ctx st (zip (map int [k..<length steps]) (drop k steps)))
      (\<lambda>st' w. executed steps (length steps) st' \<and>
        stage env cid N (types @ concat (replicate (length steps - k) (step_types env))) st'
          (K - steps_keys k (length steps)) c w)"
proof (induction "length steps - k" arbitrary: k K st types)
  case 0
  then have "k = length steps" by simp
  then show ?case using 0 by (simp add: total_def steps_keys_def)
next
  case (Suc d)
  have k: "k < length steps" "length steps - Suc k = d" "length steps - k = Suc d" using Suc.hyps(2) by auto
  let ?types = "types @ step_types env"
  have split: "zip (map int [k..<length steps]) (drop k steps) =
      (int k, steps ! k) # zip (map int [Suc k..<length steps]) (drop (Suc k) steps)"
    using k(1) by (simp add: upt_conv_Cons Cons_nth_drop_Suc[symmetric])
  have todo: "int k \<notin> set (t_completed_steps st)" using Suc.prems(3) by (auto simp: executed_def)
  note keys = steps_keys_split[OF k(1) Suc.prems(2)]
  have cost: "(length steps - k) * step_cost env + c = 4 + critique_cost env + (d * step_cost env + c)"
    by (simp add: k(3) step_cost_def)
  have attempted: "total (stage env cid N types st K (4 + critique_cost env + (d * step_cost env + c)))
      (attempt_until env a ctx (int k) (steps ! k) [0..oe_max_step_retries env])
      (\<lambda>_ w. \<exists>st'. executed steps (Suc k) st' \<and> stage env cid N ?types st' (K - step_keys k) (d * step_cost env + c) w)"
    unfolding step_types_def
    by (rule attempts_total[OF attempt_total[OF ok Suc.prems(1) keys(1) ctx Suc.prems(3) worker critic steps] retries])
      (use k(1) in simp)
  have rest: "total (stage env cid N ?types st' (K - step_keys k) (d * step_cost env + c))
      (execute_from env a ctx st' (zip (map int [Suc k..<length steps]) (drop (Suc k) steps)))
      (\<lambda>st' w. executed steps (length steps) st' \<and>
        stage env cid N (types @ concat (replicate (length steps - k) (step_types env))) st'
          (K - steps_keys k (length steps)) c w)" if "executed steps (Suc k) st'" for st'
  proof -
    have "?types \<noteq> []" "K - step_keys k \<subseteq> K0" "Suc k \<le> length steps" "d = length steps - Suc k"
      using Suc.prems(1) k by (auto simp: step_types_def)
    note Suc.hyps(1)[OF this(4,2) keys(2) that this(3,1)]
    then show ?thesis unfolding keys(3) k(2,3) by simp
  qed
  show ?case
    unfolding split cost execute_from.simps if_not_P[OF todo] ctx(1)
  proof (rule total_bind[OF attempted], rule total_exists, rule total_fact)
    fix st'
    assume st': "executed steps (Suc k) st'"
    have "?types \<noteq> []" by (simp add: step_types_def)
    then show "total (stage env cid N ?types st' (K - step_keys k) (d * step_cost env + c))
      (act_bind (task_state env cid) (\<lambda>st1. execute_from env a ctx st1 (zip (map int [Suc k..<length steps]) (drop (Suc k) steps))))
      (\<lambda>st' w. executed steps (length steps) st' \<and>
        stage env cid N (types @ concat (replicate (length steps - k) (step_types env))) st'
          (K - steps_keys k (length steps)) c w)"
      by (rule total_then[OF total_stage_state]) (simp only: rest[OF st'])
  qed
qed

end
