(* ===== verification/Task_Runs.thy ===== *)
theory Task_Runs
  imports Task_Lifecycle
begin

text \<open>
  Whole runs: a submitted task is driven through every stage to its commit, or to the refusal of the
  policy. What the agents answer is given by a \<open>script\<close>.
\<close>

subsection \<open>Scripts\<close>

record script =
  sc_packet :: payload
  sc_plan :: payload
  sc_steps :: "pyval list"
  sc_builder_cost :: int
  sc_planner_cost :: int
  sc_policy_cost :: int

text \<open>A message that carries the scripted plan, as it is read back from the ledger.\<close>

definition asks_about :: "script \<Rightarrow> AgentMessage \<Rightarrow> bool" where
  "asks_about sc msg \<longleftrightarrow> dict_get (am_payload msg) ''steps'' = Some (PList (map reloaded_value (sc_steps sc)))"

text \<open>The builder and the planner answer as scripted, within the budget, and the plan fits the modality.\<close>

definition prepares :: "'s orch_env \<Rightarrow> ComplexityModality \<Rightarrow> script \<Rightarrow> bool" where
  "prepares env m sc \<longleftrightarrow>
     (\<exists>b f. oe_context_builder env = Some b \<and> answers env b f (sc_builder_cost sc) \<and>
        (\<forall>msg. ar_ok (f msg) \<and> ar_value (f msg) = PDict (sc_packet sc))) \<and>
     (\<exists>b f. oe_planner env = Some b \<and> answers env b f (sc_planner_cost sc) \<and>
        (\<forall>msg. ar_ok (f msg) \<and> ar_value (f msg) = PDict (sc_plan sc))) \<and>
     pget (sc_packet sc) ''routing_directive'' \<noteq> PStr ''HARD_STOP_ESCALATE_TO_USER'' \<and> encodable (sc_packet sc) \<and>
     dict_get (sc_plan sc) ''execution_steps'' = Some (PList (sc_steps sc)) \<and> storable_value (PList (sc_steps sc)) \<and>
     storable_value (dict_get_default (sc_plan sc) ''step_requirements'' (PDict [])) \<and>
     (\<exists>ceil. max_plan_nodes (modality_profile m) = Inr ceil \<and> int (length (sc_steps sc)) \<le> ceil) \<and>
     0 \<le> sc_builder_cost sc \<and> 0 \<le> sc_planner_cost sc \<and> 0 \<le> sc_policy_cost sc \<and> m \<noteq> SIMPLE \<and>
     sc_builder_cost sc + sc_planner_cost sc + sc_policy_cost sc \<le> token_ceiling (modality_profile m)"

definition clears :: "'s orch_env \<Rightarrow> script \<Rightarrow> bool" where
  "clears env sc \<longleftrightarrow>
     (\<exists>b f v. oe_policy env = Some b \<and> answers env b f (sc_policy_cost sc) \<and>
        (\<forall>msg. asks_about sc msg \<longrightarrow> ar_ok (f msg) \<and> ar_value (f msg) = PDict v) \<and> pget v ''decision'' \<noteq> PStr ''STATUS_BLOCKED'' \<and>
        \<not> truthy (pget v ''requires_human_gate'') \<and>
        storable_value (dict_get_default v ''risk_score'' (PScalar (SFloat ''0.0''))))"

definition refuses :: "'s orch_env \<Rightarrow> script \<Rightarrow> EventType \<Rightarrow> bool" where
  "refuses env sc t \<longleftrightarrow>
     (\<exists>b f. oe_policy env = Some b \<and> answers env b f (sc_policy_cost sc) \<and>
        (\<forall>msg. asks_about sc msg \<longrightarrow>
           is_blocked_verdict (f msg) \<and> encodable (block_payload (f msg)) \<and> block_event (f msg) = t))"

text \<open>The budget of a sub-agent at depth 1.\<close>

definition quota_covers :: "ComplexityModality \<Rightarrow> int \<Rightarrow> bool" where
  "quota_covers m cost \<longleftrightarrow> token_ceiling (modality_profile m) div 2 = 0 \<or> cost \<le> token_ceiling (modality_profile m) div 2"

definition performs :: "'s orch_env \<Rightarrow> ComplexityModality \<Rightarrow> bool" where
  "performs env m \<longleftrightarrow> 0 \<le> oe_max_step_retries env \<and>
     (\<exists>a f cost. oe_worker env = Some a \<and> answers env a f cost \<and> quota_covers m cost \<and> (\<forall>msg. ar_ok (f msg))) \<and>
     (\<forall>a. oe_critic env = Some a \<longrightarrow> (\<exists>f cost. answers env a f cost \<and> quota_covers m cost \<and>
        (\<forall>msg. ar_ok (f msg) \<and> pget (as_dict (ar_value (f msg))) ''verdict'' = PStr ''PASS'')))"

lemma quota_covers_child: "cx_recursion_depth ctx = 0 \<Longrightarrow> quota_covers (cx_modality ctx) cost \<Longrightarrow>
    cx_permission_mode ctx = oe_permission_mode env \<Longrightarrow> child_affords env ctx cost"
  by (auto simp: quota_covers_def child_affords_def token_quota_at_depth_def)

lemma performs_critic: "performs env (cx_modality ctx) \<Longrightarrow> cx_recursion_depth ctx = 0 \<Longrightarrow>
    cx_permission_mode ctx = oe_permission_mode env \<Longrightarrow> critic_passes env ctx"
  unfolding performs_def critic_passes_def using quota_covers_child by metis

definition prepared_types :: "EventType list" where
  "prepared_types = [CONTEXT_HYDRATION_REQUESTED, CONTEXT_HYDRATED, PLAN_COMPILED]"

definition prepared_keys :: "(EventType \<times> int \<times> string option) set" where
  "prepared_keys = once ` set prepared_types"

definition fresh_context :: "'s orch_env \<Rightarrow> uuid \<Rightarrow> ComplexityModality \<Rightarrow> AgentContext \<Rightarrow> bool" where
  "fresh_context env cid m ctx \<longleftrightarrow> cx_permission_mode ctx = oe_permission_mode env \<and> cx_correlation_id ctx = cid \<and> cx_modality ctx = m \<and> cx_recursion_depth ctx = 0 \<and>
     cx_tokens_spent ctx = 0 \<and> cx_tokens_budget ctx = token_ceiling (modality_profile m)"

definition after_review :: "'s orch_env \<Rightarrow> TaskProjection \<Rightarrow> AgentContext \<Rightarrow> (raised \<times> TaskProjection, 's rt_world, TaskProjection) action" where
  "after_review env st ctx =
     (if t_phase st \<in> {BLOCKED, AWAITING_HUMAN} then act_return st
      else act_bind (in_state st (execute_steps env st ctx)) (\<lambda>st4.
        if t_phase st4 = AWAITING_HUMAN then act_return st4 else in_state st4 (commit_stage env st4 ctx)))"

lemma run_stages_after: "run_stages env st ctx =
  act_bind (in_state st (hydrate env st ctx)) (\<lambda>(st1, ctx1).
    if t_phase st1 = AWAITING_HUMAN then act_return st1
    else act_bind (in_state st1 (plan_stage env st1 ctx1)) (\<lambda>(st2, ctx2).
      act_bind (in_state st2 (check_policy env st2 ctx2)) (\<lambda>(st3, ctx3). after_review env st3 ctx3)))"
  unfolding run_stages_def after_review_def ..

lemma total_in_state: "total P m Q \<Longrightarrow> total P (in_state st m) Q"
  by (fastforce simp: total_def in_state_def)

lemma prepared_total:
  assumes ok: "orch_ok env cid N K0" "K \<subseteq> K0" "prepared_keys \<subseteq> K" and sc: "prepares env m sc" and ctx: "fresh_context env cid m ctx"
    and st: "t_context_packet st = PNone" "unplanned ms st"
    and types: "set types \<inter> {AWAITING_HUMAN_ATTESTATION, HUMAN_GATE_CLEARED} = {}"
    and review: "\<And>st2 ctx2. planned ms (map reloaded_value (sc_steps sc)) st2 \<Longrightarrow> cx_correlation_id ctx2 = cid \<Longrightarrow>
        cx_modality ctx2 = m \<Longrightarrow> cx_recursion_depth ctx2 = 0 \<Longrightarrow> affords env ctx2 (sc_policy_cost sc) \<Longrightarrow>
        total (stage env cid N (types @ prepared_types) st2 (K - prepared_keys) c)
          (act_bind (in_state st2 (check_policy env st2 ctx2)) (\<lambda>(st3, ctx3). after_review env st3 ctx3)) Q"
  shows "total (stage env cid N types st K (5 + c)) (run_stages env st ctx) Q"
proof -
  let ?k = "{once CONTEXT_HYDRATION_REQUESTED, once CONTEXT_HYDRATED}" and ?cb = "sc_builder_cost sc" and ?cp = "sc_planner_cost sc"
  let ?types = "types @ [CONTEXT_HYDRATION_REQUESTED, CONTEXT_HYDRATED]"
  obtain b f where b: "oe_context_builder env = Some b" "answers env b f ?cb" "\<And>msg. ar_ok (f msg) \<and> ar_value (f msg) = PDict (sc_packet sc)"
    and packet: "pget (sc_packet sc) ''routing_directive'' \<noteq> PStr ''HARD_STOP_ESCALATE_TO_USER''" "encodable (sc_packet sc)"
    using sc by (auto simp: prepares_def)
  obtain p g ceil where p: "oe_planner env = Some p" "answers env p g ?cp" "\<And>msg. ar_ok (g msg) \<and> ar_value (g msg) = PDict (sc_plan sc)"
    and plan: "dict_get (sc_plan sc) ''execution_steps'' = Some (PList (sc_steps sc))" "storable_value (PList (sc_steps sc))"
      "storable_value (dict_get_default (sc_plan sc) ''step_requirements'' (PDict []))"
    and ceil: "max_plan_nodes (modality_profile m) = Inr ceil" "int (length (sc_steps sc)) \<le> ceil"
    using sc by (auto simp: prepares_def)
  have cx: "cx_correlation_id ctx = cid" "cx_modality ctx = m" "cx_recursion_depth ctx = 0" using ctx by (auto simp: fresh_context_def)
  have m: "m \<noteq> SIMPLE" using sc by (simp add: prepares_def)
  have aff: "affords env ctx ?cb" "affords env (charged ctx ?cb) ?cp" "affords env (charged (charged ctx ?cb) ?cp) (sc_policy_cost sc)"
    using sc ctx by (auto simp: prepares_def fresh_context_def affords_def charged_def)
  have K: "?k \<subseteq> K" "K - ?k \<subseteq> K0" "once PLAN_COMPILED \<in> K - ?k" "K - ?k - {once PLAN_COMPILED} = K - prepared_keys"
    using ok(2,3) by (auto simp: prepared_keys_def prepared_types_def once_def)
  have planned: "total (stage env cid N ?types st1 (K - ?k) (Suc (Suc c))) (plan_stage env st1 (charged ctx ?cb))
      (\<lambda>r w. (planned ms (map reloaded_value (sc_steps sc)) (fst r) \<and> snd r = charged (charged ctx ?cb) ?cp) \<and>
        stage env cid N (types @ prepared_types) (fst r) (K - prepared_keys) c w)" if "unplanned ms st1" for st1
    using plan_total[where ceil = ceil and c = c and types = ?types, OF ok(1) K(2,3) _ _ that p(1,2) aff(2) p(3) plan] cx m ceil K(4)
    by (simp add: prepared_types_def)
  have 5: "5 + c = Suc (Suc (Suc (Suc (Suc c))))" by simp
  show ?thesis
    unfolding run_stages_after 5
  proof (rule total_then[OF total_in_state[OF hydrate_total[OF ok(1,2) K(1) cx(1) st types b(1,2) aff(1) b(3) packet]]])
    fix r
    assume r: "unplanned ms (fst r) \<and> snd r = charged ctx ?cb"
    obtain st1 where st1: "r = (st1, charged ctx ?cb)" "unplanned ms st1" using r by (cases r) simp
    have "t_phase st1 \<noteq> AWAITING_HUMAN" using st1(2) by (simp add: unplanned_def)
    then show "total (stage env cid N ?types (fst r) (K - ?k) (Suc (Suc c)))
      (case r of (st1, ctx1) \<Rightarrow> if t_phase st1 = AWAITING_HUMAN then act_return st1
        else act_bind (in_state st1 (plan_stage env st1 ctx1)) (\<lambda>(st2, ctx2).
          act_bind (in_state st2 (check_policy env st2 ctx2)) (\<lambda>(st3, ctx3). after_review env st3 ctx3))) Q"
      unfolding st1(1) prod.case fst_conv
    proof (subst if_not_P, assumption, intro total_then[OF total_in_state[OF planned[OF st1(2)]]])
      fix r2
      assume "planned ms (map reloaded_value (sc_steps sc)) (fst r2) \<and> snd r2 = charged (charged ctx ?cb) ?cp"
      then show "total (stage env cid N (types @ prepared_types) (fst r2) (K - prepared_keys) c)
        (case r2 of (st2, ctx2) \<Rightarrow> act_bind (in_state st2 (check_policy env st2 ctx2)) (\<lambda>(st3, ctx3). after_review env st3 ctx3)) Q"
        using review[of "fst r2" "snd r2"] cx aff(3) by (cases r2) simp
    qed
  qed
qed

subsection \<open>After the review\<close>

lemma commit_total:
  assumes ok: "orch_ok env cid N K0" "K \<subseteq> K0" "once MUTATION_COMMITTED \<in> K" and ctx: "cx_correlation_id ctx = cid"
    and st: "executed steps k st"
  shows "total (stage env cid N types st K (Suc c)) (commit_stage env st ctx)
    (\<lambda>st' w. (t_phase st' = COMMITTED \<and> t_completed_steps st' = map int [0..<k]) \<and>
      stage env cid N (types @ [MUTATION_COMMITTED]) st' (K - {once MUTATION_COMMITTED}) c w)"
  unfolding commit_stage_def ctx once_def
  by (rule emit_state[OF ok(1,2) _ order_refl _ apply_committed[OF _ st]])
    (use ok(3) in \<open>auto simp: once_def encodable_members[of "_ # _"]\<close>)

lemma after_review_total:
  assumes ok: "orch_ok env cid N K0" "K \<subseteq> K0" "insert (once MUTATION_COMMITTED) (steps_keys 0 (length steps)) \<subseteq> K"
    and ctx: "cx_correlation_id ctx = cid" "cx_recursion_depth ctx = 0" "cx_permission_mode ctx = oe_permission_mode env" and perf: "performs env (cx_modality ctx)"
    and st: "executed steps 0 st" "\<And>s. s \<in> set steps \<Longrightarrow> storable_value s" and types: "types \<noteq> []"
  shows "total (stage env cid N types st K (length steps * step_cost env + Suc c)) (after_review env st ctx)
    (\<lambda>st' w. (t_phase st' = COMMITTED \<and> t_completed_steps st' = map int [0..<length steps]) \<and>
      stage env cid N (types @ concat (replicate (length steps) (step_types env)) @ [MUTATION_COMMITTED]) st' {} c w)"
proof -
  let ?n = "length steps"
  obtain a f cost where worker: "oe_worker env = Some a" "answers env a f cost" "quota_covers (cx_modality ctx) cost" "\<And>msg. ar_ok (f msg)"
    and retries: "0 \<le> oe_max_step_retries env"
    using perf by (auto simp: performs_def)
  have keys: "steps_keys 0 ?n \<subseteq> K" "K - steps_keys 0 ?n \<subseteq> K0" "once MUTATION_COMMITTED \<in> K - steps_keys 0 ?n"
    using ok(2,3) by (auto simp: steps_keys_def step_keys_def once_def)
  have "zip (map int [0..<?n]) (drop 0 steps) = zip (map int [0..<?n]) steps" by simp
  note exec = execute_total[where k = 0 and steps = steps, OF ok(1) retries ctx(1) _ worker(2) quota_covers_child[OF ctx(2) worker(3) ctx(3)]
      worker(4) performs_critic[OF perf ctx(2,3)] st(2) ok(2) keys(1) st(1) _ types, unfolded this diff_zero]
  have steps: "execute_steps env st ctx = execute_from env a ctx st (zip (map int [0..<?n]) steps)"
    using worker(1) st(1) by (simp add: execute_steps_def executed_def py_enumerate_def fun_eq_iff)
  have phase: "t_phase st \<notin> {BLOCKED, AWAITING_HUMAN}" using st(1) by (simp add: executed_def)
  show ?thesis
    unfolding after_review_def steps if_not_P[OF phase]
  proof (rule total_then[OF total_in_state[OF exec]])
    fix st4
    assume st4: "executed steps ?n st4"
    then have "t_phase st4 \<noteq> AWAITING_HUMAN" by (simp add: executed_def)
    then show "total (stage env cid N (types @ concat (replicate ?n (step_types env))) st4 (K - steps_keys 0 ?n) (Suc c))
      (if t_phase st4 = AWAITING_HUMAN then act_return st4 else in_state st4 (commit_stage env st4 ctx))
      (\<lambda>st' w. (t_phase st' = COMMITTED \<and> t_completed_steps st' = map int [0..<?n]) \<and>
        stage env cid N (types @ concat (replicate ?n (step_types env)) @ [MUTATION_COMMITTED]) st' {} c w)"
    proof (subst if_not_P, assumption, intro total_weaken[OF total_in_state[OF commit_total[OF ok(1) keys(2,3) ctx(1) st4]]])
      fix st' w
      assume "(t_phase st' = COMMITTED \<and> t_completed_steps st' = map int [0..<?n]) \<and>
        stage env cid N ((types @ concat (replicate ?n (step_types env))) @ [MUTATION_COMMITTED]) st'
          (K - steps_keys 0 ?n - {once MUTATION_COMMITTED}) c w"
      then show "(t_phase st' = COMMITTED \<and> t_completed_steps st' = map int [0..<?n]) \<and>
        stage env cid N (types @ concat (replicate ?n (step_types env)) @ [MUTATION_COMMITTED]) st' {} c w"
        using stage_mono[where K' = "{}"] by (metis append_assoc empty_subsetI order_refl)
    qed
  qed (use ctx(2) in simp_all)
qed

lemma after_block: "t_phase st = BLOCKED \<Longrightarrow> after_review env st ctx = act_return st"
  by (simp add: after_review_def)

subsection \<open>Runs\<close>

definition committed_types :: "'s orch_env \<Rightarrow> nat \<Rightarrow> EventType list" where
  "committed_types env n = prepared_types @ POLICY_CLEARED # concat (replicate n (step_types env)) @ [MUTATION_COMMITTED]"

definition task_keys :: "nat \<Rightarrow> (EventType \<times> int \<times> string option) set" where
  "task_keys n = prepared_keys \<union> once ` {POLICY_CLEARED, POLICY_BLOCKED, SECURITY_VIOLATION, MUTATION_COMMITTED} \<union> steps_keys 0 n"

definition run_cost :: "'s orch_env \<Rightarrow> nat \<Rightarrow> nat" where
  "run_cost env n = 8 + n * step_cost env"

lemma step_key_not_once: "once t \<notin> steps_keys k n"
  by (auto simp: once_def steps_keys_def step_keys_def)

lemma committed_total:
  assumes ok: "orch_ok env cid N K0" "K \<subseteq> K0" "task_keys (length (sc_steps sc)) \<subseteq> K"
    and sc: "prepares env m sc" "clears env sc" "performs env m"
    and ctx: "fresh_context env cid m ctx" and st: "t_context_packet st = PNone" "unplanned ms st"
    and types: "set types \<inter> {AWAITING_HUMAN_ATTESTATION, HUMAN_GATE_CLEARED} = {}"
  shows "total (stage env cid N types st K (run_cost env (length (sc_steps sc)) + c)) (run_stages env st ctx)
    (\<lambda>st' w. (t_phase st' = COMMITTED \<and> t_completed_steps st' = map int [0..<length (sc_steps sc)]) \<and>
      stage env cid N (types @ committed_types env (length (sc_steps sc))) st' {} c w)"
proof -
  let ?steps = "map reloaded_value (sc_steps sc)" and ?n = "length (sc_steps sc)" and ?K = "K - prepared_keys"
  have cost: "run_cost env ?n + c = 5 + Suc (Suc (?n * step_cost env + Suc c))" by (simp add: run_cost_def)
  have pk: "prepared_keys \<subseteq> K" using ok(3) by (auto simp: task_keys_def)
  obtain b f v where b: "oe_policy env = Some b" "answers env b f (sc_policy_cost sc)"
      "\<And>msg. asks_about sc msg \<Longrightarrow> ar_ok (f msg) \<and> ar_value (f msg) = PDict v" "pget v ''decision'' \<noteq> PStr ''STATUS_BLOCKED''" "\<not> truthy (pget v ''requires_human_gate'')"
      "storable_value (dict_get_default v ''risk_score'' (PScalar (SFloat ''0.0'')))"
    using sc(2) by (auto simp: clears_def)
  have stored: "storable_value s" if "s \<in> set ?steps" for s
    using sc(1) that by (auto simp: prepares_def storable_value_list) (simp add: storable_value_def)
  have sub: "?K \<subseteq> K0" "once POLICY_CLEARED \<in> ?K" "?K - {once POLICY_CLEARED} \<subseteq> K0"
    "insert (once MUTATION_COMMITTED) (steps_keys 0 (length ?steps)) \<subseteq> ?K - {once POLICY_CLEARED}"
    using ok(2,3) step_key_not_once by (auto simp: task_keys_def prepared_keys_def prepared_types_def) (auto simp: once_def)
  have types2: "set (types @ prepared_types) \<inter> {AWAITING_HUMAN_ATTESTATION, HUMAN_GATE_CLEARED} = {}"
    using types by (auto simp: prepared_types_def)
  show ?thesis
    unfolding cost
  proof (rule prepared_total[OF ok(1,2) pk sc(1) ctx st types])
    fix st2 :: TaskProjection and ctx2 :: AgentContext
    assume 2: "planned ms ?steps st2" "cx_correlation_id ctx2 = cid" "cx_modality ctx2 = m" "cx_recursion_depth ctx2 = 0"
      "affords env ctx2 (sc_policy_cost sc)"
    let ?ctx3 = "charged ctx2 (sc_policy_cost sc)"
    have reviewed: "total (stage env cid N (types @ prepared_types) st2 ?K (Suc (Suc (?n * step_cost env + Suc c))))
        (check_policy env st2 ctx2)
        (\<lambda>r w. (executed ?steps 0 (fst r) \<and> snd r = ?ctx3) \<and> stage env cid N ((types @ prepared_types) @ [POLICY_CLEARED]) (fst r)
          (?K - {once POLICY_CLEARED}) (?n * step_cost env + Suc c) w)"
      by (rule verdict_total[OF 2(2,1) types2 b(1,2) 2(5)], rule cleared_total[OF ok(1) sub(1,2) _ 2(1)]) (use b 2(2) in \<open>simp_all add: asks_about_def\<close>)
    have mode: "cx_permission_mode ctx2 = oe_permission_mode env" using 2(5) by (simp add: affords_def)
    have finish: "total (stage env cid N ((types @ prepared_types) @ [POLICY_CLEARED]) st3 (?K - {once POLICY_CLEARED}) (?n * step_cost env + Suc c))
        (after_review env st3 ?ctx3)
        (\<lambda>st' w. (t_phase st' = COMMITTED \<and> t_completed_steps st' = map int [0..<?n]) \<and>
          stage env cid N (types @ committed_types env ?n) st' {} c w)" if "executed ?steps 0 st3" for st3
      using after_review_total[OF ok(1) sub(3,4) _ _ _ _ that stored, where types = "(types @ prepared_types) @ [POLICY_CLEARED]" and c = c and ctx = ?ctx3]
        2 sc(3) mode by (simp add: committed_types_def)
    show "total (stage env cid N (types @ prepared_types) st2 ?K (Suc (Suc (?n * step_cost env + Suc c))))
        (act_bind (in_state st2 (check_policy env st2 ctx2)) (\<lambda>(st3, ctx3). after_review env st3 ctx3))
        (\<lambda>st' w. (t_phase st' = COMMITTED \<and> t_completed_steps st' = map int [0..<?n]) \<and>
          stage env cid N (types @ committed_types env ?n) st' {} c w)"
    proof (rule total_then[OF total_in_state[OF reviewed]])
      fix r
      assume "executed ?steps 0 (fst r) \<and> snd r = ?ctx3"
      then show "total (stage env cid N ((types @ prepared_types) @ [POLICY_CLEARED]) (fst r) (?K - {once POLICY_CLEARED}) (?n * step_cost env + Suc c))
        (case r of (st3, ctx3) \<Rightarrow> after_review env st3 ctx3)
        (\<lambda>st' w. (t_phase st' = COMMITTED \<and> t_completed_steps st' = map int [0..<?n]) \<and>
          stage env cid N (types @ committed_types env ?n) st' {} c w)"
        using finish[of "fst r"] by (cases r) simp
    qed
  qed
qed

text \<open>A refused plan is not executed: worker and critic play no part.\<close>

lemma blocked_total:
  assumes ok: "orch_ok env cid N K0" "K \<subseteq> K0" "task_keys n \<subseteq> K"
    and sc: "prepares env m sc" "refuses env sc t"
    and ctx: "fresh_context env cid m ctx" and st: "t_context_packet st = PNone" "unplanned ms st"
    and types: "set types \<inter> {AWAITING_HUMAN_ATTESTATION, HUMAN_GATE_CLEARED} = {}"
  shows "total (stage env cid N types st K (7 + c)) (run_stages env st ctx)
    (\<lambda>st' w. t_phase st' = BLOCKED \<and> stage env cid N (types @ prepared_types @ [t]) st' {} c w)"
proof -
  let ?K = "K - prepared_keys"
  have pk: "prepared_keys \<subseteq> K" using ok(3) by (auto simp: task_keys_def)
  obtain b f where b: "oe_policy env = Some b" "answers env b f (sc_policy_cost sc)"
    "\<And>msg. asks_about sc msg \<Longrightarrow> is_blocked_verdict (f msg) \<and> encodable (block_payload (f msg)) \<and> block_event (f msg) = t"
    using sc(2) by (auto simp: refuses_def)
  have "asks_about sc (undefined\<lparr>am_payload := [(''steps'', PList (map reloaded_value (sc_steps sc)))]\<rparr>)"
    by (simp add: asks_about_def dict_get_def)
  from b(3)[OF this] have t: "t = POLICY_BLOCKED \<or> t = SECURITY_VIOLATION" by (auto simp: block_event_def split: if_splits)
  have sub: "?K \<subseteq> K0" "once t \<in> ?K"
    using ok(2,3) t by (auto simp: task_keys_def prepared_keys_def prepared_types_def) (auto simp: once_def)
  have types2: "set (types @ prepared_types) \<inter> {AWAITING_HUMAN_ATTESTATION, HUMAN_GATE_CLEARED} = {}"
    using types by (auto simp: prepared_types_def)
  have cost: "7 + c = 5 + Suc (Suc c)" by simp
  show ?thesis
    unfolding cost
  proof (rule prepared_total[OF ok(1,2) pk sc(1) ctx st types])
    fix st2 :: TaskProjection and ctx2 :: AgentContext
    assume 2: "planned ms (map reloaded_value (sc_steps sc)) st2" "cx_correlation_id ctx2 = cid" "affords env ctx2 (sc_policy_cost sc)"
    let ?ctx3 = "charged ctx2 (sc_policy_cost sc)"
    have verdict: "total (stage env cid N (types @ prepared_types) st2 ?K (Suc c)) (apply_verdict env (f msg) ?ctx3)
        (\<lambda>r w. (t_phase (fst r) = BLOCKED \<and> snd r = ?ctx3) \<and>
          stage env cid N ((types @ prepared_types) @ [t]) (fst r) (?K - {once t}) c w)" if "asks_about sc msg" for msg
      using refused_total[OF ok(1) sub(1), of "f msg" ?ctx3 "types @ prepared_types" st2 c] b(3)[OF that] sub(2) 2(2) by simp
    show "total (stage env cid N (types @ prepared_types) st2 ?K (Suc (Suc c)))
        (act_bind (in_state st2 (check_policy env st2 ctx2)) (\<lambda>(st3, ctx3). after_review env st3 ctx3))
        (\<lambda>st' w. t_phase st' = BLOCKED \<and> stage env cid N (types @ prepared_types @ [t]) st' {} c w)"
    proof (rule total_then[OF total_in_state[OF verdict_total[OF 2(2,1) types2 b(1,2) 2(3) verdict[unfolded asks_about_def]]]])
      fix r :: "TaskProjection \<times> AgentContext"
      assume "t_phase (fst r) = BLOCKED \<and> snd r = ?ctx3"
      then show "total (stage env cid N ((types @ prepared_types) @ [t]) (fst r) (?K - {once t}) c)
        (case r of (st3, ctx3) \<Rightarrow> after_review env st3 ctx3)
        (\<lambda>st' w. t_phase st' = BLOCKED \<and> stage env cid N (types @ prepared_types @ [t]) st' {} c w)"
        by (cases r) (auto intro!: total_return simp: after_block intro: stage_mono)
    qed
  qed
qed

subsection \<open>Running a task\<close>

lemma stage_fs [simp]: "stage env cid N types st K c (w\<lparr>w_fs := fs\<rparr>) = stage env cid N types st K c w"
  by (simp add: stage_def lineage_at_def room_def known_ids_def known_keys_def)

text \<open>A task that stands at its beginning: it has been submitted and nothing has happened since.\<close>

definition submitted :: "uuid \<Rightarrow> ComplexityModality \<Rightarrow> payload \<Rightarrow> TaskProjection \<Rightarrow> bool" where
  "submitted cid m ms st \<longleftrightarrow> unplanned ms st \<and> t_context_packet st = PNone \<and> t_correlation_id st = str_uuid cid \<and>
     t_modality st = m \<and> t_phase st = QUEUED \<and> (\<exists>sid. session_uuid st = Inr sid)"

lemma run_task_total:
  assumes st: "submitted cid m ms st" and types: "types \<noteq> []"
    and stages: "\<And>ctx. fresh_context env cid m ctx \<Longrightarrow> total (stage env cid N types st K c) (run_stages env st ctx)
      (\<lambda>st' w. A st' \<and> stage env cid N types' st' {} c' w)"
  shows "total (stage env cid N types st K (Suc c)) (run_task env cid)
    (\<lambda>out w. (to_correlation_id out = cid \<and> to_error out = None \<and> to_phase out = t_phase (to_projection out) \<and>
      A (to_projection out)) \<and> stage env cid N types' (to_projection out) {} c' w)"
proof (rule totalI)
  fix w :: "'a rt_world"
  let ?w = "w\<lparr>w_tick := Suc (w_tick w)\<rparr>"
  assume w: "stage env cid N types st K (Suc c) w"
  obtain sid where sid: "t_correlation_id st = str_uuid cid" "session_uuid st = Inr sid" using st by (auto simp: submitted_def)
  define ctx where "ctx = \<lparr>cx_correlation_id = cid, cx_session_id = sid, cx_task_id = e_uuid4 (oe_ledger env) (w_tick w),
    cx_parent_task_id = None, cx_modality = t_modality st, cx_permission_mode = oe_permission_mode env, cx_recursion_depth = 0,
    cx_tokens_budget = token_ceiling (modality_profile (t_modality st)), cx_tokens_spent = 0\<rparr>"
  have ctx: "context_for env st w = (Inr ctx, ?w)" using sid by (simp add: context_for_def parse_str_uuid act_bind_def ctx_def)
  have fc: "fresh_context env cid m ctx" using st by (simp add: ctx_def fresh_context_def submitted_def)
  have s: "task_state env cid w = (Inr st, w)"
  proof -
    obtain es where "lineage_at cid es st w" "es \<noteq> []" using w types by (auto simp: stage_def)
    from project_lineage[OF this] show ?thesis by (simp add: task_state_def)
  qed
  have live: "\<not> projection_is_terminal st"
    using st by (simp add: submitted_def projection_is_terminal_def phase_is_terminal_def terminal_phases_def)
  obtain st' w' where "run_stages env st ctx ?w = (Inr st', w')" "A st' \<and> stage env cid N types' st' {} c' w'"
    by (rule totalE[OF stages[OF fc] stage_tick[OF w]])
  note r = this(1) conjunct1[OF this(2)] conjunct2[OF this(2)]
  have "cx_correlation_id ctx = cid" by (simp add: ctx_def)
  then have "run_task env cid w = (Inr (outcome cid st' None), discard_delegations cid w')"
    using s live ctx r(1) by (simp add: run_task_def drive_def)
  then show "\<exists>out w'. run_task env cid w = (Inr out, w') \<and> (to_correlation_id out = cid \<and> to_error out = None \<and>
      to_phase out = t_phase (to_projection out) \<and> A (to_projection out)) \<and> stage env cid N types' (to_projection out) {} c' w'"
    using r(2,3) by (simp add: outcome_def discard_delegations_def)
qed

subsection \<open>Submitting a task\<close>

definition requested_modality :: "TaskRequest \<Rightarrow> ComplexityModality" where
  "requested_modality r = (case tr_modality r of None \<Rightarrow> classify r | Some m \<Rightarrow> m)"

text \<open>A queue that takes the orchestrator's message.\<close>

definition queue_open :: "'s orch_env \<Rightarrow> nat \<Rightarrow> 's runtime \<Rightarrow> bool" where
  "queue_open env N fs \<longleftrightarrow> (\<forall>cfg. oe_queue env = Some cfg \<longrightarrow> 1 \<le> max_delivery_attempts cfg \<and>
     (\<forall>n < N. str_uuid (e_uuid4 (oe_ledger env) n) \<notin> q_id ` set (rt_queue fs)))"

text \<open>What the queue holds after a submission.\<close>

definition queue_told :: "'s orch_env \<Rightarrow> uuid \<Rightarrow> string \<Rightarrow> 's runtime \<Rightarrow> 's runtime \<Rightarrow> bool" where
  "queue_told env cid goal fs fs' \<longleftrightarrow>
     (if oe_queue env = None then fs' = fs
      else \<exists>row. rt_queue fs' = rt_queue fs @ [row] \<and> q_stream row = ORCHESTRATOR_CORE \<and> q_status row = Ready \<and>
        q_payload row = JObj [(''correlation_id'', JStr (str_uuid cid)), (''goal'', JStr goal)])"

lemma emit_event_fs: "emit_event env cid t sid p mode role att disc w = (r, w') \<Longrightarrow> w_fs w' = w_fs w"
  by (erule emit_event_cases) simp_all

lemma total_frame:
  assumes "total P m Q" "\<And>w r w'. m w = (r, w') \<Longrightarrow> w_fs w' = w_fs w"
  shows "total (\<lambda>w. P w \<and> w_fs w = fs) m (\<lambda>a w. Q a w \<and> w_fs w = fs)"
  using assms unfolding total_def by metis

lemma total_pull:
  assumes "\<And>x. A x \<Longrightarrow> total (\<lambda>w. R x w \<and> F w) m Q"
  shows "total (\<lambda>w. (\<exists>x. A x \<and> R x w) \<and> F w) m Q"
  using assms unfolding total_def by metis

lemma enqueue_total:
  assumes "queue_open env N fs"
  shows "total (\<lambda>w. stage env cid N types st K (Suc c) w \<and> w_fs w = fs) (enqueue_task env cid goal)
    (\<lambda>_ w. stage env cid N types st K c w \<and> queue_told env cid goal fs (w_fs w))"
proof (rule totalI)
  fix w :: "'a rt_world"
  let ?n = "w_tick w"
  assume w: "stage env cid N types st K (Suc c) w \<and> w_fs w = fs"
  show "\<exists>a w'. enqueue_task env cid goal w = (Inr a, w') \<and> stage env cid N types st K c w' \<and> queue_told env cid goal fs (w_fs w')"
  proof (cases "oe_queue env")
    case None
    then show ?thesis using w stage_mono[of env cid N types st K "Suc c" w K c] by (simp add: enqueue_task_def queue_told_def)
  next
    case (Some cfg)
    let ?p = "[(''correlation_id'', PStr (str_uuid cid)), (''goal'', PStr goal)]"
    have "?n < N" using w by (auto simp: stage_def room_def)
    then have fresh: "str_uuid (e_uuid4 (oe_ledger env) ?n) \<notin> q_id ` set (rt_queue fs)" "1 \<le> max_delivery_attempts cfg"
      using assms Some by (auto simp: queue_open_def)
    obtain m row where row: "enqueue cfg (str_uuid (e_uuid4 (oe_ledger env) ?n)) (oe_instant env ?n) ORCHESTRATOR_CORE ?p
        default_priority (Some cid) None 0 None (rt_queue fs) = Inr (m, rt_queue fs @ [row])"
      "q_stream row = ORCHESTRATOR_CORE" "q_status row = Ready"
      "q_payload row = JObj [(''correlation_id'', JStr (str_uuid cid)), (''goal'', JStr goal)]"
      using fresh by (simp add: enqueue_def Let_def validate_message_def effective_max_attempts_def default_priority_def)
    have "enqueue_task env cid goal w = (Inr (), w\<lparr>w_tick := Suc ?n, w_fs := fs\<lparr>rt_queue := rt_queue fs @ [row]\<rparr>\<rparr>)"
      using row(1) Some w by (simp add: enqueue_task_def)
    moreover have "stage env cid N types st K c (w\<lparr>w_tick := Suc ?n, w_fs := fs\<lparr>rt_queue := rt_queue fs @ [row]\<rparr>\<rparr>)"
      using stage_tick[OF conjunct1[OF w]] by simp
    ultimately show ?thesis using row(2-4) Some by (simp add: queue_told_def)
  qed
qed

lemma apply_task_requested:
  assumes "emitted TASK_REQUESTED p mode sid role att disc e" "dict_get p ''request'' = Some (PDict ms)"
  shows "\<exists>st'. apply_event (new_projection (str_uuid cid)) e = Inr st' \<and>
    (unplanned (reload ms) st' \<and> t_context_packet st' = PNone \<and> t_correlation_id st' = str_uuid cid \<and>
     (t_session_id st' = None \<or> (\<exists>u. t_session_id st' = Some (str_uuid u))))"
proof -
  have r: "reloaded_value (PDict ms) = PDict (reload ms)" by (simp add: reloaded_value_def reload_def)
  show ?thesis
    using assms
    by (simp add: emitted_def apply_event_def reload_get r set_if_truthy_def unplanned_def common_phase)
      (auto simp: apply_common_def Let_def new_projection_def split: option.split)
qed

lemma apply_task_queued:
  assumes "emitted TASK_QUEUED p mode sid role att disc e"
    and "unplanned ms st \<and> t_context_packet st = PNone \<and> t_correlation_id st = str_uuid cid \<and>
     (t_session_id st = None \<or> (\<exists>u. t_session_id st = Some (str_uuid u)))"
  shows "\<exists>st'. apply_event st e = Inr st' \<and> submitted cid mode ms st'"
  using assms
  by (simp add: emitted_def apply_event_def submitted_def unplanned_def session_uuid_def common_phase)
    (auto simp: apply_common_def Let_def parse_str_uuid split: option.split)

definition submit_keys :: "(EventType \<times> int \<times> string option) set" where
  "submit_keys = {once TASK_REQUESTED, once TASK_QUEUED}"

definition request_dict :: "TaskRequest \<Rightarrow> payload" where
  "request_dict r = dict_merge
     [(''goal'', PStr (tr_goal r)), (''target_agent'', optional_text (tr_target_agent r)),
      (''required_slots'', str_list (case tr_required_slots r of None \<Rightarrow> [] | Some s \<Rightarrow> s))]
     (case tr_metadata r of None \<Rightarrow> [] | Some m \<Rightarrow> m)"

lemma request_payload_stored:
  assumes "encodable (request_dict r)"
  shows "encodable (request_payload r)" "dict_get (request_payload r) ''request'' = Some (PDict (request_dict r))"
proof -
  have p: "request_payload r = (''request'', PDict (request_dict r)) #
     (if nonempty_text (tr_workspace_path r) then [(''workspace_path'', optional_text (tr_workspace_path r))] else [])"
    by (simp add: request_payload_def request_dict_def)
  have "nonempty_text x \<Longrightarrow> storable_value (optional_text x)" for x
    by (cases x) (simp_all add: nonempty_text_def optional_text_def)
  then show "encodable (request_payload r)" unfolding p using assms by (simp add: encodable_members[of "_ # _"])
  show "dict_get (request_payload r) ''request'' = Some (PDict (request_dict r))" by (simp add: p dict_get_def)
qed

lemma submit_total:
  assumes ok: "orch_ok env cid N K0" "K \<subseteq> K0" "submit_keys \<subseteq> K" and n: "e_uuid4 (oe_ledger env) n = cid"
    and r: "encodable (request_dict r)" and q: "queue_open env N fs"
  shows "total (\<lambda>w. stage env cid N [] (new_projection (str_uuid cid)) K (Suc (Suc (Suc (Suc c)))) w \<and> w_tick w = n \<and> w_fs w = fs)
    (submit env r)
    (\<lambda>cid' w. cid' = cid \<and> queue_told env cid (tr_goal r) fs (w_fs w) \<and>
      (\<exists>st. submitted cid (apply_backpressure env (requested_modality r)) (reload (request_dict r)) st \<and>
        stage env cid N [TASK_REQUESTED, TASK_QUEUED] st (K - submit_keys) c w))"
    (is "total ?P _ ?Q")
proof -
  let ?m = "requested_modality r" and ?d = "apply_backpressure env (requested_modality r)" and ?k = "once TASK_REQUESTED"
  let ?A = "\<lambda>st. unplanned (reload (request_dict r)) st \<and> t_context_packet st = PNone \<and> t_correlation_id st = str_uuid cid \<and>
     (t_session_id st = None \<or> (\<exists>u. t_session_id st = Some (str_uuid u)))"
  have K: "(TASK_REQUESTED, 0, None) \<in> K" "(TASK_QUEUED, 0, None) \<in> K - {?k}" "K - {?k} \<subseteq> K0" "K - {?k} - {once TASK_QUEUED} = K - submit_keys"
    using ok(2,3) by (auto simp: submit_keys_def once_def)
  note payload = request_payload_stored[OF r]
  have first: "total (\<lambda>w. stage env cid N [] (new_projection (str_uuid cid)) K (Suc (Suc (Suc c))) w \<and> w_fs w = fs)
      (emit_event env cid TASK_REQUESTED (tr_session_id r) (request_payload r) ?m ORCHESTRATOR 0 None)
      (\<lambda>_ w. (\<exists>st. ?A st \<and> stage env cid N ([] @ [TASK_REQUESTED]) st (K - {?k}) (Suc (Suc c)) w) \<and> w_fs w = fs)"
    unfolding once_def
    by (rule total_frame[OF emit_stage[OF ok(1,2) K(1) order_refl payload(1) apply_task_requested[OF _ payload(2)]] emit_event_fs])
  have second: "total (\<lambda>w. stage env cid N ([] @ [TASK_REQUESTED]) st (K - {?k}) (Suc (Suc c)) w \<and> w_fs w = fs)
      (emit_event env cid TASK_QUEUED (tr_session_id r) [(''modality'', PStr (modality_value ?d))] ?d ORCHESTRATOR 0 None)
      (\<lambda>_ w. (\<exists>st. submitted cid ?d (reload (request_dict r)) st \<and>
        stage env cid N (([] @ [TASK_REQUESTED]) @ [TASK_QUEUED]) st (K - {?k} - {once TASK_QUEUED}) (Suc c) w) \<and> w_fs w = fs)"
    if "?A st" for st
    unfolding once_def[of TASK_QUEUED]
    by (rule total_frame[OF emit_stage[OF ok(1) K(3,2) order_refl _ apply_task_queued[OF _ that]] emit_event_fs])
      (simp_all add: encodable_members)
  have third: "total (\<lambda>w. stage env cid N (([] @ [TASK_REQUESTED]) @ [TASK_QUEUED]) st (K - {?k} - {once TASK_QUEUED}) (Suc c) w \<and> w_fs w = fs)
      (act_bind (enqueue_task env cid (tr_goal r)) (\<lambda>_. act_return cid)) ?Q"
    if "submitted cid ?d (reload (request_dict r)) st" for st
  proof (rule total_bind[OF enqueue_total[OF q]], rule total_return)
    fix w :: "'a rt_world"
    assume "stage env cid N (([] @ [TASK_REQUESTED]) @ [TASK_QUEUED]) st (K - {?k} - {once TASK_QUEUED}) c w \<and>
      queue_told env cid (tr_goal r) fs (w_fs w)"
    then show "?Q cid w" using that unfolding K(4) append.simps by blast
  qed
  have body: "total (\<lambda>w. stage env cid N [] (new_projection (str_uuid cid)) K (Suc (Suc (Suc c))) w \<and> w_fs w = fs)
      (act_bind (emit_event env cid TASK_REQUESTED (tr_session_id r) (request_payload r) ?m ORCHESTRATOR 0 None) (\<lambda>_.
        act_bind (emit_event env cid TASK_QUEUED (tr_session_id r) [(''modality'', PStr (modality_value ?d))] ?d ORCHESTRATOR 0 None)
          (\<lambda>_. act_bind (enqueue_task env cid (tr_goal r)) (\<lambda>_. act_return cid)))) ?Q"
  proof (rule total_bind[OF first], rule total_pull)
    fix e st
    assume st: "?A st"
    show "total (\<lambda>w. stage env cid N ([] @ [TASK_REQUESTED]) st (K - {?k}) (Suc (Suc c)) w \<and> w_fs w = fs)
      (act_bind (emit_event env cid TASK_QUEUED (tr_session_id r) [(''modality'', PStr (modality_value ?d))] ?d ORCHESTRATOR 0 None)
          (\<lambda>_. act_bind (enqueue_task env cid (tr_goal r)) (\<lambda>_. act_return cid))) ?Q"
      by (rule total_bind[OF second[OF st]], rule total_pull, rule third)
  qed
  show ?thesis
  proof (rule totalI)
    fix w
    assume w: "?P w"
    let ?w = "w\<lparr>w_tick := Suc (w_tick w)\<rparr>"
    have "stage env cid N [] (new_projection (str_uuid cid)) K (Suc (Suc (Suc c))) ?w \<and> w_fs ?w = fs"
      using w stage_tick by auto
    then obtain a w' where "act_bind (emit_event env cid TASK_REQUESTED (tr_session_id r) (request_payload r) ?m ORCHESTRATOR 0 None) (\<lambda>_.
        act_bind (emit_event env cid TASK_QUEUED (tr_session_id r) [(''modality'', PStr (modality_value ?d))] ?d ORCHESTRATOR 0 None)
          (\<lambda>_. act_bind (enqueue_task env cid (tr_goal r)) (\<lambda>_. act_return cid))) ?w = (Inr a, w')" and "?Q a w'"
      by (rule totalE[OF body])
    then have "submit env r w = (Inr a, w')" using w n by (simp add: submit_def Let_def requested_modality_def)
    with \<open>?Q a w'\<close> show "\<exists>a w'. submit env r w = (Inr a, w') \<and> ?Q a w'" by blast
  qed
qed

subsection \<open>Submit and run\<close>

definition all_keys :: "nat \<Rightarrow> (EventType \<times> int \<times> string option) set" where
  "all_keys n = submit_keys \<union> task_keys n"

lemma task_keys_left: "task_keys n \<subseteq> all_keys n - submit_keys" "submit_keys \<subseteq> all_keys n"
  using step_key_not_once
  by (auto simp: all_keys_def submit_keys_def task_keys_def prepared_keys_def prepared_types_def) (auto simp: once_def)

lemma stage_trace: "stage env cid N types st K c w \<Longrightarrow> \<exists>es. read_correlation (w_db w) cid 0 = Inr es \<and> map event_type es = types"
  by (auto simp: stage_def lineage_at_def)

text \<open>
  A world in which the next identifier names a new lineage: nothing is recorded under it, its
  identifiers and its keys are unused, and \<open>c\<close> ticks are left before \<open>N\<close>.
\<close>

definition new_task :: "'s orch_env \<Rightarrow> uuid \<Rightarrow> nat \<Rightarrow> nat \<Rightarrow> nat \<Rightarrow> 's rt_world \<Rightarrow> bool" where
  "new_task env cid N n c w \<longleftrightarrow> orch_ok env cid N (all_keys n) \<and>
     stage env cid N [] (new_projection (str_uuid cid)) (all_keys n) c w \<and>
     e_uuid4 (oe_ledger env) (w_tick w) = cid \<and> queue_open env N (w_fs w)"

lemma new_task_ok: "new_task env cid N n c w \<Longrightarrow> orch_ok env cid N (all_keys n)"
  by (simp add: new_task_def)

lemma submit_run:
  assumes w: "new_task env cid N n (c + 5) w" and r: "encodable (request_dict r)"
    and stages: "\<And>ms st ctx. unplanned ms st \<Longrightarrow> t_context_packet st = PNone \<Longrightarrow>
      fresh_context env cid (apply_backpressure env (requested_modality r)) ctx \<Longrightarrow>
      total (stage env cid N [TASK_REQUESTED, TASK_QUEUED] st (all_keys n - submit_keys) c) (run_stages env st ctx)
        (\<lambda>st' w. A st' \<and> stage env cid N types st' {} 0 w)"
  shows "\<exists>out w' es. act_bind (submit env r) (run_task env) w = (Inr out, w') \<and> to_correlation_id out = cid \<and>
    to_error out = None \<and> to_phase out = t_phase (to_projection out) \<and> A (to_projection out) \<and>
    read_correlation (w_db w') cid 0 = Inr es \<and> map event_type es = types"
proof -
  note ok = w[unfolded new_task_def, THEN conjunct1]
  have s: "stage env cid N [] (new_projection (str_uuid cid)) (all_keys n) (Suc (Suc (Suc (Suc (Suc c))))) w \<and> w_tick w = w_tick w \<and> w_fs w = w_fs w"
    using w by (simp add: new_task_def numeral_eq_Suc)
  have n: "e_uuid4 (oe_ledger env) (w_tick w) = cid" and q: "queue_open env N (w_fs w)" using w by (simp_all add: new_task_def)
  obtain cid' w1 where 1: "submit env r w = (Inr cid', w1)" "cid' = cid \<and> queue_told env cid (tr_goal r) (w_fs w) (w_fs w1) \<and>
      (\<exists>st. submitted cid (apply_backpressure env (requested_modality r)) (reload (request_dict r)) st \<and>
        stage env cid N [TASK_REQUESTED, TASK_QUEUED] st (all_keys n - submit_keys) (Suc c) w1)"
    by (rule totalE[OF submit_total[OF ok order_refl task_keys_left(2) n r q] s])
  then obtain st where st: "submitted cid (apply_backpressure env (requested_modality r)) (reload (request_dict r)) st"
    "stage env cid N [TASK_REQUESTED, TASK_QUEUED] st (all_keys n - submit_keys) (Suc c) w1" by blast
  have run: "total (stage env cid N [TASK_REQUESTED, TASK_QUEUED] st (all_keys n - submit_keys) (Suc c)) (run_task env cid)
    (\<lambda>out w. (to_correlation_id out = cid \<and> to_error out = None \<and> to_phase out = t_phase (to_projection out) \<and>
      A (to_projection out)) \<and> stage env cid N types (to_projection out) {} 0 w)"
    by (rule run_task_total[OF st(1)]) (use st(1) in \<open>auto simp: submitted_def intro: stages\<close>)
  obtain out w2 where 2: "run_task env cid w1 = (Inr out, w2)" "(to_correlation_id out = cid \<and> to_error out = None \<and>
      to_phase out = t_phase (to_projection out) \<and> A (to_projection out)) \<and> stage env cid N types (to_projection out) {} 0 w2"
    by (rule totalE[OF run st(2)])
  obtain es where "read_correlation (w_db w2) cid 0 = Inr es" "map event_type es = types"
    using stage_trace[OF conjunct2[OF 2(2)]] by blast
  moreover have "act_bind (submit env r) (run_task env) w = (Inr out, w2)" using 1 2(1) by simp
  ultimately show ?thesis using 2(2) by blast
qed

lemma submission_projection:
  assumes "new_task env cid N n 5 w" "encodable (request_dict r)" "oe_queue env = Some cfg" "oe_backpressure env = Some degrade"
  shows "\<exists>w' st row. submit env r w = (Inr cid, w') \<and>
    project (e_validate (oe_ledger env)) (w_db w') cid True = Inr st \<and> t_phase st = QUEUED \<and> t_state_version st = 2 \<and>
    t_request st = PDict (reload (request_dict r)) \<and> t_modality st = degrade (requested_modality r) \<and>
    rt_queue (w_fs w') = rt_queue (w_fs w) @ [row] \<and> q_stream row = ORCHESTRATOR_CORE \<and>
    q_payload row = JObj [(''correlation_id'', JStr (str_uuid cid)), (''goal'', JStr (tr_goal r))]"
proof -
  note ok = assms(1)[unfolded new_task_def, THEN conjunct1]
  have s: "stage env cid N [] (new_projection (str_uuid cid)) (all_keys n) (Suc (Suc (Suc (Suc 1)))) w \<and> w_tick w = w_tick w \<and> w_fs w = w_fs w"
    using assms(1) by (simp add: new_task_def numeral_eq_Suc)
  have n: "e_uuid4 (oe_ledger env) (w_tick w) = cid" and q: "queue_open env N (w_fs w)" using assms(1) by (simp_all add: new_task_def)
  obtain cid' w1 where 1: "submit env r w = (Inr cid', w1)" "cid' = cid \<and> queue_told env cid (tr_goal r) (w_fs w) (w_fs w1) \<and>
      (\<exists>st. submitted cid (apply_backpressure env (requested_modality r)) (reload (request_dict r)) st \<and>
        stage env cid N [TASK_REQUESTED, TASK_QUEUED] st (all_keys n - submit_keys) 1 w1)"
    by (rule totalE[OF submit_total[OF ok order_refl task_keys_left(2) n assms(2) q] s])
  then obtain st where st: "submitted cid (apply_backpressure env (requested_modality r)) (reload (request_dict r)) st"
    "stage env cid N [TASK_REQUESTED, TASK_QUEUED] st (all_keys n - submit_keys) 1 w1" by blast
  then obtain es where es: "lineage_at cid es st w1" "map event_type es = [TASK_REQUESTED, TASK_QUEUED]" by (auto simp: stage_def)
  have inv: "chain_inv (w_db w1)" using es(1) by (simp add: lineage_at_def ledger_inv_def)
  have p: "project (e_validate (oe_ledger env)) (w_db w1) cid True = Inr st" using project_lineage[OF es(1)] es(2) by auto
  moreover have "t_state_version st = 2"
  proof -
    have "rmapM row_to_event (lineage_rows (w_db w1) (str_uuid cid)) = Inr es"
      using es(1) inv by (simp add: lineage_at_def read_correlation_inv)
    from rmapM_length[OF this] have "length (lineage_rows (w_db w1) (str_uuid cid)) = 2"
      using arg_cong[OF es(2), of length] by simp
    moreover have "project (e_validate (oe_ledger env)) (w_db w1) cid False = Inr st"
      using p es(1) by (simp add: lineage_at_def project_no_snapshot)
    ultimately show ?thesis using project_version[OF inv] by fastforce
  qed
  moreover obtain row where "rt_queue (w_fs w1) = rt_queue (w_fs w) @ [row]" "q_stream row = ORCHESTRATOR_CORE"
    "q_payload row = JObj [(''correlation_id'', JStr (str_uuid cid)), (''goal'', JStr (tr_goal r))]"
    using 1(2) assms(3) by (auto simp: queue_told_def)
  ultimately show ?thesis
    using 1 st(1) assms(3,4) by (auto simp: submitted_def unplanned_def apply_backpressure_def)
qed

text \<open>
  A refused plan is never executed: the run ends in BLOCKED with the refusal as the last event, whatever worker and
  critic are installed.
\<close>

lemma refused_run:
  assumes "new_task env cid N n 12 w" "encodable (request_dict r)"
    and "m = apply_backpressure env (requested_modality r)" "prepares env m sc" "refuses env sc t"
  shows "\<exists>out w' es. act_bind (submit env r) (run_task env) w = (Inr out, w') \<and> to_phase out = BLOCKED \<and>
    read_correlation (w_db w') cid 0 = Inr es \<and>
    map event_type es = [TASK_REQUESTED, TASK_QUEUED, CONTEXT_HYDRATION_REQUESTED, CONTEXT_HYDRATED, PLAN_COMPILED, t]"
proof -
  have stages: "total (stage env cid N [TASK_REQUESTED, TASK_QUEUED] st (all_keys n - submit_keys) 7) (run_stages env st ctx)
    (\<lambda>st' w. t_phase st' = BLOCKED \<and> stage env cid N ([TASK_REQUESTED, TASK_QUEUED] @ prepared_types @ [t]) st' {} 0 w)"
    if "unplanned ms st" "t_context_packet st = PNone" "fresh_context env cid m ctx" for ms st ctx
    by (rule blocked_total[where c = 0 and types = "[TASK_REQUESTED, TASK_QUEUED]", unfolded add_0_right,
        OF new_task_ok[OF assms(1)] Diff_subset task_keys_left(1) assms(4,5) that(3,2,1)]) simp
  have w: "new_task env cid N n (7 + 5) w" using assms(1) by simp
  have "\<exists>out w' es. act_bind (submit env r) (run_task env) w = (Inr out, w') \<and> to_correlation_id out = cid \<and> to_error out = None \<and>
    to_phase out = t_phase (to_projection out) \<and> t_phase (to_projection out) = BLOCKED \<and>
    read_correlation (w_db w') cid 0 = Inr es \<and> map event_type es = [TASK_REQUESTED, TASK_QUEUED] @ prepared_types @ [t]"
    by (rule submit_run[OF w assms(2)], rule stages) (simp_all only: assms(3))
  then show ?thesis by (auto simp: prepared_types_def)
qed

end
