(* ===== verification/Policy_Review.thy ===== *)
theory Policy_Review
  imports Policy_Properties Task_Runs
begin

text \<open>
  The policy gate in the orchestrator: what its agent answers when the orchestrator asks about a plan, and how a plan with
  an irreversible operation ends under SAFE.
\<close>

subsection \<open>What the agent answers\<close>

definition policy_answer :: "'s orch_env \<Rightarrow> 'v policy_env \<Rightarrow> PolicyRule list \<Rightarrow> AgentMessage \<Rightarrow> AgentResult" where
  "policy_answer env pe rules msg =
     (case fst (policy_handle pe (oe_permission_mode env) (am_payload msg) (Some rules)) of
        Inr r \<Rightarrow> r
      | Inl e \<Rightarrow> (case raise_py env e of PaaRaised p \<Rightarrow> failure p | Raised e \<Rightarrow> failure [(''message'', PStr (oe_text_of env e))]))"

lemma policy_handle_tokens: "fst (policy_handle pe mode p cache) = Inr r \<Longrightarrow> ar_tokens_consumed r = 0"
  by (auto simp: policy_handle_def success_def split: sum.splits prod.splits)

lemma policy_answers: "answers env (policy_agent env pe rules) (policy_answer env pe rules) 0"
  unfolding answers_def
proof (intro allI impI)
  fix msg :: AgentMessage and ctx :: AgentContext and w :: "'a rt_world"
  assume "am_deadline msg = None" "affords env ctx 0"
  then show "agent_run env (policy_agent env pe rules) msg ctx w =
      (Inr (policy_answer env pe rules msg, ctx\<lparr>cx_tokens_spent := cx_tokens_spent ctx + 0\<rparr>), w)"
    by (auto simp: agent_run_def missing_permissions_def policy_agent_def run_handler_def affords_def Let_def policy_answer_def
        policy_handle_tokens split: sum.splits raised.splits)
qed

subsection \<open>What it raises\<close>

text \<open>With its rules loaded, the agent raises no exception of the program's own hierarchy.\<close>

definition plain :: "'a result \<Rightarrow> bool" where
  "plain r \<longleftrightarrow> (\<forall>e. r = Inl e \<longrightarrow> \<not> paa_error e)"

lemma plain_Inr [simp]: "plain (Inr x)"
  by (simp add: plain_def)

lemma plain_Inl [simp]: "plain (Inl e) \<longleftrightarrow> \<not> paa_error e"
  by (simp add: plain_def)

lemma plain_rbind: "plain r \<Longrightarrow> (\<And>x. r = Inr x \<Longrightarrow> plain (f x)) \<Longrightarrow> plain (rbind r f)"
  by (cases r) (simp_all add: rbind_def)

lemma plain_errors [simp]:
  "\<not> paa_error TypeError" "\<not> paa_error ValueError" "\<not> paa_error AttributeError" "\<not> paa_error IndexError" "\<not> paa_error OverflowError"
  by (simp_all add: paa_error_def)

lemma plain_iterated: "plain (iterated v)"
  by (auto simp: iterated_def split: pyval.splits pyscalar.splits)

lemma plain_declared: "plain (declared s)"
  by (simp add: declared_def plain_iterated)

lemma plain_required: "plain (required_permissions steps req)"
proof (induction steps arbitrary: req)
  case (Cons s steps)
  then show ?case using plain_declared[of s] by (auto split: sum.splits)
qed simp

lemma plain_float: "plain (py_float v)"
  by (auto simp: py_float_def float_of_text_def Let_def split: pyval.splits pyscalar.splits pyfloat.splits option.splits prod.splits)

lemma plain_egress: "plain (declares_egress steps)"
  by (induction steps) (auto intro!: plain_rbind plain_declared)

lemma plain_profile_score: "plain (profile_score steps s)"
  by (induction steps arbitrary: s) (auto simp: risk_profile_def intro!: plain_rbind plain_float)

lemma plain_exceeds: "plain (exceeds_profile limit steps)"
  by (induction steps) (auto simp: risk_profile_def intro!: plain_rbind plain_float)

lemma plain_score_plan: "plain (score_plan pe mode steps blob)"
  unfolding score_plan_def risk_score_def needs_gate_def
  by (intro plain_rbind plain_profile_score plain_exceeds) (auto intro!: plain_rbind plain_exceeds)

lemma plain_similar: "plain (similar_goal sim threshold gs vs)"
  by (induction sim threshold gs vs rule: similar_goal.induct) auto

lemma plain_anti_goals: "plain (check_anti_goals pe blob)"
  by (auto simp: check_anti_goals_def Let_def plain_similar split: option.splits sum.splits list.splits)

lemma plain_checks: "plain (check_permissions steps mode)" "plain (check_lockdown blob steps mode)"
  unfolding check_permissions_def check_lockdown_def
  by (auto simp: Let_def intro!: plain_rbind plain_required plain_egress split: sum.splits)

lemma plain_judge: "plain (fst (judge_plan pe mode goal steps (Some rules)))"
proof -
  let ?blob = "render goal steps"
  let ?cs = "rbind (check_permissions steps mode) (\<lambda>c1. rbind (check_lockdown ?blob steps mode) (\<lambda>c2.
    Inr [c1, c2, check_irreversible ?blob mode, check_paths pe ?blob]))"
  have cs: "plain ?cs" by (intro plain_rbind plain_checks) simp
  have rest: "plain (rbind (check_anti_goals pe ?blob) (\<lambda>c6. case first_verdict (cs @ [check_rules rules ?blob, c6]) of
      Some v \<Rightarrow> Inr v | None \<Rightarrow> score_plan pe mode steps ?blob))" for cs
    by (intro plain_rbind plain_anti_goals) (simp add: plain_score_plan split: option.splits)
  show ?thesis
  proof (cases ?cs)
    case (Inl e)
    then show ?thesis using cs unfolding judge_plan_def Let_def by simp
  next
    case (Inr cs)
    then show ?thesis using rest unfolding judge_plan_def Let_def load_rules_cached(1) by simp
  qed
qed

lemma plain_as_steps: "plain (as_steps vs)"
  by (induction vs rule: as_steps.induct) (auto intro!: plain_rbind)

lemma plain_plan_of: "plain (plan_of p)"
  unfolding plan_of_def
  by (intro plain_rbind plain_iterated plain_as_steps) (auto split: pyval.splits pyscalar.splits)

lemma plain_handle: "plain (fst (policy_handle pe mode p (Some rules)))"
proof (cases "plan_of p")
  case (Inl e)
  then show ?thesis using plain_plan_of[of p] by (simp add: policy_handle_def)
next
  case (Inr x)
  obtain goal steps where x: "x = (goal, steps)" by (cases x)
  show ?thesis using plain_judge[of pe mode goal steps rules] Inr x
    by (cases "judge_plan pe mode goal steps (Some rules)"; cases "fst (judge_plan pe mode goal steps (Some rules))")
      (simp_all add: policy_handle_def)
qed

subsection \<open>Irreversible operations under SAFE\<close>

lemma check_permissions_no_anti_goal: "check_permissions steps mode = Inr (Some v) \<Longrightarrow> \<not> pv_anti_goal_match v"
proof -
  assume c: "check_permissions steps mode = Inr (Some v)"
  then obtain r where r: "required_permissions steps [] = Inr r" by (cases "required_permissions steps []") (simp_all add: check_permissions_def)
  show ?thesis
  proof (cases r)
    case (Inl u)
    with required_permissions_unknown[OF r[unfolded Inl]] c r show ?thesis by (auto simp: check_permissions_def blocked_def)
  next
    case (Inr req)
    with c r show ?thesis by (auto simp: check_permissions_def blocked_def Let_def split: if_splits)
  qed
qed

lemma safe_refuses:
  assumes "judge_plan pe SAFE goal steps cache = (Inr v, cache')" "irreversible_text (render goal steps)"
  shows "pv_decision v = ''STATUS_BLOCKED''" "\<not> pv_anti_goal_match v"
proof -
  from assms(1) obtain rules c1 c2 c6 where j: "check_permissions steps SAFE = Inr c1" "check_lockdown (render goal steps) steps SAFE = Inr c2"
    "(case first_verdict [c1, c2, check_irreversible (render goal steps) SAFE, check_paths pe (render goal steps),
        check_rules rules (render goal steps), c6] of Some v \<Rightarrow> Inr v | None \<Rightarrow> score_plan pe SAFE steps (render goal steps)) = Inr v"
    by (rule judge_cases)
  have "check_irreversible (render goal steps) SAFE \<noteq> None"
    using assms(2) unfolding check_irreversible_iff irreversible_text_def by auto
  then obtain u where u: "check_irreversible (render goal steps) SAFE = Some u" by blast
  have "\<not> pv_anti_goal_match u" using u by (auto simp: check_irreversible_def blocked_def)
  moreover have "c2 = None" using j(2) by (simp add: check_lockdown_def)
  ultimately have "is_refusal v \<and> \<not> pv_anti_goal_match v"
    using j(1,3) u check_permissions_refusal check_permissions_no_anti_goal check_refusals(2) by (cases c1) auto
  then show "pv_decision v = ''STATUS_BLOCKED''" "\<not> pv_anti_goal_match v" using refusal_not_approved by blast+
qed

lemma as_steps_dict: "as_steps vs = Inr steps \<Longrightarrow> PDict s \<in> set vs \<Longrightarrow> s \<in> set steps"
  by (induction vs arbitrary: steps rule: as_steps.induct) (auto simp: rbind_eq_Inr)

lemma plan_of_steps: "plan_of p = Inr (goal, steps) \<Longrightarrow> dict_get p ''steps'' = Some (PList vs) \<Longrightarrow> as_steps vs = Inr steps"
proof -
  assume p: "plan_of p = Inr (goal, steps)" "dict_get p ''steps'' = Some (PList vs)"
  have "iterated (dict_get_default p ''steps'' (PList [])) = Inr vs" using p(2) by (simp add: iterated_def dict_get_default_def dict_get_def)
  then obtain ss where "as_steps vs = Inr ss" "(case dict_get_default p ''goal'' (PStr []) of
      PScalar (SStr goal) \<Rightarrow> Inr (goal, ss) | _ \<Rightarrow> Inl TypeError) = Inr (goal, steps)"
    using p(1) by (auto simp only: plan_of_def rbind_eq_Inr)
  then show ?thesis by (simp split: pyval.splits pyscalar.splits)
qed

definition blocks_plan :: "AgentResult \<Rightarrow> bool" where
  "blocks_plan r \<longleftrightarrow> is_blocked_verdict r \<and> encodable (block_payload r) \<and> block_event r = POLICY_BLOCKED"

lemma failure_blocks: "blocks_plan (failure [(''message'', PStr s)])"
  by (simp add: blocks_plan_def is_blocked_verdict_def failure_def block_payload_def block_event_def as_dict_def pget_def
      dict_get_default_def dict_get_def dict_merge_def nonempty_or_def encodable_members)

lemma refusal_blocks:
  assumes "pv_decision v = ''STATUS_BLOCKED''" "\<not> pv_anti_goal_match v"
  shows "blocks_plan (success (PDict (verdict_dict v)) 0)"
  using assms by (simp add: blocks_plan_def success_def is_blocked_verdict_def block_payload_def block_event_def as_dict_def pget_def
      dict_get_default_def dict_get_def verdict_dict_def dict_merge_def nonempty_or_def encodable_members)

lemma policy_answer_safe:
  assumes mode: "oe_permission_mode env = SAFE" and msg: "dict_get (am_payload msg) ''steps'' = Some (PList vs)"
    and s: "PDict s \<in> set vs" "(k, v) \<in> set s" and r: "(r, label) \<in> set irreversible_patterns" "rx_search r (flat v)"
  shows "blocks_plan (policy_answer env pe rules msg)"
proof (cases "fst (policy_handle pe SAFE (am_payload msg) (Some rules))")
  case (Inl e)
  then have "\<not> paa_error e" using plain_handle[of pe SAFE "am_payload msg" rules] by simp
  then have "policy_answer env pe rules msg = failure [(''message'', PStr (oe_text_of env e))]"
    using Inl mode by (simp add: policy_answer_def raise_py_def)
  then show ?thesis using failure_blocks by simp
next
  case (Inr a)
  then obtain goal steps u cache where h: "plan_of (am_payload msg) = Inr (goal, steps)"
      "judge_plan pe SAFE goal steps (Some rules) = (Inr u, cache)" "a = success (PDict (verdict_dict u)) 0"
    by (auto simp: policy_handle_def split: sum.splits prod.splits)
  from as_steps_dict[OF plan_of_steps[OF h(1) msg] s(1)] have "flat v \<in> set (plan_parts goal steps)"
    using s(2) by (force simp: plan_parts_def)
  from found_in_part[OF disjI1[OF r(1)] this r(2)] have "irreversible_text (render goal steps)"
    using r(1) by (auto simp: irreversible_text_def)
  note u = safe_refuses[OF h(2) this]
  have "policy_answer env pe rules msg = a" using Inr mode by (simp add: policy_answer_def)
  then show ?thesis using refusal_blocks[OF u] by (simp add: h(3))
qed

text \<open>The policy agent of the composition refuses every script with such a step.\<close>

lemma policy_refuses:
  assumes "oe_policy env = Some (policy_agent env pe rules)" "oe_permission_mode env = SAFE" "sc_policy_cost sc = 0"
    and "PDict s \<in> set (map reloaded_value (sc_steps sc))" "(k, v) \<in> set s"
    and "(r, label) \<in> set irreversible_patterns" "rx_search r (flat v)"
  shows "refuses env sc POLICY_BLOCKED"
  unfolding refuses_def
proof (intro exI conjI allI impI)
  show "oe_policy env = Some (policy_agent env pe rules)" by (rule assms(1))
  show "answers env (policy_agent env pe rules) (policy_answer env pe rules) (sc_policy_cost sc)"
    using policy_answers by (simp add: assms(3))
  fix msg
  assume "asks_about sc msg"
  note a = policy_answer_safe[where pe = pe and rules = rules, OF assms(2) this[unfolded asks_about_def] assms(4-7)]
  then show "is_blocked_verdict (policy_answer env pe rules msg)" "encodable (block_payload (policy_answer env pe rules msg))"
    "block_event (policy_answer env pe rules msg) = POLICY_BLOCKED" by (simp_all add: blocks_plan_def)
qed

end
