(* ===== verification/Sample_Lineage.thy ===== *)
theory Sample_Lineage
  imports Recovery_Properties
begin

text \<open>
  A small concrete lineage, on which the general theorems are applied: one request, the databases
  and worlds around it, and a digest function that is cheap to evaluate.
\<close>

definition tail_hash :: hash_fun where
  "tail_hash m = take 64 (rev (filter (\<lambda>c. c \<noteq> CHR 0x22) m) @ replicate 64 (CHR ''0''))"

lemma tail_hash_digest: "hex_digest tail_hash"
  by unfold_locales (simp add: tail_hash_def)

definition sample_time :: datetime where
  "sample_time = \<lparr>year = 1, month = 1, day = 1, hour = 0, minute = 0, second = 0,
     microsecond = 0, aware = True\<rparr>"

definition sample_event :: "EventType \<Rightarrow> payload \<Rightarrow> LedgerEvent" where
  "sample_event t p =
     \<lparr>sequence_id = None, state_version = None, prev_hash = None, event_hash = None,
      event_id = of_nat (length p) + 16, correlation_id = 7, session_id = None, causation_id = None,
      event_type = t, execution_mode = COMPLEX, agent_role = None,
      allocated_worker_image = ''paa/base_worker:v4.1'', attempt = 0, discriminator = None,
      payload = p, recorded_at = sample_time\<rparr>"

definition requested :: LedgerEvent where
  "requested = sample_event TASK_REQUESTED [(''request'', PStr ''tidy'')]"

lemma requested_wf: "wf_event requested"
  by (simp add: requested_def sample_event_def wf_event_def sample_time_def valid_datetime_def)

text \<open>What the ledger holds after the request was appended.\<close>

definition sample_hash :: string where
  "sample_hash = rev ''000000000,recorded_at:0001-01-01T00:00:00+00:00,state_version:1}''"

definition sample_row :: ledger_row where
  "sample_row = \<lparr>c_sequence_id = 1, c_event_id = ''00000000-0000-0000-0000-000000000011'',
     c_correlation_id = ''00000000-0000-0000-0000-000000000007'', c_session_id = None,
     c_causation_id = None, c_state_version = 1,
     c_idempotency_key = tail_hash (idempotency_material 7 TASK_REQUESTED 0 None), c_attempt = 0, c_discriminator = None, c_event_type = ''TASK_REQUESTED'',
     c_execution_mode = ''COMPLEX'', c_agent_role = None, c_worker_image = ''paa/base_worker:v4.1'',
     c_payload = JObj [(''request'', JStr ''tidy'')], c_prev_hash = genesis_hash,
     c_event_hash = sample_hash, c_recorded_at = ''0001-01-01T00:00:00+00:00''\<rparr>"

definition sample_db :: ledger_db where
  "sample_db = \<lparr>ledger_rows = [sample_row],
     head_rows = [\<lparr>h_correlation_id = ''00000000-0000-0000-0000-000000000007'', h_session_id = None,
       h_latest_sequence_id = 1, h_latest_state_version = 1, h_latest_event_type = ''TASK_REQUESTED'',
       h_latest_event_hash = sample_hash, h_execution_mode = ''COMPLEX'', h_is_terminal = 0,
       h_opened_at = ''0001-01-01T00:00:00+00:00'', h_updated_at = ''0001-01-01T00:00:00+00:00''\<rparr>],
     snapshot_rows = [], next_sequence = 2\<rparr>"

lemma requested_storable: "storable_members (payload requested)"
  by code_simp

lemma sample_append: "\<exists>e. append_event tail_hash requested empty_db = (Inr e, sample_db)"
proof -
  have "(case append_event tail_hash requested empty_db of (Inr e, db) \<Rightarrow> db = sample_db | _ \<Rightarrow> False)"
    by code_simp
  then show ?thesis by (auto split: prod.splits sum.splits)
qed

lemma sample_inv: "ledger_inv sample_db" "flags_inv sample_db"
  using sample_append append_event_ledger_inv[OF ledger_inv_empty(1) requested_wf, of tail_hash]
    append_event_flags_inv[OF ledger_inv_empty(2), of tail_hash requested]
  by auto

lemma sample_run:
  "ledger_run tail_hash (\<lambda>e. storable_members (payload e)) [sample_db, empty_db]"
proof -
  obtain e where "append_tx tail_hash requested empty_db empty_db = Inr (e, sample_db)"
    using sample_append by (auto simp: append_event_Inr)
  then show ?thesis
    by (intro run_append[where seen = empty_db and e = requested] run_empty)
      (simp_all add: requested_wf requested_storable)
qed

lemma sample_read:
  obtains e where "read_correlation sample_db 7 0 = Inr [e]" "payload e = [(''request'', PStr ''tidy'')]"
proof -
  have "case read_correlation sample_db 7 0 of Inr [e] \<Rightarrow> payload e = [(''request'', PStr ''tidy'')] | _ \<Rightarrow> False"
    by code_simp
  then show ?thesis using that by (auto split: sum.splits list.splits)
qed

subsection \<open>A payload with a timestamp\<close>

text \<open>A digest function that reads the part of the text where the payload stands.\<close>

definition window_hash :: hash_fun where
  "window_hash m = take 64 (drop 80 m @ replicate 64 (CHR ''0''))"

lemma window_hash_digest: "hex_digest window_hash"
  by unfold_locales (simp add: window_hash_def)

definition dated :: LedgerEvent where
  "dated = sample_event TASK_REQUESTED [(''at'', PScalar (SDatetime sample_time))]"

lemma dated_sealed:
  obtains e where "sealed window_hash dated 1 1 genesis_hash = Inr e"
    "payload e = [(''at'', PScalar (SDatetime sample_time))]"
    "\<not> digest_collision window_hash (event_material e) (event_material (reloaded e))"
proof -
  have "case sealed window_hash dated 1 1 genesis_hash of
      Inr e \<Rightarrow> payload e = [(''at'', PScalar (SDatetime sample_time))] \<and>
        (case (event_material e, event_material (reloaded e)) of
           (Inr m, Inr m') \<Rightarrow> window_hash m \<noteq> window_hash m' | _ \<Rightarrow> False)
    | Inl _ \<Rightarrow> False"
    by code_simp
  then show ?thesis using that by (auto simp: digest_collision_def split: sum.splits)
qed

subsection \<open>Recovery of the sample\<close>

definition sample_validate :: "pyval \<Rightarrow> TaskProjection result" where
  "sample_validate v = Inl ValueError"

definition sample_env :: "int \<Rightarrow> unit recovery_env" where
  "sample_env k = \<lparr>e_hash = tail_hash, e_validate = sample_validate, e_snapshotter = None,
     e_requeuer = None, e_max_attempts = k, e_verify_chains = True,
     e_uuid4 = (\<lambda>n. of_nat n + 100), e_utc_now = (\<lambda>_. sample_time)\<rparr>"

definition sample_world :: "unit world" where
  "sample_world = \<lparr>w_db = sample_db, w_marks = [], w_fs = (), w_queue = [], w_tick = 0\<rparr>"

lemma sample_env_ok: "env_ok (sample_env n)"
  by (simp add: sample_env_def env_ok_def sample_time_def valid_datetime_def)

definition sample_head :: CorrelationHead where
  "sample_head = \<lparr>hd_correlation_id = 7, hd_session_id = None, hd_latest_sequence_id = 1,
     hd_latest_state_version = 1, hd_latest_event_type = TASK_REQUESTED,
     hd_execution_mode = ''COMPLEX'', hd_is_terminal = False, hd_opened_at = sample_time,
     hd_updated_at = sample_time\<rparr>"

lemma sample_open: "open_correlations sample_db 10 = Inr [sample_head]"
  by code_simp

lemma sample_projection:
  obtains st where "project sample_validate sample_db 7 False = Inr st"
    "project sample_validate sample_db 7 True = Inr st"
    "t_phase st = CREATED" "t_attempts st = 0" "t_modality st = COMPLEX" "t_state_version st = 1"
    "session_uuid st = Inr None"
proof -
  have "case project sample_validate sample_db 7 False of
      Inl _ \<Rightarrow> False | Inr st \<Rightarrow> t_phase st = CREATED \<and> t_attempts st = 0 \<and> t_modality st = COMPLEX \<and> t_state_version st = 1 \<and>
        session_uuid st = Inr None"
    by code_simp
  moreover have "project sample_validate sample_db 7 True = project sample_validate sample_db 7 False"
    by code_simp
  ultimately show ?thesis using that by (auto split: sum.splits)
qed

lemma sample_no_snapshot: "load_snapshot sample_db 7 = None"
  by code_simp

lemma sample_latest:
  obtains e where "latest_event sample_db 7 = Inr (Some e)" "event_type e = TASK_REQUESTED"
proof -
  have "case latest_event sample_db 7 of Inr (Some e) \<Rightarrow> event_type e = TASK_REQUESTED | _ \<Rightarrow> False"
    by code_simp
  then show ?thesis using that by (auto split: sum.splits option.splits)
qed

lemma sample_fresh:
  "fresh_for (sample_env k) 7 TASK_ABANDONED ''recovery-v1'' sample_world"
  "fresh_for (sample_env k) 7 RECOVERY_REPLAY_COMPLETED ''sweep-v1'' sample_world"
proof -
  have "tail_hash (idempotency_material 7 TASK_ABANDONED 0 (Some ''recovery-v1'')) \<noteq> c_idempotency_key sample_row"
    "tail_hash (idempotency_material 7 RECOVERY_REPLAY_COMPLETED 0 (Some ''sweep-v1'')) \<noteq> c_idempotency_key sample_row"
    "str_uuid 100 \<noteq> c_event_id sample_row"
    by code_simp+
  then show "fresh_for (sample_env k) 7 TASK_ABANDONED ''recovery-v1'' sample_world"
    "fresh_for (sample_env k) 7 RECOVERY_REPLAY_COMPLETED ''sweep-v1'' sample_world"
    by (simp_all add: fresh_for_def sample_env_def sample_world_def sample_db_def)
qed

lemma sample_world_db [simp]: "w_db sample_world = sample_db"
  by (simp add: sample_world_def)

lemma sample_env_simps [simp]:
  "e_hash (sample_env k) = tail_hash" "e_validate (sample_env k) = sample_validate"
  "e_snapshotter (sample_env k) = None" "e_max_attempts (sample_env k) = k"
  by (simp_all add: sample_env_def)

lemma sample_lineage: "lineage_rows sample_db (str_uuid 7) = [sample_row]"
  by code_simp

lemma sample_heads: "heads_readable sample_db"
proof -
  obtain e where "append_tx tail_hash requested empty_db empty_db = Inr (e, sample_db)"
    using sample_append by (auto simp: append_event_Inr)
  then show ?thesis
    by (rule append_tx_heads_readable[OF _ requested_wf]) (simp add: heads_readable_def empty_db_def)
qed

lemma sample_resumed:
  obtains st w1 where "project sample_validate sample_db 7 False = Inr st" "resumable_at (sample_env 3) st"
    "recover_correlation (sample_env 3) sample_head sample_world =
      (Inr (recovery_result 7 RESUMED (t_phase st) [] [] NoDetail), w1)"
    "ledger_rows (w_db w1) \<noteq> ledger_rows sample_db" "t_modality st = COMPLEX"
proof -
  obtain st where st: "project sample_validate sample_db 7 False = Inr st" "t_phase st = CREATED"
    "t_attempts st = 0" "t_state_version st = 1" "session_uuid st = Inr None" "t_modality st = COMPLEX"
    by (rule sample_projection)
  obtain e where e: "latest_event sample_db 7 = Inr (Some e)" "event_type e = TASK_REQUESTED"
    by (rule sample_latest)
  have "str_int 1 = ''1''" by code_simp
  then obtain w1 where "recover_correlation (sample_env 3) sample_head sample_world =
      (Inr (recovery_result 7 RESUMED (t_phase st) [] [] NoDetail), w1)"
    "ledger_rows (w_db w1) \<noteq> ledger_rows sample_db"
    using recover_writes[of "sample_env 3" sample_world 7 st None sample_head e] st e sample_inv
      sample_no_snapshot sample_fresh(2)[of 3]
    by (auto simp: tail_hash_digest sample_env_ok sample_head_def resumable_at_def projection_is_terminal_def
        phase_is_terminal_def terminal_phases_def)
  then show ?thesis
    using that st by (auto simp: resumable_at_def projection_is_terminal_def phase_is_terminal_def terminal_phases_def)
qed

subsection \<open>Snapshots\<close>

text \<open>The sample with a snapshot row at version 1; what the row holds is up to the validator.\<close>

definition snapshot_db :: ledger_db where
  "snapshot_db = sample_db\<lparr>snapshot_rows :=
     [\<lparr>s_correlation_id = ''00000000-0000-0000-0000-000000000007'', s_state_version = 1,
       s_projection = JObj [], s_created_at = ''0001-01-01T00:00:00+00:00''\<rparr>]\<rparr>"

definition gate_env :: "TaskProjection \<Rightarrow> unit recovery_env" where
  "gate_env st = (sample_env 3)\<lparr>e_validate := (\<lambda>_. Inr st)\<rparr>"

definition gate_world :: "unit world" where
  "gate_world = sample_world\<lparr>w_db := snapshot_db\<lparr>ledger_rows := []\<rparr>\<rparr>"

lemma gate_projection: "project (e_validate (gate_env st)) (w_db gate_world) 7 True = Inr st"
proof -
  have "str_uuid 7 = ''00000000-0000-0000-0000-000000000007''" by code_simp
  then show ?thesis
    by (simp add: gate_env_def gate_world_def snapshot_db_def project_def load_snapshot_def snapshot_start_def
        read_correlation_def lineage_rows_def)
qed

end
