(* ===== verification/Sample_Tasks.thy ===== *)
theory Sample_Tasks
  imports Task_Runs Sample_Lineage
begin

text \<open>
  A small installation of the orchestrator: agents that always give the same answer, a queue, and an
  empty ledger, on which the properties of task runs are instantiated.
\<close>

subsection \<open>Agents that always answer alike\<close>

definition constant_agent :: "string \<Rightarrow> AgentResult \<Rightarrow> 's agent" where
  "constant_agent name r = \<lparr>ag_name = name, ag_required_permissions = [], ag_can_delegate = False,
     ag_handle = (\<lambda>msg ctx w. (Inr r, cx_tokens_spent ctx, w))\<rparr>"

lemma constant_answers:
  assumes "0 \<le> ar_tokens_consumed r"
  shows "answers env (constant_agent name r) (\<lambda>_. r) (ar_tokens_consumed r)"
  unfolding answers_def
proof (intro allI impI)
  fix msg :: AgentMessage and ctx :: AgentContext and w :: "'a rt_world"
  assume "am_deadline msg = None" "affords env ctx (ar_tokens_consumed r)"
  then show "agent_run env (constant_agent name r) msg ctx w =
      (Inr (r, ctx\<lparr>cx_tokens_spent := cx_tokens_spent ctx + ar_tokens_consumed r\<rparr>), w)"
    by (auto simp: agent_run_def missing_permissions_def constant_agent_def run_handler_def spend_def affords_def Let_def)
qed

subsection \<open>The installation\<close>

definition sample_step :: pyval where
  "sample_step = PDict [(''action'', PStr ''tidy'')]"

definition sample_plan_payload :: payload where
  "sample_plan_payload = [(''execution_steps'', PList [sample_step, sample_step])]"

definition approval :: AgentResult where
  "approval = success (PDict [(''decision'', PStr ''STATUS_APPROVED''), (''risk_score'', PInt 0)]) 5"

definition refusal :: AgentResult where
  "refusal = success (PDict [(''decision'', PStr ''STATUS_BLOCKED''), (''reason'', PStr ''no'')]) 5"

definition sample_orch :: "AgentResult \<Rightarrow> unit orch_env" where
  "sample_orch verdict = \<lparr>
     oe_ledger = \<lparr>e_hash = tail_hash, e_validate = sample_validate, e_snapshotter = None, e_requeuer = None,
       e_max_attempts = 3, e_verify_chains = True, e_uuid4 = (\<lambda>n. of_nat n + 100), e_utc_now = (\<lambda>_. sample_time)\<rparr>,
     oe_context_builder = Some (constant_agent ''builder'' (success (PDict [(''slots'', PDict [])]) 10)),
     oe_planner = Some (constant_agent ''planner'' (success (PDict sample_plan_payload) 20)),
     oe_policy = Some (constant_agent ''policy'' verdict),
     oe_worker = Some (constant_agent ''worker'' (success (PStr ''done'') 100)),
     oe_critic = Some (constant_agent ''critic'' (success (PDict [(''verdict'', PStr ''PASS'')]) 7)),
     oe_agents = [], oe_queue = Some \<lparr>backpressure_depth = 10, shed_load_depth = 50, max_delivery_attempts = 3,
       visibility_timeout_us = 100, entity_lock_ttl_us = 60\<rparr>,
     oe_backpressure = Some degrade_modality, oe_recovery = None, oe_permission_mode = AUTO,
     oe_max_step_retries = 1, oe_instant = (\<lambda>n. int n), oe_payload_of = (\<lambda>_. []), oe_text_of = (\<lambda>_. [])\<rparr>"

definition sample_request :: TaskRequest where
  "sample_request = \<lparr>tr_goal = ''tidy up'', tr_modality = Some COMPLEX, tr_session_id = None,
     tr_workspace_path = None, tr_target_agent = None, tr_required_slots = None, tr_metadata = None\<rparr>"

definition sample_rt_world :: "ledger_db \<Rightarrow> unit rt_world" where
  "sample_rt_world db = \<lparr>w_db = db, w_marks = [],
     w_fs = \<lparr>rt_registry = \<lparr>dr_graphs = [], dr_max_depth = 2, dr_max_nodes = 7\<rparr>, rt_queue = [], rt_agents = ()\<rparr>,
     w_queue = [], w_tick = 0\<rparr>"

definition sample_script :: script where
  "sample_script = \<lparr>sc_packet = [(''slots'', PDict [])], sc_plan = sample_plan_payload, sc_steps = [sample_step, sample_step],
     sc_builder_cost = 10, sc_planner_cost = 20, sc_policy_cost = 5\<rparr>"

lemma sample_answers:
  "answers env (constant_agent name (success v 10)) (\<lambda>_. success v 10) 10"
  "answers env (constant_agent name (success v 20)) (\<lambda>_. success v 20) 20"
  "answers env (constant_agent name (success v 5)) (\<lambda>_. success v 5) 5"
  "answers env (constant_agent name (success v 100)) (\<lambda>_. success v 100) 100"
  "answers env (constant_agent name (success v 7)) (\<lambda>_. success v 7) 7"
  using constant_answers[of "success v 10" env name] constant_answers[of "success v 20" env name]
    constant_answers[of "success v 5" env name] constant_answers[of "success v 100" env name]
    constant_answers[of "success v 7" env name] by (simp_all add: success_def)

lemma sample_prepares: "prepares (sample_orch verdict) STANDARD sample_script"
proof -
  let ?b = "success (PDict [(''slots'', PDict [])]) 10" and ?p = "success (PDict sample_plan_payload) 20"
  have b: "\<exists>b f. oe_context_builder (sample_orch verdict) = Some b \<and> answers (sample_orch verdict) b f (sc_builder_cost sample_script) \<and>
      (\<forall>msg. ar_ok (f msg) \<and> ar_value (f msg) = PDict (sc_packet sample_script))"
    by (rule exI[of _ "constant_agent ''builder'' ?b"], rule exI[of _ "\<lambda>_. ?b"])
      (simp add: sample_answers sample_orch_def sample_script_def, simp add: success_def)
  have p: "\<exists>b f. oe_planner (sample_orch verdict) = Some b \<and> answers (sample_orch verdict) b f (sc_planner_cost sample_script) \<and>
      (\<forall>msg. ar_ok (f msg) \<and> ar_value (f msg) = PDict (sc_plan sample_script))"
    by (rule exI[of _ "constant_agent ''planner'' ?p"], rule exI[of _ "\<lambda>_. ?p"])
      (simp add: sample_answers sample_orch_def sample_script_def, simp add: success_def)
  show ?thesis
    unfolding prepares_def using b p
    by (simp add: sample_script_def sample_plan_payload_def sample_step_def encodable_members storable_value_list
        pget_def dict_get_default_def dict_get_def max_plan_nodes_def)
qed

lemma sample_clears: "clears (sample_orch approval) sample_script"
  unfolding clears_def
  by (rule exI[of _ "constant_agent ''policy'' approval"], rule exI[of _ "\<lambda>_. approval"],
      rule exI[of _ "[(''decision'', PStr ''STATUS_APPROVED''), (''risk_score'', PInt 0)]"])
    (simp add: approval_def sample_answers sample_orch_def sample_script_def, simp add: success_def pget_def dict_get_default_def dict_get_def)

lemma sample_refuses: "refuses (sample_orch refusal) sample_script POLICY_BLOCKED"
  unfolding refuses_def
  by (rule exI[of _ "constant_agent ''policy'' refusal"], rule exI[of _ "\<lambda>_. refusal"])
    (simp add: refusal_def sample_answers sample_orch_def sample_script_def,
      simp add: success_def is_blocked_verdict_def as_dict_def pget_def dict_get_default_def dict_get_def block_payload_def
        block_event_def encodable_members dict_merge_def nonempty_or_def)

lemma sample_performs: "performs (sample_orch verdict) STANDARD"
proof -
  let ?w = "success (PStr ''done'') 100" and ?c = "success (PDict [(''verdict'', PStr ''PASS'')]) 7"
  have w: "\<exists>a f cost. oe_worker (sample_orch verdict) = Some a \<and> answers (sample_orch verdict) a f cost \<and> quota_covers STANDARD cost \<and>
      (\<forall>msg. ar_ok (f msg))"
    by (rule exI[of _ "constant_agent ''worker'' ?w"], rule exI[of _ "\<lambda>_. ?w"], rule exI[of _ 100])
      (simp add: sample_answers sample_orch_def, simp add: success_def quota_covers_def)
  have c: "\<exists>f cost. answers (sample_orch verdict) (constant_agent ''critic'' ?c) f cost \<and> quota_covers STANDARD cost \<and>
      (\<forall>msg. ar_ok (f msg) \<and> pget (as_dict (ar_value (f msg))) ''verdict'' = PStr ''PASS'')"
    by (rule exI[of _ "\<lambda>_. ?c"], rule exI[of _ 7])
      (simp add: sample_answers, simp add: success_def quota_covers_def as_dict_def pget_def dict_get_default_def dict_get_def)
  show ?thesis unfolding performs_def using w c by (simp add: sample_orch_def)
qed

subsection \<open>A new task\<close>

definition key_list :: "(EventType \<times> int \<times> string option) list" where
  "key_list = map once [TASK_REQUESTED, TASK_QUEUED, CONTEXT_HYDRATION_REQUESTED, CONTEXT_HYDRATED, PLAN_COMPILED,
     POLICY_CLEARED, POLICY_BLOCKED, SECURITY_VIOLATION, MUTATION_COMMITTED] @
     concat (map (\<lambda>i. map (\<lambda>t. (t, 0, Some (step_name i))) [EXECUTION_STARTED, CRITIQUE_CONCLUDED, EXECUTION_COMPLETED]) [0, 1])"

lemma key_list: "all_keys 2 = set key_list"
proof -
  have "{0..<2::nat} = {0, 1}" by auto
  then have "steps_keys 0 2 = step_keys 0 \<union> step_keys 1" by (simp add: steps_keys_def)
  then show ?thesis
    unfolding all_keys_def task_keys_def submit_keys_def prepared_keys_def prepared_types_def key_list_def step_keys_def by auto
qed

lemma sample_keys_distinct: "distinct (map (event_key (sample_orch verdict) 100) key_list)"
proof -
  have "distinct (map (\<lambda>k. tail_hash (idempotency_material 100 (fst k) (fst (snd k)) (snd (snd k)))) key_list)"
    by code_simp
  moreover have "event_key (sample_orch verdict) 100 =
      (\<lambda>k. tail_hash (idempotency_material 100 (fst k) (fst (snd k)) (snd (snd k))))"
    by (simp add: event_key_def sample_orch_def fun_eq_iff)
  ultimately show ?thesis by simp
qed

lemma sample_ids_distinct: "distinct (map (\<lambda>n. of_nat n + 100 :: uuid) [0..<40])"
  by code_simp

lemma sample_orch_ok: "orch_ok (sample_orch verdict) 100 40 (all_keys 2)"
proof -
  have "{..<40::nat} = set [0..<40]" by auto
  then have "inj_on (e_uuid4 (oe_ledger (sample_orch verdict))) {..<40}"
    using sample_ids_distinct by (simp only: distinct_map) (simp add: sample_orch_def)
  moreover have "inj_on (event_key (sample_orch verdict) 100) (all_keys 2)"
    unfolding key_list using sample_keys_distinct by (simp add: distinct_map)
  moreover have "env_ok (oe_ledger (sample_orch verdict))"
    by (simp add: sample_orch_def env_ok_def sample_time_def valid_datetime_def)
  ultimately show ?thesis by (simp add: orch_ok_def sample_orch_def tail_hash_digest)
qed

lemma sample_new_task: "c \<le> 40 \<Longrightarrow> new_task (sample_orch verdict) 100 40 2 c (sample_rt_world empty_db)"
proof -
  assume "c \<le> 40"
  have "read_correlation empty_db 100 0 = Inr []" "load_snapshot empty_db 100 = None" by code_simp+
  then have "lineage_at 100 [] (new_projection (str_uuid 100)) (sample_rt_world empty_db)"
    using ledger_inv_empty by (simp add: lineage_at_def sample_rt_world_def)
  moreover have "room (sample_orch verdict) 100 40 (all_keys 2) c (sample_rt_world empty_db)"
    using \<open>c \<le> 40\<close> by (simp add: room_def sample_rt_world_def known_ids_def known_keys_def empty_db_def)
  ultimately show ?thesis
    using sample_orch_ok by (simp add: new_task_def stage_def queue_open_def sample_orch_def sample_rt_world_def)
qed

lemma sample_requested_modality: "apply_backpressure (sample_orch verdict) (requested_modality sample_request) = STANDARD"
  by (simp add: requested_modality_def sample_request_def apply_backpressure_def sample_orch_def)

lemma sample_request_encodable: "encodable (request_dict sample_request)"
  by code_simp

subsection \<open>A step that has been executed before\<close>

definition step_event :: "EventType \<Rightarrow> uuid \<Rightarrow> LedgerEvent" where
  "step_event t i = (sample_event t [])\<lparr>event_id := i, discriminator := Some ''step-0''\<rparr>"

definition executed_db :: ledger_db where
  "executed_db = snd (append_event tail_hash (step_event EXECUTION_COMPLETED 2)
     (snd (append_event tail_hash (step_event EXECUTION_STARTED 1) empty_db)))"

definition executed_env :: "unit orch_env" where
  "executed_env = (sample_orch approval)\<lparr>oe_critic := None\<rparr>"

definition sample_context :: AgentContext where
  "sample_context = \<lparr>cx_correlation_id = 7, cx_session_id = None, cx_task_id = 9, cx_parent_task_id = None,
     cx_modality = STANDARD, cx_permission_mode = AUTO, cx_recursion_depth = 0, cx_tokens_budget = 2048, cx_tokens_spent = 0\<rparr>"

lemma executed_db_inv: "chain_inv executed_db"
proof -
  have "wf_event (step_event t i)" for t i
    by (simp add: step_event_def sample_event_def wf_event_def sample_time_def valid_datetime_def)
  then show ?thesis
    using append_event_ledger_inv ledger_inv_empty(1) unfolding executed_db_def ledger_inv_def by blast
qed

lemma executed_keys:
  "event_key executed_env 7 (EXECUTION_STARTED, 0, Some (step_name 0)) \<in> known_keys (sample_rt_world executed_db)"
  "event_key executed_env 7 (EXECUTION_COMPLETED, 0, Some (step_name 0)) \<in> known_keys (sample_rt_world executed_db)"
proof -
  have "list_all (\<lambda>t. tail_hash (idempotency_material 7 t 0 (Some (step_name 0))) \<in> set (map c_idempotency_key (ledger_rows executed_db)))
      [EXECUTION_STARTED, EXECUTION_COMPLETED]"
    by code_simp
  then show "event_key executed_env 7 (EXECUTION_STARTED, 0, Some (step_name 0)) \<in> known_keys (sample_rt_world executed_db)"
    "event_key executed_env 7 (EXECUTION_COMPLETED, 0, Some (step_name 0)) \<in> known_keys (sample_rt_world executed_db)"
    by (simp_all add: event_key_def executed_env_def sample_orch_def known_keys_def sample_rt_world_def)
qed

subsection \<open>A task that waits\<close>

definition waiting :: TaskProjection where
  "waiting = (new_projection (str_uuid 7))\<lparr>t_phase := AWAITING_HUMAN, t_context_packet := PDict []\<rparr>"

definition waiting_env :: "unit orch_env" where
  "waiting_env = (sample_orch approval)\<lparr>oe_ledger := (oe_ledger (sample_orch approval))\<lparr>e_validate := (\<lambda>_. Inr waiting)\<rparr>\<rparr>"

lemma waiting_projection:
  "project (e_validate (oe_ledger waiting_env)) (snapshot_db\<lparr>ledger_rows := []\<rparr>) 7 True = Inr waiting"
  "read_correlation (snapshot_db\<lparr>ledger_rows := []\<rparr>) 7 0 = Inr []"
proof -
  have "str_uuid 7 = ''00000000-0000-0000-0000-000000000007''" by code_simp
  then show "project (e_validate (oe_ledger waiting_env)) (snapshot_db\<lparr>ledger_rows := []\<rparr>) 7 True = Inr waiting"
    "read_correlation (snapshot_db\<lparr>ledger_rows := []\<rparr>) 7 0 = Inr []"
    by (simp_all add: waiting_env_def snapshot_db_def project_def load_snapshot_def snapshot_start_def
        read_correlation_def lineage_rows_def)
qed

subsection \<open>A gate history\<close>

definition gate_event :: "EventType \<Rightarrow> string \<Rightarrow> LedgerEvent" where
  "gate_event t d = (sample_event t [])\<lparr>agent_role := Some ''policy_risk'', discriminator := Some d\<rparr>"

definition gate_events :: "LedgerEvent list" where
  "gate_events = [gate_event AWAITING_HUMAN_ATTESTATION ''gate:policy_risk:1'',
     gate_event HUMAN_GATE_CLEARED ''gate:policy_risk:1'', gate_event AWAITING_HUMAN_ATTESTATION ''gate:policy_risk:2'']"

lemma gate_events_lineage: "gate_lineage gate_events"
proof -
  let ?a = "gate_event AWAITING_HUMAN_ATTESTATION ''gate:policy_risk:1''" and ?c = "gate_event HUMAN_GATE_CLEARED ''gate:policy_risk:1''"
    and ?b = "gate_event AWAITING_HUMAN_ATTESTATION ''gate:policy_risk:2''"
  have names: "gate_discriminator (gate_history []) POLICY_RISK = ''gate:policy_risk:1''"
    "gate_discriminator (gate_history [?a, ?c]) POLICY_RISK = ''gate:policy_risk:2''" by code_simp+
  have q: "stage_question (gate_history []) POLICY_RISK = None"
    "(case stage_question (gate_history [?a, ?c]) POLICY_RISK of None \<Rightarrow> False | Some q \<Rightarrow> gq_answered q)" by code_simp+
  have 1: "gate_lineage ([] @ [?a])"
    by (rule gl_ask[OF gl_start, where role = POLICY_RISK]) (simp_all add: names(1) q(1) gate_event_def sample_event_def)
  have 2: "gate_lineage (([] @ [?a]) @ [?c])" by (rule gl_answer[OF 1]) (simp add: gate_event_def sample_event_def)
  have "gate_lineage ((([] @ [?a]) @ [?c]) @ [?b])"
  proof (rule gl_ask[OF 2, where role = POLICY_RISK])
    show "\<forall>q. stage_question (gate_history (([] @ [?a]) @ [?c])) POLICY_RISK = Some q \<longrightarrow> gq_answered q"
      using q(2) by (auto split: option.splits)
    show "discriminator ?b = Some (gate_discriminator (gate_history (([] @ [?a]) @ [?c])) POLICY_RISK)"
      using names(2) by (simp add: gate_event_def[of _ "''gate:policy_risk:2''"])
  qed (simp_all add: gate_event_def sample_event_def)
  then show ?thesis by (simp add: gate_events_def)
qed

end
