(* ===== verification/Sample_Policy.thy ===== *)
theory Sample_Policy
  imports Policy_Review Sample_Tasks
begin

text \<open>
  A policy agent without operator rules, anti-goals or embedder, and a plan whose second step deletes a directory, on
  which the properties of the policy gate are instantiated.
\<close>

definition sample_policy :: "unit policy_env" where
  "sample_policy = \<lparr>pe_settings = default_policy_settings, pe_rules = None, pe_workspace_root = True, pe_anti_goals = [],
     pe_embed = None, pe_dot = (\<lambda>_ _. NaN)\<rparr>"

definition delete_step :: step where
  "delete_step = [(''action'', PStr ''clean''), (''command'', PList [PStr ''rm'', PStr ''-rf'', PStr ''build''])]"

definition tidy_step :: step where
  "tidy_step = [(''action'', PStr ''tidy''), (''required_permissions'', PList [PStr ''PERM_WRITE_HOT''])]"

definition delete_steps :: "step list" where
  "delete_steps = [tidy_step, delete_step]"

lemma delete_command: "flat (PList [PStr ''rm'', PStr ''-rf'', PStr ''build'']) = ''rm -rf build''"
  by simp

lemma delete_found: "rx_search rm_pattern ''rm -rf build''"
proof -
  let ?f = "RSet (\<lambda>c. c \<in> set ''rRfF'')"
  have "rx_match RBound (None, ''rm -rf build'') (None, ''rm -rf build'')"
    by (rule match_bound) (simp add: word_before_def word_after_def is_word_def)
  moreover have "rx_match (rx_text ''rm'') (None, ''rm'' @ '' -rf build'') (pos_at None ''rm'' '' -rf build'')"
    by (rule match_text) simp_all
  moreover have "rx_match rx_spaces (Some CHR ''m'', '' '' @ ''-rf build'') (pos_at (Some CHR ''m'') '' '' ''-rf build'')"
    unfolding rx_spaces_def rx_space_def by (rule match_plus_set) (simp_all add: is_space_def)
  moreover have "rx_match (rx_text ''-'') (Some CHR '' '', ''-'' @ ''rf build'') (pos_at (Some CHR '' '') ''-'' ''rf build'')"
    by (rule match_text) simp_all
  moreover have "rx_match ?f (Some CHR ''-'', ''rf build'') (Some CHR ''r'', ''f build'')"
    by (rule match_set) simp
  moreover have "rx_match (rx_opt ?f) (Some CHR ''r'', ''f build'') (Some CHR ''f'', '' build'')"
    unfolding rx_opt_def by (rule match_left, rule match_set) simp
  moreover have "rx_match RBound (Some CHR ''f'', '' build'') (Some CHR ''f'', '' build'')"
    by (rule match_bound) (simp add: word_before_def word_after_def is_word_def)
  ultimately have "rx_match rm_pattern (None, ''rm -rf build'') (Some CHR ''f'', '' build'')"
    unfolding rm_pattern_def by (simp del: rx_text.simps) (blast intro: match_seq)
  then have "rx_match rm_pattern (pos_at None [] ''rm -rf build'') (Some CHR ''f'', '' build'')" by simp
  then show ?thesis unfolding rx_search_iff by (metis append_Nil)
qed

lemma delete_pattern_listed: "(rm_pattern, ''recursive force delete'') \<in> set irreversible_patterns"
  by (simp add: irreversible_patterns_def)

lemma delete_parts: "''rm -rf build'' \<in> set (plan_parts ''tidy up'' delete_steps)"
  by (simp add: plan_parts_def delete_steps_def delete_step_def tidy_step_def)

lemma delete_text: "irreversible_text (render ''tidy up'' delete_steps)"
  using found_in_part[OF disjI1[OF delete_pattern_listed] delete_parts delete_found] delete_pattern_listed
  by (auto simp: irreversible_text_def)

subsection \<open>Judged by the gate\<close>

lemma sample_profile: "risk_profile tidy_step = Inr (Finite 0)" "risk_profile delete_step = Inr (Finite 0)"
proof -
  have "milli_repr 0 = ''0.0''" by code_simp
  then have "float_of_text ''0.0'' = Inr (Finite 0)" using read_milli_repr[of 0] by simp
  then show "risk_profile tidy_step = Inr (Finite 0)" "risk_profile delete_step = Inr (Finite 0)"
    by (simp_all add: risk_profile_def tidy_step_def delete_step_def dict_get_default_def dict_get_def py_float_def)
qed

lemma default_settings:
  "setting ''0.9'' = Finite (fl (900 / 1000))" "setting ''0.8'' = Finite (fl (800 / 1000))"
proof -
  have "milli_repr 900 = ''0.9''" "milli_repr 800 = ''0.8''" by code_simp+
  then show "setting ''0.9'' = Finite (fl (900 / 1000))" "setting ''0.8'' = Finite (fl (800 / 1000))"
    using read_milli_repr[of 900] read_milli_repr[of 800] by (simp_all add: setting_def)
qed

lemma sample_limit: "\<not> f_leq (setting (ps_always_gate_risk_profile default_policy_settings)) (Finite 0)"
  using fl_bounds(1)[of 1 "900 / 1000"] by (simp add: default_policy_settings_def default_settings f_leq_def)

lemma sample_floor: "f_less (Finite (201 / 1000)) (setting (ps_auto_confidence_floor (pe_settings sample_policy)))"
  using fl_bounds(1)[of 1 "800 / 1000"] by (simp add: sample_policy_def default_policy_settings_def default_settings)

lemma sample_not_gated: "\<not> always_gated (pe_settings sample_policy) delete_steps"
  using sample_profile sample_limit
  by (auto simp: always_gated_def sample_policy_def delete_steps_def) (simp_all add: tidy_step_def delete_step_def dict_get_default_def dict_get_def)

lemma sample_permissions: "check_permissions delete_steps AUTO = Inr None" "check_permissions delete_steps HIGH_RISK = Inr None"
  by code_simp+

lemma sample_paths: "check_paths sample_policy (render ''tidy up'' delete_steps) = None"
proof -
  have "list_all (\<lambda>r. \<not> has_part (lower r) (lower (render ''tidy up'' delete_steps))) forbidden_write_roots"
    "list_all (\<lambda>u. \<not> has_part ''..'' u) (quoted_paths (render ''tidy up'' delete_steps))" by code_simp+
  then show ?thesis unfolding check_paths_iff by (auto simp: list_all_iff has_part_iff)
qed

lemma sample_scored: "\<exists>risk gate reason. score_plan sample_policy mode delete_steps blob = Inr (approved risk gate reason)"
proof -
  obtain risk where risk: "risk_score delete_steps blob = Inr risk"
    by (auto simp: risk_score_def delete_steps_def sample_profile rbind_def)
  have "exceeds_profile (setting (ps_always_gate_risk_profile default_policy_settings)) delete_steps = Inr False"
    by (simp add: delete_steps_def sample_profile sample_limit rbind_def)
  then have "\<exists>x. needs_gate (pe_settings sample_policy) risk delete_steps mode = Inr x"
    by (simp add: needs_gate_def sample_policy_def rbind_def)
  then obtain gate reason where "needs_gate (pe_settings sample_policy) risk delete_steps mode = Inr (gate, reason)"
    by (metis prod.collapse)
  with risk have "score_plan sample_policy mode delete_steps blob = Inr (approved risk gate reason)"
    by (simp add: score_plan_def rbind_def)
  then show ?thesis by blast
qed

lemma sample_judged:
  assumes "mode = AUTO \<or> mode = HIGH_RISK"
  obtains v where "judge_plan sample_policy mode ''tidy up'' delete_steps None = (Inr v, Some [])" "pv_decision v = ''STATUS_APPROVED''"
proof -
  let ?blob = "render ''tidy up'' delete_steps"
  obtain risk gate reason where s: "score_plan sample_policy mode delete_steps ?blob = Inr (approved risk gate reason)"
    using sample_scored by blast
  have c: "check_permissions delete_steps mode = Inr None" "check_lockdown ?blob delete_steps mode = Inr None"
    "check_irreversible ?blob mode = None" using assms sample_permissions by (auto simp: check_lockdown_def check_irreversible_def)
  have "load_rules sample_policy None = (Inr [], Some [])" "check_rules [] ?blob = None" "check_anti_goals sample_policy ?blob = Inr None"
    by (simp_all add: load_rules_def sample_policy_def check_rules_def check_anti_goals_def)
  then have "judge_plan sample_policy mode ''tidy up'' delete_steps None = (Inr (approved risk gate reason), Some [])"
    unfolding judge_plan_def Let_def c sample_paths rbind_def using s by simp
  then show ?thesis using that by (simp add: approved_def)
qed

lemma sample_handled:
  obtains r where "policy_handle sample_policy AUTO [(''steps'', PList (map PDict delete_steps)), (''goal'', PStr ''tidy up'')] None =
    (Inr r, Some [])"
proof -
  obtain v where v: "judge_plan sample_policy AUTO ''tidy up'' delete_steps None = (Inr v, Some [])" by (rule sample_judged[of AUTO]) simp_all
  have "as_steps (map PDict ss) = Inr ss" for ss by (induction ss) (simp_all add: rbind_def)
  then have "plan_of [(''steps'', PList (map PDict delete_steps)), (''goal'', PStr ''tidy up'')] = Inr (''tidy up'', delete_steps)"
    by (simp add: plan_of_def dict_get_default_def dict_get_def iterated_def rbind_def)
  then show ?thesis using v that by (simp add: policy_handle_def)
qed

subsection \<open>Installed in the orchestrator\<close>

definition delete_script :: script where
  "delete_script = \<lparr>sc_packet = [(''slots'', PDict [])], sc_plan = [(''execution_steps'', PList (map PDict delete_steps))],
     sc_steps = map PDict delete_steps, sc_builder_cost = 10, sc_planner_cost = 20, sc_policy_cost = 0\<rparr>"

definition safe_orch :: "unit orch_env" where
  "safe_orch = (sample_orch approval)\<lparr>oe_permission_mode := SAFE,
     oe_planner := Some (constant_agent ''planner'' (success (PDict (sc_plan delete_script)) 20)),
     oe_policy := Some (policy_agent (sample_orch approval) sample_policy [])\<rparr>"

lemma safe_orch_policy: "oe_policy safe_orch = Some (policy_agent safe_orch sample_policy [])"
proof -
  have "raise_py safe_orch = raise_py (sample_orch approval)" by (simp add: fun_eq_iff raise_py_def safe_orch_def)
  then have "policy_agent safe_orch sample_policy [] = policy_agent (sample_orch approval) sample_policy []"
    unfolding policy_agent_def by (simp only:)
  then show ?thesis by (simp add: safe_orch_def)
qed

lemma safe_prepares: "prepares safe_orch STANDARD delete_script"
proof -
  let ?b = "success (PDict [(''slots'', PDict [])]) 10" and ?p = "success (PDict (sc_plan delete_script)) 20"
  have b: "\<exists>b f. oe_context_builder safe_orch = Some b \<and> answers safe_orch b f (sc_builder_cost delete_script) \<and>
      (\<forall>msg. ar_ok (f msg) \<and> ar_value (f msg) = PDict (sc_packet delete_script))"
    by (rule exI[of _ "constant_agent ''builder'' ?b"], rule exI[of _ "\<lambda>_. ?b"])
      (simp add: sample_answers sample_orch_def safe_orch_def delete_script_def, simp add: success_def)
  have p: "\<exists>b f. oe_planner safe_orch = Some b \<and> answers safe_orch b f (sc_planner_cost delete_script) \<and>
      (\<forall>msg. ar_ok (f msg) \<and> ar_value (f msg) = PDict (sc_plan delete_script))"
    by (rule exI[of _ "constant_agent ''planner'' ?p"], rule exI[of _ "\<lambda>_. ?p"])
      (simp add: sample_answers safe_orch_def delete_script_def, simp add: success_def)
  show ?thesis
    unfolding prepares_def using b p
    by (simp add: delete_script_def delete_steps_def delete_step_def tidy_step_def encodable_members storable_value_list
        pget_def dict_get_default_def dict_get_def max_plan_nodes_def)
qed

lemma safe_new_task: "new_task safe_orch 100 40 2 12 (sample_rt_world empty_db)"
proof -
  have same: "oe_ledger safe_orch = oe_ledger (sample_orch approval)" "oe_queue safe_orch = oe_queue (sample_orch approval)"
    by (simp_all add: safe_orch_def)
  then have key: "event_key safe_orch = event_key (sample_orch approval)" "hash_of safe_orch = hash_of (sample_orch approval)"
    by (simp_all add: fun_eq_iff event_key_def)
  then have "room safe_orch = room (sample_orch approval)" using same by (intro ext) (simp add: room_def)
  with same key sample_new_task[of 12 approval] show ?thesis by (simp add: new_task_def stage_def queue_open_def orch_ok_def)
qed

lemma delete_reloaded: "PDict delete_step \<in> set (map reloaded_value (sc_steps delete_script))"
  by (simp add: delete_script_def delete_steps_def) (simp add: delete_step_def reloaded_value_def)

end
