(* ===== verification/Queue_Delivery.thy ===== *)
theory Queue_Delivery
  imports Message_Queue
begin

text \<open>
  The delivery contract of \<open>MessageQueue\<close> as an interface, its consequence for every consumer (a
  message is delivered at most \<open>max_attempts\<close> times, and never to two consumers at once), and the
  proof that the SQLite backend meets it.
\<close>

subsection \<open>Runs\<close>

text \<open>A sequence of operations by any consumers; the result lists the ids delivered, in order.\<close>

primrec run_ops :: "('op \<Rightarrow> 's \<Rightarrow> string list \<times> 's) \<Rightarrow> 'op list \<Rightarrow> 's \<Rightarrow> string list \<times> 's" where
  "run_ops step [] s = ([], s)"
| "run_ops step (op # ops) s =
     (let (ds, s1) = step op s; (rest, s2) = run_ops step ops s1 in (ds @ rest, s2))"

lemma distinct_count_list: "distinct xs \<Longrightarrow> x \<in> set xs \<Longrightarrow> count_list xs x = 1"
  by (induction xs) (auto simp: count_list_0_iff)

subsection \<open>The contract\<close>

locale delivery_protocol =
  fixes inv :: "'s \<Rightarrow> bool"
    and status :: "'s \<Rightarrow> string \<Rightarrow> status option"
    and attempts :: "'s \<Rightarrow> string \<Rightarrow> int"
    and ceiling_of :: "'s \<Rightarrow> string \<Rightarrow> int"
    and step :: "'op \<Rightarrow> 's \<Rightarrow> string list \<times> 's"
  assumes step_inv: "inv s \<Longrightarrow> inv (snd (step op s))"
    and delivered_once: "inv s \<Longrightarrow> distinct (fst (step op s))"
    and delivered: "inv s \<Longrightarrow> i \<in> set (fst (step op s)) \<Longrightarrow>
      status s i = Some Ready \<and> status (snd (step op s)) i = Some Claimed"
    and kept: "inv s \<Longrightarrow> status s i \<noteq> None \<Longrightarrow>
      status (snd (step op s)) i \<noteq> None \<and> ceiling_of (snd (step op s)) i = ceiling_of s i \<and>
      attempts s i \<le> attempts (snd (step op s)) i"
    and returned: "inv s \<Longrightarrow> status s i = Some Claimed \<Longrightarrow>
      status (snd (step op s)) i = Some Ready \<or> status (snd (step op s)) i = Some Dead \<Longrightarrow>
      attempts s i < attempts (snd (step op s)) i"
    and settled: "inv s \<Longrightarrow> status s i = Some Done \<or> status s i = Some Dead \<Longrightarrow>
      status (snd (step op s)) i = status s i"
    and below: "inv s \<Longrightarrow> status s i \<noteq> None \<Longrightarrow> status s i \<noteq> Some Dead \<Longrightarrow> attempts s i < ceiling_of s i"
    and at_most: "inv s \<Longrightarrow> status s i = Some Dead \<Longrightarrow> attempts s i \<le> ceiling_of s i"
begin

lemma run_inv: "inv s \<Longrightarrow> inv (snd (run_ops step ops s))"
  by (induction ops arbitrary: s) (simp_all add: split_beta step_inv)

text \<open>A claimed message is not delivered again until the claim has ended.\<close>

lemma not_delivered_while_claimed:
  "inv s \<Longrightarrow> status s i = Some Claimed \<Longrightarrow> i \<notin> set (fst (step op s))"
  using delivered by fastforce

definition spent :: "'s \<Rightarrow> string \<Rightarrow> int" where
  "spent s i = attempts s i + (if status s i = Some Claimed \<or> status s i = Some Done then 1 else 0)"

lemma spent_le: "inv s \<Longrightarrow> status s i \<noteq> None \<Longrightarrow> spent s i \<le> ceiling_of s i"
  using below[of s i] at_most[of s i] by (cases "status s i = Some Dead") (auto simp: spent_def)

lemma spent_step:
  assumes "inv s" "status s i \<noteq> None"
  shows "spent s i + int (count_list (fst (step op s)) i) \<le> spent (snd (step op s)) i"
proof (cases "i \<in> set (fst (step op s))")
  case True
  then have "count_list (fst (step op s)) i = 1"
    using delivered_once[OF assms(1), of op] by (simp add: distinct_count_list)
  moreover have "status s i = Some Ready" "status (snd (step op s)) i = Some Claimed"
    using delivered[OF assms(1) True] by simp_all
  ultimately show ?thesis using kept[OF assms, of op] by (simp add: spent_def)
next
  case False
  then have zero: "count_list (fst (step op s)) i = 0" by (simp add: count_list_0_iff)
  obtain x where x: "status s i = Some x" using assms(2) by blast
  obtain y where y: "status (snd (step op s)) i = Some y" using kept[OF assms, of op] by blast
  show ?thesis
    using zero x y kept[OF assms, of op] returned[OF assms(1), of i op] settled[OF assms(1), of i op]
    by (cases x; cases y) (auto simp: spent_def)
qed

lemma deliveries_spent:
  assumes "inv s" "status s i \<noteq> None"
  shows "spent s i + int (count_list (fst (run_ops step ops s)) i) \<le> spent (snd (run_ops step ops s)) i
    \<and> status (snd (run_ops step ops s)) i \<noteq> None \<and> ceiling_of (snd (run_ops step ops s)) i = ceiling_of s i"
  using assms
proof (induction ops arbitrary: s)
  case (Cons op ops)
  have s1: "inv (snd (step op s))" "status (snd (step op s)) i \<noteq> None"
    "ceiling_of (snd (step op s)) i = ceiling_of s i"
    using step_inv Cons.prems kept by auto
  show ?case using Cons.IH[OF s1(1,2)] s1(3) spent_step[OF Cons.prems, of op]
    by (simp add: split_beta)
qed simp

lemma delivery_bound:
  assumes "inv s" "status s i = Some Ready"
  shows "int (count_list (fst (run_ops step ops s)) i) \<le> ceiling_of s i - attempts s i"
  using deliveries_spent[of s i ops] spent_le[OF run_inv, of s ops i] assms by (simp add: spent_def)

end

subsection \<open>The SQLite backend\<close>

definition row_inv :: "queue_row \<Rightarrow> bool" where
  "row_inv r \<longleftrightarrow>
     0 \<le> q_attempts r \<and> 1 \<le> q_max_attempts r \<and> q_attempts r \<le> q_max_attempts r \<and>
     (q_status r \<noteq> Dead \<longrightarrow> q_attempts r < q_max_attempts r) \<and>
     (\<exists>p. payload_of_json (q_payload r) = Inr p)"

definition queue_inv :: "queue \<Rightarrow> bool" where
  "queue_inv q \<longleftrightarrow> distinct (map q_id q) \<and> (\<forall>r \<in> set q. row_inv r)"

definition find_row :: "queue \<Rightarrow> string \<Rightarrow> queue_row option" where
  "find_row q i = find (\<lambda>r. q_id r = i) q"

definition status_of :: "queue \<Rightarrow> string \<Rightarrow> status option" where
  "status_of q i = map_option q_status (find_row q i)"

definition attempts_of :: "queue \<Rightarrow> string \<Rightarrow> int" where
  "attempts_of q i = (case find_row q i of None \<Rightarrow> 0 | Some r \<Rightarrow> q_attempts r)"

definition max_attempts_of :: "queue \<Rightarrow> string \<Rightarrow> int" where
  "max_attempts_of q i = (case find_row q i of None \<Rightarrow> 0 | Some r \<Rightarrow> q_max_attempts r)"

datatype queue_op =
    OpEnqueue string instant StreamName payload int "uuid option" "uuid option" int "int option"
  | OpClaim instant StreamName string int "int option"
  | OpAck instant string
  | OpNack instant string string int
  | OpReclaim instant

text \<open>The ids that an operation hands to a consumer, and the table it leaves.\<close>

fun queue_step :: "QueueSettings \<Rightarrow> queue_op \<Rightarrow> queue \<Rightarrow> string list \<times> queue" where
  "queue_step cfg (OpEnqueue i now stream p prio cid sid delay_us max_att) q =
     (case enqueue cfg i now stream p prio cid sid delay_us max_att q of
        Inl _ \<Rightarrow> ([], q) | Inr (_, q') \<Rightarrow> ([], q'))"
| "queue_step cfg (OpClaim now stream consumer limit timeout) q =
     (case claim cfg now stream consumer limit timeout q of
        (Inl _, q') \<Rightarrow> ([], q') | (Inr ms, q') \<Rightarrow> (map msg_id ms, q'))"
| "queue_step cfg (OpAck now i) q = ([], snd (ack now i q))"
| "queue_step cfg (OpNack now i err delay_us) q = ([], snd (nack now i err delay_us q))"
| "queue_step cfg (OpReclaim now) q = ([], snd (reclaim_expired now q))"

text \<open>Every operation but \<open>enqueue\<close> maps a function that keeps identities over the rows.\<close>

definition keeps_id :: "(queue_row \<Rightarrow> queue_row) \<Rightarrow> bool" where
  "keeps_id g \<longleftrightarrow> (\<forall>r. q_id (g r) = q_id r)"

lemma find_row_map: "keeps_id g \<Longrightarrow> find_row (map g q) i = map_option g (find_row q i)"
  by (induction q) (auto simp: find_row_def keeps_id_def)

lemma find_row_Some: "find_row q i = Some r \<Longrightarrow> r \<in> set q \<and> q_id r = i"
  by (auto simp: find_row_def find_Some_iff)

lemma find_row_unique: "distinct (map q_id q) \<Longrightarrow> r \<in> set q \<Longrightarrow> find_row q (q_id r) = Some r"
  by (induction q) (auto simp: find_row_def)

lemma queue_inv_map:
  assumes "queue_inv q" "keeps_id g" "\<And>r. r \<in> set q \<Longrightarrow> row_inv (g r)"
  shows "queue_inv (map g q)"
  using assms by (auto simp: queue_inv_def keeps_id_def comp_def)

lemma fold_update_ids:
  assumes "keeps_id f" "distinct (map q_id rows)"
  shows "fold (\<lambda>r. update_id (q_id r) f) rows q =
    map (\<lambda>x. if q_id x \<in> q_id ` set rows then f x else x) q"
  using assms(2)
proof (induction rows arbitrary: q)
  case (Cons r rows)
  then show ?case using assms(1)
    by (auto simp: update_id_def keeps_id_def comp_def intro!: map_cong)
qed simp

definition mark_claimed_if :: "queue_row list \<Rightarrow> string \<Rightarrow> instant \<Rightarrow> instant \<Rightarrow> queue_row \<Rightarrow> queue_row" where
  "mark_claimed_if rows consumer now deadline x =
     (if q_id x \<in> q_id ` set rows then mark_claimed consumer now deadline x else x)"

lemma select_ready_rows:
  assumes "distinct (map q_id q)"
  shows "distinct (map q_id (select_ready stream now limit q))"
    "r \<in> set (select_ready stream now limit q) \<Longrightarrow> r \<in> set q \<and> is_eligible stream now r"
proof -
  let ?s = "sort_key dispatch_key (filter (is_eligible stream now) q)"
  have "distinct (map q_id (filter (is_eligible stream now) q))" using assms by (rule distinct_map_filter)
  then have "distinct (map q_id ?s)"
    by (metis mset_map mset_sort mset_eq_imp_distinct_iff)
  then show "distinct (map q_id (select_ready stream now limit q))"
    by (simp add: select_ready_def take_map[symmetric] distinct_take)
  show "r \<in> set q \<and> is_eligible stream now r" if "r \<in> set (select_ready stream now limit q)"
    using that by (auto simp: select_ready_def dest: in_set_takeD)
qed

lemma claim_queue:
  assumes "distinct (map q_id q)" "0 < limit"
  shows "snd (claim cfg now stream consumer limit timeout q) =
    map (mark_claimed_if (select_ready stream now limit q) consumer now
      (now + (case timeout of None \<Rightarrow> visibility_timeout_us cfg | Some t \<Rightarrow> t))) q"
  using fold_update_ids[OF _ select_ready_rows(1)[OF assms(1)], of "mark_claimed consumer now d" for d] assms(2)
  by (simp add: claim_def Let_def keeps_id_def mark_claimed_def mark_claimed_if_def[abs_def])

lemma rmapM_row_to_message_ids:
  "rmapM row_to_message rows = Inr ms \<Longrightarrow> map msg_id ms = map q_id rows"
  by (induction rows arbitrary: ms)
    (auto simp: rbind_eq_Inr row_to_message_def validate_message_def split: if_splits)

lemma claim_delivers:
  assumes "claim cfg now stream consumer limit timeout q = (Inr ms, q')"
  shows "map msg_id ms = (if limit \<le> 0 then [] else map q_id (select_ready stream now limit q))"
  using assms rmapM_row_to_message_ids by (auto simp: claim_def Let_def rmap_eq_Inr comp_def)

lemma row_to_message_total: "row_inv r \<Longrightarrow> \<exists>m. row_to_message r = Inr m"
  by (auto simp: row_inv_def row_to_message_def validate_message_def)

definition lawful :: "queue_row \<Rightarrow> queue_row \<Rightarrow> bool" where
  "lawful r r' \<longleftrightarrow>
     q_id r' = q_id r \<and> q_max_attempts r' = q_max_attempts r \<and> q_attempts r \<le> q_attempts r' \<and>
     (q_status r = Claimed \<and> (q_status r' = Ready \<or> q_status r' = Dead) \<longrightarrow> q_attempts r < q_attempts r') \<and>
     (q_status r = Done \<or> q_status r = Dead \<longrightarrow> q_status r' = q_status r) \<and>
     (row_inv r \<longrightarrow> row_inv r')"

lemma lawful_refl [simp]: "lawful r r"
  by (simp add: lawful_def)

lemma lawful_mark: "q_status r = Ready \<Longrightarrow> lawful r (mark_claimed consumer now deadline r)"
  by (simp add: lawful_def mark_claimed_def row_inv_def)

lemma lawful_reclaim: "q_status r = Claimed \<Longrightarrow> lawful r (reclaim_row now r)"
  by (auto simp: lawful_def reclaim_row_def row_inv_def)

text \<open>A table related row by row to another.\<close>

definition lawful_queue :: "queue \<Rightarrow> queue \<Rightarrow> bool" where
  "lawful_queue q q' \<longleftrightarrow> list_all2 lawful q q'"

lemma lawful_queue_map: "(\<And>r. r \<in> set q \<Longrightarrow> lawful r (g r)) \<Longrightarrow> lawful_queue q (map g q)"
  by (simp add: lawful_queue_def list_all2_conv_all_nth)

lemma lawful_queue_find:
  assumes "lawful_queue q q'"
  shows "rel_option lawful (find_row q i) (find_row q' i)"
  using assms unfolding lawful_queue_def
  by (induction rule: list_all2_induct) (auto simp: find_row_def lawful_def)

lemma lawful_queue_inv:
  assumes "lawful_queue q q'" "queue_inv q"
  shows "queue_inv q'"
proof -
  have "map q_id q' = map q_id q \<and> ((\<forall>r \<in> set q. row_inv r) \<longrightarrow> (\<forall>r' \<in> set q'. row_inv r'))"
    using assms(1) unfolding lawful_queue_def
    by (induction rule: list_all2_induct) (simp_all add: lawful_def)
  then show ?thesis using assms(2) by (simp add: queue_inv_def)
qed

lemma claim_lawful:
  assumes "queue_inv q"
  shows "lawful_queue q (snd (claim cfg now stream consumer limit timeout q))"
proof (cases "0 < limit")
  case True
  have d: "distinct (map q_id q)" using assms by (simp add: queue_inv_def)
  have "q_status r = Ready" if "r \<in> set q" "q_id r \<in> q_id ` set (select_ready stream now limit q)" for r
  proof -
    from that(2) obtain r' where r': "r' \<in> set (select_ready stream now limit q)" "q_id r = q_id r'" by auto
    then have "r' \<in> set q" "is_eligible stream now r'" using select_ready_rows(2)[OF d] by auto
    moreover have "r' = r"
      using find_row_unique[OF d \<open>r' \<in> set q\<close>] find_row_unique[OF d that(1)] r'(2) by simp
    ultimately show ?thesis by (simp add: is_eligible_def)
  qed
  then show ?thesis unfolding claim_queue[OF d True]
    by (intro lawful_queue_map) (simp add: mark_claimed_if_def lawful_mark)
qed (simp add: claim_def lawful_queue_def list_all2_refl)

lemma ack_lawful: "lawful_queue q (snd (ack now i q))"
  by (auto simp: ack_def Let_def lawful_def row_inv_def intro!: lawful_queue_map)

lemma nack_lawful:
  assumes "queue_inv q"
  shows "lawful_queue q (snd (nack now i err delay_us q))"
proof (cases "find (\<lambda>r. q_id r = i) q")
  case (Some r)
  have r: "r \<in> set q" "q_id r = i" using Some by (auto simp: find_Some_iff)
  have same: "x = r" if "x \<in> set q" "q_id x = i" for x
    using that find_row_unique[of q x] Some assms by (simp add: find_row_def queue_inv_def)
  show ?thesis
  proof (cases "q_status r = Done \<or> q_status r = Dead")
    case False
    then show ?thesis using Some same
      by (auto simp: nack_def Let_def update_id_def lawful_def row_inv_def intro!: lawful_queue_map)
  qed (use Some in \<open>auto simp: nack_def lawful_queue_def list_all2_refl\<close>)
qed (simp add: nack_def lawful_queue_def list_all2_refl)

text \<open>Reclaiming treats every expired claim, and only those.\<close>

lemma keeps_id_reclaim: "keeps_id (reclaim_row now)"
  by (simp add: keeps_id_def reclaim_row_def)

lemma reclaim_queue:
  assumes "distinct (map q_id q)"
  shows "snd (reclaim_expired now q) = map (\<lambda>x. if is_expired now x then reclaim_row now x else x) q"
proof -
  let ?rows = "sort_key q_visible_after (filter (is_expired now) q)"
  let ?bury = "\<lambda>r. q_attempts r + 1 \<ge> q_max_attempts r"
  have d: "distinct (map q_id ?rows)"
    using distinct_map_filter[OF assms] by (metis mset_map mset_sort mset_eq_imp_distinct_iff)
  note fold = fold_update_ids[OF keeps_id_reclaim distinct_map_filter[OF d]]
  have mem: "q_id x \<in> q_id ` set (filter P ?rows) \<longleftrightarrow> is_expired now x \<and> P x" if "x \<in> set q" for x P
    using that assms by (auto simp: distinct_map inj_on_def)
  have "snd (reclaim_expired now q) =
    map (\<lambda>x. if q_id x \<in> q_id ` set (filter ?bury ?rows) then reclaim_row now x else x)
      (map (\<lambda>x. if q_id x \<in> q_id ` set (filter (\<lambda>r. \<not> ?bury r) ?rows) then reclaim_row now x else x) q)"
    by (simp only: reclaim_expired_def Let_def snd_conv fold)
  also have "\<dots> = map (\<lambda>x. if is_expired now x then reclaim_row now x else x) q"
    unfolding map_map
  proof (intro map_cong refl)
    fix x assume x: "x \<in> set q"
    have "q_id (reclaim_row now x) = q_id x" by (simp add: reclaim_row_def)
    then show "((\<lambda>x. if q_id x \<in> q_id ` set (filter ?bury ?rows) then reclaim_row now x else x) \<circ>
        (\<lambda>x. if q_id x \<in> q_id ` set (filter (\<lambda>r. \<not> ?bury r) ?rows) then reclaim_row now x else x)) x =
        (if is_expired now x then reclaim_row now x else x)"
      using mem[OF x, of ?bury] mem[OF x, of "\<lambda>r. \<not> ?bury r"] by (simp only: comp_def) (cases "?bury x"; simp)
  qed
  finally show ?thesis .
qed

lemma reclaim_lawful:
  assumes "queue_inv q"
  shows "lawful_queue q (snd (reclaim_expired now q))"
proof -
  have "distinct (map q_id q)" using assms by (simp add: queue_inv_def)
  then show ?thesis
    by (simp only: reclaim_queue) (rule lawful_queue_map, simp add: lawful_reclaim is_expired_def)
qed

lemma enqueue_Inr:
  assumes "enqueue cfg i now stream p prio cid sid delay_us max_att q = Inr (m, q')"
  obtains r where "q' = q @ [r]" "q_id r = i" "i \<notin> q_id ` set q" "q_status r = Ready" "q_attempts r = 0"
    "q_max_attempts r = effective_max_attempts cfg max_att" "row_inv r" "q_arrival_seq r = next_rowid q"
    "q_stream r = stream" "q_enqueued_at r = now" "q_visible_after r = now + max 0 delay_us"
    "q_priority r = prio"
  using assms
  by (auto simp: enqueue_def Let_def rbind_eq_Inr validate_message_def row_inv_def split: if_splits)

lemma queue_step_cases:
  assumes "queue_inv q"
  shows "lawful_queue q (snd (queue_step cfg op q)) \<or>
    (\<exists>r. snd (queue_step cfg op q) = q @ [r] \<and> q_id r \<notin> q_id ` set q \<and> row_inv r)"
proof (cases op)
  case (OpEnqueue i now stream p prio cid sid delay_us max_att)
  show ?thesis
  proof (cases "enqueue cfg i now stream p prio cid sid delay_us max_att q")
    case (Inr x)
    obtain m q' where x: "x = (m, q')" by (cases x)
    have "\<exists>r. q' = q @ [r] \<and> q_id r \<notin> q_id ` set q \<and> row_inv r"
      by (rule enqueue_Inr[OF Inr[unfolded x]]) blast
    then show ?thesis using OpEnqueue Inr x by simp
  qed (use OpEnqueue in \<open>simp add: lawful_queue_def list_all2_refl\<close>)
next
  case (OpClaim now stream consumer limit timeout)
  have "snd (queue_step cfg op q) = snd (claim cfg now stream consumer limit timeout q)"
    by (simp add: OpClaim split: prod.splits sum.splits)
  then show ?thesis using claim_lawful[OF assms] by simp
qed (use assms ack_lawful nack_lawful reclaim_lawful in simp_all)

lemma find_row_snoc: "q_id r \<notin> q_id ` set q \<Longrightarrow>
  find_row (q @ [r]) i = (if i = q_id r then Some r else find_row q i)"
  by (induction q) (auto simp: find_row_def)

lemma find_row_fresh: "q_id r \<notin> q_id ` set q \<Longrightarrow> find_row q (q_id r) = None"
  by (auto simp: find_row_def find_None_iff image_iff)

text \<open>Row by row, an existing message moves lawfully whatever the operation.\<close>

lemma queue_step_row:
  assumes "queue_inv q" "find_row q i = Some r"
  shows "\<exists>r'. find_row (snd (queue_step cfg op q)) i = Some r' \<and> lawful r r'"
  using queue_step_cases[OF assms(1), of cfg op]
proof
  assume "lawful_queue q (snd (queue_step cfg op q))"
  from lawful_queue_find[OF this, of i] assms(2) show ?thesis by (auto simp: option_rel_Some1)
next
  assume "\<exists>r. snd (queue_step cfg op q) = q @ [r] \<and> q_id r \<notin> q_id ` set q \<and> row_inv r"
  then obtain n where n: "snd (queue_step cfg op q) = q @ [n]" "q_id n \<notin> q_id ` set q" by blast
  have "i \<noteq> q_id n" using assms(2) find_row_fresh[OF n(2)] by auto
  then show ?thesis using assms(2) n by (simp add: find_row_snoc)
qed

lemma queue_step_inv:
  assumes "queue_inv q"
  shows "queue_inv (snd (queue_step cfg op q))"
  using queue_step_cases[OF assms, of cfg op] lawful_queue_inv[OF _ assms] assms
  by (auto simp: queue_inv_def)

lemma queue_step_delivers:
  assumes "queue_inv q"
  shows "distinct (fst (queue_step cfg op q))"
    "i \<in> set (fst (queue_step cfg op q)) \<Longrightarrow>
      status_of q i = Some Ready \<and> status_of (snd (queue_step cfg op q)) i = Some Claimed"
proof -
  have d: "distinct (map q_id q)" using assms by (simp add: queue_inv_def)
  have fst_eq: "fst (queue_step cfg op q) = [] \<or> (\<exists>now stream consumer limit timeout ms.
      op = OpClaim now stream consumer limit timeout \<and> 0 < limit \<and>
      fst (claim cfg now stream consumer limit timeout q) = Inr ms \<and>
      fst (queue_step cfg op q) = map q_id (select_ready stream now limit q))"
    using claim_delivers[of cfg _ _ _ _ _ q]
    by (cases op) (auto split: sum.splits prod.splits if_splits)
  then show "distinct (fst (queue_step cfg op q))" using select_ready_rows(1)[OF d] by auto
  assume "i \<in> set (fst (queue_step cfg op q))"
  then obtain now stream consumer limit timeout r where op: "op = OpClaim now stream consumer limit timeout" "0 < limit"
    and r: "r \<in> set (select_ready stream now limit q)" "i = q_id r"
    using fst_eq by auto
  then have rq: "r \<in> set q" "q_status r = Ready"
    using select_ready_rows(2)[OF d r(1)] by (auto simp: is_eligible_def)
  have "snd (queue_step cfg op q) = snd (claim cfg now stream consumer limit timeout q)"
    by (simp add: op split: prod.splits sum.splits)
  then show "status_of q i = Some Ready \<and> status_of (snd (queue_step cfg op q)) i = Some Claimed"
    using r rq find_row_unique[OF d rq(1)]
    by (simp add: status_of_def claim_queue[OF d op(2)] find_row_map keeps_id_def mark_claimed_if_def mark_claimed_def)
qed

interpretation sqlite_queue: delivery_protocol queue_inv status_of attempts_of max_attempts_of "queue_step cfg"
proof unfold_locales
  fix q :: queue and op i
  assume inv: "queue_inv q"
  show "queue_inv (snd (queue_step cfg op q))" by (rule queue_step_inv[OF inv])
  show "distinct (fst (queue_step cfg op q))" by (rule queue_step_delivers(1)[OF inv])
  show "i \<in> set (fst (queue_step cfg op q)) \<Longrightarrow>
      status_of q i = Some Ready \<and> status_of (snd (queue_step cfg op q)) i = Some Claimed"
    by (rule queue_step_delivers(2)[OF inv])
  show "status_of q i \<noteq> None \<Longrightarrow>
      status_of (snd (queue_step cfg op q)) i \<noteq> None \<and>
      max_attempts_of (snd (queue_step cfg op q)) i = max_attempts_of q i \<and>
      attempts_of q i \<le> attempts_of (snd (queue_step cfg op q)) i"
    using queue_step_row[OF inv, of i _ cfg op]
    by (fastforce simp: status_of_def attempts_of_def max_attempts_of_def lawful_def)
  show "status_of q i = Some Claimed \<Longrightarrow>
      status_of (snd (queue_step cfg op q)) i = Some Ready \<or> status_of (snd (queue_step cfg op q)) i = Some Dead \<Longrightarrow>
      attempts_of q i < attempts_of (snd (queue_step cfg op q)) i"
    using queue_step_row[OF inv, of i _ cfg op]
    by (fastforce simp: status_of_def attempts_of_def lawful_def)
  show "status_of q i = Some Done \<or> status_of q i = Some Dead \<Longrightarrow>
      status_of (snd (queue_step cfg op q)) i = status_of q i"
    using queue_step_row[OF inv, of i _ cfg op] by (fastforce simp: status_of_def lawful_def)
  have "row_inv r" if "find_row q i = Some r" for r
    using find_row_Some[OF that] inv by (auto simp: queue_inv_def)
  then show "status_of q i \<noteq> None \<Longrightarrow> status_of q i \<noteq> Some Dead \<Longrightarrow> attempts_of q i < max_attempts_of q i"
    and "status_of q i = Some Dead \<Longrightarrow> attempts_of q i \<le> max_attempts_of q i"
    by (auto simp: status_of_def attempts_of_def max_attempts_of_def row_inv_def)
qed

subsection \<open>Dispatch order and redelivery\<close>

lemma claim_order:
  assumes "queue_inv q" "r \<in> set (select_ready stream now limit q)"
    and "r' \<in> set q" "is_eligible stream now r'" "r' \<notin> set (select_ready stream now limit q)"
  shows "dispatch_key r \<le> dispatch_key r'"
proof -
  let ?s = "sort_key dispatch_key (filter (is_eligible stream now) q)"
  have "sorted (map dispatch_key (take (nat limit) ?s @ drop (nat limit) ?s))"
    by (simp only: append_take_drop_id sorted_sort_key)
  moreover have "r \<in> set (take (nat limit) ?s)" using assms(2) by (simp add: select_ready_def)
  moreover have "r' \<in> set ?s" "r' \<notin> set (take (nat limit) ?s)"
    using assms(3-5) by (simp_all add: select_ready_def)
  then have "r' \<in> set (drop (nat limit) ?s)" by (metis UnE append_take_drop_id set_append)
  ultimately show ?thesis unfolding map_append sorted_append by auto
qed

lemma claim_takes_all_or_limit:
  assumes "0 \<le> limit"
  shows "int (length (select_ready stream now limit q)) =
    min limit (int (length (filter (is_eligible stream now) q)))"
  using assms by (auto simp: select_ready_def min_def)

lemma reclaim_none_expired:
  assumes "queue_inv q" "r \<in> set (snd (reclaim_expired now q))"
  shows "\<not> is_expired now r"
  using assms reclaim_queue[of q now] by (auto simp: queue_inv_def is_expired_def reclaim_row_def split: if_splits)

lemma foldr_max_ge: "x \<in> set xs \<Longrightarrow> (x::int) \<le> foldr max xs 0"
  by (induction xs) auto

lemma next_rowid_fresh: "r \<in> set q \<Longrightarrow> q_arrival_seq r < next_rowid q"
  using foldr_max_ge[of "q_arrival_seq r" "map q_arrival_seq q"] by (simp add: next_rowid_def)

text \<open>
  Nothing is stranded: after a reclaim pass no claim that has outlived its visibility timeout remains,
  and the pass keeps every message.
\<close>

lemma reclaim_leaves_none_expired:
  assumes "queue_inv q"
  shows "(\<forall>r \<in> set (snd (reclaim_expired now q)). \<not> is_expired now r) \<and>
    map q_id (snd (reclaim_expired now q)) = map q_id q \<and> queue_inv (snd (reclaim_expired now q))"
proof -
  have d: "distinct (map q_id q)" using assms by (simp add: queue_inv_def)
  have "map q_id (snd (reclaim_expired now q)) = map q_id q"
    unfolding reclaim_queue[OF d] by (simp add: reclaim_row_def)
  then show ?thesis
    using reclaim_none_expired[OF assms] lawful_queue_inv[OF reclaim_lawful[OF assms] assms] by blast
qed

end
