(* ===== verification/Lease_Lock.thy ===== *)
theory Lease_Lock
  imports Message_Queue
begin

text \<open>
  The distributed lock (\<open>DistributedLock\<close> of \<open>paa.storage.queue.base\<close>, \<open>SqliteDistributedLock\<close> of
  \<open>paa.storage.queue.sqlite_backend\<close>): leases with a time to live over the table \<open>queue_locks\<close>.

  The contract is an interface, exclusion is proved from it once, and the SQLite backend is
  shown to meet it.
\<close>

subsection \<open>The SQLite backend\<close>

record lock_row =
  l_key :: string
  l_holder :: string
  l_acquired_at :: instant
  l_expires_at :: instant

type_synonym locks = "lock_row list"

text \<open>\<open>_ACQUIRE_LOCK_SQL\<close>: the conditional upsert.\<close>

fun upsert_lock :: "lock_row \<Rightarrow> locks \<Rightarrow> locks" where
  "upsert_lock x [] = [x]"
| "upsert_lock x (l # ls) =
     (if l_key l = l_key x
      then (if l_expires_at l \<le> l_acquired_at x \<or> l_holder l = l_holder x then x else l) # ls
      else l # upsert_lock x ls)"

definition find_lock :: "locks \<Rightarrow> string \<Rightarrow> lock_row option" where
  "find_lock ls k = find (\<lambda>l. l_key l = k) ls"

definition acquire :: "instant \<Rightarrow> string \<Rightarrow> string \<Rightarrow> int \<Rightarrow> locks \<Rightarrow> bool result \<times> locks" where
  "acquire now k h ttl_us ls =
     (if ttl_us \<le> 0 then (Inl ValueError, ls)
      else
        let ls' = upsert_lock \<lparr>l_key = k, l_holder = h, l_acquired_at = now,
                               l_expires_at = now + ttl_us\<rparr> ls
        in (Inr (case find_lock ls' k of
                   None \<Rightarrow> False
                 | Some l \<Rightarrow> l_holder l = h \<and> l_expires_at l > now), ls'))"

definition release :: "string \<Rightarrow> string \<Rightarrow> locks \<Rightarrow> bool \<times> locks" where
  "release k h ls =
     (\<exists>l \<in> set ls. l_key l = k \<and> l_holder l = h,
      filter (\<lambda>l. \<not> (l_key l = k \<and> l_holder l = h)) ls)"

text \<open>\<open>refresh\<close> reads the clock twice: for the comparison and for the new expiry.\<close>

definition refresh :: "instant \<Rightarrow> instant \<Rightarrow> string \<Rightarrow> string \<Rightarrow> int \<Rightarrow> locks \<Rightarrow> bool result \<times> locks" where
  "refresh now now' k h ttl_us ls =
     (if ttl_us \<le> 0 then (Inl ValueError, ls)
      else
        let hit = (\<lambda>l. l_key l = k \<and> l_holder l = h \<and> l_expires_at l > now)
        in (Inr (\<exists>l \<in> set ls. hit l),
            map (\<lambda>l. if hit l then l\<lparr>l_expires_at := now' + ttl_us\<rparr> else l) ls))"

definition current_holder :: "locks \<Rightarrow> string \<Rightarrow> instant \<Rightarrow> string option" where
  "current_holder ls k now =
     (case find_lock ls k of
        None \<Rightarrow> None
      | Some l \<Rightarrow> if l_expires_at l \<le> now then None else Some (l_holder l))"

text \<open>\<open>hold\<close>: the body runs only with the lock, and the lock is released whatever it returns.\<close>

definition hold ::
  "instant \<Rightarrow> string \<Rightarrow> string \<Rightarrow> int \<Rightarrow> (locks \<Rightarrow> 'a result \<times> locks) \<Rightarrow> locks \<Rightarrow> 'a result \<times> locks" where
  "hold now k h ttl_us body ls =
     (case acquire now k h ttl_us ls of
        (Inl err, ls1) \<Rightarrow> (Inl err, ls1)
      | (Inr False, ls1) \<Rightarrow> (Inl LockUnavailableError, ls1)
      | (Inr True, ls1) \<Rightarrow> (let (r, ls2) = body ls1 in (r, snd (release k h ls2))))"

subsection \<open>The contract\<close>

datatype lock_op =
    Acquire string string int
  | Release string string
  | Refresh string string int int

fun op_by :: "lock_op \<Rightarrow> string \<times> string" where
  "op_by (Acquire k h _) = (k, h)"
| "op_by (Release k h) = (k, h)"
| "op_by (Refresh k h _ _) = (k, h)"

primrec run_locks :: "(instant \<Rightarrow> lock_op \<Rightarrow> 's \<Rightarrow> bool result \<times> 's) \<Rightarrow> (instant \<times> lock_op) list \<Rightarrow> 's
    \<Rightarrow> bool result list \<times> 's" where
  "run_locks step [] s = ([], s)"
| "run_locks step (x # xs) s =
     (let (r, s1) = step (fst x) (snd x) s; (rs, s2) = run_locks step xs s1 in (r # rs, s2))"

locale lease_lock =
  fixes inv :: "'s \<Rightarrow> bool"
    and holder :: "'s \<Rightarrow> string \<Rightarrow> instant \<Rightarrow> string option"
    and step :: "instant \<Rightarrow> lock_op \<Rightarrow> 's \<Rightarrow> bool result \<times> 's"
  assumes step_inv: "inv s \<Longrightarrow> inv (snd (step t op s))"
    and acquired: "inv s \<Longrightarrow> step t (Acquire k h ttl) s = (Inr True, s') \<Longrightarrow>
      (holder s k t = None \<or> holder s k t = Some h) \<and>
      (\<forall>u. t \<le> u \<longrightarrow> u < t + ttl \<longrightarrow> holder s' k u = Some h)"
    and undisturbed: "inv s \<Longrightarrow> holder s k u = Some h \<Longrightarrow> t \<le> u \<Longrightarrow> op_by op \<noteq> (k, h) \<Longrightarrow>
      holder (snd (step t op s)) k u = Some h"
begin

lemma refused:
  assumes "inv s" "holder s k t = Some h" "h' \<noteq> h"
  shows "fst (step t (Acquire k h' ttl) s) \<noteq> Inr True"
  using acquired[OF assms(1), of t k h' ttl] assms(2,3) by (cases "step t (Acquire k h' ttl) s") auto

text \<open>While a lease runs and its holder does not touch it, nobody else gets the lock.\<close>

lemma lease_exclusive:
  assumes "inv s" "\<And>u. t0 \<le> u \<Longrightarrow> u < deadline \<Longrightarrow> holder s k u = Some h"
    and "sorted (t0 # map fst ops)"
    and "\<And>t op. (t, op) \<in> set ops \<Longrightarrow> t < deadline \<and> op_by op \<noteq> (k, h)"
  shows "list_all2 (\<lambda>x r. fst (op_by (snd x)) = k \<and> r = Inr True \<longrightarrow> (\<nexists>h' ttl. snd x = Acquire k h' ttl))
    ops (fst (run_locks step ops s))"
  using assms
proof (induction ops arbitrary: s t0)
  case (Cons x ops)
  obtain t op where x: "x = (t, op)" by (cases x)
  let ?s = "snd (step t op s)"
  have t: "t0 \<le> t" "t < deadline" "op_by op \<noteq> (k, h)" using Cons.prems(3,4) x by auto
  have "holder ?s k u = Some h" if "t \<le> u" "u < deadline" for u
    using that t Cons.prems(1,2) by (intro undisturbed) auto
  moreover have "sorted (t # map fst ops)" using Cons.prems(3) x by auto
  ultimately have "list_all2 (\<lambda>x r. fst (op_by (snd x)) = k \<and> r = Inr True \<longrightarrow> (\<nexists>h' ttl. snd x = Acquire k h' ttl))
      ops (fst (run_locks step ops ?s))"
    using Cons.prems(4) step_inv[OF Cons.prems(1)] by (intro Cons.IH[of ?s t]) auto
  moreover have "fst (step t op s) \<noteq> Inr True" if "op = Acquire k h' ttl" for h' ttl
    using that refused[OF Cons.prems(1) Cons.prems(2)[of t]] t by auto
  ultimately show ?case by (auto simp: x split_beta)
qed simp

end

subsection \<open>The SQLite backend meets it\<close>

fun lock_step :: "instant \<Rightarrow> lock_op \<Rightarrow> locks \<Rightarrow> bool result \<times> locks" where
  "lock_step t (Acquire k h ttl) ls = acquire t k h ttl ls"
| "lock_step t (Release k h) ls = (let (b, ls') = release k h ls in (Inr b, ls'))"
| "lock_step t (Refresh k h ttl later) ls = refresh t (t + later) k h ttl ls"

definition locks_inv :: "locks \<Rightarrow> bool" where
  "locks_inv ls \<longleftrightarrow> distinct (map l_key ls)"

lemma find_upsert_lock:
  "find_lock (upsert_lock x ls) k =
     (if k = l_key x
      then Some (case find_lock ls k of None \<Rightarrow> x
        | Some l \<Rightarrow> if l_expires_at l \<le> l_acquired_at x \<or> l_holder l = l_holder x then x else l)
      else find_lock ls k)"
  by (induction ls) (auto simp: find_lock_def)

lemma upsert_lock_keys: "l_key ` set (upsert_lock x ls) = insert (l_key x) (l_key ` set ls)"
  by (induction ls) auto

lemma upsert_lock_distinct: "distinct (map l_key ls) \<Longrightarrow> distinct (map l_key (upsert_lock x ls))"
  by (induction ls) (auto simp: upsert_lock_keys)

lemma find_lock_mem: "find (\<lambda>l. l_key l = k) ls = Some l \<Longrightarrow> l \<in> set ls \<and> l_key l = k"
  by (auto simp: find_Some_iff)

lemma find_lock_filter:
  assumes "distinct (map l_key ls)"
  shows "find_lock (filter P ls) k = (case find_lock ls k of None \<Rightarrow> None | Some l \<Rightarrow> if P l then Some l else None)"
  using assms by (induction ls) (auto simp: find_lock_def find_None_iff split: option.splits dest!: find_lock_mem)

lemma find_lock_map:
  assumes "\<And>l. l_key (g l) = l_key l"
  shows "find_lock (map g ls) k = map_option g (find_lock ls k)"
  by (induction ls) (auto simp: find_lock_def assms)

lemma find_lock_key: "find_lock ls k = Some l \<Longrightarrow> l_key l = k"
  by (auto simp: find_lock_def find_Some_iff)

lemma acquire_won:
  assumes "acquire t k h ttl ls = (Inr True, ls')"
  shows "current_holder ls k t = None \<or> current_holder ls k t = Some h"
    "t \<le> u \<Longrightarrow> u < t + ttl \<Longrightarrow> current_holder ls' k u = Some h"
  using assms
  by (auto simp: acquire_def Let_def find_upsert_lock current_holder_def split: if_splits option.splits)

lemma lock_step_undisturbed:
  assumes "locks_inv ls" "current_holder ls k u = Some h" "t \<le> u" "op_by op \<noteq> (k, h)"
  shows "current_holder (snd (lock_step t op ls)) k u = Some h"
proof (cases op)
  case (Acquire k' h' ttl)
  then show ?thesis using assms
    by (auto simp: acquire_def Let_def find_upsert_lock current_holder_def split: if_splits option.splits)
next
  case (Release k' h')
  then show ?thesis using assms
    by (auto simp: release_def find_lock_filter locks_inv_def current_holder_def split_beta
        split: if_splits option.splits dest: find_lock_key)
next
  case (Refresh k' h' ttl later)
  then show ?thesis using assms
    by (auto simp: refresh_def Let_def find_lock_map current_holder_def
        split: if_splits option.splits dest: find_lock_key)
qed

lemma refresh_keys: "map l_key (snd (refresh t t' k h ttl ls)) = map l_key ls"
  by (simp add: refresh_def Let_def comp_def)

interpretation sqlite_lock: lease_lock locks_inv current_holder lock_step
proof unfold_locales
  fix ls t op
  assume inv: "locks_inv ls"
  show "locks_inv (snd (lock_step t op ls))"
    using inv by (cases op)
      (auto simp: locks_inv_def acquire_def release_def upsert_lock_distinct
        distinct_map_filter refresh_keys Let_def)
qed (use acquire_won lock_step_undisturbed in \<open>auto simp del: lock_step.simps(2,3)\<close>)

text \<open>A release by someone who does not hold the lock changes nothing.\<close>

lemma release_foreign:
  assumes "\<And>l. l \<in> set ls \<Longrightarrow> l_key l = k \<Longrightarrow> l_holder l \<noteq> h"
  shows "release k h ls = (False, ls)"
  using assms by (auto simp: release_def filter_id_conv)

text \<open>\<open>hold\<close> never runs its body beside another live holder, and gives the lock back.\<close>

lemma hold_excluded:
  assumes "0 < ttl" "current_holder ls k now = Some h'" "h' \<noteq> h"
  shows "fst (hold now k h ttl body ls) = Inl LockUnavailableError"
proof -
  obtain b ls1 where a: "acquire now k h ttl ls = (Inr b, ls1)"
    using assms(1) by (auto simp: acquire_def Let_def)
  then have "b = False" using acquire_won(1)[of now k h ttl ls ls1] assms(2,3) by (cases b) auto
  then show ?thesis using a by (simp add: hold_def)
qed

lemma hold_releases:
  assumes "acquire now k h ttl ls = (Inr True, ls1)" "locks_inv ls1"
    and "\<And>ls. locks_inv ls \<Longrightarrow> locks_inv (snd (body ls))"
  shows "current_holder (snd (hold now k h ttl body ls)) k u \<noteq> Some h"
    and "fst (hold now k h ttl body ls) = fst (body ls1)"
proof -
  have "locks_inv (snd (body ls1))" using assms(2,3) by blast
  then show "current_holder (snd (hold now k h ttl body ls)) k u \<noteq> Some h"
    using assms(1)
    by (auto simp: hold_def release_def split_beta current_holder_def locks_inv_def find_lock_filter
        split: option.splits if_splits dest: find_lock_key)
  show "fst (hold now k h ttl body ls) = fst (body ls1)"
    using assms(1) by (simp add: hold_def split_beta)
qed

end
