(* ===== verification/Recursion_Guard.thy ===== *)
theory Recursion_Guard
  imports Cycle_Guard
begin

text \<open>
  The recursion guard of a task lineage (\<open>paa.sandbox.recursion\<close>): its own delegation graph, the
  three checks, the atomic registration and the scoped delegation. A method holds the guard's
  lock for its whole body, so the model of a method is one step.
\<close>

subsection \<open>The graph\<close>

definition add_edge :: "adjacency \<Rightarrow> string \<Rightarrow> string \<Rightarrow> adjacency" where
  "add_edge g s t =
     (let g1 = dict_set g s (set_add (succs g s) t)
      in if t \<in> fst ` set g1 then g1 else dict_set g1 t [])"

definition remove_edge :: "adjacency \<Rightarrow> string \<Rightarrow> string \<Rightarrow> adjacency" where
  "remove_edge g s t =
     (if s \<in> fst ` set g then dict_set g s (filter (\<lambda>x. x \<noteq> t) (succs g s)) else g)"

function path_search ::
  "adjacency \<Rightarrow> string \<Rightarrow> (string \<times> string list) list \<Rightarrow> string list \<Rightarrow> string list option" where
  "path_search g goal [] visited = None"
| "path_search g goal ((node, path) # rest) visited =
     (if node \<in> set visited then path_search g goal rest visited
      else if goal \<in> set (succs g node) then Some (path @ [goal])
      else path_search g goal
             (rev (map (\<lambda>s. (s, path @ [s])) (filter (\<lambda>s. s \<notin> set (node # visited)) (sort (succs g node)))) @ rest)
             (node # visited))"
  by pat_completeness auto
termination
proof (relation "inv_image (less_than <*lex*> less_than)
    (\<lambda>(g, goal, stack, visited). (card (fst ` set g - set visited), length stack))", goal_cases)
  case (3 g goal node path rest visited)
  then show ?case using unseen_progress[of node visited g] by auto
qed auto

declare path_search.simps [simp del]

definition find_path :: "adjacency \<Rightarrow> string \<Rightarrow> string \<Rightarrow> string list option" where
  "find_path g start goal =
     (if start = goal then Some [start] else path_search g goal [(start, [start])] [])"

definition guard_would_cycle :: "adjacency \<Rightarrow> string \<Rightarrow> string \<Rightarrow> string list option" where
  "guard_would_cycle g s t =
     (if s = t then Some [s, t]
      else case find_path g t s of None \<Rightarrow> None | Some path \<Rightarrow> Some (s # path))"

subsection \<open>The guard\<close>

record RecursionGuard =
  g_profile :: ModalityProfile
  g_depth_ceiling :: int
  g_node_ceiling :: int
  g_graph :: adjacency
  g_nodes_expanded :: int

definition new_guard :: "ModalityProfile \<Rightarrow> int \<Rightarrow> RecursionGuard result" where
  "new_guard p absolute_ceiling =
     rmap (\<lambda>nodes. \<lparr>g_profile = p, g_depth_ceiling = min (recursion_ceiling p) absolute_ceiling,
                    g_node_ceiling = nodes, g_graph = [], g_nodes_expanded = 0\<rparr>)
       (max_plan_nodes p)"

definition check_depth :: "RecursionGuard \<Rightarrow> int \<Rightarrow> unit result" where
  "check_depth g depth =
     (if depth < 0 then Inl ValueError
      else if depth > g_depth_ceiling g then Inl RecursionGuardError else Inr ())"

definition check_nodes :: "RecursionGuard \<Rightarrow> int \<Rightarrow> unit result" where
  "check_nodes g additional =
     (if g_nodes_expanded g + additional > g_node_ceiling g then Inl RecursionGuardError else Inr ())"

definition check_cycle :: "RecursionGuard \<Rightarrow> string \<Rightarrow> string \<Rightarrow> unit result" where
  "check_cycle g s t =
     (if guard_would_cycle (g_graph g) s t \<noteq> None then Inl RecursionGuardError else Inr ())"

definition register :: "RecursionGuard \<Rightarrow> string \<Rightarrow> string \<Rightarrow> int \<Rightarrow> RecursionGuard result" where
  "register g s t depth =
     rbind (check_depth g depth) (\<lambda>_.
     rbind (check_nodes g 1) (\<lambda>_.
     rbind (check_cycle g s t) (\<lambda>_.
       Inr (g\<lparr>g_graph := add_edge (g_graph g) s t, g_nodes_expanded := g_nodes_expanded g + 1\<rparr>))))"

definition release_edge :: "RecursionGuard \<Rightarrow> string \<Rightarrow> string \<Rightarrow> RecursionGuard" where
  "release_edge g s t = g\<lparr>g_graph := remove_edge (g_graph g) s t\<rparr>"

text \<open>\<open>delegate\<close>: the edge is released however the body ends.\<close>

definition delegate ::
  "RecursionGuard \<Rightarrow> string \<Rightarrow> string \<Rightarrow> int \<Rightarrow> (RecursionGuard \<Rightarrow> 'a result \<times> RecursionGuard)
     \<Rightarrow> 'a result \<times> RecursionGuard" where
  "delegate g s t depth body =
     (case register g s t depth of
        Inl err \<Rightarrow> (Inl err, g)
      | Inr g1 \<Rightarrow> (let (r, g2) = body g1 in (r, release_edge g2 s t)))"

definition reset :: "RecursionGuard \<Rightarrow> RecursionGuard" where
  "reset g = g\<lparr>g_graph := [], g_nodes_expanded := 0\<rparr>"

subsection \<open>The search is exact\<close>

lemma path_search_complete:
  assumes "path_search g goal stack visited = None"
    and "goal \<notin> set visited" "goal \<notin> fst ` set stack"
    and "\<And>u v. u \<in> set visited \<Longrightarrow> v \<in> set (succs g u) \<Longrightarrow> v \<in> set visited \<union> fst ` set stack"
    and "x \<in> set visited \<union> fst ` set stack"
  shows "(x, goal) \<notin> (edge_rel g)\<^sup>*"
  using assms
proof (induction g goal stack visited rule: path_search.induct)
  case (1 g goal visited)
  then show ?case using closed_reaches[of x goal g "set visited"] by auto
next
  case (2 g goal node path rest visited)
  show ?case
  proof (cases "node \<in> set visited")
    case True
    show ?thesis
      by (rule "2.IH"(1)[OF True]) (use True "2.prems" in \<open>auto simp: path_search.simps\<close>)
  next
    case False
    then have ng: "goal \<notin> set (succs g node)" using "2.prems"(1) by (auto simp: path_search.simps split: if_splits)
    show ?thesis
      by (rule "2.IH"(2)[OF False ng])
        (use False ng "2.prems" in \<open>auto simp: path_search.simps(2) image_Un image_image\<close>)
  qed
qed

lemma path_search_sound:
  assumes "path_search g goal stack visited = Some p"
    and "\<And>n path. (n, path) \<in> set stack \<Longrightarrow> path \<noteq> [] \<and> hd path = start \<and> last path = n \<and> is_path g path"
  shows "p \<noteq> [] \<and> hd p = start \<and> last p = goal \<and> is_path g p"
  using assms
proof (induction g goal stack visited rule: path_search.induct)
  case (2 g goal node path rest visited)
  have path: "path \<noteq> []" "hd path = start" "last path = node" "is_path g path"
    using "2.prems"(2)[of node path] by auto
  show ?case
  proof (cases "node \<in> set visited")
    case True
    show ?thesis
      by (rule "2.IH"(1)[OF True]) (use True "2.prems" in \<open>auto simp: path_search.simps(2)\<close>)
  next
    case nv: False
    show ?thesis
    proof (cases "goal \<in> set (succs g node)")
      case True
      then show ?thesis using "2.prems"(1) nv path by (auto simp: path_search.simps(2) is_path_snoc)
    next
      case False
      show ?thesis
        by (rule "2.IH"(2)[OF nv False])
          (use nv False "2.prems" path in \<open>auto simp: path_search.simps(2) is_path_snoc path(3)\<close>)
    qed
  qed
qed (simp add: path_search.simps)

lemma find_path_Some:
  assumes "find_path g start goal = Some p"
  shows "p \<noteq> [] \<and> hd p = start \<and> last p = goal \<and> is_path g p"
proof (cases "start = goal")
  case True
  then show ?thesis using assms by (auto simp: find_path_def is_path_def)
next
  case False
  then show ?thesis using assms path_search_sound[of g goal "[(start, [start])]" "[]" p start]
    by (auto simp: find_path_def is_path_def)
qed

lemma find_path_None: "find_path g start goal = None \<Longrightarrow> (start, goal) \<notin> (edge_rel g)\<^sup>*"
  using path_search_complete[of g goal "[(start, [start])]" "[]" start]
  by (auto simp: find_path_def split: if_splits)

lemma succs_add_edge: "set (succs (add_edge g s t) n) = set (succs g n) \<union> (if n = s then {t} else {})"
proof -
  have "succs g t = []" if "t \<notin> fst ` set (dict_set g s ys)" for ys
    using that dict_set_keys[of g s ys] by (intro succs_not_key) auto
  moreover have "s \<in> fst ` set (dict_set g s ys)" for ys
    using dict_set_keys[of g s ys] by simp
  ultimately show ?thesis by (auto simp: add_edge_def Let_def succs_set set_add_def split: if_splits)
qed

lemma edge_rel_add: "edge_rel (add_edge g s t) = insert (s, t) (edge_rel g)"
  by (auto simp: edge_rel_def succs_add_edge split: if_splits)

lemma edge_rel_remove: "edge_rel (remove_edge g s t) = edge_rel g - {(s, t)}"
  by (auto simp: edge_rel_def remove_edge_def succs_set succs_not_key split: if_splits)

interpretation guard: cycle_guard edge_rel guard_would_cycle add_edge remove_edge
proof unfold_locales
  fix g s t p
  show "edge_rel (add_edge g s t) = insert (s, t) (edge_rel g)" by (rule edge_rel_add)
  show "edge_rel (remove_edge g s t) = edge_rel g - {(s, t)}" by (rule edge_rel_remove)
  show "(t, s) \<in> (edge_rel g)\<^sup>*" if "guard_would_cycle g s t = Some p"
  proof (cases "s = t")
    case False
    then obtain q where "find_path g t s = Some q"
      using \<open>guard_would_cycle g s t = Some p\<close> by (auto simp: guard_would_cycle_def split: option.splits)
    then show ?thesis using find_path_Some path_reaches by metis
  qed simp
  show "(t, s) \<notin> (edge_rel g)\<^sup>*" if "guard_would_cycle g s t = None"
    using that find_path_None[of g t s] by (auto simp: guard_would_cycle_def split: if_splits option.splits)
qed

text \<open>A refusal reports the cycle that the edge would have closed.\<close>

lemma guard_cycle_reported:
  assumes "guard_would_cycle g s t = Some p"
  shows "is_path (add_edge g s t) p \<and> hd p = s \<and> last p = s \<and> 2 \<le> length p"
proof (cases "s = t")
  case True
  then show ?thesis using assms by (auto simp: guard_would_cycle_def is_path_def succs_add_edge)
next
  case False
  then obtain q where q: "find_path g t s = Some q" "p = s # q"
    using assms by (auto simp: guard_would_cycle_def split: option.splits)
  note path = find_path_Some[OF q(1)]
  have "is_path (add_edge g s t) q"
    unfolding is_path_def by (rule successively_mono[of "\<lambda>x y. y \<in> set (succs g x)"])
      (use path in \<open>auto simp: is_path_def succs_add_edge\<close>)
  then show ?thesis using path q(2)
    by (cases q) (auto simp: is_path_def succs_add_edge)
qed

subsection \<open>The guard's invariant\<close>

definition guard_inv :: "RecursionGuard \<Rightarrow> bool" where
  "guard_inv g \<longleftrightarrow>
     acyclic (edge_rel (g_graph g)) \<and> 0 \<le> g_nodes_expanded g \<and> g_nodes_expanded g \<le> max 0 (g_node_ceiling g)"

lemma register_Inr:
  assumes "register g s t depth = Inr g'"
  shows "0 \<le> depth \<and> depth \<le> g_depth_ceiling g" "g_nodes_expanded g + 1 \<le> g_node_ceiling g"
    "guard_would_cycle (g_graph g) s t = None"
    "g' = g\<lparr>g_graph := add_edge (g_graph g) s t, g_nodes_expanded := g_nodes_expanded g + 1\<rparr>"
  using assms by (auto simp: register_def check_depth_def check_nodes_def check_cycle_def split: if_splits)

lemma register_inv: "register g s t depth = Inr g' \<Longrightarrow> guard_inv g \<Longrightarrow> guard_inv g'"
  using register_Inr[of g s t depth g'] guard.accepted_acyclic[of "g_graph g" s t]
  by (simp add: guard_inv_def)

lemma release_edge_inv: "guard_inv g \<Longrightarrow> guard_inv (release_edge g s t)"
  using guard.removed_acyclic[of "g_graph g" s t] by (simp add: guard_inv_def release_edge_def)

lemma new_guard_inv:
  "new_guard p c = Inr g \<Longrightarrow> guard_inv g \<and> g_depth_ceiling g \<le> c \<and> g_depth_ceiling g \<le> recursion_ceiling p"
  by (auto simp: new_guard_def rmap_eq_Inr guard_inv_def edge_rel_def succs_def dict_get_default_def acyclic_def)

text \<open>A delegation whose body restores its own edges leaves the edges that were there before it.\<close>

lemma delegate_restores:
  assumes body: "\<And>g1. edge_rel (g_graph (snd (body g1))) = edge_rel (g_graph g1)"
    and fresh: "(s, t) \<notin> edge_rel (g_graph g)"
  shows "edge_rel (g_graph (snd (delegate g s t depth body))) = edge_rel (g_graph g)"
proof (cases "register g s t depth")
  case (Inr g1)
  then have "edge_rel (g_graph g1) = insert (s, t) (edge_rel (g_graph g))"
    using register_Inr(4)[OF Inr] by (simp add: edge_rel_add)
  then show ?thesis using Inr fresh body[of g1]
    by (simp add: delegate_def split_beta release_edge_def edge_rel_remove)
qed (simp add: delegate_def)

lemma delegate_inv:
  assumes "guard_inv g" "\<And>g1. guard_inv g1 \<Longrightarrow> guard_inv (snd (body g1))"
  shows "guard_inv (snd (delegate g s t depth body))"
proof (cases "register g s t depth")
  case (Inr g1)
  then show ?thesis using register_inv[OF Inr assms(1)] assms(2) release_edge_inv
    by (simp add: delegate_def split_beta)
qed (use assms(1) in \<open>simp add: delegate_def\<close>)

text \<open>
  The recursion guard holds its ceilings: a registration that is accepted respects the depth ceiling (never
  above the profile's) and the node ceiling, and the guard's graph stays acyclic.
\<close>

lemma register_within_ceilings:
  assumes "guard_inv g" "register g s t dep = Inr g'"
  shows "guard_inv g' \<and> 0 \<le> dep \<and> dep \<le> g_depth_ceiling g \<and>
    g_nodes_expanded g' = g_nodes_expanded g + 1 \<and> g_nodes_expanded g' \<le> g_node_ceiling g \<and>
    (s, t) \<in> edge_rel (g_graph g') \<and> acyclic (edge_rel (g_graph g'))"
  using register_inv[OF assms(2,1)] register_Inr[OF assms(2)] by (auto simp: guard_inv_def edge_rel_add)

end
