(* ===== verification/Token_Budget.thy ===== *)
theory Token_Budget
  imports Core_Types Dynamic_Values
begin

text \<open>
  Token accounting (\<open>paa.context.budget\<close>): estimators, and budgets linked to the budget they were
  carved from. Budgets are shared objects, so they live in a store: a budget is its position in
  a list, a parent is the position of an older budget, and a debit updates the whole chain.

  Arguments that the code type-checks at run time are \<open>pyval\<close>. The division of the character
  estimator is exact here; in the code it is a float division, which is exact for the default
  of four characters per token.
\<close>

subsection \<open>Estimation\<close>

locale token_estimator =
  fixes estimate :: "string \<Rightarrow> int"
  assumes estimate_nonneg: "0 \<le> estimate s"
    and estimate_prefix: "estimate s \<le> estimate (s @ t)"
begin

lemma estimate_take_mono: "m \<le> n \<Longrightarrow> estimate (take m s) \<le> estimate (take n s)"
  using estimate_prefix[of "take m s" "take (n - m) (drop m s)"] by (simp add: take_add[symmetric])

end

definition new_char_estimator :: "rat \<Rightarrow> rat result" where
  "new_char_estimator cpt = (if cpt \<le> 0 then Inl ValueError else Inr cpt)"

definition char_estimate :: "rat \<Rightarrow> string \<Rightarrow> int" where
  "char_estimate cpt s = \<lceil>of_int (int (code_points s)) / cpt\<rceil>"

definition estimate_total :: "(string \<Rightarrow> int) \<Rightarrow> string list \<Rightarrow> int" where
  "estimate_total est texts = sum_list (map est texts)"

lemma code_points_append: "code_points (s @ t) = code_points s + code_points t"
  by (simp add: code_points_def)

interpretation char_estimator: token_estimator "char_estimate 4"
  by unfold_locales (simp_all add: char_estimate_def code_points_append ceiling_mono divide_right_mono)

text \<open>Charging strings one by one never charges less than charging their concatenation.\<close>

lemma estimate_total_conservative:
  assumes "0 < cpt"
  shows "char_estimate cpt (concat texts) \<le> estimate_total (char_estimate cpt) texts"
proof (induction texts)
  case (Cons s texts)
  have "char_estimate cpt (s @ concat texts) \<le> char_estimate cpt s + char_estimate cpt (concat texts)"
    using ceiling_add_le[of "of_int (int (code_points s)) / cpt" "of_int (int (code_points (concat texts))) / cpt"]
    by (simp add: char_estimate_def code_points_append add_divide_distrib)
  then show ?case using Cons by (simp add: estimate_total_def)
qed (simp add: estimate_total_def char_estimate_def code_points_def)

subsection \<open>Budgets\<close>

record TokenBudget =
  b_allocated :: int
  b_consumed :: int
  b_kind :: string
  b_depth :: int
  b_profile :: "ModalityProfile option"
  b_parent :: "nat option"

type_synonym budgets = "TokenBudget list"

text \<open>\<open>isinstance(x, bool) or not isinstance(x, int)\<close> and the sign check.\<close>

fun check_nonneg_int :: "pyval \<Rightarrow> int result" where
  "check_nonneg_int (PScalar (SInt i)) = (if i < 0 then Inl ValueError else Inr i)"
| "check_nonneg_int _ = Inl ValueError"

definition new_budget ::
  "pyval \<Rightarrow> string \<Rightarrow> int \<Rightarrow> ModalityProfile option \<Rightarrow> nat option \<Rightarrow> TokenBudget result" where
  "new_budget allocated kind depth profile parent =
     rbind (check_nonneg_int allocated) (\<lambda>a.
       if depth < 0 then Inl ValueError
       else Inr \<lparr>b_allocated = a, b_consumed = 0, b_kind = kind, b_depth = depth,
                 b_profile = profile, b_parent = parent\<rparr>)"

definition for_modality :: "ComplexityModality \<Rightarrow> int \<Rightarrow> string \<Rightarrow> TokenBudget result" where
  "for_modality m depth kind =
     (let p = modality_profile m
      in rbind (token_quota_at_depth p depth) (\<lambda>quota.
           new_budget (PInt quota) kind depth (Some p) None))"

definition remaining :: "TokenBudget \<Rightarrow> int" where
  "remaining b = b_allocated b - b_consumed b"

definition exhausted :: "TokenBudget \<Rightarrow> bool" where
  "exhausted b \<longleftrightarrow> remaining b \<le> 0"

text \<open>
  The recursion over the ancestors. A parent is older than its child, so the recursion ends; the
  guard that says so is what every store built by \<open>child\<close> satisfies.
\<close>

function can_afford_int :: "budgets \<Rightarrow> nat \<Rightarrow> int \<Rightarrow> bool" where
  "can_afford_int bs i tokens =
     (tokens \<le> remaining (bs ! i) \<and>
      (case b_parent (bs ! i) of None \<Rightarrow> True | Some p \<Rightarrow> if p < i then can_afford_int bs p tokens else False))"
  by pat_completeness auto
termination by (relation "measure (\<lambda>(bs, i, tokens). i)") auto

definition debit :: "budgets \<Rightarrow> nat \<Rightarrow> int \<Rightarrow> budgets" where
  "debit bs i tokens = bs[i := (bs ! i)\<lparr>b_consumed := b_consumed (bs ! i) + tokens\<rparr>]"

function try_consume_int :: "budgets \<Rightarrow> nat \<Rightarrow> int \<Rightarrow> bool \<times> budgets" where
  "try_consume_int bs i tokens =
     (if tokens > remaining (bs ! i) then (False, bs)
      else case b_parent (bs ! i) of
        None \<Rightarrow> (True, debit bs i tokens)
      | Some p \<Rightarrow>
          if p < i then
            (case try_consume_int bs p tokens of
               (False, bs') \<Rightarrow> (False, bs')
             | (True, bs') \<Rightarrow> (True, debit bs' i tokens))
          else (False, bs))"
  by pat_completeness auto
termination by (relation "measure (\<lambda>(bs, i, tokens). i)") auto

declare can_afford_int.simps [simp del] try_consume_int.simps [simp del]

definition can_afford :: "budgets \<Rightarrow> nat \<Rightarrow> pyval \<Rightarrow> bool result" where
  "can_afford bs i tokens = rmap (can_afford_int bs i) (check_nonneg_int tokens)"

definition try_consume :: "budgets \<Rightarrow> nat \<Rightarrow> pyval \<Rightarrow> (bool \<times> budgets) result" where
  "try_consume bs i tokens = rmap (try_consume_int bs i) (check_nonneg_int tokens)"

definition consume_or_raise :: "budgets \<Rightarrow> nat \<Rightarrow> pyval \<Rightarrow> budgets result" where
  "consume_or_raise bs i tokens =
     rbind (try_consume bs i tokens) (\<lambda>(ok, bs'). if ok then Inr bs' else Inl BudgetExceededError)"

definition consume_text :: "(string \<Rightarrow> int) \<Rightarrow> budgets \<Rightarrow> nat \<Rightarrow> string \<Rightarrow> (bool \<times> budgets) result" where
  "consume_text est bs i s = try_consume bs i (PInt (est s))"

text \<open>\<open>child\<close>: the sub-budget is a new object at the end of the store.\<close>

definition child_quota :: "TokenBudget \<Rightarrow> int \<Rightarrow> int result" where
  "child_quota b depth =
     (case b_profile b of
        Some p \<Rightarrow> token_quota_at_depth p (b_depth b + depth)
      | None \<Rightarrow> Inr (if depth < 32 then b_allocated b div 2 ^ nat depth else 0))"

definition child :: "budgets \<Rightarrow> nat \<Rightarrow> pyval \<Rightarrow> budgets result" where
  "child bs i depth =
     rbind (check_nonneg_int depth) (\<lambda>d.
     rbind (child_quota (bs ! i) d) (\<lambda>quota.
     rmap (\<lambda>b. bs @ [b])
       (new_budget (PInt (min quota (remaining (bs ! i)))) (b_kind (bs ! i)) (b_depth (bs ! i) + d)
         (b_profile (bs ! i)) (Some i))))"

subsection \<open>Invariant\<close>

definition spent_by_children :: "budgets \<Rightarrow> nat \<Rightarrow> int" where
  "spent_by_children bs p = sum_list (map b_consumed (filter (\<lambda>b. b_parent b = Some p) bs))"

definition budget_ok :: "TokenBudget \<Rightarrow> bool" where
  "budget_ok b \<longleftrightarrow> 0 \<le> b_consumed b \<and> b_consumed b \<le> b_allocated b"

definition parents_older :: "budgets \<Rightarrow> bool" where
  "parents_older bs \<longleftrightarrow> (\<forall>i < length bs. \<forall>p. b_parent (bs ! i) = Some p \<longrightarrow> p < i)"

definition budgets_inv :: "budgets \<Rightarrow> bool" where
  "budgets_inv bs \<longleftrightarrow>
     (\<forall>b \<in> set bs. budget_ok b) \<and>
     parents_older bs \<and>
     (\<forall>p < length bs. spent_by_children bs p \<le> b_consumed (bs ! p))"

text \<open>The chain of ancestors that a debit touches.\<close>

function ancestry :: "budgets \<Rightarrow> nat \<Rightarrow> nat list" where
  "ancestry bs i = (case b_parent (bs ! i) of
     None \<Rightarrow> [i] | Some p \<Rightarrow> if p < i then i # ancestry bs p else [i])"
  by pat_completeness auto
termination by (relation "measure (\<lambda>(bs, i). i)") (auto split: option.splits)

declare ancestry.simps [simp del]

definition debit_all :: "budgets \<Rightarrow> nat list \<Rightarrow> int \<Rightarrow> budgets" where
  "debit_all bs is tokens =
     map (\<lambda>(j, b). if j \<in> set is then b\<lparr>b_consumed := b_consumed b + tokens\<rparr> else b) (enumerate 0 bs)"

lemma length_debit_all [simp]: "length (debit_all bs js t) = length bs"
  by (simp add: debit_all_def)

lemma nth_debit_all:
  "i < length bs \<Longrightarrow> debit_all bs js t ! i =
     (if i \<in> set js then (bs ! i)\<lparr>b_consumed := b_consumed (bs ! i) + t\<rparr> else bs ! i)"
  by (simp add: debit_all_def nth_enumerate_eq)

lemma debit_debit_all:
  assumes "i \<notin> set js" "i < length bs"
  shows "debit (debit_all bs js t) i t = debit_all bs (i # js) t"
proof (rule nth_equalityI)
  fix k
  assume "k < length (debit (debit_all bs js t) i t)"
  then show "debit (debit_all bs js t) i t ! k = debit_all bs (i # js) t ! k"
    using assms by (auto simp: debit_def nth_debit_all nth_list_update)
qed (simp add: debit_def)

lemma debit_single: "i < length bs \<Longrightarrow> debit bs i t = debit_all bs [i] t"
  by (rule nth_equalityI) (auto simp: debit_def nth_debit_all nth_list_update)

lemma ancestry_le: "j \<in> set (ancestry bs i) \<Longrightarrow> j \<le> i"
proof (induction bs i rule: ancestry.induct)
  case (1 bs i)
  show ?case
    using 1(2) 1(1) by (subst (asm) ancestry.simps) (fastforce split: option.splits if_splits)
qed

lemma ancestry_self: "i \<in> set (ancestry bs i)"
  by (subst ancestry.simps) (simp split: option.split)

lemma can_afford_ancestry:
  "can_afford_int bs i t \<Longrightarrow> j \<in> set (ancestry bs i) \<Longrightarrow> t \<le> remaining (bs ! j)"
proof (induction bs i t rule: can_afford_int.induct)
  case (1 bs i t)
  show ?case
    using 1(2,3) 1(1)
    by (subst (asm) can_afford_int.simps, subst (asm) ancestry.simps)
       (auto split: option.splits if_splits)
qed

text \<open>
  A consumption is all or nothing: it succeeds exactly when every budget of the chain can pay, and
  then debits each of them once; otherwise the store is unchanged.
\<close>

lemma try_consume_int_spec:
  assumes "parents_older bs" "i < length bs"
  shows "try_consume_int bs i t =
    (if can_afford_int bs i t then (True, debit_all bs (ancestry bs i) t) else (False, bs))"
  using assms(2)
proof (induction i rule: less_induct)
  case (less i)
  show ?case
  proof (cases "b_parent (bs ! i)")
    case None
    then show ?thesis
      using less.prems by (subst try_consume_int.simps, subst can_afford_int.simps, subst ancestry.simps)
        (simp add: debit_single)
  next
    case (Some p)
    then have "p < i" using assms(1) less.prems by (simp add: parents_older_def)
    moreover have "i \<notin> set (ancestry bs p)" using ancestry_le[of i bs p] \<open>p < i\<close> by auto
    ultimately show ?thesis
      using less Some
      by (subst try_consume_int.simps, subst can_afford_int.simps, subst ancestry.simps)
         (simp add: debit_debit_all)
  qed
qed

lemma spent_by_children_sum:
  "spent_by_children bs p =
     (\<Sum>j<length bs. if b_parent (bs ! j) = Some p then b_consumed (bs ! j) else 0)"
  unfolding spent_by_children_def sum_list_map_filter'
  by (simp add: sum_list_sum_nth atLeast0LessThan)

lemma ancestry_children:
  assumes "parents_older bs" "i < length bs"
  shows "\<exists>c. {j \<in> set (ancestry bs i). b_parent (bs ! j) = Some p} \<subseteq>
    (if p \<in> set (ancestry bs i) then {c} else {})"
  using assms(2)
proof (induction i rule: less_induct)
  case (less i)
  show ?case
  proof (cases "b_parent (bs ! i)")
    case None
    then show ?thesis by (subst (1 2) ancestry.simps) auto
  next
    case (Some q)
    then have q: "q < i" using assms(1) less.prems by (simp add: parents_older_def)
    then have anc: "ancestry bs i = i # ancestry bs q"
      using Some by (subst ancestry.simps) simp
    show ?thesis
    proof (cases "p = q")
      case True
      have "j = i" if "j \<in> set (ancestry bs i)" "b_parent (bs ! j) = Some p" for j
      proof (rule ccontr)
        assume "j \<noteq> i"
        then have "j \<le> q" using that(1) anc ancestry_le by auto
        then show False
          using assms(1)[unfolded parents_older_def, rule_format, of j p] that(2) q less.prems True
          by simp
      qed
      then show ?thesis using anc ancestry_self[of q bs] True by auto
    next
      case False
      obtain c where "{j \<in> set (ancestry bs q). b_parent (bs ! j) = Some p} \<subseteq>
          (if p \<in> set (ancestry bs q) then {c} else {})"
        using less.IH[OF q] q less.prems by auto
      then have "{j \<in> set (ancestry bs i). b_parent (bs ! j) = Some p} \<subseteq>
          (if p \<in> set (ancestry bs i) then {c} else {})"
        using Some anc False by (auto split: if_splits)
      then show ?thesis by blast
    qed
  qed
qed

lemma debit_all_spent:
  assumes "parents_older bs" "i < length bs" "0 \<le> t"
  shows "spent_by_children (debit_all bs (ancestry bs i) t) p \<le>
    spent_by_children bs p + (if p \<in> set (ancestry bs i) then t else 0)"
proof -
  let ?A = "ancestry bs i"
  let ?C = "{j \<in> set ?A. b_parent (bs ! j) = Some p}"
  obtain c where c: "?C \<subseteq> (if p \<in> set ?A then {c} else {})"
    using ancestry_children[OF assms(1,2)] by blast
  have sub: "{j. j < length bs \<and> j \<in> ?C} = ?C" using ancestry_le[of _ bs i] assms(2) by fastforce
  have "spent_by_children (debit_all bs ?A t) p =
      spent_by_children bs p + (\<Sum>j<length bs. if j \<in> ?C then t else 0)"
    unfolding spent_by_children_sum sum.distrib[symmetric] length_debit_all
    by (rule sum.cong) (auto simp: nth_debit_all)
  also have "(\<Sum>j<length bs. if j \<in> ?C then t else 0) = int (card ?C) * t"
    using sub by (simp add: sum.If_cases Int_def lessThan_def)
  also have "\<dots> \<le> (if p \<in> set ?A then t else 0)"
  proof (cases "p \<in> set ?A")
    case True
    then have "card ?C \<le> 1" using c card_mono[of "{c}" ?C] by simp
    then show ?thesis using True assms(3) mult_right_mono[of "int (card ?C)" 1 t] by simp
  next
    case False
    then have C: "?C = {}" using c by auto
    show ?thesis unfolding C using False by simp
  qed
  finally show ?thesis by simp
qed

lemma debit_all_inv:
  assumes inv: "budgets_inv bs" and i: "i < length bs" and t: "0 \<le> t"
    and afford: "can_afford_int bs i t"
  shows "budgets_inv (debit_all bs (ancestry bs i) t)"
proof -
  have older: "parents_older bs" using inv by (simp add: budgets_inv_def)
  have ok: "budget_ok (debit_all bs (ancestry bs i) t ! k)" if "k < length bs" for k
    using inv that t can_afford_ancestry[OF afford, of k]
    by (auto simp: budgets_inv_def budget_ok_def nth_debit_all remaining_def)
  have spent: "spent_by_children (debit_all bs (ancestry bs i) t) p
      \<le> b_consumed (debit_all bs (ancestry bs i) t ! p)" if "p < length bs" for p
    using debit_all_spent[OF older i t, of p] inv that
    by (force simp: budgets_inv_def nth_debit_all)
  show ?thesis
    using ok spent older by (auto simp: budgets_inv_def parents_older_def in_set_conv_nth nth_debit_all)
qed

lemma check_nonneg_int_Inr: "check_nonneg_int v = Inr t \<Longrightarrow> 0 \<le> t"
  by (induction v rule: check_nonneg_int.induct) (auto split: if_splits)

lemma try_consume_inv:
  assumes "budgets_inv bs" "i < length bs" "try_consume bs i v = Inr (ok, bs')"
  shows "budgets_inv bs'"
proof -
  obtain t where t: "check_nonneg_int v = Inr t" "try_consume_int bs i t = (ok, bs')"
    using assms(3) by (auto simp: try_consume_def rmap_eq_Inr)
  moreover have "parents_older bs" using assms(1) by (simp add: budgets_inv_def)
  ultimately show ?thesis
    using assms(1,2) debit_all_inv[OF assms(1,2)] check_nonneg_int_Inr[OF t(1)]
    by (auto simp: try_consume_int_spec split: if_splits)
qed

lemma spent_by_children_snoc:
  "spent_by_children (bs @ [b]) p =
     spent_by_children bs p + (if b_parent b = Some p then b_consumed b else 0)"
  by (simp add: spent_by_children_def)

lemma spent_by_children_none:
  assumes "parents_older bs"
  shows "spent_by_children bs (length bs) = 0"
proof -
  have "b_parent b \<noteq> Some (length bs)" if "b \<in> set bs" for b
    using assms that by (auto simp: parents_older_def in_set_conv_nth)
  then show ?thesis by (simp add: spent_by_children_def cong: filter_cong)
qed

lemma child_allocation:
  assumes "child bs i v = Inr bs'"
  obtains b where "bs' = bs @ [b]" "b_parent b = Some i" "b_consumed b = 0"
    "0 \<le> b_allocated b" "b_allocated b \<le> remaining (bs ! i)"
  using assms by (auto simp: child_def new_budget_def rbind_eq_Inr rmap_eq_Inr min_less_iff_disj not_less
      split: if_splits)

lemma child_inv:
  assumes inv: "budgets_inv bs" and i: "i < length bs" and ch: "child bs i v = Inr bs'"
  shows "budgets_inv bs'"
proof -
  obtain b where b: "bs' = bs @ [b]" "b_parent b = Some i" "b_consumed b = 0" "0 \<le> b_allocated b"
    using child_allocation[OF ch] by metis
  show ?thesis
    using inv i b spent_by_children_none[of bs]
    by (auto simp: budgets_inv_def budget_ok_def parents_older_def spent_by_children_snoc
        nth_append less_Suc_eq)
qed

text \<open>Every store that the operations can build from fresh root budgets.\<close>

inductive budget_run :: "budgets \<Rightarrow> bool" where
  br_empty: "budget_run []"
| br_root: "budget_run bs \<Longrightarrow> new_budget a k d p None = Inr b \<Longrightarrow> budget_run (bs @ [b])"
| br_child: "budget_run bs \<Longrightarrow> i < length bs \<Longrightarrow> child bs i v = Inr bs' \<Longrightarrow> budget_run bs'"
| br_consume: "budget_run bs \<Longrightarrow> i < length bs \<Longrightarrow> try_consume bs i v = Inr (ok, bs') \<Longrightarrow> budget_run bs'"

lemma new_budget_inv:
  assumes "budgets_inv bs" "new_budget a k d p None = Inr b"
  shows "budgets_inv (bs @ [b])"
proof -
  have "b_parent b = None" "budget_ok b"
    using assms(2) check_nonneg_int_Inr[of a]
    by (auto simp: new_budget_def budget_ok_def rbind_eq_Inr split: if_splits)
  then show ?thesis
    using assms(1) spent_by_children_none[of bs]
    by (auto simp: budgets_inv_def budget_ok_def parents_older_def spent_by_children_snoc
        nth_append less_Suc_eq)
qed

lemma budget_run_inv: "budget_run bs \<Longrightarrow> budgets_inv bs"
proof (induction rule: budget_run.induct)
  case br_empty
  show ?case by (simp add: budgets_inv_def parents_older_def)
qed (blast intro: new_budget_inv child_inv try_consume_inv)+

end
