(* ===== verification/Watchdog.thy ===== *)
theory Watchdog
  imports Dynamic_Values Complex_Main
begin

text \<open>
  Resource sampling and heartbeat liveness (\<open>paa.sandbox.watchdog\<close>).

  The watchdog is the state its samples accumulate; the calls of the breach callback are the
  second component of a step. What the operating system reports is an argument of
  \<open>sample_rss_mb\<close>. The heartbeat clock is a function from the number of the reading to its value:
  every \<open>self._clock()\<close> of the code is one reading. Seconds and megabytes are rationals.
\<close>

subsection \<open>Samples\<close>

datatype SamplerSource = PSUTIL | WINDOWS_NATIVE | PROC_FS | UNAVAILABLE

text \<open>The three probes of \<open>sample_rss_mb\<close>, as they answer for the process at one moment.\<close>

record probes =
  psutil_rss :: "(rat \<times> rat) option"
  windows_rss :: "rat option"
  procfs_rss :: "rat option"

definition sample_rss_mb :: "probes \<Rightarrow> rat option \<times> rat \<times> SamplerSource" where
  "sample_rss_mb os =
     (case psutil_rss os of
        Some (rss, cpu) \<Rightarrow> (Some rss, cpu, PSUTIL)
      | None \<Rightarrow>
          (case windows_rss os of
             Some rss \<Rightarrow> (Some rss, 0, WINDOWS_NATIVE)
           | None \<Rightarrow>
               (case procfs_rss os of
                  Some rss \<Rightarrow> (Some rss, 0, PROC_FS)
                | None \<Rightarrow> (None, 0, UNAVAILABLE))))"

subsection \<open>The watchdog\<close>

record ResourceWatchdog =
  memory_mb :: int
  interval :: rat
  has_callback :: bool
  peak_rss_mb :: "rat option"
  peak_cpu_percent :: rat
  samples_taken :: nat
  sampler :: SamplerSource
  breached :: bool
  breach_reason :: "string option"
  breach_fired :: bool

definition new_watchdog :: "int \<Rightarrow> rat \<Rightarrow> bool \<Rightarrow> ResourceWatchdog result" where
  "new_watchdog memory interval_seconds callback =
     (if interval_seconds \<le> 0 then Inl ValueError
      else Inr \<lparr>memory_mb = memory, interval = interval_seconds, has_callback = callback,
                peak_rss_mb = None, peak_cpu_percent = 0, samples_taken = 0,
                sampler = UNAVAILABLE, breached = False, breach_reason = None,
                breach_fired = False\<rparr>)"

definition sampling_available :: "ResourceWatchdog \<Rightarrow> bool" where
  "sampling_available w \<longleftrightarrow> sampler w \<noteq> UNAVAILABLE \<and> peak_rss_mb w \<noteq> None"

definition raise_peak :: "rat option \<Rightarrow> rat \<Rightarrow> rat option" where
  "raise_peak peak rss =
     (case peak of None \<Rightarrow> Some rss | Some p \<Rightarrow> if rss > p then Some rss else Some p)"

text \<open>\<open>_sample_once\<close>; the second component is the callback invocations \<open>on_breach(reason, rss)\<close>.\<close>

definition sample_once :: "probes \<Rightarrow> ResourceWatchdog \<Rightarrow> ResourceWatchdog \<times> (string \<times> rat) list" where
  "sample_once os w =
     (case sample_rss_mb os of
        (rss_mb, cpu, source) \<Rightarrow>
          let w1 = (if source \<noteq> UNAVAILABLE then w\<lparr>sampler := source\<rparr> else w)
          in (case rss_mb of
                None \<Rightarrow> (w1, [])
              | Some rss \<Rightarrow>
                  let w2 = w1\<lparr>samples_taken := samples_taken w1 + 1,
                              peak_rss_mb := raise_peak (peak_rss_mb w1) rss,
                              peak_cpu_percent := max (peak_cpu_percent w1) cpu\<rparr>
                  in if rss > of_int (memory_mb w2) \<and> \<not> breach_fired w2
                     then (w2\<lparr>breach_fired := True, breached := True, breach_reason := Some ''memory''\<rparr>,
                           if has_callback w2 then [(''memory'', rss)] else [])
                     else (w2, [])))"

text \<open>\<open>_loop\<close>: one sample per round until stopped; the list holds what the rounds observed.\<close>

primrec watch_loop :: "probes list \<Rightarrow> ResourceWatchdog \<Rightarrow> ResourceWatchdog \<times> (string \<times> rat) list" where
  "watch_loop [] w = (w, [])"
| "watch_loop (os # rest) w =
     (case sample_once os w of (w1, calls) \<Rightarrow>
        (case watch_loop rest w1 of (w2, later) \<Rightarrow> (w2, calls @ later)))"

definition measured :: "probes list \<Rightarrow> rat list" where
  "measured obs = List.map_filter (\<lambda>os. fst (sample_rss_mb os)) obs"

lemma measured_simps [simp]:
  "measured [] = []"
  "measured (os # obs) = (case fst (sample_rss_mb os) of None \<Rightarrow> [] | Some r \<Rightarrow> [r]) @ measured obs"
  by (auto simp: measured_def List.map_filter_def split: option.splits)

lemma sample_once_fields:
  assumes "sample_once os w = (w', calls)"
  shows "memory_mb w' = memory_mb w" "has_callback w' = has_callback w"
    and "breached w' \<longleftrightarrow> breached w \<or>
      (\<not> breach_fired w \<and> (\<exists>r. fst (sample_rss_mb os) = Some r \<and> r > of_int (memory_mb w)))"
    and "breach_fired w' \<longleftrightarrow> breach_fired w \<or>
      (\<exists>r. fst (sample_rss_mb os) = Some r \<and> r > of_int (memory_mb w))"
    and "calls = (if \<not> breach_fired w \<and> has_callback w then
      map (\<lambda>r. (''memory'', r)) (filter (\<lambda>r. r > of_int (memory_mb w)) (measured [os])) else [])"
    and "samples_taken w' = samples_taken w + length (measured [os])"
    and "peak_rss_mb w' = (case fst (sample_rss_mb os) of None \<Rightarrow> peak_rss_mb w
           | Some r \<Rightarrow> raise_peak (peak_rss_mb w) r)"
  using assms
  by (auto simp: sample_once_def Let_def split: prod.splits option.splits if_splits)

text \<open>Over a whole run: the flag is set exactly by a sample above the ceiling, and the callback is
  called once, with the first such sample.\<close>

lemma watch_loop_breach:
  assumes "breach_fired w = breached w" "watch_loop obs w = (w', calls)"
  shows "breached w' \<longleftrightarrow> breached w \<or> (\<exists>r \<in> set (measured obs). r > of_int (memory_mb w))"
    and "calls = (if breached w \<or> \<not> has_callback w then []
      else map (\<lambda>r. (''memory'', r)) (take 1 (filter (\<lambda>r. r > of_int (memory_mb w)) (measured obs))))"
    and "samples_taken w' = samples_taken w + length (measured obs)"
    and "peak_rss_mb w' = fold (\<lambda>r p. raise_peak p r) (measured obs) (peak_rss_mb w)"
  using assms
proof (induction obs arbitrary: w w' calls)
  case Nil
  {
    case 1 then show ?case by simp
  next
    case 2 then show ?case by simp
  next
    case 3 then show ?case by simp
  next
    case 4 then show ?case by simp
  }
next
  case (Cons os obs)
  {
    fix w w' calls
    assume f: "breach_fired w = breached w" and run: "watch_loop (os # obs) w = (w', calls)"
    obtain w1 c1 c2 where s: "sample_once os w = (w1, c1)" "watch_loop obs w1 = (w', c2)"
      "calls = c1 @ c2"
      using run by (auto split: prod.splits)
    note fields = sample_once_fields[OF s(1)]
    have f1: "breach_fired w1 = breached w1" using fields(3,4) f by auto
    note IH = Cons.IH[OF f1 s(2)]
    have "breached w' \<longleftrightarrow> breached w \<or> (\<exists>r \<in> set (measured (os # obs)). r > of_int (memory_mb w))"
      using IH(1) fields(1,3) f by (auto split: option.splits)
    moreover have "calls = (if breached w \<or> \<not> has_callback w then []
      else map (\<lambda>r. (''memory'', r)) (take 1 (filter (\<lambda>r. r > of_int (memory_mb w)) (measured (os # obs)))))"
      using IH(2) fields(1,2,3,5) f s(3) by (auto split: option.splits)
    moreover have "samples_taken w' = samples_taken w + length (measured (os # obs))"
      using IH(3) fields(6) by (simp split: option.splits)
    moreover have "peak_rss_mb w' = fold (\<lambda>r p. raise_peak p r) (measured (os # obs)) (peak_rss_mb w)"
      using IH(4) fields(7) by (simp split: option.splits)
    moreover note calculation
  }
  note step = this
  { case 1 then show ?case by (rule step(1))
  next
    case 2 then show ?case by (rule step(2))
  next
    case 3 then show ?case by (rule step(3))
  next
    case 4 then show ?case by (rule step(4)) }
qed

lemma raise_peak_fold:
  "fold (\<lambda>r p. raise_peak p r) rs p =
     (case p of None \<Rightarrow> (if rs = [] then None else Some (Max (set rs)))
      | Some x \<Rightarrow> Some (Max (insert x (set rs))))"
proof (induction rs arbitrary: p)
  case Nil
  then show ?case by (simp split: option.splits)
next
  case (Cons r rs)
  have "Max (insert x (insert r (set rs))) = Max (insert (max x r) (set rs))" for x
    by (cases "rs = []") (simp_all add: max.assoc)
  then show ?case
    using Cons by (auto simp: raise_peak_def max_def split: option.splits)
qed

subsection \<open>Heartbeats\<close>

record WorkerLiveness =
  worker_id :: string
  registered_at :: rat
  last_beat_at :: rat
  beat_count :: nat
  declared_dead :: bool
  metadata :: "(string \<times> pyval) list"

record HeartbeatTracker =
  hb_interval :: rat
  hb_tolerance :: int
  hb_workers :: "(string \<times> WorkerLiveness) list"
  hb_readings :: nat

type_synonym clock = "nat \<Rightarrow> rat"

definition new_tracker :: "rat \<Rightarrow> int \<Rightarrow> HeartbeatTracker result" where
  "new_tracker interval_seconds miss_tolerance =
     (if interval_seconds \<le> 0 then Inl ValueError
      else if miss_tolerance < 1 then Inl ValueError
      else Inr \<lparr>hb_interval = interval_seconds, hb_tolerance = miss_tolerance,
                hb_workers = [], hb_readings = 0\<rparr>)"

definition deadline_seconds :: "HeartbeatTracker \<Rightarrow> rat" where
  "deadline_seconds h = hb_interval h * of_int (hb_tolerance h)"

definition read_clock :: "clock \<Rightarrow> HeartbeatTracker \<Rightarrow> rat \<times> HeartbeatTracker" where
  "read_clock clk h = (clk (hb_readings h), h\<lparr>hb_readings := hb_readings h + 1\<rparr>)"

definition register_worker ::
  "clock \<Rightarrow> HeartbeatTracker \<Rightarrow> string \<Rightarrow> (string \<times> pyval) list \<Rightarrow> WorkerLiveness \<times> HeartbeatTracker" where
  "register_worker clk h w md =
     (case read_clock clk h of (now, h1) \<Rightarrow>
        let l = \<lparr>worker_id = w, registered_at = now, last_beat_at = now, beat_count = 0,
                 declared_dead = False, metadata = md\<rparr>
        in (l, h1\<lparr>hb_workers := dict_set (hb_workers h1) w l\<rparr>))"

definition beat :: "clock \<Rightarrow> HeartbeatTracker \<Rightarrow> string \<Rightarrow> WorkerLiveness \<times> HeartbeatTracker" where
  "beat clk h w =
     (case (case dict_get (hb_workers h) w of
              None \<Rightarrow> register_worker clk h w [] | Some l \<Rightarrow> (l, h)) of
        (l, h1) \<Rightarrow>
          (case read_clock clk h1 of (now, h2) \<Rightarrow>
             let l' = l\<lparr>last_beat_at := now, beat_count := beat_count l + 1, declared_dead := False\<rparr>
             in (l', h2\<lparr>hb_workers := dict_set (hb_workers h2) w l'\<rparr>)))"

definition silence_seconds :: "clock \<Rightarrow> HeartbeatTracker \<Rightarrow> string \<Rightarrow> rat result \<times> HeartbeatTracker" where
  "silence_seconds clk h w =
     (case dict_get (hb_workers h) w of
        None \<Rightarrow> (Inl KeyError, h)
      | Some l \<Rightarrow> (case read_clock clk h of (now, h1) \<Rightarrow> (Inr (now - last_beat_at l), h1)))"

definition missed_beats :: "clock \<Rightarrow> HeartbeatTracker \<Rightarrow> string \<Rightarrow> int result \<times> HeartbeatTracker" where
  "missed_beats clk h w =
     (case silence_seconds clk h w of (s, h1) \<Rightarrow> (rmap (\<lambda>x. \<lfloor>x / hb_interval h\<rfloor>) s, h1))"

definition is_alive :: "clock \<Rightarrow> HeartbeatTracker \<Rightarrow> string \<Rightarrow> bool result \<times> HeartbeatTracker" where
  "is_alive clk h w =
     (case dict_get (hb_workers h) w of
        None \<Rightarrow> (Inr False, h)
      | Some l \<Rightarrow>
          (case silence_seconds clk h w of (s, h1) \<Rightarrow> (rmap (\<lambda>x. x \<le> deadline_seconds h) s, h1)))"

text \<open>The loop of \<open>sweep\<close>: entries, their new values, the newly dead and the clock readings used.
  A death reads the clock a second time, for the log line.\<close>

fun sweep_entries ::
  "clock \<Rightarrow> rat \<Rightarrow> nat \<Rightarrow> (string \<times> WorkerLiveness) list \<Rightarrow>
   (string \<times> WorkerLiveness) list \<times> WorkerLiveness list \<times> nat" where
  "sweep_entries clk deadline n [] = ([], [], n)"
| "sweep_entries clk deadline n ((w, l) # rest) =
     (if declared_dead l then
        (case sweep_entries clk deadline n rest of (ws, dead, m) \<Rightarrow> ((w, l) # ws, dead, m))
      else if clk n - last_beat_at l > deadline then
        (let l' = l\<lparr>declared_dead := True\<rparr>
         in case sweep_entries clk deadline (n + 2) rest of (ws, dead, m) \<Rightarrow> ((w, l') # ws, l' # dead, m))
      else
        (case sweep_entries clk deadline (n + 1) rest of (ws, dead, m) \<Rightarrow> ((w, l) # ws, dead, m)))"

definition sweep :: "clock \<Rightarrow> HeartbeatTracker \<Rightarrow> WorkerLiveness list \<times> HeartbeatTracker" where
  "sweep clk h =
     (case sweep_entries clk (deadline_seconds h) (hb_readings h) (hb_workers h) of
        (ws, dead, m) \<Rightarrow> (dead, h\<lparr>hb_workers := ws, hb_readings := m\<rparr>))"

definition dead_workers :: "clock \<Rightarrow> HeartbeatTracker \<Rightarrow> string list \<times> HeartbeatTracker" where
  "dead_workers clk h =
     (case sweep clk h of (_, h1) \<Rightarrow>
        (map worker_id (filter declared_dead (map snd (hb_workers h1))), h1))"

definition forget :: "HeartbeatTracker \<Rightarrow> string \<Rightarrow> HeartbeatTracker" where
  "forget h w = h\<lparr>hb_workers := dict_del (hb_workers h) w\<rparr>"

subsection \<open>Heartbeat lemmas\<close>

text \<open>The dictionary key of an entry is the id inside it.\<close>

definition tracker_inv :: "HeartbeatTracker \<Rightarrow> bool" where
  "tracker_inv h \<longleftrightarrow> 0 < hb_interval h \<and> 1 \<le> hb_tolerance h \<and>
     distinct (map fst (hb_workers h)) \<and>
     (\<forall>(w, l) \<in> set (hb_workers h). worker_id l = w)"

datatype heartbeat_op =
    Register string "(string \<times> pyval) list"
  | Beat string
  | Sweep
  | Forget string

text \<open>One operation: the new tracker and the deaths it reports.\<close>

fun heartbeat_step :: "clock \<Rightarrow> HeartbeatTracker \<Rightarrow> heartbeat_op \<Rightarrow> WorkerLiveness list \<times> HeartbeatTracker" where
  "heartbeat_step clk h (Register w md) = ([], snd (register_worker clk h w md))"
| "heartbeat_step clk h (Beat w) = ([], snd (beat clk h w))"
| "heartbeat_step clk h Sweep = sweep clk h"
| "heartbeat_step clk h (Forget w) = ([], forget h w)"

primrec heartbeat_run :: "clock \<Rightarrow> HeartbeatTracker \<Rightarrow> heartbeat_op list \<Rightarrow> WorkerLiveness list \<times> HeartbeatTracker" where
  "heartbeat_run clk h [] = ([], h)"
| "heartbeat_run clk h (op # ops) =
     (case heartbeat_step clk h op of (dead, h1) \<Rightarrow>
        (case heartbeat_run clk h1 ops of (later, h2) \<Rightarrow> (dead @ later, h2)))"

lemma sweep_entries_keys:
  "sweep_entries clk d n es = (ws, dead, m) \<Longrightarrow> map fst ws = map fst es"
  by (induction clk d n es arbitrary: ws dead m rule: sweep_entries.induct)
     (auto simp: Let_def split: if_splits prod.splits)

lemma sweep_entries_get:
  assumes "sweep_entries clk d n es = (ws, dead, m)" "dict_get es w = Some l"
  shows "\<exists>l'. dict_get ws w = Some l' \<and>
    (l' = l \<or> l' = l\<lparr>declared_dead := True\<rparr> \<and> \<not> declared_dead l)"
  using assms
  by (induction clk d n es arbitrary: ws dead m rule: sweep_entries.induct)
     (auto simp: Let_def dict_get_def split: if_splits prod.splits)

lemma sweep_entries_dead:
  assumes "sweep_entries clk d n es = (ws, dead, m)" "x \<in> set dead"
  shows "\<exists>w l k. (w, l) \<in> set es \<and> \<not> declared_dead l \<and> x = l\<lparr>declared_dead := True\<rparr> \<and>
    (w, x) \<in> set ws \<and> n \<le> k \<and> clk k - last_beat_at l > d"
  using assms
proof (induction clk d n es arbitrary: ws dead m rule: sweep_entries.induct)
  case (2 clk d n w l rest)
  then show ?case
    by (auto simp: Let_def split: if_splits prod.splits) (fastforce dest: Suc_leD)+
qed simp

text \<open>With a clock that never runs backwards, a sweep misses nobody.\<close>

lemma sweep_entries_complete:
  assumes "sweep_entries clk d n es = (ws, dead, m)" "mono clk" "(w, l) \<in> set es"
    "clk n - last_beat_at l > d" "\<not> declared_dead l"
  shows "l\<lparr>declared_dead := True\<rparr> \<in> set dead"
  using assms
proof (induction clk d n es arbitrary: ws dead m rule: sweep_entries.induct)
  case (2 clk d n v k rest)
  have later: "clk (n + j) - last_beat_at l > d" for j
    using monoD[OF \<open>mono clk\<close>, of n "n + j"] \<open>clk n - last_beat_at l > d\<close> by simp
  show ?case
    using "2.prems" "2.IH" later[of 1] later[of 2]
    by (auto simp: Let_def split: if_splits prod.splits)
qed simp

text \<open>A worker that has been reported stays quiet until it beats or is registered again.\<close>

definition quiet :: "HeartbeatTracker \<Rightarrow> string \<Rightarrow> bool" where
  "quiet h w \<longleftrightarrow> (\<forall>l. dict_get (hb_workers h) w = Some l \<longrightarrow> declared_dead l)"

fun revives :: "heartbeat_op \<Rightarrow> string \<Rightarrow> bool" where
  "revives (Register v md) w \<longleftrightarrow> v = w"
| "revives (Beat v) w \<longleftrightarrow> v = w"
| "revives _ w \<longleftrightarrow> False"

lemma sweep_entries_in:
  "sweep_entries clk d n es = (ws, dead, m) \<Longrightarrow> (w, l') \<in> set ws \<Longrightarrow>
     \<exists>l. (w, l) \<in> set es \<and> worker_id l' = worker_id l"
  by (induction clk d n es arbitrary: ws dead m rule: sweep_entries.induct)
     (fastforce simp: Let_def split: if_splits prod.splits)+

lemma register_worker_inv: "tracker_inv h \<Longrightarrow> tracker_inv (snd (register_worker clk h w md))"
  by (auto simp: tracker_inv_def register_worker_def read_clock_def Let_def dict_set_distinct
      dest!: dict_set_in)

lemma beat_inv:
  assumes "tracker_inv h"
  shows "tracker_inv (snd (beat clk h w))"
proof (cases "dict_get (hb_workers h) w")
  case None
  then show ?thesis
    using assms
    by (auto simp: beat_def register_worker_def read_clock_def Let_def tracker_inv_def
        dict_set_distinct dest!: dict_set_in)
next
  case (Some l)
  then have "worker_id l = w" using assms dict_get_in[OF Some] by (auto simp: tracker_inv_def)
  then show ?thesis
    using Some assms
    by (auto simp: beat_def read_clock_def Let_def tracker_inv_def dict_set_distinct
        dest!: dict_set_in)
qed

lemma sweep_inv:
  assumes "tracker_inv h"
  shows "tracker_inv (snd (sweep clk h))"
proof -
  obtain ws dead m where s:
    "sweep_entries clk (deadline_seconds h) (hb_readings h) (hb_workers h) = (ws, dead, m)"
    by (cases "sweep_entries clk (deadline_seconds h) (hb_readings h) (hb_workers h)")
  have "worker_id l = w" if "(w, l) \<in> set ws" for w l
    using sweep_entries_in[OF s that] assms by (auto simp: tracker_inv_def)
  then show ?thesis
    using assms s sweep_entries_keys[OF s] by (auto simp: sweep_def tracker_inv_def)
qed

lemma heartbeat_step_inv: "tracker_inv h \<Longrightarrow> tracker_inv (snd (heartbeat_step clk h op))"
proof (cases op)
  case (Forget w)
  moreover assume "tracker_inv h"
  ultimately show ?thesis
    by (auto simp: forget_def tracker_inv_def dict_del_def distinct_map_filter)
qed (simp_all add: register_worker_inv beat_inv sweep_inv)

lemma sweep_dead_was_alive:
  assumes "tracker_inv h" "x \<in> set (fst (sweep clk h))"
  shows "\<exists>l. dict_get (hb_workers h) (worker_id x) = Some l \<and> \<not> declared_dead l \<and>
    (\<exists>k \<ge> hb_readings h. clk k - last_beat_at l > deadline_seconds h)"
proof -
  obtain ws dead m where s:
    "sweep_entries clk (deadline_seconds h) (hb_readings h) (hb_workers h) = (ws, dead, m)"
    by (cases "sweep_entries clk (deadline_seconds h) (hb_readings h) (hb_workers h)")
  then have "x \<in> set dead" using assms(2) by (simp add: sweep_def)
  from sweep_entries_dead[OF s this] obtain w l k where l:
    "(w, l) \<in> set (hb_workers h)" "\<not> declared_dead l" "x = l\<lparr>declared_dead := True\<rparr>"
    "hb_readings h \<le> k" "clk k - last_beat_at l > deadline_seconds h" by blast
  then have "worker_id x = w" "dict_get (hb_workers h) w = Some l"
    using assms(1) by (auto simp: tracker_inv_def intro!: in_dict_get)
  with l show ?thesis by blast
qed

lemma sweep_marks_dead:
  assumes "tracker_inv h" "x \<in> set (fst (sweep clk h))"
  shows "quiet (snd (sweep clk h)) (worker_id x)"
proof -
  obtain ws dead m where s:
    "sweep_entries clk (deadline_seconds h) (hb_readings h) (hb_workers h) = (ws, dead, m)"
    by (cases "sweep_entries clk (deadline_seconds h) (hb_readings h) (hb_workers h)")
  then have "x \<in> set dead" using assms(2) by (simp add: sweep_def)
  from sweep_entries_dead[OF s this] obtain w l where l:
    "(w, l) \<in> set (hb_workers h)" "x = l\<lparr>declared_dead := True\<rparr>" "(w, x) \<in> set ws" by blast
  have "distinct (map fst ws)" using assms(1) sweep_entries_keys[OF s] by (simp add: tracker_inv_def)
  then have "dict_get ws w = Some x" using l(3) by (rule in_dict_get)
  moreover have "worker_id x = w" using assms(1) l(1,2) by (auto simp: tracker_inv_def)
  ultimately show ?thesis using l(2) s by (simp add: quiet_def sweep_def)
qed

lemma sweep_quiet:
  assumes "tracker_inv h" "quiet h w"
  shows "quiet (snd (sweep clk h)) w"
proof -
  obtain ws dead m where s:
    "sweep_entries clk (deadline_seconds h) (hb_readings h) (hb_workers h) = (ws, dead, m)"
    by (cases "sweep_entries clk (deadline_seconds h) (hb_readings h) (hb_workers h)")
  show ?thesis
  proof (cases "dict_get (hb_workers h) w")
    case None
    then have "dict_get ws w = None"
      using sweep_entries_keys[OF s] by (metis dict_get_eq_None image_set)
    then show ?thesis using s by (simp add: quiet_def sweep_def)
  next
    case (Some l)
    then show ?thesis
      using sweep_entries_get[OF s Some] assms(2) s by (auto simp: quiet_def sweep_def)
  qed
qed

lemma heartbeat_step_quiet:
  assumes "tracker_inv h" "quiet h w" "\<not> revives op w"
  shows "quiet (snd (heartbeat_step clk h op)) w"
    and "w \<notin> worker_id ` set (fst (heartbeat_step clk h op))"
proof -
  show "quiet (snd (heartbeat_step clk h op)) w"
  proof (cases op)
    case (Beat v)
    then show ?thesis
      using assms by (cases "dict_get (hb_workers h) v")
        (auto simp: beat_def quiet_def register_worker_def read_clock_def Let_def dict_get_set)
  qed (use assms in \<open>auto simp: quiet_def register_worker_def read_clock_def Let_def dict_get_set
        dict_get_del forget_def sweep_quiet[unfolded quiet_def]\<close>)
  show "w \<notin> worker_id ` set (fst (heartbeat_step clk h op))"
    using assms sweep_dead_was_alive[OF assms(1), of _ clk] by (cases op) (auto simp: quiet_def)
qed

lemma heartbeat_run_quiet:
  assumes "tracker_inv h" "quiet h w" "\<forall>op \<in> set ops. \<not> revives op w"
  shows "w \<notin> worker_id ` set (fst (heartbeat_run clk h ops))"
  using assms
proof (induction ops arbitrary: h)
  case (Cons op ops)
  note q = heartbeat_step_quiet[OF Cons.prems(1,2), of op clk]
  have "w \<notin> worker_id ` set (fst (heartbeat_run clk (snd (heartbeat_step clk h op)) ops))"
    using Cons.prems q by (intro Cons.IH heartbeat_step_inv) auto
  then show ?case using Cons.prems q by (auto split: prod.splits)
qed simp

text \<open>Dead means that at least the tolerated number of whole intervals passed in silence.\<close>

lemma not_alive_missed:
  assumes "tracker_inv h" "is_alive clk h w = (Inr False, h1)" "dict_get (hb_workers h) w \<noteq> None"
  shows "\<exists>k. fst (missed_beats clk h w) = Inr k \<and> hb_tolerance h \<le> k"
proof -
  obtain l where l: "dict_get (hb_workers h) w = Some l" using assms(3) by auto
  have pos: "0 < hb_interval h" using assms(1) by (simp add: tracker_inv_def)
  have "deadline_seconds h < clk (hb_readings h) - last_beat_at l"
    using assms(2) l by (auto simp: is_alive_def silence_seconds_def read_clock_def)
  then have "of_int (hb_tolerance h) \<le> (clk (hb_readings h) - last_beat_at l) / hb_interval h"
    using pos by (simp add: deadline_seconds_def le_divide_eq mult.commute)
  then show ?thesis
    using l by (simp add: missed_beats_def silence_seconds_def read_clock_def le_floor_iff)
qed

text \<open>The memory watchdog fires exactly once and exactly when it must.\<close>

lemma watchdog_breach_once:
  assumes "new_watchdog m interval_s callback = Inr w" "watch_loop obs w = (w', calls)"
  shows "(breached w' \<longleftrightarrow> (\<exists>r \<in> set (measured obs). r > of_int m)) \<and>
    calls = (if callback then map (Pair ''memory'') (take 1 (filter (\<lambda>r. r > of_int m) (measured obs))) else []) \<and>
    peak_rss_mb w' = (if measured obs = [] then None else Some (Max (set (measured obs)))) \<and>
    samples_taken w' = length (measured obs)"
proof -
  have w: "breach_fired w = breached w" "\<not> breached w" "has_callback w = callback" "Watchdog.memory_mb w = m"
    "peak_rss_mb w = None" "samples_taken w = 0"
    using assms(1) by (auto simp: new_watchdog_def split: if_splits)
  show ?thesis
    using watch_loop_breach[OF w(1) assms(2)] w by (simp add: raise_peak_fold)
qed

end
