(* ===== verification/Sample_Runtime.thy ===== *)
theory Sample_Runtime
  imports Queue_Delivery Lease_Lock Backpressure Delegation Recursion_Guard Token_Budget Watchdog
begin

text \<open>
  Small concrete states of the queue, the lock table, the delegation graphs, the budgets and the
  worker tracker, on which the general theorems are applied.
\<close>

definition sample_settings :: QueueSettings where
  "sample_settings = \<lparr>backpressure_depth = 10, shed_load_depth = 50, max_delivery_attempts = 3,
     visibility_timeout_us = 100, entity_lock_ttl_us = 60\<rparr>"

definition sample_message :: "string \<Rightarrow> int \<Rightarrow> int \<Rightarrow> queue_row" where
  "sample_message i prio seq = \<lparr>q_id = i, q_stream = ORCHESTRATOR_CORE, q_correlation_id = None,
     q_session_id = None, q_priority = prio, q_payload = JObj [], q_status = Ready, q_attempts = 0,
     q_max_attempts = 3, q_claimed_by = None, q_claimed_at = None, q_visible_after = 0,
     q_enqueued_at = 0, q_completed_at = None, q_last_error = None, q_arrival_seq = seq\<rparr>"

definition sample_queue :: queue where
  "sample_queue = [sample_message ''a'' 100 1, sample_message ''b'' 5 2]"

lemma sample_queue_inv: "queue_inv sample_queue"
  by (simp add: queue_inv_def sample_queue_def sample_message_def row_inv_def)

definition sample_graph :: DelegationGraph where
  "sample_graph = \<lparr>dg_correlation_id = 7, dg_max_depth = 2, dg_max_nodes = 32,
     dg_edges = [(''a'', [''b''])], dg_node_count = 1\<rparr>"

lemma sample_graph_edges: "edge_rel (dg_edges sample_graph) = {(''a'', ''b'')}"
  by (auto simp: edge_rel_def sample_graph_def succs_def dict_get_default_def split: if_splits)

definition sample_guard :: RecursionGuard where
  "sample_guard = \<lparr>g_profile = modality_profile COMPLEX, g_depth_ceiling = 2, g_node_ceiling = 7,
     g_graph = [], g_nodes_expanded = 0\<rparr>"

lemma sample_guard_edges: "edge_rel (g_graph sample_guard) = {}"
  by (simp add: edge_rel_def sample_guard_def succs_def dict_get_default_def)

definition sample_root :: TokenBudget where
  "sample_root = \<lparr>b_allocated = 8, b_consumed = 0, b_kind = ''context_tokens'', b_depth = 0,
     b_profile = None, b_parent = None\<rparr>"

definition sample_child :: TokenBudget where
  "sample_child = sample_root\<lparr>b_allocated := 4, b_depth := 1, b_parent := Some 0\<rparr>"

lemma sample_budgets: "budget_run [sample_root, sample_child]"
proof -
  have "new_budget (PInt 8) ''context_tokens'' 0 None None = Inr sample_root"
    by (simp add: new_budget_def sample_root_def)
  then have "budget_run [sample_root]" using br_root[OF br_empty] by simp
  moreover have "child [sample_root] 0 (PInt 1) = Inr [sample_root, sample_child]"
    by (simp add: child_def child_quota_def new_budget_def remaining_def sample_root_def sample_child_def)
  ultimately show ?thesis using br_child[of "[sample_root]" 0] by simp
qed

definition sample_tracker :: HeartbeatTracker where
  "sample_tracker = \<lparr>hb_interval = 5, hb_tolerance = 3,
     hb_workers = [(''w'', \<lparr>worker_id = ''w'', registered_at = 0, last_beat_at = 0, beat_count = 0,
       declared_dead = False, metadata = []\<rparr>)], hb_readings = 0\<rparr>"

lemma sample_tracker_inv: "tracker_inv sample_tracker"
  by (simp add: tracker_inv_def sample_tracker_def)

end
