(* ===== verification/Workspace.thy ===== *)
theory Workspace
  imports Sha256 Timestamps
begin

text \<open>
  Workspace manifests (\<open>paa.validation.workspace\<close>): capturing a directory tree as a map from relative
  paths to content digests, the digest of a manifest, comparing manifests, backing a workspace up
  and restoring it.

  A tree lists the files below its root by their path components; directories are implied by the
  files below them. A symbolic link carries the content it resolves to, if any, and resolves outside
  the tree. The digest function and what the operating system permits are arguments. Manifests are
  captured without following links, the default and only use in the code. Manifest keys are relative
  paths without \<open>..\<close>, which is what \<open>capture\<close> produces.
\<close>

subsection \<open>Paths and trees\<close>

type_synonym path = "string list"

datatype file_node = Regular string | Unreadable | Symlink "string option"

type_synonym tree = "(path \<times> file_node) list"

record os_permissions =
  may_write :: "path \<Rightarrow> bool"
  may_unlink :: "path \<Rightarrow> bool"

text \<open>\<open>as_posix()\<close> of a relative path, and the components of \<open>root / text\<close>.\<close>

fun as_posix :: "path \<Rightarrow> string" where
  "as_posix [] = []"
| "as_posix [c] = c"
| "as_posix (c # p) = c @ CHR ''/'' # as_posix p"

fun split_slash :: "string \<Rightarrow> path" where
  "split_slash [] = [[]]"
| "split_slash (c # s) =
     (if c = CHR ''/'' then [] # split_slash s
      else case split_slash s of [] \<Rightarrow> [[c]] | d # ds \<Rightarrow> (c # d) # ds)"

definition path_of :: "string \<Rightarrow> path" where
  "path_of s = filter (\<lambda>c. c \<noteq> [] \<and> c \<noteq> ''.'') (split_slash s)"

text \<open>\<open>Path.suffix\<close>: from the last dot, unless that dot is the first or the last character.\<close>

definition path_suffix :: "string \<Rightarrow> string" where
  "path_suffix name =
     (let ext = takeWhile (\<lambda>c. c \<noteq> CHR ''.'') (rev name)
      in if length ext + 1 < length name \<and> ext \<noteq> [] then CHR ''.'' # rev ext else [])"

subsection \<open>Capture\<close>

definition default_excludes :: "string list" where
  "default_excludes = [''.git'', ''.hg'', ''.svn'', ''__pycache__'', ''.pytest_cache'', ''.mypy_cache'',
     ''.ruff_cache'', ''.tox'', ''.venv'', ''venv'', ''node_modules'', ''.idea'', ''.vscode'',
     ''.DS_Store'', ''Thumbs.db'', ''.paa_journal'']"

definition default_exclude_suffixes :: "string list" where
  "default_exclude_suffixes = [''.pyc'', ''.pyo'', ''.pyd'', ''.so.tmp'']"

record WorkspaceSnapshot =
  ws_root :: string
  ws_entries :: "(string \<times> string) list"
  ws_captured_at :: datetime
  ws_skipped :: "string list"

definition is_captured :: "string list \<Rightarrow> string list \<Rightarrow> path \<Rightarrow> bool" where
  "is_captured excludes suffixes p \<longleftrightarrow>
     (\<forall>d \<in> set (butlast p). d \<notin> set excludes) \<and> last p \<notin> set excludes \<and>
     path_suffix (last p) \<notin> set suffixes"

text \<open>
  The order of \<open>os.walk\<close> with sorted names: a directory before its subdirectories, directories in
  lexicographic order, the files of a directory by name.
\<close>

definition walk_order :: "tree \<Rightarrow> tree" where
  "walk_order t = sort_key (\<lambda>(p, f). (butlast p, last p)) t"

definition file_entry :: "(string \<Rightarrow> string) \<Rightarrow> path \<times> file_node \<Rightarrow> (string \<times> string) option" where
  "file_entry H pf = (case snd pf of Regular c \<Rightarrow> Some (as_posix (fst pf), H c) | _ \<Rightarrow> None)"

definition capture_with ::
  "(string \<Rightarrow> string) \<Rightarrow> string list \<Rightarrow> string list \<Rightarrow> string \<Rightarrow> datetime \<Rightarrow> tree option \<Rightarrow> WorkspaceSnapshot result" where
  "capture_with H excludes suffixes root now t =
     (case t of
        None \<Rightarrow> Inl NotADirectoryError
      | Some files \<Rightarrow>
          let found = walk_order (filter (\<lambda>(p, f). is_captured excludes suffixes p) files)
          in Inr \<lparr>ws_root = root, ws_entries = List.map_filter (file_entry H) found,
                  ws_captured_at = now,
                  ws_skipped = sort (map (\<lambda>(p, f). as_posix p) (filter (\<lambda>pf. file_entry H pf = None) found))\<rparr>)"

definition capture :: "(string \<Rightarrow> string) \<Rightarrow> string \<Rightarrow> datetime \<Rightarrow> tree option \<Rightarrow> WorkspaceSnapshot result" where
  "capture H = capture_with H default_excludes default_exclude_suffixes"

subsection \<open>Identity and comparison\<close>

definition manifest_material :: "(string \<times> string) list \<Rightarrow> string" where
  "manifest_material entries =
     concat (map (\<lambda>p. p @ CHR 0x00 # dict_get_default entries p [] @ [CHR 0x0A]) (sort (map fst entries)))"

definition hash_manifest :: "(string \<Rightarrow> string) \<Rightarrow> (string \<times> string) list \<Rightarrow> string" where
  "hash_manifest H entries = H (manifest_material entries)"

definition ws_manifest_hash :: "(string \<Rightarrow> string) \<Rightarrow> WorkspaceSnapshot \<Rightarrow> string" where
  "ws_manifest_hash H s = hash_manifest H (ws_entries s)"

definition has_drifted :: "(string \<Rightarrow> string) \<Rightarrow> WorkspaceSnapshot \<Rightarrow> string \<Rightarrow> bool" where
  "has_drifted H s expected \<longleftrightarrow> ws_manifest_hash H s \<noteq> expected"

record ManifestDiff =
  d_added :: "string list"
  d_removed :: "string list"
  d_modified :: "string list"

definition manifest_diff :: "(string \<times> string) list \<Rightarrow> (string \<times> string) list \<Rightarrow> ManifestDiff" where
  "manifest_diff left right =
     \<lparr>d_added = sort (filter (\<lambda>k. k \<notin> fst ` set left) (remdups (map fst right))),
      d_removed = sort (filter (\<lambda>k. k \<notin> fst ` set right) (remdups (map fst left))),
      d_modified = sort (filter (\<lambda>k. k \<in> fst ` set right \<and> dict_get left k \<noteq> dict_get right k)
        (remdups (map fst left)))\<rparr>"

definition diff_is_empty :: "ManifestDiff \<Rightarrow> bool" where
  "diff_is_empty d \<longleftrightarrow> \<not> (d_added d \<noteq> [] \<or> d_removed d \<noteq> [] \<or> d_modified d \<noteq> [])"

definition diff_total :: "ManifestDiff \<Rightarrow> nat" where
  "diff_total d = length (d_added d) + length (d_removed d) + length (d_modified d)"

subsection \<open>Backup and restore\<close>

definition file_content :: "file_node \<Rightarrow> string option" where
  "file_content f = (case f of Regular c \<Rightarrow> Some c | Unreadable \<Rightarrow> None | Symlink c \<Rightarrow> c)"

definition is_file :: "tree \<Rightarrow> path \<Rightarrow> bool" where
  "is_file t p = (case dict_get t p of None \<Rightarrow> False | Some (Symlink None) \<Rightarrow> False | Some _ \<Rightarrow> True)"

definition is_dir :: "tree \<Rightarrow> path \<Rightarrow> bool" where
  "is_dir t p \<longleftrightarrow> (\<exists>q \<in> fst ` set t. length p < length q \<and> take (length p) q = p)"

text \<open>\<open>mkdir(parents=True, exist_ok=True)\<close> of the parent fails if a file stands in the way.\<close>

definition parent_blocked :: "tree \<Rightarrow> path \<Rightarrow> bool" where
  "parent_blocked t p \<longleftrightarrow> (\<exists>q \<in> fst ` set t. length q < length p \<and> take (length q) p = q)"

definition write_file :: "tree \<Rightarrow> path \<Rightarrow> string \<Rightarrow> tree" where
  "write_file t p c =
     dict_set t p (case dict_get t p of Some (Symlink _) \<Rightarrow> Symlink (Some c) | _ \<Rightarrow> Regular c)"

text \<open>\<open>shutil.copy2\<close>: into a directory, the copy lands inside it under the source's name.\<close>

definition copy2 :: "os_permissions \<Rightarrow> tree \<Rightarrow> path \<Rightarrow> tree \<Rightarrow> unit result \<times> tree" where
  "copy2 perms source p target =
     (case Option.bind (dict_get source p) file_content of
        None \<Rightarrow> (Inl OSError, target)
      | Some c \<Rightarrow>
          let q = (if is_dir target p then p @ [last p] else p)
          in if may_write perms q then (Inr (), write_file target q c) else (Inl OSError, target))"

text \<open>\<open>hash_file\<close> of a path that may be a directory.\<close>

definition hash_at :: "(string \<Rightarrow> string) \<Rightarrow> tree \<Rightarrow> path \<Rightarrow> string result" where
  "hash_at H t p =
     (if is_dir t p then Inl OSError
      else case Option.bind (dict_get t p) file_content of None \<Rightarrow> Inl OSError | Some c \<Rightarrow> Inr (H c))"

fun backup_files :: "os_permissions \<Rightarrow> tree \<Rightarrow> string list \<Rightarrow> tree \<Rightarrow> unit result \<times> tree" where
  "backup_files perms source [] target = (Inr (), target)"
| "backup_files perms source (rel # rels) target =
     (if parent_blocked target (path_of rel) then (Inl OSError, target)
      else backup_files perms source rels (snd (copy2 perms source (path_of rel) target)))"

definition backup :: "(string \<Rightarrow> string) \<Rightarrow> os_permissions \<Rightarrow> WorkspaceSnapshot \<Rightarrow> tree \<Rightarrow> tree \<Rightarrow> unit result \<times> tree" where
  "backup H perms s source target =
     (case backup_files perms source (sort (map fst (ws_entries s))) target of
        (Inl e, t) \<Rightarrow> (Inl e, t)
      | (Inr _, t) \<Rightarrow>
          if is_dir t [''.paa_manifest_hash''] \<or> \<not> may_write perms [''.paa_manifest_hash''] then (Inl OSError, t)
          else (Inr (), write_file t [''.paa_manifest_hash''] (ws_manifest_hash H s)))"

record RestoreReport =
  r_restored :: "string list"
  r_deleted :: "string list"
  r_missing :: "string list"
  r_mismatched :: "string list"

definition restore_ok :: "RestoreReport \<Rightarrow> bool" where
  "restore_ok r \<longleftrightarrow> r_missing r = [] \<and> r_mismatched r = []"

text \<open>The copying loop of \<open>restore\<close>; its lists grow in the order of the loop.\<close>

fun restore_files ::
  "(string \<Rightarrow> string) \<Rightarrow> os_permissions \<Rightarrow> tree \<Rightarrow> (string \<times> string) list \<Rightarrow> RestoreReport \<Rightarrow> tree
     \<Rightarrow> RestoreReport result \<times> tree" where
  "restore_files H perms bk [] rep t = (Inr rep, t)"
| "restore_files H perms bk ((rel, expected) # rest) rep t =
     (let p = path_of rel
      in if \<not> is_file bk p then restore_files H perms bk rest (rep\<lparr>r_missing := r_missing rep @ [rel]\<rparr>) t
         else if parent_blocked t p then (Inl OSError, t)
         else case copy2 perms bk p t of
           (Inl e, t1) \<Rightarrow> (Inl e, t1)
         | (Inr _, t1) \<Rightarrow>
             (case hash_at H t1 p of
                Inl e \<Rightarrow> (Inl e, t1)
              | Inr h \<Rightarrow>
                  if h \<noteq> expected
                  then restore_files H perms bk rest (rep\<lparr>r_mismatched := r_mismatched rep @ [rel]\<rparr>) t1
                  else restore_files H perms bk rest (rep\<lparr>r_restored := r_restored rep @ [rel]\<rparr>) t1))"

fun remove_files :: "os_permissions \<Rightarrow> string list \<Rightarrow> tree \<Rightarrow> string list \<times> tree" where
  "remove_files perms [] t = ([], t)"
| "remove_files perms (rel # rels) t =
     (if may_unlink perms (path_of rel)
      then (case remove_files perms rels (dict_del t (path_of rel)) of (ds, t1) \<Rightarrow> (rel # ds, t1))
      else remove_files perms rels t)"

definition restore ::
  "(string \<Rightarrow> string) \<Rightarrow> os_permissions \<Rightarrow> (string \<times> string) list \<Rightarrow> tree \<Rightarrow> bool \<Rightarrow> tree
     \<Rightarrow> RestoreReport result \<times> tree" where
  "restore H perms entries bk remove_extraneous target =
     (case restore_files H perms bk (sort_key fst entries)
             \<lparr>r_restored = [], r_deleted = [], r_missing = [], r_mismatched = []\<rparr> target of
        (Inl e, t1) \<Rightarrow> (Inl e, t1)
      | (Inr rep, t1) \<Rightarrow>
          if remove_extraneous then
            let live = List.map_filter (file_entry H)
                  (walk_order (filter (\<lambda>(p, f). is_captured default_excludes default_exclude_suffixes p) t1));
                extra = sort (filter (\<lambda>k. k \<notin> fst ` set entries) (map fst live))
            in (case remove_files perms extra t1 of (ds, t2) \<Rightarrow> (Inr (rep\<lparr>r_deleted := ds\<rparr>), t2))
          else (Inr rep, t1))"

end
