(* ===== verification/Workspace_Properties.thy ===== *)
theory Workspace_Properties
  imports Workspace "HOL-Library.Multiset"
begin

text \<open>
  Properties of workspace manifests: rendering of paths is reversible, the digest material determines the
  manifest and does not depend on its order, comparison is exact, and a restore that reports success
  leaves a tree whose capture is the manifest.
\<close>

subsection \<open>Paths\<close>

definition wf_path :: "path \<Rightarrow> bool" where
  "wf_path p \<longleftrightarrow> p \<noteq> [] \<and> (\<forall>c \<in> set p. c \<noteq> [] \<and> c \<noteq> ''.'' \<and> CHR ''/'' \<notin> set c \<and> CHR 0x00 \<notin> set c)"

lemma split_slash_plain: "CHR ''/'' \<notin> set c \<Longrightarrow> split_slash c = [c]"
  by (induction c) auto

lemma split_slash_append:
  "CHR ''/'' \<notin> set c \<Longrightarrow> split_slash (c @ CHR ''/'' # s) = c # split_slash s"
  by (induction c) auto

lemma split_as_posix: "p \<noteq> [] \<Longrightarrow> \<forall>c \<in> set p. CHR ''/'' \<notin> set c \<Longrightarrow> split_slash (as_posix p) = p"
  by (induction p rule: as_posix.induct) (auto simp: split_slash_plain split_slash_append)

lemma path_of_as_posix [simp]: "wf_path p \<Longrightarrow> path_of (as_posix p) = p"
  by (simp add: path_of_def wf_path_def split_as_posix filter_id_conv)

lemma as_posix_inj: "wf_path p \<Longrightarrow> wf_path q \<Longrightarrow> as_posix p = as_posix q \<Longrightarrow> p = q"
  by (metis path_of_as_posix)

lemma as_posix_chars: "ch \<in> set (as_posix p) \<Longrightarrow> ch = CHR ''/'' \<or> (\<exists>c \<in> set p. ch \<in> set c)"
  by (induction p rule: as_posix.induct) auto

lemma as_posix_no_nul: "wf_path p \<Longrightarrow> CHR 0x00 \<notin> set (as_posix p)"
  using as_posix_chars[of "CHR 0x00" p] by (auto simp: wf_path_def)

subsection \<open>Manifest digests\<close>

text \<open>What the code relies on: no NUL in a path, no newline in a digest.\<close>

definition wf_manifest :: "(string \<times> string) list \<Rightarrow> bool" where
  "wf_manifest m \<longleftrightarrow> distinct (map fst m) \<and> (\<forall>(p, h) \<in> set m. CHR 0x00 \<notin> set p \<and> CHR 0x0A \<notin> set h)"

definition entry_text :: "string \<times> string \<Rightarrow> string" where
  "entry_text e = fst e @ CHR 0x00 # snd e @ [CHR 0x0A]"

lemma entry_text_inj:
  assumes "entry_text e @ s = entry_text f @ t"
    and "CHR 0x00 \<notin> set (fst e)" "CHR 0x0A \<notin> set (snd e)" "CHR 0x00 \<notin> set (fst f)" "CHR 0x0A \<notin> set (snd f)"
  shows "e = f \<and> s = t"
proof -
  have "fst e @ CHR 0x00 # (snd e @ CHR 0x0A # s) = fst f @ CHR 0x00 # (snd f @ CHR 0x0A # t)"
    using assms(1) by (simp add: entry_text_def)
  from append_sep_inj[OF this assms(2,4)]
  have 1: "fst e = fst f" "snd e @ CHR 0x0A # s = snd f @ CHR 0x0A # t" by auto
  from append_sep_inj[OF 1(2) assms(3,5)] 1(1) show ?thesis by (simp add: prod_eq_iff)
qed

lemma entries_text_inj:
  assumes "concat (map entry_text xs) = concat (map entry_text ys)"
    and "\<forall>e \<in> set xs \<union> set ys. CHR 0x00 \<notin> set (fst e) \<and> CHR 0x0A \<notin> set (snd e)"
  shows "xs = ys"
  using assms
proof (induction xs arbitrary: ys)
  case Nil
  then show ?case by (cases ys) (auto simp: entry_text_def)
next
  case (Cons e xs)
  then obtain f ys' where ys: "ys = f # ys'" by (cases ys) (auto simp: entry_text_def)
  have "e = f \<and> concat (map entry_text xs) = concat (map entry_text ys')"
    by (rule entry_text_inj) (use Cons.prems ys in auto)
  then show ?case using Cons ys by auto
qed

lemma manifest_material_entries:
  assumes "distinct (map fst m)"
  shows "manifest_material m = concat (map entry_text (sort_key fst m))"
proof -
  have "sort (map fst m) = map fst (sort_key fst m)"
    by (rule properties_for_sort) (simp_all add: mset_map)
  moreover have "dict_get_default m (fst e) [] = snd e" if "e \<in> set m" for e
    using assms that by (cases e) (simp add: dict_get_default_def)
  ultimately show ?thesis
    by (auto simp: manifest_material_def entry_text_def comp_def intro!: arg_cong[where f = concat])
qed

lemma sort_key_fst_unique:
  assumes "distinct (map fst m)" "distinct (map fst m')"
  shows "sort_key fst m = sort_key fst m' \<longleftrightarrow> set m = set m'"
proof
  assume "set m = set m'"
  then show "sort_key fst m = sort_key fst m'"
    by (intro map_sorted_distinct_set_unique[where f = fst]) (use assms in \<open>auto simp: distinct_map\<close>)
qed (metis set_sort)

text \<open>The hashed text is the same exactly for the same manifest, whatever the order of its entries.\<close>

lemma manifest_material_iff:
  assumes "wf_manifest m" "wf_manifest m'"
  shows "manifest_material m = manifest_material m' \<longleftrightarrow> map_of m = map_of m'"
proof -
  have d: "distinct (map fst m)" "distinct (map fst m')" using assms by (simp_all add: wf_manifest_def)
  have "manifest_material m = manifest_material m' \<longleftrightarrow> sort_key fst m = sort_key fst m'"
    unfolding manifest_material_entries[OF d(1)] manifest_material_entries[OF d(2)]
    using entries_text_inj[of "sort_key fst m" "sort_key fst m'"] assms by (fastforce simp: wf_manifest_def)
  then show ?thesis by (simp add: sort_key_fst_unique[OF d] map_of_inject_set[OF d])
qed

subsection \<open>Comparison\<close>

lemma sort_eq_Nil: "sort xs = [] \<longleftrightarrow> xs = []"
  by (metis length_0_conv length_sort)

lemma diff_empty_iff:
  "diff_is_empty (manifest_diff left right) \<longleftrightarrow> map_of left = map_of right"
proof
  assume "diff_is_empty (manifest_diff left right)"
  then have e: "\<forall>k \<in> fst ` set right. k \<in> fst ` set left" "\<forall>k \<in> fst ` set left. k \<in> fst ` set right"
    "\<forall>k \<in> fst ` set left. k \<in> fst ` set right \<longrightarrow> map_of left k = map_of right k"
    by (auto simp: diff_is_empty_def manifest_diff_def sort_eq_Nil filter_empty_conv dict_get_def)
  then show "map_of left = map_of right" by (intro map_of_eqI) auto
next
  assume eq: "map_of left = map_of right"
  then have "fst ` set left = fst ` set right" by (metis dom_map_of_conv_image_fst)
  then show "diff_is_empty (manifest_diff left right)"
    using eq by (auto simp: diff_is_empty_def manifest_diff_def sort_eq_Nil filter_empty_conv dict_get_def)
qed

subsection \<open>Capture\<close>

definition wf_tree :: "tree \<Rightarrow> bool" where
  "wf_tree t \<longleftrightarrow> distinct (map fst t) \<and> (\<forall>p \<in> fst ` set t. wf_path p)"

abbreviation captured :: "path \<Rightarrow> bool" where
  "captured \<equiv> is_captured default_excludes default_exclude_suffixes"

definition tree_entries :: "(string \<Rightarrow> string) \<Rightarrow> tree \<Rightarrow> (string \<times> string) list" where
  "tree_entries H t = List.map_filter (file_entry H) (walk_order (filter (\<lambda>(p, f). captured p) t))"

lemma capture_entries: "capture H root now (Some t) = Inr s \<Longrightarrow> ws_entries s = tree_entries H t"
  by (auto simp: capture_def capture_with_def tree_entries_def Let_def)

lemma set_map_filter: "set (List.map_filter f xs) = {y. \<exists>x \<in> set xs. f x = Some y}"
  by (auto simp: List.map_filter_def image_iff) (metis option.sel)

lemma set_tree_entries:
  "set (tree_entries H t) = {(as_posix p, H c) | p c. (p, Regular c) \<in> set t \<and> captured p}"
proof -
  have "file_entry H (p, f) = Some y \<longleftrightarrow> (\<exists>c. f = Regular c \<and> y = (as_posix p, H c))" for p f y
    by (cases f) (auto simp: file_entry_def)
  then show ?thesis by (fastforce simp: tree_entries_def set_map_filter walk_order_def)
qed

lemma distinct_map_filter_fst:
  assumes "distinct (map fst xs)" "\<And>x y. x \<in> set xs \<Longrightarrow> f x = Some y \<Longrightarrow> fst y = g (fst x)" "inj_on g (fst ` set xs)"
  shows "distinct (map fst (List.map_filter f xs))"
  using assms
proof (induction xs)
  case (Cons x xs)
  have IH: "distinct (map fst (List.map_filter f xs))"
    by (rule Cons.IH) (use Cons.prems in \<open>auto simp: inj_on_def\<close>)
  show ?case
  proof (cases "f x")
    case (Some y)
    have "fst y \<notin> fst ` set (List.map_filter f xs)"
    proof
      assume "fst y \<in> fst ` set (List.map_filter f xs)"
      then obtain x' z where "x' \<in> set xs" "f x' = Some z" "fst z = fst y" by (auto simp: set_map_filter)
      then have "g (fst x') = g (fst x)" using Cons.prems(2)[of x y] Cons.prems(2)[of x' z] Some by simp
      then have "fst x' = fst x" using Cons.prems(3) \<open>x' \<in> set xs\<close> by (simp add: inj_on_eq_iff)
      then show False using Cons.prems(1) \<open>x' \<in> set xs\<close> by (auto simp: image_iff)
    qed
    then show ?thesis using IH Some by (simp add: List.map_filter_simps)
  qed (use IH in \<open>simp add: List.map_filter_simps\<close>)
qed (simp add: List.map_filter_simps)

lemma distinct_tree_entries:
  assumes "wf_tree t"
  shows "distinct (map fst (tree_entries H t))"
  unfolding tree_entries_def
proof (rule distinct_map_filter_fst[where g = as_posix])
  let ?xs = "walk_order (filter (\<lambda>(p, f). captured p) t)"
  have "distinct (map fst (filter (\<lambda>(p, f). captured p) t))"
    using assms by (simp add: wf_tree_def distinct_map_filter)
  then show "distinct (map fst ?xs)" by (simp add: walk_order_def distinct_map)
  show "inj_on as_posix (fst ` set ?xs)"
    using assms by (auto simp: wf_tree_def walk_order_def intro!: inj_onI as_posix_inj)
qed (auto simp: file_entry_def split: file_node.splits)

lemma tree_entries_get:
  assumes "wf_tree t"
  shows "map_of (tree_entries H t) k = Some h \<longleftrightarrow>
    (\<exists>p c. k = as_posix p \<and> dict_get t p = Some (Regular c) \<and> captured p \<and> h = H c)"
proof -
  have "map_of (tree_entries H t) k = Some h \<longleftrightarrow> (k, h) \<in> set (tree_entries H t)"
    using distinct_tree_entries[OF assms] by (simp add: map_of_eq_Some_iff)
  moreover have "(p, Regular c) \<in> set t \<longleftrightarrow> dict_get t p = Some (Regular c)" for p c
    using assms by (simp add: wf_tree_def dict_get_def map_of_eq_Some_iff)
  ultimately show ?thesis by (auto simp: set_tree_entries)
qed

subsection \<open>Restore\<close>

definition no_links :: "tree \<Rightarrow> bool" where
  "no_links t \<longleftrightarrow> (\<forall>p c. dict_get t p \<noteq> Some (Symlink c))"

lemma dict_set_wf: "wf_tree t \<Longrightarrow> wf_path p \<Longrightarrow> wf_tree (dict_set t p f)"
  using dict_set_keys[of t p f] by (auto simp: wf_tree_def dict_set_distinct)

lemma dict_del_wf: "wf_tree t \<Longrightarrow> wf_tree (dict_del t p)"
  by (auto simp: wf_tree_def dict_del_def distinct_map_filter)

text \<open>The lists of failures only grow.\<close>

lemma restore_files_grow:
  assumes "restore_files H perms bk es rep t = (Inr rep', t')"
  shows "\<exists>xs ys. r_missing rep' = r_missing rep @ xs \<and> r_mismatched rep' = r_mismatched rep @ ys"
  using assms
proof (induction H perms bk es rep t rule: restore_files.induct)
  case (2 H perms bk rel expected rest rep t)
  show ?case
    using "2.prems" "2.IH"
    by (auto simp: Let_def split: if_splits prod.splits sum.splits) force+
qed simp

text \<open>A step that succeeds has put the expected content at its path and touched nothing else.\<close>

lemma restore_step:
  assumes "copy2 perms bk p t = (Inr u, t1)" "hash_at H t1 p = Inr h" "no_links t" "wf_path p"
  shows "\<exists>c. t1 = dict_set t p (Regular c) \<and> H c = h"
proof -
  have dir: "\<not> is_dir t p"
  proof
    assume d: "is_dir t p"
    moreover have "fst ` set t \<subseteq> fst ` set t1"
      using assms(1) dict_set_keys[of t "p @ [last p]"]
      by (auto simp: copy2_def Let_def write_file_def d split: option.splits if_splits)
    ultimately have "is_dir t1 p" unfolding is_dir_def by blast
    then show False using assms(2) by (simp add: hash_at_def)
  qed
  then obtain c where "t1 = write_file t p c"
    using assms(1) by (auto simp: copy2_def Let_def split: option.splits if_splits)
  moreover have "write_file t p c = dict_set t p (Regular c)"
    using assms(3) by (auto simp: write_file_def no_links_def split: option.splits file_node.splits)
  ultimately show ?thesis
    using assms(2) by (auto simp: hash_at_def dict_get_set file_content_def split: if_splits)
qed

lemma restore_files_spec:
  assumes "restore_files H perms bk es rep t = (Inr rep', t')" "restore_ok rep'"
    and "distinct (map (path_of \<circ> fst) es)" "\<forall>e \<in> set es. wf_path (path_of (fst e))" "no_links t" "wf_tree t"
  shows "no_links t' \<and> wf_tree t' \<and>
    (\<forall>(rel, h) \<in> set es. \<exists>c. dict_get t' (path_of rel) = Some (Regular c) \<and> H c = h) \<and>
    (\<forall>p. p \<notin> (path_of \<circ> fst) ` set es \<longrightarrow> dict_get t' p = dict_get t p)"
  using assms
proof (induction H perms bk es rep t rule: restore_files.induct)
  case (2 H perms bk rel expected rest rep t)
  let ?p = "path_of rel"
  have isf: "is_file bk ?p"
  proof (rule ccontr)
    assume "\<not> is_file bk ?p"
    then have "restore_files H perms bk rest (rep\<lparr>r_missing := r_missing rep @ [rel]\<rparr>) t = (Inr rep', t')"
      using "2.prems"(1) by simp
    from restore_files_grow[OF this] show False using "2.prems"(2) by (auto simp: restore_ok_def)
  qed
  obtain u t1 h where c: "\<not> parent_blocked t ?p" "copy2 perms bk ?p t = (Inr u, t1)" "hash_at H t1 ?p = Inr h"
    using "2.prems"(1) isf by (auto simp: Let_def split: if_splits prod.splits sum.splits)
  have h: "h = expected"
  proof (rule ccontr)
    assume "h \<noteq> expected"
    then have "restore_files H perms bk rest (rep\<lparr>r_mismatched := r_mismatched rep @ [rel]\<rparr>) t1 = (Inr rep', t')"
      using "2.prems"(1) isf c by (simp add: Let_def)
    from restore_files_grow[OF this] show False using "2.prems"(2) by (auto simp: restore_ok_def)
  qed
  obtain cont where t1: "t1 = dict_set t ?p (Regular cont)" "H cont = expected"
    using restore_step[OF c(2,3)] "2.prems" h by auto
  have run: "restore_files H perms bk rest (rep\<lparr>r_restored := r_restored rep @ [rel]\<rparr>) t1 = (Inr rep', t')"
    using "2.prems"(1) isf c h by (simp add: Let_def)
  have IH: "no_links t' \<and> wf_tree t' \<and>
      (\<forall>(rel, h) \<in> set rest. \<exists>c. dict_get t' (path_of rel) = Some (Regular c) \<and> H c = h) \<and>
      (\<forall>p. p \<notin> (path_of \<circ> fst) ` set rest \<longrightarrow> dict_get t' p = dict_get t1 p)"
    by (rule "2.IH"(3)[OF refl _ c(1) c(2)[symmetric] refl c(3)])
      (use isf h run "2.prems" t1(1) in \<open>auto simp: no_links_def dict_get_set dict_set_wf\<close>)
  have "?p \<notin> (path_of \<circ> fst) ` set rest" using "2.prems"(3) by simp
  then show ?case using IH t1 by (auto simp: dict_get_set)
qed simp

lemma remove_files_get:
  assumes "\<forall>p. may_unlink perms p"
  shows "dict_get (snd (remove_files perms rels t)) p =
    (if p \<in> path_of ` set rels then None else dict_get t p)"
proof (induction rels arbitrary: t)
  case (Cons rel rels)
  show ?case
    using assms Cons[of "dict_del t (path_of rel)"] by (auto simp: dict_get_del split: prod.splits)
qed simp

lemma remove_files_wf: "wf_tree t \<Longrightarrow> wf_tree (snd (remove_files perms rels t))"
proof (induction rels arbitrary: t)
  case (Cons rel rels)
  show ?case
    using Cons.IH[OF Cons.prems] Cons.IH[OF dict_del_wf[OF Cons.prems, of "path_of rel"]]
    by (auto split: prod.splits)
qed simp

text \<open>
  A restore that reports success and may delete leaves exactly the manifest: capturing the tree again
  gives the same map from paths to digests.
\<close>

lemma restore_exact:
  assumes t: "wf_tree t" "no_links t" and perms: "\<forall>p. may_unlink perms p"
    and m: "distinct (map fst m)" "\<forall>(k, h) \<in> set m. \<exists>p. k = as_posix p \<and> wf_path p \<and> captured p"
    and run: "restore H perms m bk True t = (Inr rep, t')" "restore_ok rep"
  shows "map_of (tree_entries H t') = map_of m" "wf_tree t'"
proof -
  let ?es = "sort_key fst m"
  obtain rep1 t1 where f: "restore_files H perms bk ?es
      \<lparr>r_restored = [], r_deleted = [], r_missing = [], r_mismatched = []\<rparr> t = (Inr rep1, t1)"
    and rem: "remove_files perms (sort (filter (\<lambda>k. k \<notin> fst ` set m) (map fst (tree_entries H t1)))) t1 = (r_deleted rep, t')"
    and ok1: "restore_ok rep1"
    using run by (auto simp: restore_def Let_def tree_entries_def restore_ok_def split: prod.splits sum.splits)
  have wfp: "wf_path (path_of (fst e)) \<and> as_posix (path_of (fst e)) = fst e \<and> captured (path_of (fst e))"
    if "e \<in> set m" for e
    using m(2) that by fastforce
  have "inj_on path_of (fst ` set m)" using wfp by (intro inj_onI) (metis imageE)
  then have "inj_on (path_of \<circ> fst) (set m)" using m(1) comp_inj_on[of fst "set m" path_of] by (simp add: distinct_map)
  then have d: "distinct (map (path_of \<circ> fst) ?es)" using m(1) by (simp add: distinct_map)
  have S: "no_links t1 \<and> wf_tree t1 \<and>
    (\<forall>(rel, h) \<in> set ?es. \<exists>c. dict_get t1 (path_of rel) = Some (Regular c) \<and> H c = h)"
    using restore_files_spec[OF f ok1 d _ t(2,1)] wfp by auto
  let ?extra = "sort (filter (\<lambda>k. k \<notin> fst ` set m) (map fst (tree_entries H t1)))"
  have R: "dict_get t' p = (if p \<in> path_of ` set ?extra then None else dict_get t1 p)" for p
    using remove_files_get[OF perms, of ?extra t1 p] rem by simp
  have wf': "wf_tree t'" using remove_files_wf[of t1 perms ?extra] S rem by simp
  have "map_of (tree_entries H t') k = Some h \<longleftrightarrow> map_of m k = Some h" for k h
  proof
    assume "map_of (tree_entries H t') k = Some h"
    then obtain p c where p: "k = as_posix p" "dict_get t' p = Some (Regular c)" "captured p" "h = H c"
      using tree_entries_get[OF wf'] by blast
    then have p1: "dict_get t1 p = Some (Regular c)" "p \<notin> path_of ` set ?extra"
      using R[of p] by (auto split: if_splits)
    have "wf_path p" using dict_get_in[OF p1(1)] S by (force simp: wf_tree_def)
    moreover have "k \<in> fst ` set (tree_entries H t1)"
      using p1(1) p tree_entries_get[of t1 H k h] S by (metis dom_map_of_conv_image_fst domI)
    ultimately have "k \<in> fst ` set m" using p1(2) p(1) by (force simp: image_iff)
    then obtain h' where h': "(k, h') \<in> set m" by force
    then have "dict_get t1 p = Some (Regular c) \<and> H c = h'"
      using S p(1) p1(1) \<open>wf_path p\<close> by fastforce
    then show "map_of m k = Some h" using h' m(1) p(4) by simp
  next
    assume "map_of m k = Some h"
    then have k: "(k, h) \<in> set m" using m(1) by simp
    then obtain p where p: "k = as_posix p" "wf_path p" "captured p" using m(2) by blast
    obtain c where c: "dict_get t1 p = Some (Regular c)" "H c = h" using S k p by fastforce
    have "p \<notin> path_of ` set ?extra"
    proof
      assume "p \<in> path_of ` set ?extra"
      then obtain q c' where q: "as_posix q \<notin> fst ` set m" "(q, Regular c') \<in> set t1" "path_of (as_posix q) = p"
        by (auto simp: set_tree_entries image_iff)
      then have "wf_path q" using S by (force simp: wf_tree_def)
      then show False using q k p by (force simp: image_iff)
    qed
    then show "map_of (tree_entries H t') k = Some h"
      using tree_entries_get[OF wf'] R[of p] c p by auto
  qed
  then show "map_of (tree_entries H t') = map_of m" by (intro ext) (metis option.exhaust)
  show "wf_tree t'" by (rule wf')
qed

subsection \<open>Backup\<close>

text \<open>No file stands where another needs a directory.\<close>

definition prefix_free :: "path set \<Rightarrow> bool" where
  "prefix_free P \<longleftrightarrow> (\<forall>p \<in> P. \<forall>q \<in> P. length p < length q \<longrightarrow> take (length p) q \<noteq> p)"

definition all_permitted :: "os_permissions \<Rightarrow> bool" where
  "all_permitted perms \<longleftrightarrow> (\<forall>p. may_write perms p \<and> may_unlink perms p)"

lemma prefix_free_clear:
  assumes "prefix_free P" "fst ` set t \<subseteq> P" "p \<in> P"
  shows "\<not> is_dir t p" "\<not> parent_blocked t p"
proof -
  have "\<forall>q \<in> fst ` set t. q \<in> P" using assms(2) by blast
  then show "\<not> is_dir t p" "\<not> parent_blocked t p"
    using assms(1,3) unfolding is_dir_def parent_blocked_def prefix_free_def by blast+
qed

lemma copy2_clear:
  assumes "prefix_free P" "fst ` set t \<subseteq> P" "p \<in> P" "all_permitted perms"
    and "dict_get bk p = Some (Regular c)" "no_links t"
  shows "copy2 perms bk p t = (Inr (), dict_set t p (Regular c))"
proof -
  have "\<not> is_dir t p" using prefix_free_clear[OF assms(1-3)] by blast
  then show ?thesis
    using assms(4-6)
    by (auto simp: copy2_def file_content_def all_permitted_def write_file_def no_links_def
        split: option.splits file_node.splits)
qed

lemma restore_files_succeeds:
  assumes "prefix_free P" "fst ` set t \<subseteq> P" "(path_of \<circ> fst) ` set es \<subseteq> P" "all_permitted perms" "no_links t"
    and "\<forall>(rel, h) \<in> set es. \<exists>c. dict_get bk (path_of rel) = Some (Regular c) \<and> H c = h" "restore_ok rep"
  shows "\<exists>rep' t'. restore_files H perms bk es rep t = (Inr rep', t') \<and> restore_ok rep'"
  using assms(2-)
proof (induction es arbitrary: rep t)
  case (Cons e es)
  obtain rel h where e: "e = (rel, h)" by (cases e)
  let ?p = "path_of rel"
  obtain c where c: "dict_get bk ?p = Some (Regular c)" "H c = h" using Cons.prems(5) e by auto
  have p: "?p \<in> P" using Cons.prems(2) e by simp
  let ?t = "dict_set t ?p (Regular c)"
  have cp: "copy2 perms bk ?p t = (Inr (), ?t)"
    by (rule copy2_clear[OF assms(1) Cons.prems(1) p Cons.prems(3) c(1) Cons.prems(4)])
  have sub: "fst ` set ?t \<subseteq> P" using dict_set_keys[of t ?p "Regular c"] Cons.prems(1) p by auto
  have links: "no_links ?t" using Cons.prems(4) by (simp add: no_links_def dict_get_set)
  have "hash_at H ?t ?p = Inr h"
    using prefix_free_clear(1)[OF assms(1) sub p] c(2) by (simp add: hash_at_def dict_get_set file_content_def)
  moreover have "is_file bk ?p" using c(1) by (simp add: is_file_def)
  moreover have "\<exists>rep' t'. restore_files H perms bk es (rep\<lparr>r_restored := r_restored rep @ [rel]\<rparr>) ?t = (Inr rep', t') \<and> restore_ok rep'"
    using Cons.prems by (intro Cons.IH sub links) (auto simp: restore_ok_def)
  ultimately show ?case
    using e cp prefix_free_clear(2)[OF assms(1) Cons.prems(1) p] by (simp add: Let_def)
qed simp

lemma backup_files_complete:
  assumes "prefix_free P" "fst ` set t \<subseteq> P" "path_of ` set rels \<subseteq> P" "all_permitted perms" "no_links t"
    and "\<forall>rel \<in> set rels. \<exists>c. dict_get src (path_of rel) = Some (Regular c)"
  shows "\<exists>t'. backup_files perms src rels t = (Inr (), t') \<and> no_links t' \<and> fst ` set t' \<subseteq> P \<and>
    (\<forall>p. dict_get t' p = (if p \<in> path_of ` set rels then dict_get src p else dict_get t p))"
  using assms(2-)
proof (induction rels arbitrary: t)
  case (Cons rel rels)
  let ?p = "path_of rel"
  obtain c where c: "dict_get src ?p = Some (Regular c)" using Cons.prems(5) by auto
  have p: "?p \<in> P" using Cons.prems(2) by simp
  let ?t = "dict_set t ?p (Regular c)"
  have "\<exists>t'. backup_files perms src rels ?t = (Inr (), t') \<and> no_links t' \<and> fst ` set t' \<subseteq> P \<and>
      (\<forall>p. dict_get t' p = (if p \<in> path_of ` set rels then dict_get src p else dict_get ?t p))"
    using Cons.prems p dict_set_keys[of t ?p "Regular c"]
    by (intro Cons.IH) (auto simp: no_links_def dict_get_set)
  moreover have "copy2 perms src ?p t = (Inr (), ?t)"
    by (rule copy2_clear[OF assms(1) Cons.prems(1) p Cons.prems(3) c Cons.prems(4)])
  ultimately show ?case
    using prefix_free_clear(2)[OF assms(1) Cons.prems(1) p] c by (auto simp: dict_get_set)
qed simp

lemma restore_removes:
  assumes "restore_files H perms bk (sort_key fst m)
    \<lparr>r_restored = [], r_deleted = [], r_missing = [], r_mismatched = []\<rparr> tgt = (Inr rep, t1)"
  shows "\<exists>ds t2. restore H perms m bk True tgt = (Inr (rep\<lparr>r_deleted := ds\<rparr>), t2)"
  unfolding restore_def assms by (auto simp: Let_def split: prod.split)

text \<open>
  Backing a workspace up and restoring it into any tree without links and without conflicting paths succeeds,
  and the restored tree captures to the original manifest.
\<close>

lemma backup_restore:
  assumes src: "wf_tree src" "prefix_free (fst ` set src)"
      "\<forall>p \<in> fst ` set src. hd p \<noteq> ''.paa_manifest_hash''"
    and perms: "all_permitted perms" and s: "capture H root now (Some src) = Inr s"
    and tgt: "wf_tree tgt" "no_links tgt" "prefix_free (fst ` set src \<union> fst ` set tgt)"
  obtains bk rep t' where "backup H perms s src [] = (Inr (), bk)"
    "restore H perms (ws_entries s) bk True tgt = (Inr rep, t')" "restore_ok rep"
    "map_of (tree_entries H t') = map_of (ws_entries s)" "wf_tree t'"
proof -
  have ent: "ws_entries s = tree_entries H src" by (rule capture_entries[OF s])
  have keys: "\<exists>p c. k = as_posix p \<and> wf_path p \<and> captured p \<and> dict_get src p = Some (Regular c) \<and> H c = h"
    if "(k, h) \<in> set (ws_entries s)" for k h
    using that src(1) unfolding ent set_tree_entries
    by (force simp: wf_tree_def dict_get_def)
  let ?rels = "sort (map fst (ws_entries s))"
  have files: "\<exists>c. dict_get src (path_of rel) = Some (Regular c)" if "rel \<in> set ?rels" for rel
    using keys that by fastforce
  then have inP: "path_of ` set ?rels \<subseteq> fst ` set src"
    using dict_get_in by (force simp: image_iff)
  obtain bk0 where bk0: "backup_files perms src ?rels [] = (Inr (), bk0)" "fst ` set bk0 \<subseteq> fst ` set src" "no_links bk0"
    "\<And>p. dict_get bk0 p = (if p \<in> path_of ` set ?rels then dict_get src p else dict_get [] p)"
    using backup_files_complete[OF src(2) _ inP perms _ ballI[OF files], of "[]"]
    by (auto simp: no_links_def[of "[]"] dict_get_def[of "[]"])
  let ?m = "[''.paa_manifest_hash'']"
  let ?bk = "write_file bk0 ?m (ws_manifest_hash H s)"
  have "\<not> is_dir bk0 ?m"
  proof
    assume "is_dir bk0 ?m"
    then obtain q where "q \<in> fst ` set bk0" "1 < length q" "take 1 q = ?m" unfolding is_dir_def by auto
    then have "q \<in> fst ` set src" "take 1 q = ?m" using bk0(2) by auto
    moreover from this have "hd q = ''.paa_manifest_hash''" by (cases q) auto
    ultimately show False using src(3) by blast
  qed
  then have bk: "backup H perms s src [] = (Inr (), ?bk)"
    using bk0(1) perms by (simp add: backup_def all_permitted_def)
  have stored: "\<forall>(rel, h) \<in> set (sort_key fst (ws_entries s)). \<exists>c. dict_get ?bk (path_of rel) = Some (Regular c) \<and> H c = h"
  proof (clarsimp)
    fix rel h assume m: "(rel, h) \<in> set (ws_entries s)"
    obtain p c where p: "rel = as_posix p" "wf_path p" "dict_get src p = Some (Regular c)" "H c = h"
      using keys[OF m] by blast
    then have "p \<in> fst ` set src" using dict_get_in[OF p(3)] by force
    then have "p \<noteq> ?m" using src(3) by auto
    moreover have "p \<in> path_of ` set ?rels" using m p by (force simp: image_iff)
    ultimately show "\<exists>c. dict_get ?bk (path_of rel) = Some (Regular c) \<and> H c = h"
      using p bk0(4)[of p] by (simp add: write_file_def dict_get_set)
  qed
  let ?rep = "\<lparr>r_restored = [], r_deleted = [], r_missing = [], r_mismatched = []\<rparr>"
  have "(path_of \<circ> fst) ` set (sort_key fst (ws_entries s)) \<subseteq> fst ` set src \<union> fst ` set tgt"
    using inP by auto
  from restore_files_succeeds[OF tgt(3) _ this perms tgt(2) stored, of ?rep]
  obtain rep0 t1 where f: "restore_files H perms ?bk (sort_key fst (ws_entries s)) ?rep tgt = (Inr rep0, t1)"
    "restore_ok rep0"
    by (auto simp: restore_ok_def[of ?rep])
  obtain rep t' where run: "restore H perms (ws_entries s) ?bk True tgt = (Inr rep, t')" "restore_ok rep"
    using restore_removes[OF f(1)] f(2) by (auto simp: restore_ok_def)
  have "map_of (tree_entries H t') = map_of (ws_entries s)" "wf_tree t'"
    using restore_exact[OF tgt(1,2) _ _ _ run] perms distinct_tree_entries[OF src(1)] keys
    by (auto simp: all_permitted_def ent) fastforce+
  with bk run that show thesis by blast
qed

lemma same_manifest_same_hash:
  assumes "distinct (map fst m)" "distinct (map fst m')" "map_of m = map_of m'"
  shows "hash_manifest H m = hash_manifest H m'"
  using assms sort_key_fst_unique[OF assms(1,2)] map_of_inject_set[OF assms(1,2)]
  by (simp add: hash_manifest_def manifest_material_entries)

end
