(* ===== verification/Like_Pattern.thy ===== *)
theory Like_Pattern
  imports Prelude
begin

text \<open>
  LIKE patterns that match user text literally (\<open>paa.storage.relational.like\<close>): escaping, the search
  pattern of a term, and the SQL fragments that go with it.

  \<open>like_match\<close> is the meaning of SQL's \<open>LIKE ... ESCAPE '\'\<close> on texts without NUL bytes. Which
  characters count as equal (SQLite folds the case of ASCII letters, PostgreSQL does not) is an argument.
\<close>

definition like_escape :: char where
  "like_escape = CHR 0x5C"

definition like_escape_sql :: string where
  "like_escape_sql = ''ESCAPE '' @ [CHR 0x27, like_escape, CHR 0x27]"

text \<open>\<open>s.replace(c, r)\<close> for a single character.\<close>

definition replace_char :: "char \<Rightarrow> string \<Rightarrow> string \<Rightarrow> string" where
  "replace_char c r s = concat (map (\<lambda>x. if x = c then r else [x]) s)"

definition escape_like :: "string \<Rightarrow> string" where
  "escape_like value =
     replace_char (CHR ''_'') [like_escape, CHR ''_'']
       (replace_char (CHR ''%'') [like_escape, CHR ''%'']
         (replace_char like_escape [like_escape, like_escape] value))"

definition searchable :: "string \<Rightarrow> string" where
  "searchable term = replace_char (CHR 0x00) [] term"

definition like_pattern :: "string \<Rightarrow> string result" where
  "like_pattern term =
     (if searchable term = [] then Inl ValueError
      else Inr (CHR ''%'' # escape_like (searchable term) @ ''%''))"

fun join :: "string \<Rightarrow> string list \<Rightarrow> string" where
  "join sep [] = []"
| "join sep [s] = s"
| "join sep (s # ss) = s @ sep @ join sep ss"

definition like_predicate :: "string list \<Rightarrow> string result" where
  "like_predicate columns =
     (if columns = [] then Inl ValueError
      else Inr (join '' OR '' (map (\<lambda>c. c @ '' LIKE ? '' @ like_escape_sql) columns)))"

definition like_count_expression :: "string \<Rightarrow> string result" where
  "like_count_expression column =
     (if column = [] then Inl ValueError
      else Inr (''(CASE WHEN '' @ column @ '' LIKE ? '' @ like_escape_sql @ '' THEN 1 ELSE 0 END)''))"

subsection \<open>What LIKE means\<close>

function like_match :: "(char \<Rightarrow> char \<Rightarrow> bool) \<Rightarrow> string \<Rightarrow> string \<Rightarrow> bool" where
  "like_match eq [] t \<longleftrightarrow> t = []"
| "like_match eq (c # p) t \<longleftrightarrow>
     (if c = CHR ''%'' then like_match eq p t \<or> (if t = [] then False else like_match eq (c # p) (tl t))
      else if c = like_escape then p \<noteq> [] \<and> t \<noteq> [] \<and> eq (hd p) (hd t) \<and> like_match eq (tl p) (tl t)
      else t \<noteq> [] \<and> (c = CHR ''_'' \<or> eq c (hd t)) \<and> like_match eq p (tl t))"
  by pat_completeness auto
termination by (relation "measure (\<lambda>(eq, p, t). length p + length t)") auto

declare like_match.simps(2) [simp del]

lemma like_match_percent:
  "like_match eq (CHR ''%'' # p) t \<longleftrightarrow> (\<exists>pre post. t = pre @ post \<and> like_match eq p post)"
proof (induction t)
  case Nil
  then show ?case by (subst like_match.simps) simp
next
  case (Cons x t)
  have "like_match eq (CHR ''%'' # p) (x # t) \<longleftrightarrow>
      like_match eq p (x # t) \<or> like_match eq (CHR ''%'' # p) t"
    by (subst like_match.simps) simp
  also have "\<dots> \<longleftrightarrow> (\<exists>pre post. x # t = pre @ post \<and> like_match eq p post)"
    unfolding Cons by (metis append_Cons append_Nil append_eq_Cons_conv)
  finally show ?case .
qed

text \<open>The three replacements amount to one pass, because the escape character comes first.\<close>

definition escape_one :: "char \<Rightarrow> string" where
  "escape_one x = (if x \<in> {like_escape, CHR ''%'', CHR ''_''} then [like_escape, x] else [x])"

lemma escape_like_single_pass: "escape_like s = concat (map escape_one s)"
  by (induction s) (auto simp: escape_like_def replace_char_def escape_one_def like_escape_def)

lemma like_match_escaped:
  "like_match eq (concat (map escape_one s) @ p) t \<longleftrightarrow>
     (\<exists>mid post. t = mid @ post \<and> list_all2 eq s mid \<and> like_match eq p post)"
proof (induction s arbitrary: t)
  case (Cons x s)
  have "like_match eq (escape_one x @ q) t \<longleftrightarrow> t \<noteq> [] \<and> eq x (hd t) \<and> like_match eq q (tl t)" for q
    by (auto simp: escape_one_def like_match.simps(2) like_escape_def)
  then have "like_match eq (concat (map escape_one (x # s)) @ p) t \<longleftrightarrow>
      t \<noteq> [] \<and> eq x (hd t) \<and> (\<exists>mid post. tl t = mid @ post \<and> list_all2 eq s mid \<and> like_match eq p post)"
    by (simp add: Cons)
  also have "\<dots> \<longleftrightarrow> (\<exists>mid post. t = mid @ post \<and> list_all2 eq (x # s) mid \<and> like_match eq p post)"
    by (cases t) (auto simp: list_all2_Cons1, (metis append_Cons)+)
  finally show ?case .
qed simp

lemma searchable_filter: "searchable s = filter (\<lambda>c. c \<noteq> CHR 0x00) s"
  by (induction s) (auto simp: searchable_def replace_char_def)

text \<open>The pattern of a term finds exactly the texts that contain the term.\<close>

lemma like_pattern_literal:
  assumes "like_pattern term = Inr pat"
  shows "like_match eq pat t \<longleftrightarrow>
    (\<exists>pre mid post. t = pre @ mid @ post \<and> list_all2 eq (searchable term) mid)"
proof -
  have "pat = CHR ''%'' # concat (map escape_one (searchable term)) @ ''%''"
    using assms by (simp add: like_pattern_def escape_like_single_pass split: if_splits)
  moreover have "like_match eq ''%'' s" for s by (simp add: like_match_percent)
  ultimately show ?thesis by (auto simp: like_match_percent like_match_escaped)
qed

lemma like_pattern_refuses: "like_pattern term = Inl ValueError \<longleftrightarrow> set term \<subseteq> {CHR 0x00}"
  by (auto simp: like_pattern_def searchable_filter filter_empty_conv)

lemma count_join: "count_list (join sep ss) c =
    sum_list (map (\<lambda>s. count_list s c) ss) + (length ss - 1) * count_list sep c"
  by (induction sep ss rule: join.induct) auto

text \<open>One placeholder per column.\<close>

lemma like_predicate_placeholders:
  assumes "like_predicate columns = Inr sql" "\<forall>c \<in> set columns. CHR ''?'' \<notin> set c"
  shows "count_list sql (CHR ''?'') = length columns"
proof -
  have "count_list c (CHR ''?'') = 0" if "c \<in> set columns" for c
    using assms(2) that by (simp add: count_list_0_iff)
  moreover have "count_list like_escape_sql (CHR ''?'') = 0"
    by (simp add: like_escape_sql_def like_escape_def)
  ultimately have "(\<Sum>c\<leftarrow>columns. Suc (count_list c (CHR ''?'') + count_list like_escape_sql (CHR ''?''))) = length columns"
    by (induction columns) auto
  then show ?thesis
    using assms(1) by (auto simp: like_predicate_def count_join comp_def split: if_splits)
qed

end
