(* ===== verification/Memory_Decay.thy ===== *)
theory Memory_Decay
  imports Ledger_Store Complex_Main
begin

text \<open>
  Memory domains (\<open>paa.memory.domains\<close>) and confidence decay (\<open>paa.memory.decay\<close>): the policy of each
  domain, derived confidence, and the sweep that evicts decayed facts page by page.

  Confidences and coefficients are reals, instants are microseconds on the UTC axis. The sweep runs on the
  table of active facts; whether the archive accepts a record is an argument.
\<close>

subsection \<open>Domains\<close>

datatype MemoryMechanism = VOLATILE | RELATIONAL | IMMUTABLE_LOG | VECTOR | GRAPH | DOCUMENT

datatype RetrievalProtocol =
    EXACT_KEY | RELATIONAL_SCAN | FULL_TEXT | VECTOR_SIMILARITY | GRAPH_TRAVERSAL
  | DOCUMENT_PREFETCH | TIME_RANGE

datatype MemoryDomain =
    WORKING | LONG_TERM_DISTILLED | EPISODIC | SEMANTIC | PROCEDURAL | TASK | SESSION | TEMPORAL
  | NARRATIVE | REFLECTION | STRATEGIC | SKILL | TOOL | RELATIONSHIP | IDENTITY | OPERATIONAL
  | ENVIRONMENTAL | WORKSPACE

fun domain_value :: "MemoryDomain \<Rightarrow> string" where
  "domain_value WORKING = ''working''"
| "domain_value LONG_TERM_DISTILLED = ''long_term_distilled''"
| "domain_value EPISODIC = ''episodic''"
| "domain_value SEMANTIC = ''semantic''"
| "domain_value PROCEDURAL = ''procedural''"
| "domain_value TASK = ''task''"
| "domain_value SESSION = ''session''"
| "domain_value TEMPORAL = ''temporal''"
| "domain_value NARRATIVE = ''narrative''"
| "domain_value REFLECTION = ''reflection''"
| "domain_value STRATEGIC = ''strategic''"
| "domain_value SKILL = ''skill''"
| "domain_value TOOL = ''tool''"
| "domain_value RELATIONSHIP = ''relationship''"
| "domain_value IDENTITY = ''identity''"
| "domain_value OPERATIONAL = ''operational''"
| "domain_value ENVIRONMENTAL = ''environmental''"
| "domain_value WORKSPACE = ''workspace''"

definition all_domains :: "MemoryDomain list" where
  "all_domains = [WORKING, LONG_TERM_DISTILLED, EPISODIC, SEMANTIC, PROCEDURAL, TASK, SESSION, TEMPORAL,
     NARRATIVE, REFLECTION, STRATEGIC, SKILL, TOOL, RELATIONSHIP, IDENTITY, OPERATIONAL, ENVIRONMENTAL,
     WORKSPACE]"

record DomainPolicy =
  p_domain :: MemoryDomain
  p_mechanism :: MemoryMechanism
  p_retrieval :: RetrievalProtocol
  p_decay_lambda :: real
  p_prune_floor :: real
  p_immutable :: bool
  p_narrative :: bool

definition mk_policy ::
  "MemoryDomain \<Rightarrow> MemoryMechanism \<Rightarrow> RetrievalProtocol \<Rightarrow> real \<Rightarrow> real \<Rightarrow> bool \<Rightarrow> bool \<Rightarrow> DomainPolicy" where
  "mk_policy d m r lam fl imm narr = \<lparr>p_domain = d, p_mechanism = m, p_retrieval = r, p_decay_lambda = lam,
     p_prune_floor = fl, p_immutable = imm, p_narrative = narr\<rparr>"

fun domains :: "MemoryDomain \<Rightarrow> DomainPolicy" where
  "domains WORKING = mk_policy WORKING VOLATILE EXACT_KEY 0 0 False False"
| "domains LONG_TERM_DISTILLED = mk_policy LONG_TERM_DISTILLED RELATIONAL RELATIONAL_SCAN (1 / 1000) (15 / 100) False False"
| "domains EPISODIC = mk_policy EPISODIC IMMUTABLE_LOG FULL_TEXT 0 0 True False"
| "domains SEMANTIC = mk_policy SEMANTIC VECTOR VECTOR_SIMILARITY (2 / 1000) (30 / 100) False False"
| "domains PROCEDURAL = mk_policy PROCEDURAL RELATIONAL EXACT_KEY 0 (40 / 100) False False"
| "domains TASK = mk_policy TASK RELATIONAL EXACT_KEY 0 0 False False"
| "domains SESSION = mk_policy SESSION VOLATILE EXACT_KEY 0 0 False False"
| "domains TEMPORAL = mk_policy TEMPORAL RELATIONAL TIME_RANGE (1 / 100) (15 / 100) False False"
| "domains NARRATIVE = mk_policy NARRATIVE DOCUMENT DOCUMENT_PREFETCH 0 0 False True"
| "domains REFLECTION = mk_policy REFLECTION VECTOR VECTOR_SIMILARITY (2 / 1000) (20 / 100) False True"
| "domains STRATEGIC = mk_policy STRATEGIC DOCUMENT DOCUMENT_PREFETCH 0 0 True True"
| "domains SKILL = mk_policy SKILL RELATIONAL EXACT_KEY 0 (40 / 100) False False"
| "domains TOOL = mk_policy TOOL RELATIONAL RELATIONAL_SCAN (5 / 100) (15 / 100) False False"
| "domains RELATIONSHIP = mk_policy RELATIONSHIP GRAPH GRAPH_TRAVERSAL (4 / 1000) (10 / 100) False False"
| "domains IDENTITY = mk_policy IDENTITY DOCUMENT DOCUMENT_PREFETCH 0 0 True True"
| "domains OPERATIONAL = mk_policy OPERATIONAL VOLATILE EXACT_KEY 1 0 False False"
| "domains ENVIRONMENTAL = mk_policy ENVIRONMENTAL RELATIONAL EXACT_KEY 0 0 False False"
| "domains WORKSPACE = mk_policy WORKSPACE RELATIONAL EXACT_KEY 0 0 False False"

definition domain_policy :: "string \<Rightarrow> DomainPolicy result" where
  "domain_policy d =
     (case find (\<lambda>m. domain_value m = d) all_domains of
        None \<Rightarrow> Inl KeyError | Some m \<Rightarrow> Inr (domains m))"

definition narrative_domains :: "string list" where
  "narrative_domains = map domain_value (filter (\<lambda>d. p_narrative (domains d)) all_domains)"

definition confidence_at :: "DomainPolicy \<Rightarrow> real \<Rightarrow> real \<Rightarrow> real" where
  "confidence_at p initial days =
     (if p_decay_lambda p \<le> 0 then initial else initial * exp (- p_decay_lambda p * max 0 days))"

definition policy_is_stale :: "DomainPolicy \<Rightarrow> real \<Rightarrow> real \<Rightarrow> bool" where
  "policy_is_stale p initial days \<longleftrightarrow> \<not> p_immutable p \<and> confidence_at p initial days < p_prune_floor p"

subsection \<open>Derived confidence\<close>

definition idle_days :: "int \<Rightarrow> int \<Rightarrow> real" where
  "idle_days last_queried now = max 0 (of_int (now - last_queried) / 1000000 / 86400)"

definition effective_confidence :: "real \<Rightarrow> int \<Rightarrow> string \<Rightarrow> int \<Rightarrow> real result" where
  "effective_confidence initial last_queried d now =
     (if \<not> (0 \<le> initial \<and> initial \<le> 1) then Inl ValueError
      else rmap (\<lambda>p. confidence_at p initial (idle_days last_queried now)) (domain_policy d))"

definition is_stale :: "real \<Rightarrow> int \<Rightarrow> string \<Rightarrow> real option \<Rightarrow> int \<Rightarrow> bool result" where
  "is_stale initial last_queried d floor_override now =
     rbind (domain_policy d) (\<lambda>p.
       if p_immutable p then Inr False
       else rmap (\<lambda>c. c < (case floor_override of None \<Rightarrow> p_prune_floor p | Some f \<Rightarrow> f))
              (effective_confidence initial last_queried d now))"

definition importance_index :: "int \<Rightarrow> real \<Rightarrow> int \<Rightarrow> string \<Rightarrow> real \<Rightarrow> int \<Rightarrow> real result" where
  "importance_index use_count initial last_queried d reinforcement now =
     (if use_count < 0 then Inl ValueError
      else rmap (\<lambda>p. min 1 (max 0 (of_int use_count * reinforcement +
                confidence_at p initial (idle_days last_queried now)))) (domain_policy d))"

definition half_life_days :: "real \<Rightarrow> real option" where
  "half_life_days lam = (if lam \<le> 0 then None else Some (ln 2 / lam))"

subsection \<open>The sweep\<close>

record fact =
  f_id :: string
  f_entity :: string
  f_predicate :: string
  f_value :: string
  f_domain :: string
  f_confidence :: real
  f_last_queried :: int
  f_use_count :: int
  f_superseded_by :: "string option"

record DecayReport =
  dr_scanned :: nat
  dr_evicted :: nat
  dr_archived :: nat
  dr_skipped_immutable :: nat
  dr_errors :: nat

definition new_report :: DecayReport where
  "new_report = \<lparr>dr_scanned = 0, dr_evicted = 0, dr_archived = 0, dr_skipped_immutable = 0, dr_errors = 0\<rparr>"

definition decay_page :: "int \<Rightarrow> string \<Rightarrow> fact list \<Rightarrow> fact list" where
  "decay_page batch cursor facts =
     sql_limit batch (sort_key f_id (filter (\<lambda>f. f_superseded_by f = None \<and> cursor < f_id f) facts))"

text \<open>The body of the row loop: the report and the doomed facts so far.\<close>

definition examine :: "int \<Rightarrow> DecayReport \<times> fact list \<Rightarrow> fact \<Rightarrow> (DecayReport \<times> fact list) result" where
  "examine now = (\<lambda>(rep, doomed) f.
     (let rep1 = rep\<lparr>dr_scanned := dr_scanned rep + 1\<rparr>
      in case domain_policy (f_domain f) of
           Inl _ \<Rightarrow> Inr (rep1\<lparr>dr_errors := dr_errors rep1 + 1\<rparr>, doomed)
         | Inr p \<Rightarrow>
             if p_immutable p then Inr (rep1\<lparr>dr_skipped_immutable := dr_skipped_immutable rep1 + 1\<rparr>, doomed)
             else rmap (\<lambda>c. (rep1, if c < p_prune_floor p then doomed @ [f] else doomed))
                    (effective_confidence (f_confidence f) (f_last_queried f) (domain_value (p_domain p)) now)))"

definition archive_batch :: "(string \<Rightarrow> bool) option \<Rightarrow> fact list \<Rightarrow> fact list" where
  "archive_batch archive doomed =
     (case archive of None \<Rightarrow> [] | Some accepts \<Rightarrow> filter (\<lambda>f. accepts (f_id f)) doomed)"

definition delete_facts :: "fact list \<Rightarrow> fact list \<Rightarrow> fact list" where
  "delete_facts doomed facts = filter (\<lambda>f. f_id f \<notin> f_id ` set doomed) facts"

lemma decay_page_in: "f \<in> set (decay_page batch cursor facts) \<Longrightarrow>
    f \<in> set facts \<and> f_superseded_by f = None \<and> cursor < f_id f"
  by (auto simp: decay_page_def sql_limit_def dest!: in_set_takeD split: if_splits)

lemma decay_page_progress:
  assumes "decay_page batch cursor facts \<noteq> []"
  shows "length (filter (\<lambda>f. f_id (last (decay_page batch cursor facts)) < f_id f) facts)
    < length (filter (\<lambda>f. cursor < f_id f) facts)"
proof -
  let ?l = "last (decay_page batch cursor facts)"
  have l: "?l \<in> set facts" "cursor < f_id ?l" using decay_page_in[OF last_in_set[OF assms]] by auto
  have "filter (\<lambda>f. f_id ?l < f_id f) facts = filter (\<lambda>f. f_id ?l < f_id f) (filter (\<lambda>f. cursor < f_id f) facts)"
    using l(2) by (auto intro!: filter_cong)
  also have "length \<dots> < length (filter (\<lambda>f. cursor < f_id f) facts)"
    by (rule length_filter_less[of ?l]) (use l in auto)
  finally show ?thesis .
qed

text \<open>The page loop over the table and the archive.\<close>

function sweep_pages ::
  "int \<Rightarrow> bool \<Rightarrow> (string \<Rightarrow> bool) option \<Rightarrow> int \<Rightarrow> string \<Rightarrow> DecayReport \<Rightarrow> fact list \<Rightarrow> fact list
     \<Rightarrow> DecayReport result \<times> fact list \<times> fact list" where
  "sweep_pages now dry archive batch cursor rep facts arch =
     (let rows = decay_page batch cursor facts
      in if rows = [] then (Inr rep, facts, arch)
         else case rfold (examine now) (rep, []) rows of
           Inl e \<Rightarrow> (Inl e, facts, arch)
         | Inr (rep1, doomed) \<Rightarrow>
             let next_cursor = f_id (last rows);
                 rep2 = rep1\<lparr>dr_evicted := dr_evicted rep1 + length doomed\<rparr>
             in if doomed \<noteq> [] \<and> \<not> dry
                then sweep_pages now dry archive batch next_cursor
                       (rep2\<lparr>dr_archived := dr_archived rep2 + length (archive_batch archive doomed)\<rparr>)
                       (delete_facts doomed facts) (arch @ archive_batch archive doomed)
                else sweep_pages now dry archive batch next_cursor rep2 facts arch)"
  by pat_completeness auto
termination
proof (relation "measure (\<lambda>(now, dry, archive, batch, cursor, rep, facts, arch). length (filter (\<lambda>f. cursor < f_id f) facts))", goal_cases)
  case (2 now dry archive batch cursor rep facts arch rows)
  have "length (filter P (delete_facts d facts)) \<le> length (filter P facts)" for P d
    by (induction facts) (auto simp: delete_facts_def)
  then show ?case using 2 decay_page_progress[of batch cursor facts] order.strict_trans1 by fastforce
next
  case (3 now dry archive batch cursor rep facts arch rows)
  then show ?case using decay_page_progress[of batch cursor facts] by simp
qed simp

declare sweep_pages.simps [simp del]

definition decay_sweep ::
  "int \<Rightarrow> bool \<Rightarrow> (string \<Rightarrow> bool) option \<Rightarrow> int \<Rightarrow> fact list \<Rightarrow> fact list \<Rightarrow> DecayReport result \<times> fact list \<times> fact list" where
  "decay_sweep now dry archive batch facts arch = sweep_pages now dry archive batch [] new_report facts arch"

definition touch :: "string \<Rightarrow> int \<Rightarrow> fact list \<Rightarrow> fact list" where
  "touch i now facts =
     map (\<lambda>f. if f_id f = i then f\<lparr>f_last_queried := now, f_use_count := f_use_count f + 1\<rparr> else f) facts"

definition touch_many :: "string list \<Rightarrow> int \<Rightarrow> fact list \<Rightarrow> fact list" where
  "touch_many is now facts = fold (\<lambda>i. touch i now) is facts"

end
