(* ===== verification/Decay_Properties.thy ===== *)
theory Decay_Properties
  imports Memory_Decay
begin

text \<open>
  The decay sweep evicts exactly the stale facts, whatever the page size, and confidence behaves: it never
  grows while a fact is idle, and a read resets it.
\<close>

subsection \<open>Confidence\<close>

lemma confidence_at_bounds:
  assumes "0 \<le> c" "c \<le> 1"
  shows "0 \<le> confidence_at p c d \<and> confidence_at p c d \<le> c"
proof -
  have "c * exp (- p_decay_lambda p * max 0 d) \<le> c * 1" if "\<not> p_decay_lambda p \<le> 0"
    using that assms(1) by (intro mult_left_mono) (simp_all add: mult_nonneg_nonneg)
  then show ?thesis using assms by (simp add: confidence_at_def)
qed

lemma confidence_at_antimono:
  assumes "0 \<le> c" "d \<le> d'"
  shows "confidence_at p c d' \<le> confidence_at p c d"
  using assms by (auto simp: confidence_at_def intro!: mult_left_mono)

lemma confidence_at_fresh: "confidence_at p c 0 = c"
  by (simp add: confidence_at_def)

text \<open>The coefficient means what its documentation says: after the half-life, half the confidence is left.\<close>

lemma half_life:
  assumes "half_life_days (p_decay_lambda p) = Some h" "0 \<le> d"
  shows "confidence_at p c (d + h) = confidence_at p c d / 2"
proof -
  have lam: "0 < p_decay_lambda p" "h = ln 2 / p_decay_lambda p"
    using assms(1) by (auto simp: half_life_days_def split: if_splits)
  then have "0 \<le> h" by simp
  have "exp (- p_decay_lambda p * (d + h)) = exp (- p_decay_lambda p * d) * exp (- ln 2)"
    using lam by (simp add: distrib_left flip: exp_add)
  also have "exp (- ln 2) = (1 / 2 :: real)" by (simp add: exp_minus)
  finally show ?thesis using lam assms(2) \<open>0 \<le> h\<close> by (simp add: confidence_at_def)
qed

subsection \<open>Pages\<close>

definition live_after :: "string \<Rightarrow> fact list \<Rightarrow> fact list" where
  "live_after cursor facts = sort_key f_id (filter (\<lambda>f. f_superseded_by f = None \<and> cursor < f_id f) facts)"

definition page_size :: "int \<Rightarrow> fact list \<Rightarrow> nat" where
  "page_size batch xs = (if batch < 0 then length xs else nat batch)"

lemma decay_page_take: "decay_page batch cursor facts = take (page_size batch (live_after cursor facts)) (live_after cursor facts)"
  by (simp add: decay_page_def live_after_def sql_limit_def page_size_def)

lemma live_after_set: "set (live_after cursor facts) = {f \<in> set facts. f_superseded_by f = None \<and> cursor < f_id f}"
  by (auto simp: live_after_def)

lemma live_after_sorted:
  assumes "distinct (map f_id facts)"
  shows "sorted_wrt (\<lambda>f g. f_id f < f_id g) (live_after cursor facts)"
proof -
  have "distinct (map f_id (live_after cursor facts))"
    using assms by (auto simp: live_after_def distinct_map intro: inj_on_subset)
  moreover have "sorted (map f_id (live_after cursor facts))" by (simp add: live_after_def)
  ultimately have "sorted_wrt (<) (map f_id (live_after cursor facts))" by (simp add: strict_sorted_iff)
  then show ?thesis by (simp add: sorted_wrt_map)
qed

lemma live_after_next:
  assumes d: "distinct (map f_id facts)" and n: "take n (live_after cursor facts) \<noteq> []"
  shows "live_after (f_id (last (take n (live_after cursor facts)))) facts = drop n (live_after cursor facts)"
proof -
  let ?xs = "live_after cursor facts"
  let ?c = "f_id (last (take n ?xs))"
  have split: "sorted_wrt (\<lambda>f g. f_id f < f_id g) (take n ?xs @ drop n ?xs)" using live_after_sorted[OF d] by simp
  obtain ys y where t: "take n ?xs = ys @ [y]" using n by (metis rev_exhaust)
  have low: "f_id f \<le> ?c" if "f \<in> set (take n ?xs)" for f
    using split that by (auto simp: t sorted_wrt_append less_imp_le)
  have high: "?c < f_id f" if "f \<in> set (drop n ?xs)" for f
    using split that by (auto simp: t sorted_wrt_append)
  have "set ?xs = set (take n ?xs) \<union> set (drop n ?xs)" by (metis append_take_drop_id set_append)
  moreover have "cursor < ?c" using last_in_set[OF n] in_set_takeD live_after_set by fastforce
  ultimately have "set (live_after ?c facts) = set (drop n ?xs)"
    using low high by (force simp: live_after_set)
  moreover have "sorted_wrt (\<lambda>f g. f_id f < f_id g) (drop n ?xs)" using split by (simp add: sorted_wrt_append)
  ultimately show ?thesis
    using live_after_sorted[OF d, of ?c] d
    by (intro map_sorted_distinct_set_unique[where f = f_id])
       (auto simp: sorted_wrt_map[symmetric] strict_sorted_iff live_after_set distinct_map inj_on_def)
qed

subsection \<open>The sweep\<close>

definition known_policy :: "fact \<Rightarrow> DomainPolicy option" where
  "known_policy f = (case domain_policy (f_domain f) of Inl _ \<Rightarrow> None | Inr p \<Rightarrow> Some p)"

definition fact_stale :: "int \<Rightarrow> fact \<Rightarrow> bool" where
  "fact_stale now f \<longleftrightarrow>
     (case known_policy f of None \<Rightarrow> False
      | Some p \<Rightarrow> policy_is_stale p (f_confidence f) (idle_days (f_last_queried f) now))"

definition wf_facts :: "fact list \<Rightarrow> bool" where
  "wf_facts facts \<longleftrightarrow> distinct (map f_id facts) \<and>
     (\<forall>f \<in> set facts. f_id f \<noteq> [] \<and> 0 \<le> f_confidence f \<and> f_confidence f \<le> 1)"

lemma domain_policy_domain: "domain_policy d = Inr p \<Longrightarrow> domain_value (p_domain p) = d"
proof -
  have "p_domain (domains m) = m" for m by (cases m) (simp_all add: mk_policy_def)
  then show "domain_policy d = Inr p \<Longrightarrow> domain_value (p_domain p) = d"
    by (auto simp: domain_policy_def find_Some_iff split: option.splits)
qed

lemma examine_row:
  assumes "0 \<le> f_confidence f" "f_confidence f \<le> 1"
  shows "\<exists>rep'. examine now (rep, ds) f = Inr (rep', ds @ (if fact_stale now f then [f] else [])) \<and>
    dr_scanned rep' = dr_scanned rep + 1 \<and> dr_evicted rep' = dr_evicted rep \<and> dr_archived rep' = dr_archived rep \<and>
    dr_errors rep' = dr_errors rep + (if known_policy f = None then 1 else 0)"
proof (cases "domain_policy (f_domain f)")
  case (Inr p)
  then show ?thesis
    using assms domain_policy_domain[OF Inr]
    by (auto simp: examine_def Let_def fact_stale_def known_policy_def policy_is_stale_def effective_confidence_def)
qed (simp add: examine_def Let_def fact_stale_def known_policy_def)

lemma examine_rows:
  assumes "\<forall>f \<in> set rows. 0 \<le> f_confidence f \<and> f_confidence f \<le> 1"
  shows "\<exists>rep'. rfold (examine now) (rep, ds) rows = Inr (rep', ds @ filter (fact_stale now) rows) \<and>
    dr_scanned rep' = dr_scanned rep + length rows \<and> dr_evicted rep' = dr_evicted rep \<and>
    dr_archived rep' = dr_archived rep \<and>
    dr_errors rep' = dr_errors rep + length (filter (\<lambda>f. known_policy f = None) rows)"
  using assms
proof (induction rows arbitrary: rep ds)
  case (Cons f rows)
  obtain rep1 where 1: "examine now (rep, ds) f = Inr (rep1, ds @ (if fact_stale now f then [f] else []))"
    "dr_scanned rep1 = dr_scanned rep + 1" "dr_evicted rep1 = dr_evicted rep" "dr_archived rep1 = dr_archived rep"
    "dr_errors rep1 = dr_errors rep + (if known_policy f = None then 1 else 0)"
    using examine_row[of f now rep ds] Cons.prems by auto
  then show ?case
    using Cons.IH[of rep1 "ds @ (if fact_stale now f then [f] else [])"] Cons.prems by auto
qed simp

lemma wf_facts_delete: "wf_facts facts \<Longrightarrow> wf_facts (delete_facts ds facts)"
  by (auto simp: wf_facts_def delete_facts_def distinct_map_filter)

text \<open>Deleting facts up to the cursor does not change what lies beyond it.\<close>

lemma live_after_delete:
  assumes "\<forall>f \<in> set ds. f_id f \<le> c"
  shows "live_after c (delete_facts ds facts) = live_after c facts"
proof -
  have "filter (\<lambda>f. f_superseded_by f = None \<and> c < f_id f) (delete_facts ds facts) =
      filter (\<lambda>f. f_superseded_by f = None \<and> c < f_id f) facts"
    using assms by (auto simp: delete_facts_def intro!: filter_cong)
  then show ?thesis by (simp add: live_after_def)
qed

lemma filter_take_drop:
  "length (filter P (take n xs)) + length (filter P (drop n xs)) = length (filter P xs)"
  by (metis append_take_drop_id filter_append length_append)

lemma evicted_split:
  assumes "distinct (map f_id facts)"
  shows "filter (\<lambda>f. \<not> (f \<in> set (drop n (live_after cursor facts)) \<and> fact_stale now f))
      (delete_facts (filter (fact_stale now) (take n (live_after cursor facts))) facts) =
    filter (\<lambda>f. \<not> (f \<in> set (live_after cursor facts) \<and> fact_stale now f)) facts"
proof -
  let ?xs = "live_after cursor facts"
  have inj: "inj_on f_id (set facts)" using assms by (simp add: distinct_map)
  have sub: "set ?xs \<subseteq> set facts" by (auto simp: live_after_set)
  have xs: "set ?xs = set (take n ?xs) \<union> set (drop n ?xs)" by (metis append_take_drop_id set_append)
  have "f_id f \<in> f_id ` set (filter (fact_stale now) (take n ?xs)) \<longleftrightarrow> f \<in> set (take n ?xs) \<and> fact_stale now f"
    if "f \<in> set facts" for f
    using inj_on_image_mem_iff[OF inj that, of "set (filter (fact_stale now) (take n ?xs))"] xs sub by auto
  then show ?thesis using xs by (auto simp: delete_facts_def intro!: filter_cong)
qed

text \<open>
  From any cursor on: every live fact is examined once, exactly the stale ones are evicted, and the archive
  receives those it accepts in the order of their ids.
\<close>

lemma sweep_pages_spec:
  assumes "wf_facts facts" "batch \<noteq> 0"
  shows "\<exists>rep'. sweep_pages now dry archive batch cursor rep facts arch =
      (Inr rep',
       if dry then facts else filter (\<lambda>f. \<not> (f \<in> set (live_after cursor facts) \<and> fact_stale now f)) facts,
       if dry then arch else arch @ archive_batch archive (filter (fact_stale now) (live_after cursor facts))) \<and>
    dr_scanned rep' = dr_scanned rep + length (live_after cursor facts) \<and>
    dr_evicted rep' = dr_evicted rep + length (filter (fact_stale now) (live_after cursor facts)) \<and>
    dr_errors rep' = dr_errors rep + length (filter (\<lambda>f. known_policy f = None) (live_after cursor facts))"
  using assms
proof (induction now dry archive batch cursor rep facts arch rule: sweep_pages.induct)
  case (1 now dry archive batch cursor rep facts arch)
  let ?xs = "live_after cursor facts"
  let ?n = "page_size batch ?xs"
  let ?rows = "take ?n ?xs"
  have rows: "decay_page batch cursor facts = ?rows" by (rule decay_page_take)
  show ?case
  proof (cases "?rows = []")
    case True
    then have "?xs = []" using "1.prems"(2) by (auto simp: page_size_def split: if_splits)
    then show ?thesis
      by (subst sweep_pages.simps) (simp add: rows archive_batch_def Let_def split: option.split)
  next
    case False
    let ?ds = "filter (fact_stale now) ?rows"
    let ?c = "f_id (last ?rows)"
    have d: "distinct (map f_id facts)" using "1.prems"(1) by (simp add: wf_facts_def)
    have inx: "f \<in> set facts" if "f \<in> set ?rows" for f using in_set_takeD[OF that] by (auto simp: live_after_set)
    then obtain rep1 where ex: "rfold (examine now) (rep, []) ?rows = Inr (rep1, ?ds)"
      "dr_scanned rep1 = dr_scanned rep + length ?rows" "dr_evicted rep1 = dr_evicted rep"
      "dr_errors rep1 = dr_errors rep + length (filter (\<lambda>f. known_policy f = None) ?rows)"
      using examine_rows[of ?rows now rep "[]"] "1.prems"(1) by (auto simp: wf_facts_def)
    have next_x: "live_after ?c facts = drop ?n ?xs" by (rule live_after_next[OF d False])
    have low: "f_id f \<le> ?c" if "f \<in> set ?ds" for f
    proof (rule ccontr)
      assume "\<not> f_id f \<le> ?c"
      moreover have f: "f \<in> set ?xs" "f \<in> set ?rows" using that in_set_takeD by auto
      ultimately have "f \<in> set (drop ?n ?xs)"
        unfolding next_x[symmetric] using f(1) by (auto simp: live_after_set)
      moreover have "distinct ?xs" using d by (simp add: live_after_def distinct_map)
      ultimately show False using f(2) by (metis append_take_drop_id disjoint_iff distinct_append)
    qed
    let ?rep2 = "rep1\<lparr>dr_evicted := dr_evicted rep1 + length ?ds\<rparr>"
    have counts: "length ?rows + length (drop ?n ?xs) = length ?xs"
      "length (filter (fact_stale now) ?xs) = length ?ds + length (filter (fact_stale now) (drop ?n ?xs))"
      "length (filter (\<lambda>f. known_policy f = None) ?xs) = length (filter (\<lambda>f. known_policy f = None) ?rows) +
         length (filter (\<lambda>f. known_policy f = None) (drop ?n ?xs))"
      using filter_take_drop[of "fact_stale now" ?n ?xs] filter_take_drop[of "\<lambda>f. known_policy f = None" ?n ?xs]
      by simp_all
    have xs: "filter P ?xs = filter P ?rows @ filter P (drop ?n ?xs)" for P
      by (metis append_take_drop_id filter_append)
    show ?thesis
    proof (cases "?ds \<noteq> [] \<and> \<not> dry")
      case True
      let ?rep3 = "?rep2\<lparr>dr_archived := dr_archived ?rep2 + length (archive_batch archive ?ds)\<rparr>"
      let ?facts = "delete_facts ?ds facts"
      have step: "sweep_pages now dry archive batch cursor rep facts arch =
          sweep_pages now dry archive batch ?c ?rep3 ?facts (arch @ archive_batch archive ?ds)"
        using True False ex(1) by (subst sweep_pages.simps) (simp add: rows Let_def)
      have nxt: "live_after ?c ?facts = drop ?n ?xs" using live_after_delete[of ?ds ?c facts] low next_x by simp
      have kept: "filter (\<lambda>f. \<not> (f \<in> set (drop ?n ?xs) \<and> fact_stale now f)) ?facts =
          filter (\<lambda>f. \<not> (f \<in> set ?xs \<and> fact_stale now f)) facts"
        using evicted_split[OF d] by simp
      show ?thesis
        using "1.IH"(1)[OF rows[symmetric] False ex(1) refl refl refl True wf_facts_delete[OF "1.prems"(1)] "1.prems"(2)]
          True ex(2-) counts unfolding step nxt kept xs[of "fact_stale now"]
        by (auto simp: archive_batch_def split: option.splits)
    next
      case F: False
      have step: "sweep_pages now dry archive batch cursor rep facts arch =
          sweep_pages now dry archive batch ?c ?rep2 facts arch"
        using F False ex(1) by (subst sweep_pages.simps) (auto simp: rows Let_def)
      have kept: "dry \<or> filter (\<lambda>f. \<not> (f \<in> set (drop ?n ?xs) \<and> fact_stale now f)) facts =
          filter (\<lambda>f. \<not> (f \<in> set ?xs \<and> fact_stale now f)) facts"
      proof (cases dry)
        case nd: False
        then have none: "?ds = []" using F by simp
        have "delete_facts [] facts = facts" by (simp add: delete_facts_def)
        then show ?thesis using evicted_split[OF d, of ?n cursor now] unfolding none by simp
      qed simp
      show ?thesis
        using "1.IH"(2)[OF rows[symmetric] False ex(1) refl refl refl F "1.prems"] F kept
          ex(2-) counts unfolding step next_x xs[of "fact_stale now"]
        by auto
    qed
  qed
qed

lemma live_after_start: "wf_facts facts \<Longrightarrow> set (live_after [] facts) = {f \<in> set facts. f_superseded_by f = None}"
  by (auto simp: live_after_set wf_facts_def neq_Nil_conv)

text \<open>The whole sweep: what is left does not depend on the page size.\<close>

lemma decay_sweep_spec:
  assumes "wf_facts facts" "batch \<noteq> 0"
  shows "\<exists>rep. decay_sweep now dry archive batch facts arch =
      (Inr rep,
       if dry then facts else filter (\<lambda>f. \<not> (f_superseded_by f = None \<and> fact_stale now f)) facts,
       if dry then arch
       else arch @ archive_batch archive (sort_key f_id (filter (\<lambda>f. f_superseded_by f = None \<and> fact_stale now f) facts))) \<and>
    dr_scanned rep = length (filter (\<lambda>f. f_superseded_by f = None) facts) \<and>
    dr_evicted rep = length (filter (\<lambda>f. f_superseded_by f = None \<and> fact_stale now f) facts) \<and>
    dr_errors rep = length (filter (\<lambda>f. f_superseded_by f = None \<and> known_policy f = None) facts)"
proof -
  have "filter (\<lambda>f. f_superseded_by f = None \<and> [] < f_id f) facts = filter (\<lambda>f. f_superseded_by f = None) facts"
    using assms(1) by (auto simp: wf_facts_def neq_Nil_conv intro!: filter_cong)
  then have l: "live_after [] facts = sort_key f_id (filter (\<lambda>f. f_superseded_by f = None) facts)"
    by (simp add: live_after_def)
  have f: "filter P (live_after [] facts) = sort_key f_id (filter (\<lambda>f. f_superseded_by f = None \<and> P f) facts)" for P
    unfolding l filter_sort by (simp add: conj_commute)
  have kept: "filter (\<lambda>f. \<not> (f \<in> set (live_after [] facts) \<and> fact_stale now f)) facts =
      filter (\<lambda>f. \<not> (f_superseded_by f = None \<and> fact_stale now f)) facts"
    using live_after_start[OF assms(1)] by (auto intro!: filter_cong)
  have n: "length (live_after [] facts) = length (filter (\<lambda>f. f_superseded_by f = None) facts)" by (simp add: l)
  show ?thesis
    using sweep_pages_spec[OF assms, of now dry archive "[]" new_report arch]
    unfolding decay_sweep_def kept f n by (simp add: new_report_def)
qed

end
