(* ===== verification/Sample_Memory.thy ===== *)
theory Sample_Memory
  imports Workspace_Properties Like_Pattern Decay_Properties
begin

text \<open>
  A small workspace, a drifted copy of it and a few facts: concrete states on which the properties of
  workspaces and memory are evaluated.
\<close>

definition sample_tree :: tree where
  "sample_tree = [([''src'', ''m.py''], Regular ''x''), ([''README''], Regular ''hi''),
     ([''.git'', ''HEAD''], Regular ''r'')]"

definition drifted_tree :: tree where
  "drifted_tree = [([''src'', ''m.py''], Regular ''y''), ([''tmp''], Regular ''z'')]"

definition sample_instant :: datetime where
  "sample_instant = \<lparr>year = 1, month = 1, day = 1, hour = 0, minute = 0, second = 0, microsecond = 0, aware = True\<rparr>"

definition sample_snapshot :: WorkspaceSnapshot where
  "sample_snapshot = \<lparr>ws_root = ''w'', ws_entries = [(''README'', sha256_hex ''hi''), (''src/m.py'', sha256_hex ''x'')],
     ws_captured_at = sample_instant, ws_skipped = []\<rparr>"

definition free_permissions :: os_permissions where
  "free_permissions = \<lparr>may_write = \<lambda>_. True, may_unlink = \<lambda>_. True\<rparr>"

lemma free_permissions_all: "all_permitted free_permissions"
  by (simp add: all_permitted_def free_permissions_def)

lemma sample_tree_wf: "wf_tree sample_tree"
  by code_simp

lemma drifted_tree_wf: "wf_tree drifted_tree"
  by code_simp

lemma drifted_tree_links: "no_links drifted_tree"
  by (auto simp: no_links_def drifted_tree_def dict_get_def split: if_splits)

lemma sample_capture: "capture sha256_hex ''w'' sample_instant (Some sample_tree) = Inr sample_snapshot"
proof -
  have "walk_order (filter (\<lambda>(p, f). captured p) sample_tree) =
      [([''README''], Regular ''hi''), ([''src'', ''m.py''], Regular ''x'')]" by code_simp
  then show ?thesis
    unfolding capture_def capture_with_def sample_snapshot_def
    by (simp add: List.map_filter_def file_entry_def Let_def)
qed

definition sample_fact :: "string \<Rightarrow> real \<Rightarrow> fact" where
  "sample_fact i c = \<lparr>f_id = i, f_entity = ''e'', f_predicate = ''p'', f_value = ''v'', f_domain = ''procedural'',
     f_confidence = c, f_last_queried = 0, f_use_count = 0, f_superseded_by = None\<rparr>"

definition sample_facts :: "fact list" where
  "sample_facts = [sample_fact ''c'' (1 / 10), sample_fact ''b'' (9 / 10), sample_fact ''a'' (2 / 10)]"

lemma sample_facts_wf: "wf_facts sample_facts"
  by (simp add: wf_facts_def sample_facts_def sample_fact_def)

lemma sample_fact_stale: "fact_stale now (sample_fact i c) \<longleftrightarrow> c < 4 / 10"
  by (simp add: fact_stale_def known_policy_def sample_fact_def domain_policy_def all_domains_def
      policy_is_stale_def confidence_at_def mk_policy_def)

end
