(* ===== verification/Unified_Diff.thy ===== *)
theory Unified_Diff
  imports Dynamic_Values
begin

text \<open>
  Unified diffs (\<open>paa.validation.patch\<close>): the parser, locating a hunk near its declared position, and
  applying the hunks of a file to its lines.

  Texts are lists of bytes, so a line is one in UTF-8. White space and digits are the ASCII ones.
  Numerals longer than the interpreter converts are not considered.
\<close>

subsection \<open>Lines\<close>

definition starts_with :: "string \<Rightarrow> string \<Rightarrow> bool" where
  "starts_with p s \<longleftrightarrow> take (length p) s = p"

text \<open>\<open>replace('\r\n', '\n')\<close>, \<open>replace('\r', '\n')\<close>, \<open>split\<close> and \<open>join\<close>\<close>

fun crlf_to_lf :: "string \<Rightarrow> string" where
  "crlf_to_lf (c # d # s) =
     (if c = CHR 0x0D \<and> d = CHR 0x0A then CHR 0x0A # crlf_to_lf s else c # crlf_to_lf (d # s))"
| "crlf_to_lf s = s"

definition cr_to_lf :: "string \<Rightarrow> string" where
  "cr_to_lf s = map (\<lambda>c. if c = CHR 0x0D then CHR 0x0A else c) s"

definition normalise_newlines :: "string \<Rightarrow> string" where
  "normalise_newlines s = cr_to_lf (crlf_to_lf s)"

fun split_char :: "char \<Rightarrow> string \<Rightarrow> string list" where
  "split_char sep [] = [[]]"
| "split_char sep (c # s) =
     (if c = sep then [] # split_char sep s
      else case split_char sep s of [] \<Rightarrow> [[c]] | d # ds \<Rightarrow> (c # d) # ds)"

fun join_with :: "string \<Rightarrow> string list \<Rightarrow> string" where
  "join_with sep [] = []"
| "join_with sep [l] = l"
| "join_with sep (l # ls) = l @ sep @ join_with sep ls"

subsection \<open>Hunks and file patches\<close>

record Hunk =
  h_old_start :: int
  h_old_count :: int
  h_new_start :: int
  h_new_count :: int
  h_lines :: "string list"
  h_section :: string
  h_new_no_newline :: bool
  h_old_no_newline :: bool

definition has_marker :: "string \<Rightarrow> string \<Rightarrow> bool" where
  "has_marker ms l \<longleftrightarrow> (case l of [] \<Rightarrow> False | c # _ \<Rightarrow> c \<in> set ms)"

definition side_lines :: "string \<Rightarrow> string list \<Rightarrow> string list" where
  "side_lines ms ls = map (drop 1) (filter (has_marker ms) ls)"

definition source_lines :: "Hunk \<Rightarrow> string list" where
  "source_lines h = side_lines '' -'' (h_lines h)"

definition target_lines :: "Hunk \<Rightarrow> string list" where
  "target_lines h = side_lines '' +'' (h_lines h)"

definition counts_consistent :: "Hunk \<Rightarrow> bool" where
  "counts_consistent h \<longleftrightarrow>
     int (length (source_lines h)) = h_old_count h \<and> int (length (target_lines h)) = h_new_count h"

datatype PatchAction = CREATE | MODIFY | DELETE

record FilePatch =
  fp_old_path :: "string option"
  fp_new_path :: "string option"
  fp_hunks :: "Hunk list"

definition patch_action :: "FilePatch \<Rightarrow> PatchAction" where
  "patch_action p =
     (if fp_old_path p = None then CREATE else if fp_new_path p = None then DELETE else MODIFY)"

text \<open>\<open>self.new_path or self.old_path\<close>\<close>

definition patch_path :: "FilePatch \<Rightarrow> string result" where
  "patch_path p =
     (case fp_new_path p of
        Some (c # s) \<Rightarrow> Inr (c # s)
      | _ \<Rightarrow> (case fp_old_path p of None \<Rightarrow> Inl ValidationError | Some s \<Rightarrow> Inr s))"

subsection \<open>The hunk header\<close>

type_synonym hunk_header = "int \<times> int \<times> int \<times> int \<times> string"

definition after_prefix :: "string \<Rightarrow> string \<Rightarrow> string option" where
  "after_prefix p s = (if starts_with p s then Some (drop (length p) s) else None)"

text \<open>\<open>\d+\<close> and \<open>(\d+)(?:,(\d+))?\<close>\<close>

definition read_number :: "string \<Rightarrow> (int \<times> string) option" where
  "read_number s =
     (case parse_digits 10 (takeWhile is_digit s) of
        None \<Rightarrow> None | Some n \<Rightarrow> Some (int n, dropWhile is_digit s))"

definition read_range :: "string \<Rightarrow> (int \<times> int \<times> string) option" where
  "read_range s =
     (case read_number s of
        None \<Rightarrow> None
      | Some (start, r) \<Rightarrow>
          (case Option.bind (after_prefix '','' r) read_number of
             None \<Rightarrow> Some (start, 1, r)
           | Some (cnt, r') \<Rightarrow> Some (start, cnt, r')))"

definition read_header :: "string \<Rightarrow> hunk_header option" where
  "read_header line =
     Option.bind (after_prefix ''@@ -'' line) (\<lambda>s1.
     Option.bind (read_range s1) (\<lambda>(os, oc, s2).
     Option.bind (after_prefix '' +'' s2) (\<lambda>s3.
     Option.bind (read_range s3) (\<lambda>(ns, nc, s4).
     Option.bind (after_prefix '' @@'' s4) (\<lambda>s5. Some (os, oc, ns, nc, strip_space s5))))))"

subsection \<open>The parser\<close>

record parse_state =
  ps_patches :: "FilePatch list"
  ps_old_path :: "string option"
  ps_new_path :: "string option"
  ps_hunks :: "Hunk list"
  ps_current :: "string list"
  ps_header :: "hunk_header option"
  ps_new_no_newline :: bool
  ps_old_no_newline :: bool

definition parse_start :: parse_state where
  "parse_start = \<lparr>ps_patches = [], ps_old_path = None, ps_new_path = None, ps_hunks = [], ps_current = [],
     ps_header = None, ps_new_no_newline = False, ps_old_no_newline = False\<rparr>"

definition flush_hunk :: "parse_state \<Rightarrow> parse_state" where
  "flush_hunk st =
     (case ps_header st of
        None \<Rightarrow> st
      | Some (os, oc, ns, nc, sec) \<Rightarrow>
          st\<lparr>ps_hunks := ps_hunks st @ [\<lparr>h_old_start = os, h_old_count = oc, h_new_start = ns, h_new_count = nc,
                h_lines = ps_current st, h_section = sec, h_new_no_newline = ps_new_no_newline st,
                h_old_no_newline = ps_old_no_newline st\<rparr>],
             ps_current := [], ps_header := None, ps_new_no_newline := False, ps_old_no_newline := False\<rparr>)"

definition flush_file :: "parse_state \<Rightarrow> parse_state result" where
  "flush_file st0 =
     (let st = flush_hunk st0; cleared = st\<lparr>ps_old_path := None, ps_new_path := None, ps_hunks := []\<rparr>
      in if ps_old_path st = None \<and> ps_new_path st = None then Inr cleared
         else if ps_hunks st = [] then Inl ValidationError
         else Inr (cleared\<lparr>ps_patches := ps_patches st @
                [\<lparr>fp_old_path = ps_old_path st, fp_new_path = ps_new_path st, fp_hunks = ps_hunks st\<rparr>]\<rparr>))"

definition dev_null :: "string list" where
  "dev_null = [''/dev/null'', ''dev/null'', ''nul'', ''NUL'']"

definition header_path :: "string \<Rightarrow> string option" where
  "header_path line =
     (let raw = strip_space (takeWhile (\<lambda>c. c \<noteq> CHR 0x09) (drop 4 line))
      in if raw \<in> set dev_null then None else Some raw)"

definition marks_old_side :: "string list \<Rightarrow> bool" where
  "marks_old_side ls \<longleftrightarrow> ls \<noteq> [] \<and> has_marker ''-'' (last ls)"

text \<open>A line inside a hunk.\<close>

definition body_line :: "hunk_header \<Rightarrow> string \<Rightarrow> parse_state \<Rightarrow> parse_state" where
  "body_line h line st =
     (if starts_with [CHR 0x5C] line then
        (if marks_old_side (ps_current st) then st\<lparr>ps_old_no_newline := True\<rparr>
         else st\<lparr>ps_new_no_newline := True\<rparr>)
      else if has_marker '' +-'' line then st\<lparr>ps_current := ps_current st @ [line]\<rparr>
      else if line = [] \<and>
          (int (length (side_lines '' -'' (ps_current st))) < fst (snd h) \<or>
           int (length (side_lines '' +'' (ps_current st))) < fst (snd (snd (snd h))))
        then st\<lparr>ps_current := ps_current st @ ['' '']\<rparr>
      else flush_hunk st)"

fun parse_lines :: "string list \<Rightarrow> parse_state \<Rightarrow> parse_state result" where
  "parse_lines [] st = Inr st"
| "parse_lines (line # rest) st =
     (if starts_with ''--- '' line then
        rbind (flush_file st) (\<lambda>st1.
          case rest of
            [] \<Rightarrow> Inl ValidationError
          | line2 # rest2 \<Rightarrow>
              if \<not> starts_with ''+++ '' line2 then Inl ValidationError
              else if header_path line = None \<and> header_path line2 = None then Inl ValidationError
              else parse_lines rest2 (st1\<lparr>ps_old_path := header_path line, ps_new_path := header_path line2\<rparr>))
      else case read_header line of
        Some h \<Rightarrow>
          if ps_old_path st = None \<and> ps_new_path st = None then Inl ValidationError
          else parse_lines rest ((flush_hunk st)\<lparr>ps_header := Some h\<rparr>)
      | None \<Rightarrow>
          (case ps_header st of
             None \<Rightarrow> parse_lines rest st
           | Some h \<Rightarrow> parse_lines rest (body_line h line st)))"

definition parse_patch :: "string \<Rightarrow> FilePatch list result" where
  "parse_patch text =
     rbind (parse_lines (split_char (CHR 0x0A) (normalise_newlines text)) parse_start) (\<lambda>st.
     rbind (flush_file st) (\<lambda>st1.
       if ps_patches st1 = [] then Inl ValidationError else Inr (ps_patches st1)))"

subsection \<open>Locating and applying hunks\<close>

definition matches_at :: "string list \<Rightarrow> string list \<Rightarrow> int \<Rightarrow> bool" where
  "matches_at haystack needle k \<longleftrightarrow> 0 \<le> k \<and> take (length needle) (drop (nat k) haystack) = needle"

text \<open>The positions that are tried, in order.\<close>

definition near :: "int \<Rightarrow> int \<Rightarrow> int list" where
  "near max_offset expected = expected # concat (map (\<lambda>d. [expected - d, expected + d]) [1..max_offset])"

definition locate :: "int \<Rightarrow> string list \<Rightarrow> string list \<Rightarrow> int \<Rightarrow> int option" where
  "locate max_offset haystack needle expected =
     (if needle = [] then Some (max 0 (min expected (int (length haystack))))
      else find (matches_at haystack needle) (near max_offset expected))"

text \<open>\<open>result[position : position + len(source)] = target\<close>\<close>

definition splice :: "string list \<Rightarrow> nat \<Rightarrow> nat \<Rightarrow> string list \<Rightarrow> string list" where
  "splice xs k n ys = take k xs @ ys @ drop (k + n) xs"

text \<open>The loop, with its lines, drift, largest offset and count; \<open>None\<close> is a hunk that does not match.\<close>

fun apply_from ::
  "int \<Rightarrow> Hunk list \<Rightarrow> string list \<Rightarrow> int \<Rightarrow> int \<Rightarrow> nat \<Rightarrow> (string list \<times> int \<times> nat) option" where
  "apply_from max_offset [] xs drift worst n = Some (xs, worst, n)"
| "apply_from max_offset (h # hs) xs drift worst n =
     (let src = source_lines h; tgt = target_lines h; expected = h_old_start h - 1 + drift
      in case locate max_offset xs src expected of
           None \<Rightarrow> None
         | Some k \<Rightarrow>
             apply_from max_offset hs (splice xs (nat k) (length src) tgt)
               (drift + int (length tgt) - int (length src)) (max worst \<bar>k - expected\<bar>) (Suc n))"

definition apply_hunks :: "int \<Rightarrow> string list \<Rightarrow> Hunk list \<Rightarrow> (string list \<times> int \<times> nat) option" where
  "apply_hunks max_offset xs hs = apply_from max_offset hs xs 0 0 0"

definition default_max_line_offset :: int where
  "default_max_line_offset = 20"

end
