(* ===== verification/Diff_Properties.thy ===== *)
theory Diff_Properties
  imports Unified_Diff
begin

text \<open>
  What applying a diff does: the place of a hunk is the nearest one where its lines stand exactly, a
  diff of two texts turns the first into the second without any offset, its reverse turns it back,
  and the parser reads every rendered diff.
\<close>

subsection \<open>The nearest place\<close>

lemma find_append: "find P (xs @ ys) = (case find P xs of None \<Rightarrow> find P ys | Some x \<Rightarrow> Some x)"
  by (induction xs) auto

lemma near_0: "near 0 e = [e]"
  by (simp add: near_def)

lemma near_Suc: "near (int (Suc n)) e = near (int n) e @ [e - int (Suc n), e + int (Suc n)]"
proof -
  have "[1..int (Suc n)] = [1..int n] @ [int (Suc n)]" using upto_rec2[of 1 "int (Suc n)"] by simp
  then show ?thesis by (simp add: near_def)
qed

lemma find_near:
  "(case find P (near (int n) e) of
      None \<Rightarrow> \<forall>j. P j \<longrightarrow> \<bar>j - e\<bar> > int n
    | Some k \<Rightarrow> P k \<and> \<bar>k - e\<bar> \<le> int n \<and> (\<forall>j. P j \<longrightarrow> \<bar>k - e\<bar> < \<bar>j - e\<bar> \<or> \<bar>k - e\<bar> = \<bar>j - e\<bar> \<and> k \<le> j))"
proof (induction n)
  case 0
  then show ?case by (auto simp: near_0)
next
  case (Suc n)
  let ?N = "int (Suc n)"
  show ?case
  proof (cases "find P (near (int n) e)")
    case (Some k)
    then have "find P (near ?N e) = Some k" by (simp only: near_Suc find_append option.case)
    then show ?thesis using Suc Some by auto
  next
    case None
    then have far: "\<And>j. P j \<Longrightarrow> \<bar>j - e\<bar> > int n" using Suc by auto
    have edge: "\<bar>j - e\<bar> > ?N \<or> j = e - ?N \<or> j = e + ?N" if "P j" for j using far[OF that] by auto
    have find: "find P (near ?N e) = (if P (e - ?N) then Some (e - ?N) else if P (e + ?N) then Some (e + ?N) else None)"
      unfolding near_Suc find_append None by simp
    consider "P (e - ?N)" | "\<not> P (e - ?N)" "P (e + ?N)" | "\<not> P (e - ?N)" "\<not> P (e + ?N)" by blast
    then show ?thesis
    proof cases
      case 1
      have "\<bar>(e - ?N) - e\<bar> < \<bar>j - e\<bar> \<or> \<bar>(e - ?N) - e\<bar> = \<bar>j - e\<bar> \<and> e - ?N \<le> j" if "P j" for j using edge[OF that] by auto
      then show ?thesis using 1 by (simp only: find) simp
    next
      case 2
      have "\<bar>(e + ?N) - e\<bar> < \<bar>j - e\<bar> \<or> \<bar>(e + ?N) - e\<bar> = \<bar>j - e\<bar> \<and> e + ?N \<le> j" if "P j" for j using edge[OF that] 2 that by auto
      then show ?thesis using 2 by (simp only: find) simp
    next
      case 3
      have "\<bar>j - e\<bar> > ?N" if "P j" for j using edge[OF that] 3 that by auto
      then show ?thesis using 3 by (simp only: find) simp
    qed
  qed
qed

lemma locate_nearest:
  assumes "needle \<noteq> []" "0 \<le> m"
  shows "case locate m xs needle e of
      None \<Rightarrow> \<forall>j. matches_at xs needle j \<longrightarrow> \<bar>j - e\<bar> > m
    | Some k \<Rightarrow> matches_at xs needle k \<and> \<bar>k - e\<bar> \<le> m \<and>
        (\<forall>j. matches_at xs needle j \<longrightarrow> \<bar>k - e\<bar> < \<bar>j - e\<bar> \<or> \<bar>k - e\<bar> = \<bar>j - e\<bar> \<and> k \<le> j)"
proof -
  obtain n where n: "m = int n" using zero_le_imp_eq_int[OF assms(2)] by blast
  show ?thesis unfolding n using find_near[of "matches_at xs needle" n e] assms(1) by (simp add: locate_def)
qed

subsection \<open>Edits\<close>

text \<open>An edit keeps some lines, then replaces some lines by others.\<close>

type_synonym edit = "string list \<times> string list \<times> string list"

definition old_text :: "edit list \<Rightarrow> string list \<Rightarrow> string list" where
  "old_text es tail = concat (map (\<lambda>(u, s, t). u @ s) es) @ tail"

definition new_text :: "edit list \<Rightarrow> string list \<Rightarrow> string list" where
  "new_text es tail = concat (map (\<lambda>(u, s, t). u @ t) es) @ tail"

text \<open>Hunks that describe the edits, with \<open>a\<close> lines of the old text and \<open>b\<close> of the new before them.\<close>

fun describes :: "nat \<Rightarrow> nat \<Rightarrow> edit list \<Rightarrow> Hunk list \<Rightarrow> bool" where
  "describes a b [] hs \<longleftrightarrow> hs = []"
| "describes a b ((u, s, t) # es) hs \<longleftrightarrow>
     (case hs of
        [] \<Rightarrow> False
      | h # hs' \<Rightarrow> source_lines h = s \<and> target_lines h = t \<and> h_old_start h = int (a + length u) + 1 \<and>
          h_new_start h = int (b + length u) + 1 \<and> describes (a + length u + length s) (b + length u + length t) es hs')"

lemma locate_here:
  assumes "k = int (length p)"
  shows "locate m (p @ s @ r) s k = Some k"
proof (cases "s = []")
  case True
  then show ?thesis using assms by (simp add: locate_def)
next
  case False
  then show ?thesis using assms by (simp add: locate_def near_def matches_at_def)
qed

lemma splice_here: "splice (p @ s @ r) (length p) (length s) t = p @ t @ r"
  by (simp add: splice_def)

lemma apply_from_edits:
  "describes a b es hs \<Longrightarrow> int (length p) = int a + drift \<Longrightarrow> 0 \<le> worst \<Longrightarrow>
    apply_from m hs (p @ old_text es tail) drift worst n = Some (p @ new_text es tail, worst, n + length hs)"
proof (induction es arbitrary: a b hs p drift n)
  case Nil
  then show ?case by (simp add: old_text_def new_text_def)
next
  case (Cons x es)
  obtain u s t where x: "x = (u, s, t)" by (cases x)
  obtain h hs' where h: "hs = h # hs'" "source_lines h = s" "target_lines h = t" "h_old_start h = int (a + length u) + 1"
    "describes (a + length u + length s) (b + length u + length t) es hs'"
    using Cons.prems(1) by (auto simp: x split: list.splits)
  have shape: "p @ old_text (x # es) tail = (p @ u) @ s @ old_text es tail" by (simp add: x old_text_def)
  have expected: "h_old_start h - 1 + drift = int (length (p @ u))" using h(4) Cons.prems(2) by simp
  have "apply_from m hs (p @ old_text (x # es) tail) drift worst n =
      apply_from m hs' (((p @ u) @ t) @ old_text es tail) (drift + int (length t) - int (length s)) worst (Suc n)"
    unfolding shape h(1) using expected locate_here[OF refl, of m "p @ u" s "old_text es tail"]
      splice_here[of "p @ u" s "old_text es tail" t] Cons.prems(3) h(2,3) by (simp add: nat_int_add)
  also have "\<dots> = Some (((p @ u) @ t) @ new_text es tail, worst, Suc n + length hs')"
    by (rule Cons.IH[OF h(5) _ Cons.prems(3)]) (use Cons.prems(2) in simp)
  finally show ?case by (simp add: x h(1) new_text_def)
qed

lemma apply_hunks_edits:
  "describes 0 0 es hs \<Longrightarrow> apply_hunks m (old_text es tail) hs = Some (new_text es tail, 0, length hs)"
  using apply_from_edits[of 0 0 es hs "[]" 0 0 m tail 0] by (simp add: apply_hunks_def)

subsection \<open>Reversed diffs\<close>

definition flip_marker :: "string \<Rightarrow> string" where
  "flip_marker l = (case l of [] \<Rightarrow> [] | c # s \<Rightarrow>
     (if c = CHR ''-'' then CHR ''+'' else if c = CHR ''+'' then CHR ''-'' else c) # s)"

definition reverse_hunk :: "Hunk \<Rightarrow> Hunk" where
  "reverse_hunk h = \<lparr>h_old_start = h_new_start h, h_old_count = h_new_count h, h_new_start = h_old_start h,
     h_new_count = h_old_count h, h_lines = map flip_marker (h_lines h), h_section = h_section h,
     h_new_no_newline = h_old_no_newline h, h_old_no_newline = h_new_no_newline h\<rparr>"

definition reverse_edit :: "edit \<Rightarrow> edit" where
  "reverse_edit x = (case x of (u, s, t) \<Rightarrow> (u, t, s))"

lemma side_lines_flip:
  "side_lines '' -'' (map flip_marker ls) = side_lines '' +'' ls"
  "side_lines '' +'' (map flip_marker ls) = side_lines '' -'' ls"
proof -
  have "has_marker '' -'' (flip_marker l) = has_marker '' +'' l" "has_marker '' +'' (flip_marker l) = has_marker '' -'' l"
    "drop 1 (flip_marker l) = drop 1 l" for l
    by (auto simp: has_marker_def flip_marker_def split: list.splits)
  then show "side_lines '' -'' (map flip_marker ls) = side_lines '' +'' ls"
    "side_lines '' +'' (map flip_marker ls) = side_lines '' -'' ls"
    by (simp_all add: side_lines_def filter_map comp_def)
qed

lemma describes_reverse: "describes a b es hs \<Longrightarrow> describes b a (map reverse_edit es) (map reverse_hunk hs)"
proof (induction es arbitrary: a b hs)
  case (Cons x es)
  then show ?case
    by (cases x; cases hs) (auto simp: reverse_edit_def reverse_hunk_def source_lines_def target_lines_def side_lines_flip)
qed simp

lemma reverse_text: "old_text (map reverse_edit es) tail = new_text es tail" "new_text (map reverse_edit es) tail = old_text es tail"
  by (induction es) (auto simp: old_text_def new_text_def reverse_edit_def)

subsection \<open>Rendering\<close>

definition render_header :: "Hunk \<Rightarrow> string" where
  "render_header h = ''@@ -'' @ str_int (h_old_start h) @ '','' @ str_int (h_old_count h) @ '' +'' @
     str_int (h_new_start h) @ '','' @ str_int (h_new_count h) @ '' @@'' @
     (if h_section h = [] then [] else CHR '' '' # h_section h)"

definition render_path :: "string \<Rightarrow> string option \<Rightarrow> string" where
  "render_path marker p = marker @ (case p of None \<Rightarrow> ''/dev/null'' | Some s \<Rightarrow> s)"

definition render_file :: "FilePatch \<Rightarrow> string list" where
  "render_file p = [render_path ''--- '' (fp_old_path p), render_path ''+++ '' (fp_new_path p)] @
     concat (map (\<lambda>h. render_header h # h_lines h) (fp_hunks p))"

definition render_patch :: "FilePatch list \<Rightarrow> string" where
  "render_patch ps = join_with [CHR 0x0A] (concat (map render_file ps))"

definition one_line :: "string \<Rightarrow> bool" where
  "one_line s \<longleftrightarrow> CHR 0x0A \<notin> set s \<and> CHR 0x0D \<notin> set s"

definition renderable_hunk :: "Hunk \<Rightarrow> bool" where
  "renderable_hunk h \<longleftrightarrow> 0 \<le> h_old_start h \<and> 0 \<le> h_old_count h \<and> 0 \<le> h_new_start h \<and> 0 \<le> h_new_count h \<and>
     \<not> h_new_no_newline h \<and> \<not> h_old_no_newline h \<and> strip_space (h_section h) = h_section h \<and> one_line (h_section h) \<and>
     (\<forall>l \<in> set (h_lines h). has_marker '' +-'' l \<and> one_line l \<and> \<not> starts_with ''--- '' l)"

definition renderable_path :: "string option \<Rightarrow> bool" where
  "renderable_path p \<longleftrightarrow> (\<forall>s. p = Some s \<longrightarrow> one_line s \<and> CHR 0x09 \<notin> set s \<and> strip_space s = s \<and> s \<notin> set dev_null)"

definition renderable :: "FilePatch \<Rightarrow> bool" where
  "renderable p \<longleftrightarrow> renderable_path (fp_old_path p) \<and> renderable_path (fp_new_path p) \<and>
     (fp_old_path p \<noteq> None \<or> fp_new_path p \<noteq> None) \<and> fp_hunks p \<noteq> [] \<and> (\<forall>h \<in> set (fp_hunks p). renderable_hunk h)"

lemma split_char_nosep: "sep \<notin> set s \<Longrightarrow> split_char sep s = [s]"
  by (induction s) auto

lemma split_char_append: "sep \<notin> set l \<Longrightarrow> split_char sep (l @ sep # s) = l # split_char sep s"
  by (induction l) auto

lemma split_join:
  "\<forall>l \<in> set ls. sep \<notin> set l \<Longrightarrow> ls \<noteq> [] \<Longrightarrow> split_char sep (join_with [sep] ls) = ls"
proof (induction "[sep]" ls rule: join_with.induct)
  case (3 l l' ls)
  then show ?case using split_char_append[of sep l "join_with [sep] (l' # ls)"] by simp
qed (simp_all add: split_char_nosep)

lemma normalise_id: "CHR 0x0D \<notin> set s \<Longrightarrow> normalise_newlines s = s"
proof -
  assume s: "CHR 0x0D \<notin> set s"
  have "crlf_to_lf s = s" using s by (induction s rule: crlf_to_lf.induct) auto
  moreover have "cr_to_lf s = s" using s by (auto simp: cr_to_lf_def intro: map_idI)
  ultimately show ?thesis by (simp add: normalise_newlines_def)
qed

lemma set_join: "set (join_with sep ls) \<subseteq> set sep \<union> \<Union> (set ` set ls)"
  by (induction sep ls rule: join_with.induct) auto

lemma parse_rendered_text:
  assumes "\<forall>l \<in> set ls. one_line l" "ls \<noteq> []"
  shows "split_char (CHR 0x0A) (normalise_newlines (join_with [CHR 0x0A] ls)) = ls"
proof -
  have "CHR 0x0D \<notin> set (join_with [CHR 0x0A] ls)" using assms(1) set_join[of "[CHR 0x0A]" ls] by (auto simp: one_line_def)
  then show ?thesis using assms split_join[of ls "CHR 0x0A"] by (simp add: normalise_id one_line_def)
qed

subsection \<open>Reading a rendered header\<close>

lemma str_int_nonneg_digits: "0 \<le> i \<Longrightarrow> list_all is_digit (str_int i) \<and> str_int i \<noteq> []"
  using str_nat_all_digits by (simp add: str_int_def)

lemma takeWhile_digits:
  assumes "list_all is_digit ds" "r = [] \<or> \<not> is_digit (hd r)"
  shows "takeWhile is_digit (ds @ r) = ds" "dropWhile is_digit (ds @ r) = r"
  using assms by (induction ds) (auto simp: dropWhile_eq_self_iff takeWhile_eq_Nil_iff)

lemma read_number_rendered:
  assumes "0 \<le> i" "r = [] \<or> \<not> is_digit (hd r)"
  shows "read_number (str_int i @ r) = Some (i, r)"
proof -
  have "parse_digits 10 (str_int i) = Some (nat i)" using assms(1) by (simp add: str_int_def parse_str_nat)
  then show ?thesis
    using takeWhile_digits[OF conjunct1[OF str_int_nonneg_digits[OF assms(1)]] assms(2)] assms(1) by (simp add: read_number_def)
qed

lemma read_range_rendered:
  assumes "0 \<le> i" "0 \<le> j" "r = [] \<or> \<not> is_digit (hd r)"
  shows "read_range (str_int i @ '','' @ str_int j @ r) = Some (i, j, r)"
proof -
  have "\<not> is_digit (CHR '','')" by (simp add: is_digit_def)
  then have "read_number (str_int i @ '','' @ str_int j @ r) = Some (i, '','' @ str_int j @ r)"
    using read_number_rendered[OF assms(1), of "'','' @ str_int j @ r"] by simp
  moreover have "after_prefix '','' ('','' @ str_int j @ r) = Some (str_int j @ r)" by (simp add: after_prefix_def starts_with_def)
  ultimately show ?thesis using read_number_rendered[OF assms(2,3)] by (simp add: read_range_def)
qed

lemma after_prefix_append: "after_prefix p (p @ s) = Some s"
  by (simp add: after_prefix_def starts_with_def)

lemma strip_section: "strip_space s = s \<Longrightarrow> strip_space (if s = [] then [] else CHR '' '' # s) = s"
  by (auto simp: strip_space_def is_space_def)

lemma read_header_rendered:
  assumes "renderable_hunk h"
  shows "read_header (render_header h) = Some (h_old_start h, h_old_count h, h_new_start h, h_new_count h, h_section h)"
proof -
  let ?sec = "if h_section h = [] then [] else CHR '' '' # h_section h"
  let ?s4 = "'' @@'' @ ?sec" and ?s2 = "'' +'' @ str_int (h_new_start h) @ '','' @ str_int (h_new_count h) @ '' @@'' @ (if h_section h = [] then [] else CHR '' '' # h_section h)"
  have nd: "\<not> is_digit (CHR '' '')" by (simp add: is_digit_def)
  have r1: "read_range (str_int (h_old_start h) @ '','' @ str_int (h_old_count h) @ ?s2) = Some (h_old_start h, h_old_count h, ?s2)"
    by (rule read_range_rendered) (use assms nd in \<open>auto simp: renderable_hunk_def\<close>)
  have r2: "read_range (str_int (h_new_start h) @ '','' @ str_int (h_new_count h) @ ?s4) = Some (h_new_start h, h_new_count h, ?s4)"
    by (rule read_range_rendered) (use assms nd in \<open>auto simp: renderable_hunk_def\<close>)
  have "read_header (render_header h) =
      Option.bind (after_prefix ''@@ -'' (''@@ -'' @ str_int (h_old_start h) @ '','' @ str_int (h_old_count h) @ ?s2)) (\<lambda>s1.
      Option.bind (read_range s1) (\<lambda>(os, oc, s2). Option.bind (after_prefix '' +'' s2) (\<lambda>s3.
      Option.bind (read_range s3) (\<lambda>(ns, nc, s4). Option.bind (after_prefix '' @@'' s4) (\<lambda>s5. Some (os, oc, ns, nc, strip_space s5))))))"
    by (simp only: read_header_def render_header_def append_assoc)
  then show ?thesis
    using assms by (simp only: after_prefix_append Option.bind.simps bind.bind_lunit r1 r2 prod.case)
      (simp only: after_prefix_append bind.bind_lunit r2 prod.case strip_section renderable_hunk_def)
qed

subsection \<open>Reading a rendered patch\<close>

text \<open>Between hunks, and with a hunk in progress.\<close>

definition clean :: "FilePatch list \<Rightarrow> string option \<Rightarrow> string option \<Rightarrow> Hunk list \<Rightarrow> parse_state" where
  "clean ps old new hs = \<lparr>ps_patches = ps, ps_old_path = old, ps_new_path = new, ps_hunks = hs, ps_current = [],
     ps_header = None, ps_new_no_newline = False, ps_old_no_newline = False\<rparr>"

definition within :: "FilePatch list \<Rightarrow> string option \<Rightarrow> string option \<Rightarrow> Hunk list \<Rightarrow> Hunk \<Rightarrow> parse_state" where
  "within ps old new hs h = \<lparr>ps_patches = ps, ps_old_path = old, ps_new_path = new, ps_hunks = hs, ps_current = h_lines h,
     ps_header = Some (h_old_start h, h_old_count h, h_new_start h, h_new_count h, h_section h),
     ps_new_no_newline = False, ps_old_no_newline = False\<rparr>"

lemma flush_within: "renderable_hunk h \<Longrightarrow> flush_hunk (within ps old new hs h) = clean ps old new (hs @ [h])"
  by (simp add: flush_hunk_def within_def clean_def renderable_hunk_def)

lemma flush_clean: "flush_hunk (clean ps old new hs) = clean ps old new hs"
  by (simp add: flush_hunk_def clean_def)

lemma marked_line:
  assumes "has_marker '' +-'' l"
  shows "read_header l = None" "\<not> starts_with [CHR 0x5C] l"
  using assms by (auto simp: has_marker_def read_header_def after_prefix_def starts_with_def split: list.splits)

lemma parse_body:
  "\<forall>l \<in> set ls. has_marker '' +-'' l \<and> \<not> starts_with ''--- '' l \<Longrightarrow> ps_header st = Some hh \<Longrightarrow>
    parse_lines (ls @ rest) st = parse_lines rest (st\<lparr>ps_current := ps_current st @ ls\<rparr>)"
proof (induction ls arbitrary: st)
  case (Cons l ls)
  then have l: "has_marker '' +-'' l" "\<not> starts_with ''--- '' l" by auto
  have "parse_lines ((l # ls) @ rest) st = parse_lines (ls @ rest) (st\<lparr>ps_current := ps_current st @ [l]\<rparr>)"
    using l marked_line[OF l(1)] Cons.prems(2) by (simp add: body_line_def)
  also have "\<dots> = parse_lines rest (st\<lparr>ps_current := ps_current st @ (l # ls)\<rparr>)"
    using Cons.IH[of "st\<lparr>ps_current := ps_current st @ [l]\<rparr>"] Cons.prems by simp
  finally show ?case .
qed simp

lemma parse_hunk:
  assumes "renderable_hunk h" "flush_hunk st = clean ps old new hs" "old \<noteq> None \<or> new \<noteq> None"
    and "ps_old_path st = old" "ps_new_path st = new"
  shows "parse_lines ((render_header h # h_lines h) @ rest) st = parse_lines rest (within ps old new hs h)"
proof -
  let ?st = "(clean ps old new hs)\<lparr>ps_header := Some (h_old_start h, h_old_count h, h_new_start h, h_new_count h, h_section h)\<rparr>"
  have "\<not> starts_with ''--- '' (render_header h)" by (simp add: starts_with_def render_header_def)
  then have "parse_lines ((render_header h # h_lines h) @ rest) st = parse_lines (h_lines h @ rest) ?st"
    using read_header_rendered[OF assms(1)] assms(2-5) by auto
  also have "\<dots> = parse_lines rest (?st\<lparr>ps_current := ps_current ?st @ h_lines h\<rparr>)"
    by (rule parse_body) (use assms(1) in \<open>auto simp: renderable_hunk_def\<close>)
  also have "?st\<lparr>ps_current := ps_current ?st @ h_lines h\<rparr> = within ps old new hs h" by (simp add: clean_def within_def)
  finally show ?thesis .
qed

lemma parse_hunks:
  "\<forall>h' \<in> set (h # hs'). renderable_hunk h' \<Longrightarrow> old \<noteq> None \<or> new \<noteq> None \<Longrightarrow>
    parse_lines (concat (map (\<lambda>h. render_header h # h_lines h) hs') @ rest) (within ps old new hs h) =
    parse_lines rest (within ps old new (hs @ butlast (h # hs')) (last (h # hs')))"
proof (induction hs' arbitrary: h hs)
  case (Cons h' hs')
  have "parse_lines ((render_header h' # h_lines h') @ concat (map (\<lambda>h. render_header h # h_lines h) hs') @ rest) (within ps old new hs h) =
      parse_lines (concat (map (\<lambda>h. render_header h # h_lines h) hs') @ rest) (within ps old new (hs @ [h]) h')"
    by (rule parse_hunk) (use Cons.prems in \<open>auto simp: flush_within\<close>, auto simp: within_def)
  then show ?case using Cons.IH[of h' "hs @ [h]"] Cons.prems by simp
qed simp

lemma header_path_rendered:
  assumes "renderable_path p" "length marker = 4"
  shows "header_path (render_path marker p) = p"
proof (cases p)
  case None
  have "strip_space (takeWhile (\<lambda>c. c \<noteq> CHR 0x09) ''/dev/null'') = ''/dev/null''" by code_simp
  then show ?thesis using None assms(2) by (simp add: header_path_def render_path_def dev_null_def)
next
  case (Some s)
  then have "CHR 0x09 \<notin> set s" using assms(1) by (simp add: renderable_path_def)
  then have whole: "takeWhile (\<lambda>c. c \<noteq> CHR 0x09) s = s" by (auto simp: takeWhile_eq_all_conv)
  show ?thesis using Some assms by (simp add: header_path_def render_path_def renderable_path_def Let_def whole)
qed

lemma parse_file:
  assumes "renderable p" "flush_file st = Inr (clean ps None None [])"
  shows "parse_lines (render_file p @ rest) st =
    parse_lines rest (within ps (fp_old_path p) (fp_new_path p) (butlast (fp_hunks p)) (last (fp_hunks p)))"
proof -
  let ?old = "fp_old_path p" and ?new = "fp_new_path p"
  obtain h hs where hs: "fp_hunks p = h # hs" using assms(1) by (cases "fp_hunks p") (auto simp: renderable_def)
  have paths: "header_path (render_path ''--- '' ?old) = ?old" "header_path (render_path ''+++ '' ?new) = ?new" "?old \<noteq> None \<or> ?new \<noteq> None"
    using assms(1) by (auto simp: renderable_def header_path_rendered)
  have starts: "starts_with ''--- '' (render_path ''--- '' ?old)" "starts_with ''+++ '' (render_path ''+++ '' ?new)"
    by (simp_all add: starts_with_def render_path_def)
  have ok: "\<forall>h' \<in> set (h # hs). renderable_hunk h'" using assms(1) hs by (simp add: renderable_def)
  have "parse_lines (render_file p @ rest) st =
      parse_lines ((render_header h # h_lines h) @ concat (map (\<lambda>h. render_header h # h_lines h) hs) @ rest) (clean ps ?old ?new [])"
    using assms(2) starts paths by (auto simp: render_file_def hs clean_def)
  also have "\<dots> = parse_lines (concat (map (\<lambda>h. render_header h # h_lines h) hs) @ rest) (within ps ?old ?new [] h)"
    by (rule parse_hunk) (use ok paths(3) in \<open>auto simp: flush_clean\<close>, auto simp: clean_def)
  also have "\<dots> = parse_lines rest (within ps ?old ?new (butlast (h # hs)) (last (h # hs)))"
    using parse_hunks[OF ok paths(3), of rest ps "[]"] by simp
  finally show ?thesis by (simp add: hs)
qed

lemma flush_file_within:
  assumes "renderable p"
  shows "flush_file (within ps (fp_old_path p) (fp_new_path p) (butlast (fp_hunks p)) (last (fp_hunks p))) = Inr (clean (ps @ [p]) None None [])"
proof -
  have "fp_hunks p \<noteq> []" "renderable_hunk (last (fp_hunks p))" "fp_old_path p \<noteq> None \<or> fp_new_path p \<noteq> None"
    using assms by (auto simp: renderable_def)
  then show ?thesis by (auto simp: flush_file_def Let_def flush_within) (simp_all add: clean_def)
qed

lemma parse_files:
  "\<forall>p \<in> set ps'. renderable p \<Longrightarrow> flush_file st = Inr (clean ps None None []) \<Longrightarrow>
    \<exists>st'. parse_lines (concat (map render_file ps')) st = Inr st' \<and> flush_file st' = Inr (clean (ps @ ps') None None [])"
proof (induction ps' arbitrary: st ps)
  case (Cons p ps')
  have p: "renderable p" using Cons.prems(1) by simp
  then show ?case
    using Cons.IH[OF _ flush_file_within[OF p, of ps]] Cons.prems parse_file[OF p Cons.prems(2), of "concat (map render_file ps')"] by simp
qed simp

lemma one_line_rendered: "renderable p \<Longrightarrow> l \<in> set (render_file p) \<Longrightarrow> one_line l"
proof -
  assume p: "renderable p" "l \<in> set (render_file p)"
  have int: "one_line (str_int i)" for i
  proof -
    have c: "c = CHR ''-'' \<or> is_digit c" if "c \<in> set (str_int i)" for c using str_int_chars[OF that] digit_char_is_digit by blast
    show ?thesis using c[of "CHR 0x0A"] c[of "CHR 0x0D"] by (simp add: one_line_def is_digit_def) blast
  qed
  have path: "one_line (render_path m q)" if "renderable_path q" "one_line m" for m q
    using that by (cases q) (simp_all add: render_path_def one_line_def renderable_path_def)
  have app: "one_line (a @ b) \<longleftrightarrow> one_line a \<and> one_line b" for a b by (auto simp: one_line_def)
  have "one_line (render_header h)" if "renderable_hunk h" for h
    unfolding render_header_def app using that int by (simp add: renderable_hunk_def) (simp add: one_line_def)
  moreover have "one_line ''--- ''" "one_line ''+++ ''" by (simp_all add: one_line_def)
  moreover have "one_line l" if "h \<in> set (fp_hunks p)" "l \<in> set (h_lines h)" for h l
    using p(1) that by (simp add: renderable_def renderable_hunk_def)
  ultimately have "list_all one_line (render_file p)"
    using p(1) path by (simp add: render_file_def renderable_def list_all_iff)
  then show ?thesis using p(2) by (simp add: list_all_iff)
qed

lemma parse_rendered:
  assumes "\<forall>p \<in> set ps. renderable p" "ps \<noteq> []"
  shows "parse_patch (render_patch ps) = Inr ps"
proof -
  have ne: "concat (map render_file ps) \<noteq> []" using assms(2) by (cases ps) (auto simp: render_file_def)
  have lines: "split_char (CHR 0x0A) (normalise_newlines (render_patch ps)) = concat (map render_file ps)"
    unfolding render_patch_def by (rule parse_rendered_text[OF _ ne]) (use assms(1) one_line_rendered in auto)
  have "flush_file parse_start = Inr (clean [] None None [])" by (simp add: flush_file_def parse_start_def flush_hunk_def clean_def)
  from parse_files[OF assms(1) this] obtain st' where
    "parse_lines (concat (map render_file ps)) parse_start = Inr st'" "flush_file st' = Inr (clean ps None None [])" by auto
  then show ?thesis using assms(2) by (simp add: parse_patch_def lines clean_def)
qed

end
