(* ===== verification/Patch_Apply.thy ===== *)
theory Patch_Apply
  imports Diff_Properties Workspace
begin

text \<open>
  Planning and applying patches (\<open>paa.validation.patch\<close>): the check that keeps the paths of a patch
  inside the workspace, the dry run that computes the complete content of every file, the applier
  with its journal, and the rollback.

  The workspace is a tree as in \<open>Workspace\<close>: a symbolic link leads outside it. The digest function and
  what the operating system permits are arguments.
\<close>

subsection \<open>Paths\<close>

definition is_control :: "char \<Rightarrow> bool" where
  "is_control c \<longleftrightarrow> (let k = of_char c :: nat in k < 32 \<or> k = 127)"

text \<open>The first of the prefixes \<open>a/\<close>, \<open>b/\<close>, \<open>a\\<close>, \<open>b\\<close> that the text has is dropped.\<close>

definition drop_git_prefix :: "string \<Rightarrow> string" where
  "drop_git_prefix s =
     (if list_ex (\<lambda>p. starts_with p s) [''a/'', ''b/'', [CHR ''a'', CHR 0x5C], [CHR ''b'', CHR 0x5C]] then drop 2 s else s)"

definition forward_slashes :: "string \<Rightarrow> string" where
  "forward_slashes s = map (\<lambda>c. if c = CHR 0x5C then CHR ''/'' else c) s"

text \<open>\<open>^[A-Za-z]:[\\/]\<close>\<close>

definition windows_absolute :: "string \<Rightarrow> bool" where
  "windows_absolute s =
     (case s of
        c # d # e # _ \<Rightarrow>
          (let k = of_char c :: nat in (65 \<le> k \<and> k \<le> 90 \<or> 97 \<le> k \<and> k \<le> 122)) \<and> d = CHR '':'' \<and>
          (e = CHR 0x5C \<or> e = CHR ''/'')
      | _ \<Rightarrow> False)"

text \<open>\<open>realpath\<close> stays below the workspace: no component on the way is a link.\<close>

definition is_link :: "tree \<Rightarrow> path \<Rightarrow> bool" where
  "is_link t p = (case dict_get t p of Some (Symlink _) \<Rightarrow> True | _ \<Rightarrow> False)"

definition resolves_inside :: "tree \<Rightarrow> path \<Rightarrow> bool" where
  "resolves_inside t p \<longleftrightarrow> list_all (\<lambda>k. \<not> is_link t (take k p)) [1..<Suc (length p)]"

definition safe_relative_path :: "string \<Rightarrow> tree \<Rightarrow> path result" where
  "safe_relative_path raw t =
     (let stripped = strip_space raw;
          cand = forward_slashes (drop_git_prefix stripped);
          parts = filter (\<lambda>c. c \<noteq> [] \<and> c \<noteq> ''.'') (split_char (CHR ''/'') cand)
      in if stripped = [] then Inl ValidationError
         else if list_ex is_control stripped then Inl ValidationError
         else if starts_with ''//'' cand then Inl ValidationError
         else if starts_with ''/'' cand then Inl ValidationError
         else if windows_absolute cand then Inl ValidationError
         else if ''..'' \<in> set parts then Inl ValidationError
         else if parts = [] then Inl ValidationError
         else if \<not> resolves_inside t parts then Inl ValidationError
         else Inr parts)"

subsection \<open>Text files\<close>

text \<open>\<open>bytes.decode('utf-8')\<close> succeeds: no overlong forms, no surrogates, nothing above U+10FFFF.\<close>

definition in_range :: "nat \<Rightarrow> nat \<Rightarrow> char \<Rightarrow> bool" where
  "in_range a b c \<longleftrightarrow> (let k = of_char c :: nat in a \<le> k \<and> k \<le> b)"

fun utf8_valid :: "string \<Rightarrow> bool" where
  "utf8_valid [] = True"
| "utf8_valid (c # s) =
     (if in_range 0 127 c then utf8_valid s
      else case s of
        [] \<Rightarrow> False
      | d # s1 \<Rightarrow>
          if in_range 194 223 c then in_range 128 191 d \<and> utf8_valid s1
          else case s1 of
            [] \<Rightarrow> False
          | e # s2 \<Rightarrow>
              if in_range 224 239 c then
                (if c = char_of (224 :: nat) then in_range 160 191 d
                 else if c = char_of (237 :: nat) then in_range 128 159 d else in_range 128 191 d) \<and>
                in_range 128 191 e \<and> utf8_valid s2
              else case s2 of
                [] \<Rightarrow> False
              | f # s3 \<Rightarrow>
                  in_range 240 244 c \<and>
                  (if c = char_of (240 :: nat) then in_range 144 191 d
                   else if c = char_of (244 :: nat) then in_range 128 143 d else in_range 128 191 d) \<and>
                  in_range 128 191 e \<and> in_range 128 191 f \<and> utf8_valid s3)"

fun has_crlf :: "string \<Rightarrow> bool" where
  "has_crlf (c # d # s) = (c = CHR 0x0D \<and> d = CHR 0x0A \<or> has_crlf (d # s))"
| "has_crlf _ = False"

definition ends_with_newline :: "string \<Rightarrow> bool" where
  "ends_with_newline s \<longleftrightarrow> s \<noteq> [] \<and> last s = CHR 0x0A"

definition text_lines :: "string \<Rightarrow> string list" where
  "text_lines s =
     (let n = crlf_to_lf s; ls = split_char (CHR 0x0A) n in if ends_with_newline n then butlast ls else ls)"

definition newline_of :: "string \<Rightarrow> string" where
  "newline_of s = (if has_crlf s then [CHR 0x0D, CHR 0x0A] else [CHR 0x0A])"

definition rebuild :: "string \<Rightarrow> PatchAction \<Rightarrow> Hunk list \<Rightarrow> string list \<Rightarrow> string" where
  "rebuild prior action hs ls =
     (let wants = (ends_with_newline (crlf_to_lf prior) \<or> action = CREATE) \<and> \<not> list_ex h_new_no_newline hs
      in join_with (newline_of prior) ls @ (if wants \<and> ls \<noteq> [] then newline_of prior else []))"

subsection \<open>Planning\<close>

datatype patch_problem = MalformedHunk | NothingToDelete | AlreadyExists | NoTarget | NotText | HunkMismatch

record PatchPlanEntry =
  pe_path :: path
  pe_action :: PatchAction
  pe_problem :: "patch_problem option"
  pe_new_content :: "string option"
  pe_prior_sha256 :: "string option"
  pe_new_sha256 :: "string option"
  pe_hunks_applied :: nat
  pe_line_offset :: int

definition applies_cleanly :: "PatchPlanEntry \<Rightarrow> bool" where
  "applies_cleanly e \<longleftrightarrow> pe_problem e = None"

definition problem_entry :: "path \<Rightarrow> PatchAction \<Rightarrow> patch_problem \<Rightarrow> string option \<Rightarrow> PatchPlanEntry" where
  "problem_entry p action pr sha = \<lparr>pe_path = p, pe_action = action, pe_problem = Some pr, pe_new_content = None,
     pe_prior_sha256 = sha, pe_new_sha256 = None, pe_hunks_applied = 0, pe_line_offset = 0\<rparr>"

definition read_bytes :: "tree \<Rightarrow> path \<Rightarrow> string result" where
  "read_bytes t p = (case Option.bind (dict_get t p) file_content of None \<Rightarrow> Inl OSError | Some c \<Rightarrow> Inr c)"

definition path_exists :: "tree \<Rightarrow> path \<Rightarrow> bool" where
  "path_exists t p \<longleftrightarrow> is_file t p \<or> is_dir t p"

text \<open>The content of a file that is created or modified.\<close>

definition plan_content ::
  "(string \<Rightarrow> string) \<Rightarrow> int \<Rightarrow> path \<Rightarrow> PatchAction \<Rightarrow> Hunk list \<Rightarrow> string \<Rightarrow> PatchPlanEntry" where
  "plan_content H max_offset p action hs prior =
     (if \<not> utf8_valid prior then problem_entry p action NotText None
      else case apply_hunks max_offset (text_lines prior) hs of
        None \<Rightarrow> problem_entry p action HunkMismatch (if prior = [] then None else Some (H prior))
      | Some (ls, worst, n) \<Rightarrow>
          let content = rebuild prior action hs ls
          in \<lparr>pe_path = p, pe_action = action, pe_problem = None, pe_new_content = Some content,
              pe_prior_sha256 = (if action = MODIFY then Some (H prior) else None), pe_new_sha256 = Some (H content),
              pe_hunks_applied = n, pe_line_offset = worst\<rparr>)"

definition plan_file ::
  "(string \<Rightarrow> string) \<Rightarrow> int \<Rightarrow> tree \<Rightarrow> FilePatch \<Rightarrow> path \<Rightarrow> PatchPlanEntry result" where
  "plan_file H max_offset t fp p =
     (let action = patch_action fp; hs = fp_hunks fp
      in if \<not> list_all counts_consistent hs then Inr (problem_entry p action MalformedHunk None)
         else case action of
           DELETE \<Rightarrow>
             if \<not> is_file t p then Inr (problem_entry p action NothingToDelete None)
             else rmap (\<lambda>c. \<lparr>pe_path = p, pe_action = DELETE, pe_problem = None, pe_new_content = None,
                     pe_prior_sha256 = Some (H c), pe_new_sha256 = None, pe_hunks_applied = length hs,
                     pe_line_offset = 0\<rparr>) (read_bytes t p)
         | CREATE \<Rightarrow>
             if path_exists t p then Inr (problem_entry p action AlreadyExists None)
             else Inr (plan_content H max_offset p action hs [])
         | MODIFY \<Rightarrow>
             if \<not> is_file t p then Inr (problem_entry p action NoTarget None)
             else rmap (plan_content H max_offset p action hs) (read_bytes t p))"

record PatchPlan =
  pp_entries :: "PatchPlanEntry list"
  pp_patch_sha256 :: string
  pp_rejected :: "py_error list"

definition plan_ok :: "PatchPlan \<Rightarrow> bool" where
  "plan_ok pl \<longleftrightarrow> pp_rejected pl = [] \<and> pp_entries pl \<noteq> [] \<and> list_all applies_cleanly (pp_entries pl)"

definition compute_patch_sha256 :: "(string \<Rightarrow> string) \<Rightarrow> string \<Rightarrow> string" where
  "compute_patch_sha256 H text = H (normalise_newlines text)"

definition plan_step ::
  "(string \<Rightarrow> string) \<Rightarrow> int \<Rightarrow> tree \<Rightarrow> PatchPlan \<Rightarrow> FilePatch \<Rightarrow> PatchPlan result" where
  "plan_step H max_offset t pl fp =
     (case rbind (patch_path fp) (\<lambda>raw. safe_relative_path raw t) of
        Inl e \<Rightarrow> Inr (pl\<lparr>pp_rejected := pp_rejected pl @ [e]\<rparr>)
      | Inr p \<Rightarrow> rmap (\<lambda>e. pl\<lparr>pp_entries := pp_entries pl @ [e]\<rparr>) (plan_file H max_offset t fp p))"

definition dry_run :: "(string \<Rightarrow> string) \<Rightarrow> int \<Rightarrow> string \<Rightarrow> tree \<Rightarrow> PatchPlan result" where
  "dry_run H max_offset text t =
     (let pl = \<lparr>pp_entries = [], pp_patch_sha256 = compute_patch_sha256 H text, pp_rejected = []\<rparr>
      in case parse_patch text of
           Inl e \<Rightarrow> Inr (pl\<lparr>pp_rejected := [e]\<rparr>)
         | Inr fps \<Rightarrow> rfold (plan_step H max_offset t) pl fps)"

subsection \<open>Applying\<close>

record journal_entry =
  j_path :: path
  j_existed_before :: bool
  j_prior_bytes :: "string option"

text \<open>\<open>mkdir\<close> of the parent, then a temporary file renamed over the target.\<close>

definition atomic_write :: "os_permissions \<Rightarrow> tree \<Rightarrow> path \<Rightarrow> string \<Rightarrow> tree result" where
  "atomic_write perms t p c =
     (if parent_blocked t p \<or> is_dir t p \<or> \<not> may_write perms p then Inl OSError
      else Inr (dict_set t p (Regular c)))"

definition unlink :: "os_permissions \<Rightarrow> tree \<Rightarrow> path \<Rightarrow> tree result" where
  "unlink perms t p =
     (if dict_get t p = None \<or> \<not> may_unlink perms p then Inl OSError else Inr (dict_del t p))"

definition journal_for :: "tree \<Rightarrow> PatchPlanEntry \<Rightarrow> journal_entry result" where
  "journal_for t e =
     (if is_file t (pe_path e)
      then rmap (\<lambda>c. \<lparr>j_path = pe_path e, j_existed_before = True, j_prior_bytes = Some c\<rparr>) (read_bytes t (pe_path e))
      else Inr \<lparr>j_path = pe_path e, j_existed_before = False, j_prior_bytes = None\<rparr>)"

definition write_entry :: "os_permissions \<Rightarrow> tree \<Rightarrow> PatchPlanEntry \<Rightarrow> tree result" where
  "write_entry perms t e =
     (if pe_action e = DELETE then unlink perms t (pe_path e)
      else atomic_write perms t (pe_path e) (case pe_new_content e of None \<Rightarrow> [] | Some c \<Rightarrow> c))"

text \<open>The loop; it stops at the first error, with the journal and the tree as they are then.\<close>

fun apply_entries ::
  "os_permissions \<Rightarrow> PatchPlanEntry list \<Rightarrow> journal_entry list \<Rightarrow> tree \<Rightarrow> unit result \<times> journal_entry list \<times> tree" where
  "apply_entries perms [] js t = (Inr (), js, t)"
| "apply_entries perms (e # es) js t =
     (case journal_for t e of
        Inl err \<Rightarrow> (Inl err, js, t)
      | Inr j \<Rightarrow>
          (case write_entry perms t e of
             Inl err \<Rightarrow> (Inl err, js @ [j], t)
           | Inr t1 \<Rightarrow> apply_entries perms es (js @ [j]) t1))"

text \<open>An entry that cannot be undone is passed over.\<close>

definition undo_entry :: "os_permissions \<Rightarrow> journal_entry \<Rightarrow> tree \<Rightarrow> tree" where
  "undo_entry perms j t =
     (let r = (if j_existed_before j then atomic_write perms t (j_path j) (case j_prior_bytes j of None \<Rightarrow> [] | Some c \<Rightarrow> c)
               else if path_exists t (j_path j) then unlink perms t (j_path j) else Inr t)
      in case r of Inl _ \<Rightarrow> t | Inr t1 \<Rightarrow> t1)"

definition rollback :: "os_permissions \<Rightarrow> journal_entry list \<Rightarrow> tree \<Rightarrow> tree" where
  "rollback perms js t = foldr (undo_entry perms) js t"

definition apply_patch :: "os_permissions \<Rightarrow> PatchPlan \<Rightarrow> tree \<Rightarrow> journal_entry list result \<times> tree" where
  "apply_patch perms pl t =
     (if \<not> plan_ok pl then (Inl ValidationError, t)
      else case apply_entries perms (pp_entries pl) [] t of
        (Inr _, js, t1) \<Rightarrow> (Inr js, t1)
      | (Inl _, js, t1) \<Rightarrow> (Inl ValidationError, rollback perms js t1))"

end
