(* ===== verification/Patch_Properties.thy ===== *)
theory Patch_Properties
  imports Patch_Apply
begin

text \<open>
  Patches stay inside the workspace, do exactly what they say, and leave nothing behind when they fail.
\<close>

subsection \<open>Paths\<close>

lemma split_char_ne: "split_char sep s \<noteq> []"
  by (induction s) (auto split: list.splits)

lemma split_char_parts:
  "p \<in> set (split_char sep s) \<Longrightarrow> sep \<notin> set p \<and> set p \<subseteq> set s"
proof (induction s arbitrary: p)
  case (Cons c s)
  show ?case
  proof (cases "c = sep")
    case True
    then show ?thesis using Cons by auto
  next
    case False
    obtain d ds where d: "split_char sep s = d # ds" using split_char_ne by (cases "split_char sep s") auto
    then have "p = c # d \<or> p \<in> set ds" using Cons.prems False by auto
    then show ?thesis using Cons.IH[of d] Cons.IH[of p] d False by auto
  qed
qed simp

definition plain_component :: "string \<Rightarrow> bool" where
  "plain_component c \<longleftrightarrow> c \<noteq> [] \<and> c \<noteq> ''.'' \<and> c \<noteq> ''..'' \<and> CHR ''/'' \<notin> set c \<and> CHR 0x5C \<notin> set c \<and> \<not> list_ex is_control c"

definition contained :: "tree \<Rightarrow> path \<Rightarrow> bool" where
  "contained t p \<longleftrightarrow> p \<noteq> [] \<and> (\<forall>c \<in> set p. plain_component c) \<and> resolves_inside t p"

lemma control_slash: "\<not> is_control (CHR ''/'')"
  by (simp add: is_control_def)

lemma safe_path_contained:
  assumes "safe_relative_path raw t = Inr p"
  shows "contained t p"
proof -
  let ?s = "strip_space raw"
  let ?cand = "forward_slashes (drop_git_prefix ?s)"
  have p: "p = filter (\<lambda>c. c \<noteq> [] \<and> c \<noteq> ''.'') (split_char (CHR ''/'') ?cand)" "p \<noteq> []" "''..'' \<notin> set p"
    "resolves_inside t p" "\<not> list_ex is_control ?s"
    using assms by (auto simp: safe_relative_path_def Let_def split: if_splits)
  have cand: "CHR 0x5C \<notin> set ?cand" by (auto simp: forward_slashes_def)
  have "set (drop_git_prefix ?s) \<subseteq> set ?s" by (auto simp: drop_git_prefix_def dest: in_set_dropD)
  then have "\<not> is_control x" if "x \<in> set ?cand" for x
    using that p(5) control_slash by (auto simp: forward_slashes_def list_ex_iff split: if_splits)
  then have "plain_component c" if "c \<in> set p" for c
    using that p(1,3) split_char_parts[of c "CHR ''/''" ?cand] cand by (auto simp: plain_component_def list_ex_iff)
  then show ?thesis using p(2,4) by (simp add: contained_def)
qed

lemma plan_content_path: "pe_path (plan_content H m p action hs prior) = p"
  by (simp add: plan_content_def problem_entry_def Let_def split: option.split)

lemma plan_file_path: "plan_file H m t fp p = Inr e \<Longrightarrow> pe_path e = p"
  by (auto simp: plan_file_def Let_def problem_entry_def plan_content_path rmap_eq_Inr split: if_splits PatchAction.splits)

lemma dry_run_contained:
  assumes "dry_run H m text t = Inr pl"
  shows "\<forall>e \<in> set (pp_entries pl). contained t (pe_path e)"
proof (cases "parse_patch text")
  case (Inl err)
  then show ?thesis using assms by (auto simp: dry_run_def)
next
  case (Inr fps)
  let ?P = "\<lambda>pl. \<forall>e \<in> set (pp_entries pl). contained t (pe_path e)"
  have step: "?P pl'" if "?P pl" "plan_step H m t pl fp = Inr pl'" for pl pl' fp
    using that plan_file_path safe_path_contained by (auto simp: plan_step_def rmap_eq_Inr rbind_eq_Inr split: sum.splits)
  have "?P pl0 \<Longrightarrow> rfold (plan_step H m t) pl0 fs = Inr pl \<Longrightarrow> ?P pl" for pl0 fs
    by (induction fs arbitrary: pl0) (auto simp: rbind_eq_Inr dest: step)
  from this[of "\<lparr>pp_entries = [], pp_patch_sha256 = compute_patch_sha256 H text, pp_rejected = []\<rparr>" fps] show ?thesis
    using assms Inr by (simp add: dry_run_def)
qed

subsection \<open>What an application changes\<close>

definition entry_node :: "PatchPlanEntry \<Rightarrow> file_node option" where
  "entry_node e = (if pe_action e = DELETE then None else Some (Regular (case pe_new_content e of None \<Rightarrow> [] | Some c \<Rightarrow> c)))"

lemma write_entry_get:
  "write_entry perms t e = Inr t1 \<Longrightarrow> dict_get t1 p = (if p = pe_path e then entry_node e else dict_get t p)"
  by (auto simp: write_entry_def unlink_def atomic_write_def entry_node_def dict_get_set dict_get_del split: if_splits)

lemma apply_entries_get:
  "apply_entries perms es js t = (Inr u, js', t') \<Longrightarrow>
    dict_get t' p = (case find (\<lambda>e. pe_path e = p) (rev es) of None \<Rightarrow> dict_get t p | Some e \<Rightarrow> entry_node e)"
proof (induction es arbitrary: js t)
  case (Cons e es)
  obtain j t1 where j: "journal_for t e = Inr j" "write_entry perms t e = Inr t1"
    "apply_entries perms es (js @ [j]) t1 = (Inr u, js', t')"
    using Cons.prems by (auto split: sum.splits)
  show ?case
    using Cons.IH[OF j(3)] write_entry_get[OF j(2)] by (auto simp: find_append split: option.splits)
qed simp

subsection \<open>Undoing\<close>

definition same_files :: "tree \<Rightarrow> tree \<Rightarrow> bool" where
  "same_files t t' \<longleftrightarrow> (\<forall>p. dict_get t p = dict_get t' p)"

text \<open>A tree without links in which no file lies below a file.\<close>

definition strict_prefix :: "path \<Rightarrow> path \<Rightarrow> bool" where
  "strict_prefix p q \<longleftrightarrow> length p < length q \<and> take (length p) q = p"

definition plain_tree :: "tree \<Rightarrow> bool" where
  "plain_tree t \<longleftrightarrow> (\<forall>p. \<not> is_link t p) \<and>
     (\<forall>p q. dict_get t p \<noteq> None \<longrightarrow> dict_get t q \<noteq> None \<longrightarrow> \<not> strict_prefix p q)"

lemma is_dir_get: "is_dir t p \<longleftrightarrow> (\<exists>q. dict_get t q \<noteq> None \<and> strict_prefix p q)"
  by (auto simp: is_dir_def strict_prefix_def dict_get_eq_None)

lemma parent_blocked_get: "parent_blocked t p \<longleftrightarrow> (\<exists>q. dict_get t q \<noteq> None \<and> strict_prefix q p)"
  by (auto simp: parent_blocked_def strict_prefix_def dict_get_eq_None)

lemma same_files_refl: "same_files t t"
  by (simp add: same_files_def)

lemma same_files_trans: "same_files a b \<Longrightarrow> same_files b c \<Longrightarrow> same_files a c"
  by (simp add: same_files_def)

lemma same_is_dir: "same_files t t' \<Longrightarrow> is_dir t p = is_dir t' p"
  unfolding is_dir_get same_files_def by simp

lemma same_blocked: "same_files t t' \<Longrightarrow> parent_blocked t p = parent_blocked t' p"
  unfolding parent_blocked_get same_files_def by simp

lemma same_is_file: "same_files t t' \<Longrightarrow> is_file t p = is_file t' p"
  by (simp add: is_file_def same_files_def)

lemma undo_same: "same_files t t' \<Longrightarrow> same_files (undo_entry perms j t) (undo_entry perms j t')"
proof -
  assume s: "same_files t t'"
  then have get: "dict_get t q = dict_get t' q" for q by (simp add: same_files_def)
  have "same_files (dict_set t q v) (dict_set t' q v)" "same_files (dict_del t q) (dict_del t' q)" for q v
    using s by (simp_all add: same_files_def dict_get_set dict_get_del)
  then show ?thesis
    using s by (simp add: undo_entry_def atomic_write_def unlink_def path_exists_def get same_is_dir[OF s] same_blocked[OF s]
        same_is_file[OF s] Let_def)
qed

lemma rollback_same: "same_files t t' \<Longrightarrow> same_files (foldr (undo_entry perms) js t) (foldr (undo_entry perms) js t')"
  by (induction js) (auto intro: undo_same)

lemma write_entry_wf:
  assumes "plain_tree t" "write_entry perms t e = Inr t1"
  shows "plain_tree t1"
proof -
  let ?p = "pe_path e"
  have get: "dict_get t1 q = (if q = ?p then entry_node e else dict_get t q)" for q by (rule write_entry_get[OF assms(2)])
  have link: "\<not> is_link t1 q" for q
    using assms(1) unfolding is_link_def get plain_tree_def by (auto simp: entry_node_def is_link_def)
  have free: "\<not> strict_prefix a b" if "dict_get t1 a \<noteq> None" "dict_get t1 b \<noteq> None" for a b
  proof (cases "pe_action e = DELETE")
    case True
    then show ?thesis using that assms(1) unfolding get by (auto simp: entry_node_def plain_tree_def split: if_splits)
  next
    case False
    then have "\<not> parent_blocked t ?p" "\<not> is_dir t ?p" using assms(2) by (auto simp: write_entry_def atomic_write_def split: if_splits)
    then show ?thesis
      using that assms(1) unfolding get parent_blocked_get is_dir_get by (auto simp: plain_tree_def strict_prefix_def split: if_splits)
  qed
  show ?thesis using link free by (auto simp: plain_tree_def)
qed

lemma file_cases:
  assumes "plain_tree t" "journal_for t e = Inr j"
  obtains (present) c where "dict_get t (pe_path e) = Some (Regular c)" "j = \<lparr>j_path = pe_path e, j_existed_before = True, j_prior_bytes = Some c\<rparr>"
  | (absent) "dict_get t (pe_path e) = None" "j = \<lparr>j_path = pe_path e, j_existed_before = False, j_prior_bytes = None\<rparr>"
proof -
  have "\<not> is_link t (pe_path e)" using assms(1) by (simp add: plain_tree_def)
  then show thesis
    using assms(2) present absent
    by (cases "dict_get t (pe_path e)") (auto simp: journal_for_def is_file_def is_link_def read_bytes_def file_content_def split: file_node.splits)
qed

lemma undo_write:
  assumes "plain_tree t" "journal_for t e = Inr j" "write_entry perms t e = Inr t1"
    and perms: "\<And>p. may_write perms p = may_unlink perms p"
  shows "same_files (undo_entry perms j t1) t"
proof -
  let ?p = "pe_path e"
  have get: "dict_get t1 q = (if q = ?p then entry_node e else dict_get t q)" for q by (rule write_entry_get[OF assms(3)])
  have wf1: "plain_tree t1" by (rule write_entry_wf[OF assms(1,3)])
  have may: "may_write perms ?p" "may_unlink perms ?p"
    using assms(3) perms by (auto simp: write_entry_def unlink_def atomic_write_def split: if_splits)
  show ?thesis
    using assms(1,2)
  proof (cases rule: file_cases)
    case (present c)
    have "\<not> strict_prefix q ?p" "\<not> strict_prefix ?p q" if "dict_get t1 q \<noteq> None" for q
    proof -
      have "dict_get t q \<noteq> None" using that present(1) unfolding get by (auto split: if_splits)
      then show "\<not> strict_prefix q ?p" "\<not> strict_prefix ?p q" using assms(1) present(1) by (auto simp: plain_tree_def)
    qed
    then have "\<not> parent_blocked t1 ?p" "\<not> is_dir t1 ?p" by (auto simp: parent_blocked_get is_dir_get)
    then have "undo_entry perms j t1 = dict_set t1 ?p (Regular c)" using present(2) may by (simp add: undo_entry_def atomic_write_def)
    then show ?thesis using present(1) get by (simp add: same_files_def dict_get_set)
  next
    case absent
    have "pe_action e \<noteq> DELETE" using assms(3) absent(1) by (auto simp: write_entry_def unlink_def)
    then have "dict_get t1 ?p \<noteq> None" "is_file t1 ?p" using get by (simp_all add: entry_node_def is_file_def)
    then have "undo_entry perms j t1 = dict_del t1 ?p" using absent(2) may by (auto simp: undo_entry_def unlink_def path_exists_def)
    then show ?thesis using absent(1) get by (simp add: same_files_def dict_get_del)
  qed
qed

lemma undo_nothing:
  assumes "plain_tree t" "journal_for t e = Inr j"
  shows "same_files (undo_entry perms j t) t"
  using assms
proof (cases rule: file_cases)
  case (present c)
  then show ?thesis by (auto simp: undo_entry_def atomic_write_def same_files_def dict_get_set Let_def)
next
  case absent
  then show ?thesis by (auto simp: undo_entry_def unlink_def same_files_def Let_def)
qed

lemma apply_entries_undone:
  assumes perms: "\<And>p. may_write perms p = may_unlink perms p"
  shows "plain_tree t \<Longrightarrow> apply_entries perms es js t = (r, js', t') \<Longrightarrow>
    \<exists>new. js' = js @ new \<and> same_files (foldr (undo_entry perms) new t') t"
proof (induction es arbitrary: js t)
  case Nil
  then show ?case by (auto simp: same_files_refl)
next
  case (Cons e es)
  show ?case
  proof (cases "journal_for t e")
    case (Inl err)
    then show ?thesis using Cons.prems(2) by (auto simp: same_files_refl)
  next
    case (Inr j)
    show ?thesis
    proof (cases "write_entry perms t e")
      case (Inl err)
      then have "js' = js @ [j]" "t' = t" using Cons.prems(2) Inr by auto
      then show ?thesis using undo_nothing[OF Cons.prems(1) Inr] by auto
    next
      case w: (Inr t1)
      then have "apply_entries perms es (js @ [j]) t1 = (r, js', t')" using Cons.prems(2) Inr by simp
      from Cons.IH[OF write_entry_wf[OF Cons.prems(1) w] this] obtain new
        where new: "js' = (js @ [j]) @ new" "same_files (foldr (undo_entry perms) new t') t1" by blast
      have "same_files (foldr (undo_entry perms) (j # new) t') t"
        using undo_same[OF new(2), of perms j] undo_write[OF Cons.prems(1) Inr w perms] by (auto intro: same_files_trans)
      then show ?thesis using new(1) by auto
    qed
  qed
qed

lemma apply_patch_undone:
  assumes perms: "\<And>p. may_write perms p = may_unlink perms p" and wf: "plain_tree t"
    and "apply_patch perms pl t = (r, t')"
  shows "case r of Inl _ \<Rightarrow> same_files t' t | Inr js \<Rightarrow> same_files (rollback perms js t') t"
proof (cases "plan_ok pl")
  case False
  then show ?thesis using assms(3) by (auto simp: apply_patch_def same_files_refl)
next
  case True
  obtain r' js t1 where a: "apply_entries perms (pp_entries pl) [] t = (r', js, t1)" by (metis prod_cases3)
  have "same_files (foldr (undo_entry perms) js t1) t" using apply_entries_undone[OF perms wf a] by simp
  then show ?thesis using assms(3) a True by (auto simp: apply_patch_def rollback_def split: sum.splits)
qed

end
