(* ===== verification/Patch_Effects.thy ===== *)
theory Patch_Effects
  imports Patch_Properties
begin

text \<open>
  Whole patches, from their text to the tree they leave: nothing outside the plan changes whatever
  happens, a rendered diff replaces the old lines of its file by the new ones, and its reverse
  restores the file.
\<close>

subsection \<open>Only the planned paths\<close>

lemma undo_entry_frame: "p \<noteq> j_path j \<Longrightarrow> dict_get (undo_entry perms j t) p = dict_get t p"
  by (auto simp: undo_entry_def atomic_write_def unlink_def dict_get_set dict_get_del Let_def)

lemma rollback_frame: "p \<notin> j_path ` set js \<Longrightarrow> dict_get (rollback perms js t) p = dict_get t p"
  unfolding rollback_def by (induction js) (auto simp: undo_entry_frame)

lemma journal_for_path: "journal_for t e = Inr j \<Longrightarrow> j_path j = pe_path e"
  by (auto simp: journal_for_def rmap_eq_Inr split: if_splits)

lemma apply_entries_frame:
  "apply_entries perms es js t = (r, js', t') \<Longrightarrow> p \<notin> pe_path ` set es \<Longrightarrow>
    dict_get t' p = dict_get t p \<and> (p \<notin> j_path ` set js \<longrightarrow> p \<notin> j_path ` set js')"
proof (induction es arbitrary: js t)
  case (Cons e es)
  show ?case
  proof (cases "journal_for t e")
    case (Inl err)
    then show ?thesis using Cons.prems by simp
  next
    case (Inr j)
    have j: "j_path j = pe_path e" by (rule journal_for_path[OF Inr])
    show ?thesis
    proof (cases "write_entry perms t e")
      case (Inl err)
      then show ?thesis using Cons.prems Inr j by auto
    next
      case w: (Inr t1)
      then have "apply_entries perms es (js @ [j]) t1 = (r, js', t')" using Cons.prems(1) Inr by simp
      from Cons.IH[OF this] show ?thesis using Cons.prems(2) write_entry_get[OF w, of p] j by auto
    qed
  qed
qed simp

lemma apply_patch_frame:
  assumes "apply_patch perms pl t = (r, t')" "p \<notin> pe_path ` set (pp_entries pl)"
  shows "dict_get t' p = dict_get t p"
proof (cases "plan_ok pl")
  case False
  then show ?thesis using assms(1) by (simp add: apply_patch_def)
next
  case True
  obtain r' js t1 where a: "apply_entries perms (pp_entries pl) [] t = (r', js, t1)" by (metis prod_cases3)
  have "dict_get t1 p = dict_get t p" "p \<notin> j_path ` set js" using apply_entries_frame[OF a assms(2)] by auto
  then show ?thesis using assms(1) True a rollback_frame[of p js perms t1] by (auto simp: apply_patch_def split: sum.splits)
qed

subsection \<open>Lines of a file\<close>

text \<open>The content of a file whose lines all end with a line feed.\<close>

definition lf_text :: "string list \<Rightarrow> string" where
  "lf_text ls = concat (map (\<lambda>l. l @ [CHR 0x0A]) ls)"

lemma lf_text_join: "ls \<noteq> [] \<Longrightarrow> join_with [CHR 0x0A] ls @ [CHR 0x0A] = lf_text ls"
  by (induction "[CHR 0x0A]" ls rule: join_with.induct) (auto simp: lf_text_def)

lemma crlf_none: "CHR 0x0D \<notin> set s \<Longrightarrow> crlf_to_lf s = s"
  by (induction s rule: crlf_to_lf.induct) auto

lemma has_crlf_none: "CHR 0x0D \<notin> set s \<Longrightarrow> \<not> has_crlf s"
  by (induction s rule: has_crlf.induct) auto

lemma split_lf_text: "\<forall>l \<in> set ls. one_line l \<Longrightarrow> split_char (CHR 0x0A) (lf_text ls) = ls @ [[]]"
proof (induction ls)
  case (Cons l ls)
  then show ?case using split_char_append[of "CHR 0x0A" l "lf_text ls"] by (simp add: lf_text_def one_line_def)
qed (simp add: lf_text_def)

lemma lf_text_no_cr: "\<forall>l \<in> set ls. one_line l \<Longrightarrow> CHR 0x0D \<notin> set (lf_text ls)"
  by (auto simp: lf_text_def one_line_def)

lemma lf_text_ends: "ls \<noteq> [] \<Longrightarrow> ends_with_newline (lf_text ls)"
  using lf_text_join[of ls] by (metis append_is_Nil_conv ends_with_newline_def last_snoc list.distinct(1))

lemma lf_text_lines: "\<forall>l \<in> set ls. one_line l \<Longrightarrow> ls \<noteq> [] \<Longrightarrow> text_lines (lf_text ls) = ls"
  using crlf_none[OF lf_text_no_cr, of ls] by (simp add: text_lines_def lf_text_ends split_lf_text)

lemma rebuild_lf:
  assumes "\<forall>l \<in> set ls. one_line l" "ls \<noteq> []" "\<not> list_ex h_new_no_newline hs"
  shows "rebuild (lf_text ls) action hs ls' = lf_text ls'"
proof -
  have "newline_of (lf_text ls) = [CHR 0x0A]" using has_crlf_none[OF lf_text_no_cr[OF assms(1)]] by (simp add: newline_of_def)
  moreover have "ends_with_newline (crlf_to_lf (lf_text ls))"
    using crlf_none[OF lf_text_no_cr[OF assms(1)]] lf_text_ends[OF assms(2)] by simp
  ultimately show ?thesis
    using assms(3) lf_text_join[of ls'] by (auto simp: rebuild_def lf_text_def)
qed

subsection \<open>A patch of one file\<close>

text \<open>A file of the tree that may be written, with the given lines.\<close>

definition text_file :: "os_permissions \<Rightarrow> tree \<Rightarrow> path \<Rightarrow> string list \<Rightarrow> bool" where
  "text_file perms t p ls \<longleftrightarrow> dict_get t p = Some (Regular (lf_text ls)) \<and> ls \<noteq> [] \<and> (\<forall>l \<in> set ls. one_line l) \<and>
     utf8_valid (lf_text ls) \<and> may_write perms p \<and> \<not> parent_blocked t p \<and> \<not> is_dir t p"

text \<open>A rendered diff of the file at a path, for the given edits.\<close>

definition diff_of :: "tree \<Rightarrow> path \<Rightarrow> FilePatch \<Rightarrow> edit list \<Rightarrow> bool" where
  "diff_of t p fp es \<longleftrightarrow> renderable fp \<and> fp_old_path fp \<noteq> None \<and> fp_new_path fp \<noteq> None \<and>
     rbind (patch_path fp) (\<lambda>raw. safe_relative_path raw t) = Inr p \<and>
     list_all counts_consistent (fp_hunks fp) \<and> describes 0 0 es (fp_hunks fp)"

lemma diff_of_action: "diff_of t p fp es \<Longrightarrow> patch_action fp = MODIFY"
  by (auto simp: diff_of_def patch_action_def)

lemma plan_modified:
  assumes "text_file perms t p (old_text es tail)" "diff_of t p fp es"
  obtains e where "dry_run H m (render_patch [fp]) t =
      Inr \<lparr>pp_entries = [e], pp_patch_sha256 = compute_patch_sha256 H (render_patch [fp]), pp_rejected = []\<rparr>"
    "pe_path e = p" "pe_action e = MODIFY" "pe_problem e = None" "pe_new_content e = Some (lf_text (new_text es tail))"
    "pe_line_offset e = 0" "pe_prior_sha256 e = Some (H (lf_text (old_text es tail)))"
proof -
  let ?c = "lf_text (old_text es tail)"
  have known: "dict_get t p = Some (Regular ?c)" "utf8_valid ?c" "old_text es tail \<noteq> []" "\<forall>l \<in> set (old_text es tail). one_line l"
    using assms(1) by (simp_all add: text_file_def)
  have fp: "renderable fp" "list_all counts_consistent (fp_hunks fp)" "describes 0 0 es (fp_hunks fp)"
    using assms(2) by (simp_all add: diff_of_def)
  have "\<forall>h \<in> set (fp_hunks fp). \<not> h_new_no_newline h" using fp(1) by (simp add: renderable_def renderable_hunk_def)
  then have "rebuild ?c MODIFY (fp_hunks fp) ls' = lf_text ls'" for ls' using rebuild_lf[OF known(4,3)] by (simp add: list_ex_iff)
  moreover have "text_lines ?c = old_text es tail" by (rule lf_text_lines[OF known(4,3)])
  ultimately have content: "plan_content H m p MODIFY (fp_hunks fp) ?c =
      \<lparr>pe_path = p, pe_action = MODIFY, pe_problem = None, pe_new_content = Some (lf_text (new_text es tail)),
       pe_prior_sha256 = Some (H ?c), pe_new_sha256 = Some (H (lf_text (new_text es tail))),
       pe_hunks_applied = length (fp_hunks fp), pe_line_offset = 0\<rparr>"
    using known(2) apply_hunks_edits[OF fp(3), of m tail] by (simp add: plan_content_def Let_def)
  have "plan_file H m t fp p = Inr (plan_content H m p MODIFY (fp_hunks fp) ?c)"
    using fp(2) known(1) diff_of_action[OF assms(2)] by (simp add: plan_file_def is_file_def read_bytes_def file_content_def)
  moreover have "rbind (patch_path fp) (\<lambda>raw. safe_relative_path raw t) = Inr p" using assms(2) by (simp add: diff_of_def)
  moreover have "parse_patch (render_patch [fp]) = Inr [fp]" using parse_rendered[of "[fp]"] fp(1) by simp
  ultimately show thesis using content that[of "plan_content H m p MODIFY (fp_hunks fp) ?c"]
    by (simp add: dry_run_def plan_step_def)
qed

lemma diff_applied:
  assumes "text_file perms t p (old_text es tail)" "diff_of t p fp es"
  shows "\<exists>pl js. dry_run H m (render_patch [fp]) t = Inr pl \<and> plan_ok pl \<and>
    apply_patch perms pl t = (Inr js, dict_set t p (Regular (lf_text (new_text es tail))))"
proof -
  from assms obtain e where e: "dry_run H m (render_patch [fp]) t =
      Inr \<lparr>pp_entries = [e], pp_patch_sha256 = compute_patch_sha256 H (render_patch [fp]), pp_rejected = []\<rparr>"
    "pe_path e = p" "pe_action e = MODIFY" "pe_problem e = None" "pe_new_content e = Some (lf_text (new_text es tail))"
    by (rule plan_modified)
  have "write_entry perms t e = Inr (dict_set t p (Regular (lf_text (new_text es tail))))"
    using assms(1) e by (simp add: write_entry_def atomic_write_def text_file_def)
  moreover have "\<exists>j. journal_for t e = Inr j"
    using assms(1) e(2) by (simp add: journal_for_def is_file_def read_bytes_def file_content_def text_file_def)
  ultimately show ?thesis using e by (auto simp: plan_ok_def applies_cleanly_def apply_patch_def)
qed

subsection \<open>The reversed patch\<close>

definition reverse_file :: "FilePatch \<Rightarrow> FilePatch" where
  "reverse_file fp = \<lparr>fp_old_path = fp_new_path fp, fp_new_path = fp_old_path fp, fp_hunks = map reverse_hunk (fp_hunks fp)\<rparr>"

lemma counts_reverse: "counts_consistent (reverse_hunk h) = counts_consistent h"
  by (auto simp: counts_consistent_def reverse_hunk_def source_lines_def target_lines_def side_lines_flip)

lemma same_resolves: "(\<And>q. is_link t q = is_link t' q) \<Longrightarrow> safe_relative_path raw t = safe_relative_path raw t'"
proof -
  assume same: "\<And>q. is_link t q = is_link t' q"
  have "resolves_inside t q = resolves_inside t' q" for q by (simp add: resolves_inside_def same)
  then show ?thesis unfolding safe_relative_path_def by (simp only:)
qed

lemma diff_of_reverse:
  assumes "diff_of t p fp es" "renderable (reverse_file fp)"
    and "rbind (patch_path (reverse_file fp)) (\<lambda>raw. safe_relative_path raw t) = Inr p"
  shows "diff_of t p (reverse_file fp) (map reverse_edit es)"
  using assms describes_reverse[of 0 0 es "fp_hunks fp"]
  by (auto simp: diff_of_def reverse_file_def list_all_iff counts_reverse)

lemma text_file_written:
  assumes "text_file perms t p ls" "ls' \<noteq> []" "\<forall>l \<in> set ls'. one_line l" "utf8_valid (lf_text ls')"
  shows "text_file perms (dict_set t p (Regular (lf_text ls'))) p ls'"
proof -
  have "\<exists>v. dict_get t p = Some v" using assms(1) by (simp add: text_file_def)
  then have "dict_get (dict_set t p v) q = None \<longleftrightarrow> dict_get t q = None" for q v by (auto simp: dict_get_set)
  then show ?thesis
    using assms unfolding text_file_def parent_blocked_get is_dir_get by (simp add: dict_get_set)
qed

lemma diff_reversed:
  assumes "text_file perms t p (old_text es tail)" "diff_of t p fp es"
    and new: "new_text es tail \<noteq> []" "\<forall>l \<in> set (new_text es tail). one_line l" "utf8_valid (lf_text (new_text es tail))"
    and undo: "renderable (reverse_file fp)" "rbind (patch_path (reverse_file fp)) (\<lambda>raw. safe_relative_path raw t) = Inr p"
  shows "\<exists>pl js t1 pl' js' t'. dry_run H m (render_patch [fp]) t = Inr pl \<and> apply_patch perms pl t = (Inr js, t1) \<and>
    dict_get t1 p = Some (Regular (lf_text (new_text es tail))) \<and>
    dry_run H m (render_patch [reverse_file fp]) t1 = Inr pl' \<and> apply_patch perms pl' t1 = (Inr js', t') \<and> same_files t' t"
proof -
  let ?t1 = "dict_set t p (Regular (lf_text (new_text es tail)))"
  have get: "dict_get t p = Some (Regular (lf_text (old_text es tail)))" using assms(1) by (simp add: text_file_def)
  then have "is_link ?t1 q = is_link t q" for q by (simp add: is_link_def dict_get_set)
  then have rev: "diff_of ?t1 p (reverse_file fp) (map reverse_edit es)"
    using diff_of_reverse[OF assms(2) undo] same_resolves[of ?t1 t] by (simp add: diff_of_def)
  have "text_file perms ?t1 p (old_text (map reverse_edit es) tail)"
    using text_file_written[OF assms(1) new] by (simp add: reverse_text)
  from diff_applied[OF this rev, of H m] obtain pl' js' where
    b: "dry_run H m (render_patch [reverse_file fp]) ?t1 = Inr pl'"
      "apply_patch perms pl' ?t1 = (Inr js', dict_set ?t1 p (Regular (lf_text (old_text es tail))))"
    by (auto simp: reverse_text)
  have "same_files (dict_set ?t1 p (Regular (lf_text (old_text es tail)))) t"
    using get by (simp add: same_files_def dict_get_set)
  moreover have "dict_get ?t1 p = Some (Regular (lf_text (new_text es tail)))" by (simp add: dict_get_set)
  ultimately show ?thesis using diff_applied[OF assms(1,2), of H m] b by blast
qed

subsection \<open>Created files\<close>

lemma created_content:
  assumes "h_old_start h = 0" "source_lines h = []" "\<not> h_new_no_newline h" "target_lines h \<noteq> []"
  shows "pe_new_content (plan_content H m p CREATE [h] []) = Some (lf_text (target_lines h @ [[]]))"
proof -
  have "text_lines [] = [[]]" by (simp add: text_lines_def ends_with_newline_def)
  moreover have "apply_hunks m [[]] [h] = Some (target_lines h @ [[]], 0 + \<bar>0 - (0 - 1)\<bar>, 1)"
    using assms(1,2) by (simp add: apply_hunks_def locate_def splice_def)
  moreover have "rebuild [] CREATE [h] ls = lf_text ls" if "ls \<noteq> []" for ls
    using that assms(3) lf_text_join[of ls] by (simp add: rebuild_def newline_of_def ends_with_newline_def)
  ultimately show ?thesis by (simp add: plan_content_def Let_def)
qed

end
