(* ===== verification/Sample_Patch.thy ===== *)
theory Sample_Patch
  imports Sample_Memory Patch_Effects
begin

text \<open>
  A workspace of two files and a diff of one of them: concrete states on which the properties of
  patches are evaluated.
\<close>

definition patched_path :: path where
  "patched_path = [''src'', ''a.py'']"

definition patch_tree :: tree where
  "patch_tree = [(patched_path, Regular (lf_text [''x'', ''y'', ''z''])), ([''README''], Regular ''hi'')]"

definition sample_hunk :: Hunk where
  "sample_hunk = \<lparr>h_old_start = 1, h_old_count = 2, h_new_start = 1, h_new_count = 3,
     h_lines = ['' x'', ''-y'', ''+v'', ''+w''], h_section = ''def f'', h_new_no_newline = False, h_old_no_newline = False\<rparr>"

definition sample_diff :: FilePatch where
  "sample_diff = \<lparr>fp_old_path = Some ''a/src/a.py'', fp_new_path = Some ''b/src/a.py'', fp_hunks = [sample_hunk]\<rparr>"

definition sample_edits :: "edit list" where
  "sample_edits = [([], [''x'', ''y''], [''x'', ''v'', ''w''])]"

lemma sample_old: "old_text sample_edits [''z''] = [''x'', ''y'', ''z'']"
  by (simp add: old_text_def sample_edits_def)

lemma sample_new: "new_text sample_edits [''z''] = [''x'', ''v'', ''w'', ''z'']"
  by (simp add: new_text_def sample_edits_def)

lemma sample_diff_renderable: "renderable sample_diff" "renderable (reverse_file sample_diff)"
proof -
  have "strip_space ''def f'' = ''def f''" "strip_space ''a/src/a.py'' = ''a/src/a.py''" "strip_space ''b/src/a.py'' = ''b/src/a.py''"
    by code_simp+
  then show "renderable sample_diff" "renderable (reverse_file sample_diff)"
    by (simp_all add: renderable_def renderable_path_def renderable_hunk_def sample_diff_def sample_hunk_def one_line_def
        reverse_file_def reverse_hunk_def flip_marker_def has_marker_def starts_with_def dev_null_def)
qed

lemma sample_diff_paths:
  "rbind (patch_path sample_diff) (\<lambda>raw. safe_relative_path raw patch_tree) = Inr patched_path"
  "rbind (patch_path (reverse_file sample_diff)) (\<lambda>raw. safe_relative_path raw patch_tree) = Inr patched_path"
  by code_simp+

lemma sample_diff_of: "diff_of patch_tree patched_path sample_diff sample_edits"
  using sample_diff_renderable(1) sample_diff_paths(1)
  by (simp add: diff_of_def sample_diff_def sample_hunk_def sample_edits_def counts_consistent_def source_lines_def
      target_lines_def side_lines_def has_marker_def)

lemma sample_text_file: "text_file free_permissions patch_tree patched_path (old_text sample_edits [''z''])"
  unfolding sample_old text_file_def one_line_def
  by (simp add: free_permissions_def) code_simp

lemma sample_new_ok:
  "new_text sample_edits [''z''] \<noteq> []" "\<forall>l \<in> set (new_text sample_edits [''z'']). one_line l"
  "utf8_valid (lf_text (new_text sample_edits [''z'']))"
  unfolding sample_new one_line_def by code_simp+

lemma patch_tree_plain: "plain_tree patch_tree"
proof -
  have key: "dict_get patch_tree q \<noteq> None \<Longrightarrow> q = patched_path \<or> q = [''README'']" for q
    by (auto simp: patch_tree_def dict_get_def split: if_splits)
  have "\<not> strict_prefix p q" if "dict_get patch_tree p \<noteq> None" "dict_get patch_tree q \<noteq> None" for p q
    using key[OF that(1)] key[OF that(2)] by (elim disjE) (simp_all add: strict_prefix_def patched_path_def)
  moreover have "\<not> is_link patch_tree q" for q by (simp add: is_link_def patch_tree_def dict_get_def)
  ultimately show ?thesis by (simp add: plain_tree_def)
qed

text \<open>The file may not be written: the patch fails after its journal entry.\<close>

definition read_only :: os_permissions where
  "read_only = \<lparr>may_write = \<lambda>p. False, may_unlink = \<lambda>p. False\<rparr>"

text \<open>A patch whose path leaves the workspace.\<close>

definition escaping_diff :: string where
  "escaping_diff = render_patch [sample_diff\<lparr>fp_new_path := Some ''b/../etc/passwd''\<rparr>]"

lemma escaping_rejected:
  "dry_run sha256_hex default_max_line_offset escaping_diff patch_tree =
    Inr \<lparr>pp_entries = [], pp_patch_sha256 = compute_patch_sha256 sha256_hex escaping_diff, pp_rejected = [ValidationError]\<rparr>"
proof -
  have "parse_patch escaping_diff = Inr [sample_diff\<lparr>fp_new_path := Some ''b/../etc/passwd''\<rparr>]" by code_simp
  moreover have "safe_relative_path ''b/../etc/passwd'' patch_tree = Inl ValidationError" by code_simp
  ultimately show ?thesis by (simp add: dry_run_def plan_step_def patch_path_def)
qed

end
