(* ===== verification/Permission_Properties.thy ===== *)
theory Permission_Properties
  imports Permissions
begin

text \<open>
  What a policy decides: the outcome depends on which rules there are and not on their order, denials cannot be
  overridden, and plan mode refuses every mutating tool. The matchers are related to what a pattern means.
\<close>

subsection \<open>Globs\<close>

text \<open>A pattern matches the texts that split into one piece per token.\<close>

definition piece_of :: "glob_token \<Rightarrow> string \<Rightarrow> bool" where
  "piece_of t p \<longleftrightarrow> t = GStar \<or> (\<exists>c. p = [c] \<and> token_accepts t c)"

lemma glob_match_star: "glob_match (GStar # ts) s \<longleftrightarrow> (\<exists>a b. s = a @ b \<and> glob_match ts b)"
proof (induction s)
  case (Cons c s)
  have "(\<exists>a b. c # s = a @ b \<and> glob_match ts b) \<longleftrightarrow> glob_match ts (c # s) \<or> (\<exists>a b. s = a @ b \<and> glob_match ts b)"
    by (auto simp: Cons_eq_append_conv)
  then show ?case using Cons by simp
qed simp

lemma glob_match_single: "t \<noteq> GStar \<Longrightarrow> glob_match (t # ts) s \<longleftrightarrow> (\<exists>c r. s = c # r \<and> token_accepts t c \<and> glob_match ts r)"
  by (cases t; cases s) auto

lemma glob_match_pieces: "glob_match ts s \<longleftrightarrow> (\<exists>ps. list_all2 piece_of ts ps \<and> concat ps = s)"
proof (induction ts arbitrary: s)
  case (Cons t ts)
  have "(\<exists>ps. list_all2 piece_of (t # ts) ps \<and> concat ps = s) \<longleftrightarrow>
      (\<exists>p ps. piece_of t p \<and> list_all2 piece_of ts ps \<and> p @ concat ps = s)"
    (is "?l \<longleftrightarrow> ?r")
  proof
    assume ?r
    then obtain p ps where "list_all2 piece_of (t # ts) (p # ps) \<and> concat (p # ps) = s" by auto
    then show ?l by blast
  qed (auto simp: list_all2_Cons1, blast)
  also have "\<dots> \<longleftrightarrow> (\<exists>p r. piece_of t p \<and> s = p @ r \<and> glob_match ts r)" using Cons by auto
  also have "\<dots> \<longleftrightarrow> glob_match (t # ts) s"
  proof (cases "t = GStar")
    case True
    then show ?thesis by (simp add: glob_match_star piece_of_def)
  next
    case False
    then show ?thesis by (auto simp: glob_match_single piece_of_def)
  qed
  finally show ?case by simp
qed auto

lemma glob_tokens_plain:
  "\<forall>c \<in> set s. c \<noteq> CHR ''*'' \<and> c \<noteq> CHR ''?'' \<and> c \<noteq> CHR ''['' \<Longrightarrow> glob_tokens (s @ r) = map GChar s @ glob_tokens r"
  by (induction s) auto

lemma glob_match_chars: "glob_match (map GChar p @ ts) s \<longleftrightarrow> (\<exists>r. s = p @ r \<and> glob_match ts r)"
proof (induction p arbitrary: s)
  case (Cons c p)
  then show ?case by (cases s) auto
qed simp

definition plain_text :: "string \<Rightarrow> bool" where
  "plain_text s \<longleftrightarrow> (\<forall>c \<in> set s. c \<noteq> CHR ''*'' \<and> c \<noteq> CHR ''?'' \<and> c \<noteq> CHR ''['')"

text \<open>The three shapes of the built-in patterns: a name, a prefix, a part.\<close>

lemma fnmatch_plain: "plain_text p \<Longrightarrow> fnmatch s p \<longleftrightarrow> s = p"
  using glob_tokens_plain[of p "[]"] glob_match_chars[of p "[]" s] by (simp add: plain_text_def fnmatch_def)

lemma fnmatch_prefix: "plain_text p \<Longrightarrow> fnmatch s (p @ ''*'') \<longleftrightarrow> (\<exists>r. s = p @ r)"
  using glob_tokens_plain[of p "''*''"] glob_match_chars[of p "[GStar]" s] glob_match_star[of "[]"]
  by (simp add: plain_text_def fnmatch_def)

lemma fnmatch_part: "plain_text p \<Longrightarrow> fnmatch s (''*'' @ p @ ''*'') \<longleftrightarrow> (\<exists>a r. s = a @ p @ r)"
  using glob_tokens_plain[of p "''*''"] glob_match_chars[of p "[GStar]"] glob_match_star[of "[]"] glob_match_star[of "map GChar p @ [GStar]" s]
  by (auto simp: plain_text_def fnmatch_def)

subsection \<open>Argument patterns\<close>

lemma arg_search_iff: "arg_search ts s \<longleftrightarrow> (\<exists>a b. s = a @ b \<and> arg_prefix ts b)"
proof (induction s)
  case (Cons c s)
  have "(\<exists>a b. c # s = a @ b \<and> arg_prefix ts b) \<longleftrightarrow> arg_prefix ts (c # s) \<or> (\<exists>a b. s = a @ b \<and> arg_prefix ts b)"
    by (auto simp: Cons_eq_append_conv)
  then show ?case using Cons by simp
qed simp

lemma arg_prefix_extend: "arg_prefix ts s \<Longrightarrow> arg_prefix ts (s @ r)"
proof (induction ts s rule: arg_prefix.induct)
  case (2 ts)
  then show ?case by (cases r) auto
qed auto

lemma arg_search_extend: "arg_search ts s \<Longrightarrow> arg_search ts (a @ s @ r)"
proof -
  assume "arg_search ts s"
  then obtain u b where "s = u @ b" "arg_prefix ts b" by (auto simp: arg_search_iff)
  then have "a @ s @ r = (a @ u) @ (b @ r)" "arg_prefix ts (b @ r)" by (simp_all add: arg_prefix_extend)
  then show ?thesis unfolding arg_search_iff by blast
qed

lemma arg_prefix_chars: "arg_prefix (map ArgChar p @ ts) s \<longleftrightarrow> (\<exists>r. s = p @ r \<and> arg_prefix ts r)"
proof (induction p arbitrary: s)
  case (Cons c p)
  then show ?case by (cases s) auto
qed simp

lemma arg_prefix_run: "arg_prefix [ArgRun] s"
  by (cases s) simp_all

lemma arg_tokens_plain: "\<forall>c \<in> set s. c \<noteq> CHR ''*'' \<and> c \<noteq> CHR ''?'' \<Longrightarrow> arg_tokens (s @ r) = map ArgChar s @ arg_tokens r"
  by (simp add: arg_tokens_def)

lemma rule_matches_inside:
  assumes "rule_matches (parse_rule spec out) tool_name s"
  shows "rule_matches (parse_rule spec out) tool_name (a @ s @ r)"
  using assms by (auto simp: rule_matches_def parse_rule_def Let_def arg_search_extend split: if_splits)

subsection \<open>Rendered arguments\<close>

text \<open>A command is rendered alike whether it comes as one text or as a list of words.\<close>

lemma flat_words: "flat (PList (map PStr ws)) = flat (PStr (join_blank ws))"
  by (simp add: comp_def)

subsection \<open>Decisions\<close>

definition has_rule :: "ToolPermissionPolicy \<Rightarrow> PermissionOutcome \<Rightarrow> string \<Rightarrow> (string \<times> pyval) list \<Rightarrow> bool" where
  "has_rule pol out tool_name args \<longleftrightarrow> (\<exists>r \<in> set (pol_rules pol). r_outcome r = out \<and> rule_matches r tool_name (render_args args))"

lemma first_rule_None: "first_rule pol out tool_name (render_args args) = None \<longleftrightarrow> \<not> has_rule pol out tool_name args"
  by (auto simp: first_rule_def has_rule_def find_None_iff)

lemma evaluate_outcome:
  "dec_outcome (evaluate pol tool_name args) =
    (if has_rule pol Deny tool_name args \<or> pol_mode pol = ModePlan \<and> is_mutating pol tool_name then Deny
     else if has_rule pol Allow tool_name args then Allow
     else if has_rule pol AskUser tool_name args then AskUser
     else dec_outcome (mode_default pol tool_name))"
  using first_rule_None[of pol Deny tool_name args] first_rule_None[of pol Allow tool_name args]
    first_rule_None[of pol AskUser tool_name args]
  by (auto simp: evaluate_def Let_def decision_def split: option.splits)

lemma mode_default_never_denies: "dec_outcome (mode_default pol tool_name) \<noteq> Deny"
  by (simp add: mode_default_def decision_def)

lemma evaluate_denied_iff:
  "dec_outcome (evaluate pol tool_name args) = Deny \<longleftrightarrow>
    has_rule pol Deny tool_name args \<or> pol_mode pol = ModePlan \<and> is_mutating pol tool_name"
  by (simp add: evaluate_outcome mode_default_never_denies)

lemma evaluate_rule_set:
  assumes "set (pol_rules pol) = set (pol_rules pol')" "pol_mode pol = pol_mode pol'"
    and "pol_edit_tools pol = pol_edit_tools pol'" "pol_mutating_tools pol = pol_mutating_tools pol'"
  shows "dec_outcome (evaluate pol tool_name args) = dec_outcome (evaluate pol' tool_name args)"
proof -
  have "has_rule pol out tool_name args = has_rule pol' out tool_name args" for out using assms(1) by (simp add: has_rule_def)
  moreover have "is_mutating pol tool_name = is_mutating pol' tool_name" "mode_default pol tool_name = mode_default pol' tool_name"
    using assms(2-4) by (simp_all add: is_mutating_def mode_default_def)
  ultimately show ?thesis using assms(2) by (simp add: evaluate_outcome)
qed

text \<open>How strict an outcome is.\<close>

fun strictness :: "PermissionOutcome \<Rightarrow> nat" where
  "strictness Allow = 0"
| "strictness AskUser = 1"
| "strictness Deny = 2"

lemma add_rule_has:
  "has_rule (add_rule r pol) out tool_name args \<longleftrightarrow>
    has_rule pol out tool_name args \<or> r_outcome r = out \<and> rule_matches r tool_name (render_args args)"
  by (auto simp: has_rule_def add_rule_def)

lemma add_rule_simps [simp]:
  "pol_mode (add_rule r pol) = pol_mode pol" "is_mutating (add_rule r pol) = is_mutating pol"
  "mode_default (add_rule r pol) = mode_default pol"
  by (simp_all add: add_rule_def is_mutating_def mode_default_def fun_eq_iff)

lemma add_rule_effect:
  "dec_outcome (evaluate (add_rule r pol) tool_name args) =
    (if \<not> rule_matches r tool_name (render_args args) then dec_outcome (evaluate pol tool_name args)
     else case r_outcome r of
       Deny \<Rightarrow> Deny
     | Allow \<Rightarrow> (if dec_outcome (evaluate pol tool_name args) = Deny then Deny else Allow)
     | AskUser \<Rightarrow> (if dec_outcome (evaluate pol tool_name args) = Deny then Deny
                   else if has_rule pol Allow tool_name args then Allow else AskUser))"
  by (cases "r_outcome r") (simp_all add: evaluate_outcome add_rule_has mode_default_never_denies)

end
