(* ===== verification/Coder_Hooks.thy ===== *)
theory Coder_Hooks
  imports Permission_Properties
begin

text \<open>
  Lifecycle hooks of the interactive agent (\<open>paa.coder.hooks\<close>). A hook is code the operator supplies: a function
  of its context and of the world it acts in, which returns its result or raises, together with the arguments
  as it edited them in place and the world it leaves. Logging is not modelled.
\<close>

type_synonym arguments = "(string \<times> pyval) list"

datatype HookEvent = SESSION_START | SESSION_END | USER_PROMPT_SUBMIT | PRE_TOOL_USE | POST_TOOL_USE | SUBAGENT_STOP | STOP

record HookContext =
  hc_event :: HookEvent
  hc_session_id :: string
  hc_tool_name :: "string option"
  hc_arguments :: arguments
  hc_mutable_arguments :: arguments
  hc_result :: "string option"
  hc_prompt :: "string option"

record HookResult =
  hr_block :: bool
  hr_reason :: "string option"
  hr_modified_arguments :: "arguments option"
  hr_injected_context :: "string option"

definition pass_through :: HookResult where
  "pass_through = \<lparr>hr_block = False, hr_reason = None, hr_modified_arguments = None, hr_injected_context = None\<rparr>"

type_synonym 'w hook = "HookContext \<Rightarrow> 'w \<Rightarrow> HookResult result \<times> arguments \<times> 'w"

type_synonym 'w hook_registry = "HookEvent \<Rightarrow> 'w hook list"

definition no_hooks :: "'w hook_registry" where
  "no_hooks = (\<lambda>_. [])"

definition register_hook :: "HookEvent \<Rightarrow> 'w hook \<Rightarrow> 'w hook_registry \<Rightarrow> 'w hook_registry" where
  "register_hook ev h reg = reg(ev := reg ev @ [h])"

definition hook_count :: "HookEvent \<Rightarrow> 'w hook_registry \<Rightarrow> nat" where
  "hook_count ev reg = length (reg ev)"

subsection \<open>Dispatch\<close>

text \<open>
  In-place edits of the context; once a hook has replaced the arguments, the aggregate refers to the same
  dictionary and sees them too.
\<close>

definition edit_in_place :: "arguments \<Rightarrow> HookContext \<times> HookResult \<Rightarrow> HookContext \<times> HookResult" where
  "edit_in_place margs ca =
     (case ca of (ctx, agg) \<Rightarrow>
        (ctx\<lparr>hc_mutable_arguments := margs\<rparr>,
         if hr_modified_arguments agg = None then agg else agg\<lparr>hr_modified_arguments := Some margs\<rparr>))"

definition absorb :: "HookResult \<Rightarrow> HookContext \<times> HookResult \<Rightarrow> HookContext \<times> HookResult" where
  "absorb res ca =
     (let (ctx1, agg1) = (case hr_modified_arguments res of
            None \<Rightarrow> ca
          | Some a \<Rightarrow> ((fst ca)\<lparr>hc_mutable_arguments := a\<rparr>, (snd ca)\<lparr>hr_modified_arguments := Some a\<rparr>))
      in (ctx1,
          case hr_injected_context res of
            None \<Rightarrow> agg1
          | Some [] \<Rightarrow> agg1
          | Some s \<Rightarrow> agg1\<lparr>hr_injected_context :=
              Some ((case hr_injected_context agg1 of None \<Rightarrow> [] | Some x \<Rightarrow> x) @ s @ [CHR 0x0A])\<rparr>))"

definition blocked_by :: "HookResult \<Rightarrow> HookResult \<Rightarrow> HookResult" where
  "blocked_by res agg = \<lparr>hr_block = True,
     hr_reason = Some (case hr_reason res of None \<Rightarrow> ''blocked by hook'' | Some [] \<Rightarrow> ''blocked by hook'' | Some s \<Rightarrow> s),
     hr_modified_arguments = hr_modified_arguments agg, hr_injected_context = hr_injected_context agg\<rparr>"

fun fire_from :: "'w hook list \<Rightarrow> HookContext \<times> HookResult \<Rightarrow> 'w \<Rightarrow> HookResult \<times> HookContext \<times> 'w" where
  "fire_from [] ca w = (snd ca, fst ca, w)"
| "fire_from (h # hs) ca w =
     (case h (fst ca) w of
        (r, margs, w1) \<Rightarrow>
          let ca1 = edit_in_place margs ca
          in case r of
               Inl _ \<Rightarrow> fire_from hs ca1 w1
             | Inr res \<Rightarrow>
                 let ca2 = absorb res ca1
                 in if hr_block res then (blocked_by res (snd ca2), fst ca2, w1) else fire_from hs ca2 w1)"

definition fire :: "'w hook_registry \<Rightarrow> HookContext \<Rightarrow> 'w \<Rightarrow> HookResult \<times> HookContext \<times> 'w" where
  "fire reg ctx w = fire_from (reg (hc_event ctx)) (ctx, pass_through) w"

subsection \<open>Ready-made hooks\<close>

definition deny_tool_hook :: "string \<Rightarrow> string \<Rightarrow> 'w hook" where
  "deny_tool_hook tool_glob why ctx w =
     (Inr (case hc_tool_name ctx of
             None \<Rightarrow> pass_through
           | Some [] \<Rightarrow> pass_through
           | Some n \<Rightarrow> if fnmatch n tool_glob then pass_through\<lparr>hr_block := True, hr_reason := Some why\<rparr> else pass_through),
      hc_mutable_arguments ctx, w)"

text \<open>The command's effect on the world is an argument.\<close>

definition command_hook :: "('w \<Rightarrow> 'w) \<Rightarrow> 'w hook" where
  "command_hook run ctx w = (Inr pass_through, hc_mutable_arguments ctx, run w)"

subsection \<open>Properties\<close>

text \<open>A predicate on the world that a hook keeps in every context.\<close>

definition hook_keeps :: "('w \<Rightarrow> bool) \<Rightarrow> 'w hook \<Rightarrow> bool" where
  "hook_keeps P h \<longleftrightarrow> (\<forall>ctx w. P w \<longrightarrow> P (snd (snd (h ctx w))))"

lemma fire_from_keeps: "\<forall>h \<in> set hs. hook_keeps P h \<Longrightarrow> P w \<Longrightarrow> P (snd (snd (fire_from hs ca w)))"
proof (induction hs arbitrary: ca w)
  case (Cons h hs)
  obtain r margs w1 where h: "h (fst ca) w = (r, margs, w1)" by (metis prod_cases3)
  have "P w1" using Cons.prems h unfolding hook_keeps_def by (metis list.set_intros(1) snd_conv)
  then show ?case using Cons h by (auto simp: Let_def split: sum.splits)
qed simp

lemma fire_keeps: "\<forall>h \<in> set (reg (hc_event ctx)). hook_keeps P h \<Longrightarrow> P w \<Longrightarrow> P (snd (snd (fire reg ctx w)))"
  by (simp add: fire_def fire_from_keeps)

lemma fire_from_context: "hc_event (fst (snd (fire_from hs ca w))) = hc_event (fst ca) \<and>
    hc_tool_name (fst (snd (fire_from hs ca w))) = hc_tool_name (fst ca) \<and>
    hc_arguments (fst (snd (fire_from hs ca w))) = hc_arguments (fst ca)"
proof (induction hs arbitrary: ca w)
  case (Cons h hs)
  obtain r margs w1 where h: "h (fst ca) w = (r, margs, w1)" by (metis prod_cases3)
  have same: "hc_event (fst (edit_in_place m ca)) = hc_event (fst ca)" "hc_tool_name (fst (edit_in_place m ca)) = hc_tool_name (fst ca)"
    "hc_arguments (fst (edit_in_place m ca)) = hc_arguments (fst ca)" "hc_event (fst (absorb res ca)) = hc_event (fst ca)"
    "hc_tool_name (fst (absorb res ca)) = hc_tool_name (fst ca)" "hc_arguments (fst (absorb res ca)) = hc_arguments (fst ca)" for m res ca
    by (auto simp: edit_in_place_def absorb_def Let_def split: prod.splits option.splits)
  show ?case using Cons h by (auto simp: Let_def same split: sum.splits)
qed simp

text \<open>A hook that always blocks stops the call, whatever is registered after it.\<close>

lemma fire_from_blocks:
  assumes "\<And>ctx w. hc_tool_name ctx = hc_tool_name (fst ca) \<Longrightarrow> \<exists>res margs w1. h ctx w = (Inr res, margs, w1) \<and> hr_block res"
  shows "hr_block (fst (fire_from (hs @ h # hs') ca w))"
  using assms
proof (induction hs arbitrary: ca w)
  case Nil
  from Nil[of "fst ca" w] show ?case by (auto simp: Let_def blocked_by_def)
next
  case (Cons g hs)
  obtain r margs w1 where g: "g (fst ca) w = (r, margs, w1)" by (metis prod_cases3)
  have same: "hc_tool_name (fst (edit_in_place m ca)) = hc_tool_name (fst ca)"
    "hc_tool_name (fst (absorb res ca)) = hc_tool_name (fst ca)" for m res ca
    by (auto simp: edit_in_place_def absorb_def Let_def split: prod.splits option.splits)
  have step: "hr_block (fst (fire_from (hs @ h # hs') ca' w'))" if "hc_tool_name (fst ca') = hc_tool_name (fst ca)" for ca' w'
    by (rule Cons.IH) (use Cons.prems that in auto)
  show ?case using g by (auto simp: Let_def same blocked_by_def step split: sum.splits)
qed

lemma denied_tool_blocked:
  assumes "deny_tool_hook glob why \<in> set (reg (hc_event ctx))" "hc_tool_name ctx = Some n" "n \<noteq> []" "fnmatch n glob"
  shows "hr_block (fst (fire reg ctx w))"
proof -
  obtain hs hs' where reg: "reg (hc_event ctx) = hs @ deny_tool_hook glob why # hs'" using split_list[OF assms(1)] by blast
  show ?thesis unfolding fire_def reg
    by (rule fire_from_blocks) (use assms(2-4) in \<open>auto simp: deny_tool_hook_def split: list.splits\<close>)
qed

end
