(* ===== verification/Coder_Session.thy ===== *)
theory Coder_Session
  imports Permissions
begin

text \<open>
  Session transcripts (\<open>paa.coder.session\<close>): turns kept in memory and flushed to a file of JSON lines, the window the
  model sees, compaction, and resuming from the file.

  A transcript is a list of lines. A crash in the middle of a write leaves a fragment without a line end; what is
  written next ends that line, which stays unreadable. The identifier and the time of the n-th turn a process
  creates are given by a function. A line of other types than \<open>to_json\<close> writes is an error here.
\<close>

subsection \<open>Turns\<close>

datatype TurnRole = USER | ASSISTANT | TOOL_CALL | TOOL_RESULT | SYSTEM | SUMMARY

fun role_text :: "TurnRole \<Rightarrow> string" where
  "role_text USER = ''user''"
| "role_text ASSISTANT = ''assistant''"
| "role_text TOOL_CALL = ''tool_call''"
| "role_text TOOL_RESULT = ''tool_result''"
| "role_text SYSTEM = ''system''"
| "role_text SUMMARY = ''summary''"

definition all_roles :: "TurnRole list" where
  "all_roles = [USER, ASSISTANT, TOOL_CALL, TOOL_RESULT, SYSTEM, SUMMARY]"

definition role_of_text :: "string \<Rightarrow> TurnRole result" where
  "role_of_text s = (case find (\<lambda>r. role_text r = s) all_roles of None \<Rightarrow> Inl ValueError | Some r \<Rightarrow> Inr r)"

record Turn =
  tn_role :: TurnRole
  tn_content :: string
  tn_turn_id :: string
  tn_tool_name :: "string option"
  tn_tool_arguments :: "(string \<times> pyval) list"
  tn_tokens :: int
  tn_created_at :: string
  tn_metadata :: "(string \<times> pyval) list"

text \<open>\<open>json.dumps\<close> without a fallback: only what JSON has.\<close>

fun strict_json :: "pyval \<Rightarrow> json result"
  and strict_json_list :: "pyval list \<Rightarrow> json list result"
  and strict_json_members :: "(string \<times> pyval) list \<Rightarrow> (string \<times> json) list result" where
  "strict_json (PScalar SNone) = Inr JNull"
| "strict_json (PScalar (SBool b)) = Inr (JBool b)"
| "strict_json (PScalar (SInt i)) = Inr (JInt i)"
| "strict_json (PScalar (SFloat r)) = Inr (JFloat r)"
| "strict_json (PScalar (SStr s)) = Inr (JStr s)"
| "strict_json (PScalar _) = Inl TypeError"
| "strict_json (PList vs) = rmap JList (strict_json_list vs)"
| "strict_json (PDict ms) = rmap JObj (strict_json_members ms)"
| "strict_json _ = Inl TypeError"
| "strict_json_list [] = Inr []"
| "strict_json_list (v # vs) = rbind (strict_json v) (\<lambda>j. rbind (strict_json_list vs) (\<lambda>js. Inr (j # js)))"
| "strict_json_members [] = Inr []"
| "strict_json_members ((k, v) # ms) =
     rbind (strict_json v) (\<lambda>j. rbind (strict_json_members ms) (\<lambda>js. Inr ((k, j) # js)))"

definition turn_to_json :: "Turn \<Rightarrow> json result" where
  "turn_to_json t =
     rbind (strict_json_members (tn_tool_arguments t)) (\<lambda>args.
     rbind (strict_json_members (tn_metadata t)) (\<lambda>meta.
       Inr (JObj [(''turn_id'', JStr (tn_turn_id t)), (''role'', JStr (role_text (tn_role t))), (''content'', JStr (tn_content t)),
         (''tool_name'', case tn_tool_name t of None \<Rightarrow> JNull | Some n \<Rightarrow> JStr n), (''tool_arguments'', JObj args),
         (''tokens'', JInt (tn_tokens t)), (''created_at'', JStr (tn_created_at t)), (''metadata'', JObj meta)])))"

definition as_plain_text :: "json \<Rightarrow> string result" where
  "as_plain_text j = (case j of JStr s \<Rightarrow> Inr s | _ \<Rightarrow> Inl TypeError)"

definition as_optional_text :: "json \<Rightarrow> string option result" where
  "as_optional_text j = (case j of JNull \<Rightarrow> Inr None | JStr s \<Rightarrow> Inr (Some s) | _ \<Rightarrow> Inl TypeError)"

definition as_integer :: "json \<Rightarrow> int result" where
  "as_integer j = (case j of JInt i \<Rightarrow> Inr i | _ \<Rightarrow> Inl TypeError)"

definition as_members :: "json \<Rightarrow> (string \<times> pyval) list result" where
  "as_members j = (case j of JObj ms \<Rightarrow> Inr (loads_json_members ms) | _ \<Rightarrow> Inl TypeError)"

text \<open>The defaults of absent identifiers and times, \<open>uuid4().hex\<close> and \<open>now\<close>, are arguments.\<close>

definition turn_from_json :: "string \<Rightarrow> string \<Rightarrow> json \<Rightarrow> Turn result" where
  "turn_from_json fresh_id now j =
     (case j of
        JObj d \<Rightarrow>
          rbind (case dict_get d ''role'' of None \<Rightarrow> Inl KeyError | Some r \<Rightarrow> rbind (as_plain_text r) role_of_text) (\<lambda>role.
          rbind (case dict_get d ''content'' of None \<Rightarrow> Inl KeyError | Some c \<Rightarrow> as_plain_text c) (\<lambda>content.
          rbind (as_plain_text (dict_get_default d ''turn_id'' (JStr fresh_id))) (\<lambda>tid.
          rbind (as_optional_text (dict_get_default d ''tool_name'' JNull)) (\<lambda>name.
          rbind (as_members (dict_get_default d ''tool_arguments'' (JObj []))) (\<lambda>args.
          rbind (as_integer (dict_get_default d ''tokens'' (JInt 0))) (\<lambda>tokens.
          rbind (as_plain_text (dict_get_default d ''created_at'' (JStr now))) (\<lambda>created.
          rbind (as_members (dict_get_default d ''metadata'' (JObj []))) (\<lambda>meta.
            Inr \<lparr>tn_role = role, tn_content = content, tn_turn_id = tid, tn_tool_name = name, tn_tool_arguments = args,
                 tn_tokens = tokens, tn_created_at = created, tn_metadata = meta\<rparr>))))))))
      | _ \<Rightarrow> Inl TypeError)"

subsection \<open>Sessions\<close>

datatype stored_line = Line json | Fragment | Garbled

type_synonym transcript = "stored_line list"

definition append_line :: "transcript \<Rightarrow> json \<Rightarrow> transcript" where
  "append_line f j = (if f \<noteq> [] \<and> last f = Fragment then butlast f @ [Garbled] else f @ [Line j])"

record Session =
  s_session_id :: string
  s_turns :: "Turn list"
  s_persistent :: bool
  s_file :: transcript
  s_tick :: nat

type_synonym turn_clock = "nat \<Rightarrow> string \<times> string"

definition new_session :: "string \<Rightarrow> bool \<Rightarrow> transcript \<Rightarrow> Session" where
  "new_session sid persistent f = \<lparr>s_session_id = sid, s_turns = [], s_persistent = persistent, s_file = f, s_tick = 0\<rparr>"

definition make_turn ::
  "turn_clock \<Rightarrow> nat \<Rightarrow> TurnRole \<Rightarrow> string \<Rightarrow> string option \<Rightarrow> (string \<times> pyval) list \<Rightarrow> int \<Rightarrow> (string \<times> pyval) list \<Rightarrow> Turn" where
  "make_turn clock n role content name args tokens meta =
     \<lparr>tn_role = role, tn_content = content, tn_turn_id = fst (clock n), tn_tool_name = name, tn_tool_arguments = args,
      tn_tokens = tokens, tn_created_at = snd (clock n), tn_metadata = meta\<rparr>"

text \<open>The turn is in memory before it is written.\<close>

definition session_append :: "Turn \<Rightarrow> Session \<Rightarrow> unit result \<times> Session" where
  "session_append t s =
     (let s1 = s\<lparr>s_turns := s_turns s @ [t], s_tick := Suc (s_tick s)\<rparr>
      in if \<not> s_persistent s then (Inr (), s1)
         else case turn_to_json t of
           Inl e \<Rightarrow> (Inl e, s1)
         | Inr j \<Rightarrow> (Inr (), s1\<lparr>s_file := append_line (s_file s) j\<rparr>))"

definition session_user :: "turn_clock \<Rightarrow> string \<Rightarrow> Session \<Rightarrow> unit result \<times> Session" where
  "session_user clock content s = session_append (make_turn clock (s_tick s) USER content None [] 0 []) s"

definition session_assistant :: "turn_clock \<Rightarrow> string \<Rightarrow> int \<Rightarrow> Session \<Rightarrow> unit result \<times> Session" where
  "session_assistant clock content tokens s = session_append (make_turn clock (s_tick s) ASSISTANT content None [] tokens []) s"

definition session_tool_call :: "turn_clock \<Rightarrow> string \<Rightarrow> (string \<times> pyval) list \<Rightarrow> Session \<Rightarrow> unit result \<times> Session" where
  "session_tool_call clock name args s = session_append (make_turn clock (s_tick s) TOOL_CALL [] (Some name) args 0 []) s"

definition session_tool_result :: "turn_clock \<Rightarrow> string \<Rightarrow> string \<Rightarrow> Session \<Rightarrow> unit result \<times> Session" where
  "session_tool_result clock name content s = session_append (make_turn clock (s_tick s) TOOL_RESULT content (Some name) [] 0 []) s"

definition total_tokens :: "Session \<Rightarrow> int" where
  "total_tokens s = sum_list (map tn_tokens (s_turns s))"

text \<open>The index of the last summary, \<open>-1\<close> if there is none, and the turns from it on.\<close>

definition last_summary :: "Turn list \<Rightarrow> int" where
  "last_summary ts = int (length ts) - 1 - int (length (takeWhile (\<lambda>t. tn_role t \<noteq> SUMMARY) (rev ts)))"

definition window_of :: "Turn list \<Rightarrow> Turn list" where
  "window_of ts = (if 0 \<le> last_summary ts then drop (nat (last_summary ts)) ts else ts)"

definition window :: "Session \<Rightarrow> Turn list" where
  "window s = window_of (s_turns s)"

text \<open>\<open>self._turns[-keep_last:]\<close>, for a negative number the turns from that index on.\<close>

definition last_turns :: "int \<Rightarrow> Turn list \<Rightarrow> Turn list" where
  "last_turns k ts =
     (if k = 0 then [] else if 0 < k then drop (length ts - nat k) ts else drop (nat (- k)) ts)"

definition compact :: "turn_clock \<Rightarrow> string \<Rightarrow> int \<Rightarrow> Session \<Rightarrow> unit result \<times> Session" where
  "compact clock summary keep_last s =
     (let t = make_turn clock (s_tick s) SUMMARY summary None [] 0 [];
          s1 = s\<lparr>s_turns := t # last_turns keep_last (s_turns s), s_tick := Suc (s_tick s)\<rparr>
      in if \<not> s_persistent s then (Inr (), s1)
         else case turn_to_json t of
           Inl e \<Rightarrow> (Inl e, s1)
         | Inr j \<Rightarrow> (Inr (), s1\<lparr>s_file := append_line (s_file s) j\<rparr>))"

definition clear_session :: "Session \<Rightarrow> Session" where
  "clear_session s = s\<lparr>s_turns := []\<rparr>"

definition read_line :: "turn_clock \<Rightarrow> nat \<Rightarrow> stored_line \<Rightarrow> Turn result" where
  "read_line clock n l = (case l of Line j \<Rightarrow> turn_from_json (fst (clock n)) (snd (clock n)) j | _ \<Rightarrow> Inl ValueError)"

definition resume :: "turn_clock \<Rightarrow> string \<Rightarrow> transcript \<Rightarrow> Session result" where
  "resume clock sid f =
     rmap (\<lambda>ts. (new_session sid True f)\<lparr>s_turns := ts, s_tick := length ts\<rparr>) (rmapM (\<lambda>(n, l). read_line clock n l) (enumerate 0 f))"

end
