(* ===== verification/Agent_Loop.thy ===== *)
theory Agent_Loop
  imports Actions Coder_Hooks Coder_Session
begin

text \<open>
  The tool-use loop of the interactive agent (\<open>paa.coder.loop\<close>) and the policy its composition root gives it
  (\<open>paa.coder.agent\<close>): the model proposes calls, each goes through hooks, permissions and the human, and what
  happened is recorded in the session.

  The model, the tools, the hooks and the confirmation are code the loop is handed: functions that act on a world
  of any type. A tool that raises is known by the text of its exception.
\<close>

subsection \<open>Calls, turns and tools\<close>

record ToolCall =
  tc_name :: string
  tc_arguments :: arguments

record ModelTurn =
  mt_text :: string
  mt_tool_calls :: "ToolCall list"
  mt_tokens :: int

definition is_final :: "ModelTurn \<Rightarrow> bool" where
  "is_final t \<longleftrightarrow> mt_tool_calls t = []"

record 'w tool =
  tool_name :: string
  tool_description :: string
  tool_schema :: pyval
  tool_run :: "arguments \<Rightarrow> 'w \<Rightarrow> (string + string) \<times> 'w"

datatype window_entry =
    CallEntry "string option" arguments
  | ResultEntry "string option" string
  | TextEntry TurnRole string

record LoopResult =
  lr_final_text :: string
  lr_steps :: int
  lr_tool_calls :: int
  lr_denied_calls :: int
  lr_stopped_reason :: string
  lr_tokens :: int

record 'w loop_agent =
  ag_propose :: "window_entry list \<Rightarrow> (string \<times> string \<times> pyval) list \<Rightarrow> 'w \<Rightarrow> ModelTurn result \<times> 'w"
  ag_tools :: "(string \<times> 'w tool) list"
  ag_perms :: ToolPermissionPolicy
  ag_hooks :: "'w hook_registry"
  ag_confirm :: "string \<Rightarrow> arguments \<Rightarrow> string \<Rightarrow> 'w \<Rightarrow> bool result \<times> 'w"
  ag_max_steps :: int
  ag_max_tokens :: "int option"
  ag_clock :: turn_clock

record 'w loop_state =
  ls_session :: Session
  ls_world :: 'w

type_synonym ('w, 'a) loop_act = "('w loop_state, 'a) act"

definition deny_confirm :: "string \<Rightarrow> arguments \<Rightarrow> string \<Rightarrow> 'w \<Rightarrow> bool result \<times> 'w" where
  "deny_confirm tool args why w = (Inr False, w)"

subsection \<open>Steps on the session and on the world\<close>

definition on_session :: "(Session \<Rightarrow> 'a result \<times> Session) \<Rightarrow> ('w, 'a) loop_act" where
  "on_session f st = (case f (ls_session st) of (r, s) \<Rightarrow> (r, st\<lparr>ls_session := s\<rparr>))"

definition on_world :: "('w \<Rightarrow> 'a result \<times> 'w) \<Rightarrow> ('w, 'a) loop_act" where
  "on_world f st = (case f (ls_world st) of (r, w) \<Rightarrow> (r, st\<lparr>ls_world := w\<rparr>))"

definition fire_hooks :: "'w loop_agent \<Rightarrow> HookContext \<Rightarrow> ('w, HookResult \<times> HookContext) loop_act" where
  "fire_hooks ag ctx = on_world (\<lambda>w. case fire (ag_hooks ag) ctx w of (res, ctx', w') \<Rightarrow> (Inr (res, ctx'), w'))"

definition hook_context :: "HookEvent \<Rightarrow> string \<Rightarrow> HookContext" where
  "hook_context ev sid = \<lparr>hc_event = ev, hc_session_id = sid, hc_tool_name = None, hc_arguments = [],
     hc_mutable_arguments = [], hc_result = None, hc_prompt = None\<rparr>"

definition add_result :: "'w loop_agent \<Rightarrow> string \<Rightarrow> string \<Rightarrow> 'a \<Rightarrow> ('w, 'a) loop_act" where
  "add_result ag name content a =
     act_bind (on_session (session_tool_result (ag_clock ag) name content)) (\<lambda>_. act_return a)"

definition none_text :: "string option \<Rightarrow> string" where
  "none_text x = (case x of None \<Rightarrow> ''None'' | Some s \<Rightarrow> s)"

subsection \<open>One call\<close>

text \<open>Execution and the hooks after it.\<close>

definition execute_call :: "'w loop_agent \<Rightarrow> string \<Rightarrow> 'w tool \<Rightarrow> arguments \<Rightarrow> ('w, bool) loop_act" where
  "execute_call ag name impl args =
     act_bind (on_world (\<lambda>w. case tool_run impl args w of (r, w') \<Rightarrow> (Inr r, w'))) (\<lambda>r.
       case r of
         Inl err \<Rightarrow> add_result ag name (''error: '' @ err) False
       | Inr res \<Rightarrow>
           act_bind (add_result ag name res ()) (\<lambda>_. act_read (\<lambda>st.
           act_bind (fire_hooks ag ((hook_context POST_TOOL_USE (s_session_id (ls_session st)))
               \<lparr>hc_tool_name := Some name, hc_arguments := args, hc_result := Some res\<rparr>)) (\<lambda>_.
           act_return True))))"

text \<open>Permission and confirmation.\<close>

definition permit_call :: "'w loop_agent \<Rightarrow> string \<Rightarrow> 'w tool \<Rightarrow> arguments \<Rightarrow> ('w, bool) loop_act" where
  "permit_call ag name impl args =
     (let d = evaluate (ag_perms ag) name args
      in case dec_outcome d of
           Deny \<Rightarrow> add_result ag name (''permission denied: '' @ dec_reason d) False
         | AskUser \<Rightarrow>
             act_bind (on_world (ag_confirm ag name args (dec_reason d))) (\<lambda>approved.
               if \<not> approved then add_result ag name ''declined by user'' False else execute_call ag name impl args)
         | Allow \<Rightarrow> execute_call ag name impl args)"

definition handle_call :: "'w loop_agent \<Rightarrow> ToolCall \<Rightarrow> ('w, bool) loop_act" where
  "handle_call ag call =
     (let name = tc_name call
      in act_bind (on_session (session_tool_call (ag_clock ag) name (tc_arguments call))) (\<lambda>_.
           case dict_get (ag_tools ag) name of
             None \<Rightarrow> add_result ag name (''error: no such tool '' @ [CHR 0x27] @ name @ [CHR 0x27]) False
           | Some impl \<Rightarrow> act_read (\<lambda>st.
               act_bind (fire_hooks ag ((hook_context PRE_TOOL_USE (s_session_id (ls_session st)))
                   \<lparr>hc_tool_name := Some name, hc_arguments := tc_arguments call, hc_mutable_arguments := tc_arguments call\<rparr>))
                 (\<lambda>(res, ctx).
                    if hr_block res then add_result ag name (''blocked by hook: '' @ none_text (hr_reason res)) False
                    else permit_call ag name impl (hc_mutable_arguments ctx)))))"

fun handle_calls :: "'w loop_agent \<Rightarrow> ToolCall list \<Rightarrow> int \<Rightarrow> int \<Rightarrow> ('w, int \<times> int) loop_act" where
  "handle_calls ag [] n denied = act_return (n, denied)"
| "handle_calls ag (c # cs) n denied =
     act_bind (handle_call ag c) (\<lambda>executed. handle_calls ag cs (n + 1) (if executed then denied else denied + 1))"

subsection \<open>The loop\<close>

definition window_entry_of :: "Turn \<Rightarrow> window_entry" where
  "window_entry_of t =
     (if tn_role t = TOOL_CALL then CallEntry (tn_tool_name t) (tn_tool_arguments t)
      else if tn_role t = TOOL_RESULT then ResultEntry (tn_tool_name t) (tn_content t)
      else TextEntry (tn_role t) (tn_content t))"

definition to_window :: "Session \<Rightarrow> window_entry list" where
  "to_window s = map window_entry_of (window s)"

definition tool_schemas :: "'w loop_agent \<Rightarrow> (string \<times> string \<times> pyval) list" where
  "tool_schemas ag = map (\<lambda>(_, t). (tool_name t, tool_description t, tool_schema t)) (ag_tools ag)"

definition loop_result :: "string \<Rightarrow> int \<Rightarrow> int \<Rightarrow> int \<Rightarrow> string \<Rightarrow> ('w, LoopResult) loop_act" where
  "loop_result final steps calls denied why st =
     act_return \<lparr>lr_final_text = final, lr_steps = steps, lr_tool_calls = calls, lr_denied_calls = denied,
       lr_stopped_reason = why, lr_tokens = total_tokens (ls_session st)\<rparr> st"

definition over_budget :: "'w loop_agent \<Rightarrow> Session \<Rightarrow> bool" where
  "over_budget ag s \<longleftrightarrow> (case ag_max_tokens ag of None \<Rightarrow> False | Some m \<Rightarrow> m \<noteq> 0 \<and> m \<le> total_tokens s)"

definition say :: "'w loop_agent \<Rightarrow> ModelTurn \<Rightarrow> ('w, unit) loop_act" where
  "say ag turn = (if mt_text turn = [] then act_return () else on_session (session_assistant (ag_clock ag) (mt_text turn) (mt_tokens turn)))"

text \<open>The steps from number \<open>k\<close> on, with so many left.\<close>

fun run_steps :: "'w loop_agent \<Rightarrow> nat \<Rightarrow> int \<Rightarrow> int \<Rightarrow> int \<Rightarrow> ('w, LoopResult) loop_act" where
  "run_steps ag 0 k calls denied = loop_result [] (ag_max_steps ag) calls denied ''max_steps_reached''"
| "run_steps ag (Suc n) k calls denied = act_read (\<lambda>st.
     act_bind (on_world (ag_propose ag (to_window (ls_session st)) (tool_schemas ag))) (\<lambda>turn.
     act_bind (say ag turn) (\<lambda>_.
       if is_final turn then loop_result (mt_text turn) (k + 1) calls denied ''model_finished''
       else act_bind (handle_calls ag (mt_tool_calls turn) calls denied) (\<lambda>(calls', denied'). act_read (\<lambda>st1.
         if over_budget ag (ls_session st1)
         then loop_result (mt_text turn) (k + 1) calls' denied' ''token_budget_exhausted''
         else run_steps ag n (k + 1) calls' denied')))))"

definition run_loop :: "'w loop_agent \<Rightarrow> string \<Rightarrow> ('w, LoopResult) loop_act" where
  "run_loop ag message =
     act_bind (on_session (session_user (ag_clock ag) message)) (\<lambda>_. act_read (\<lambda>st.
     act_bind (fire_hooks ag ((hook_context USER_PROMPT_SUBMIT (s_session_id (ls_session st)))\<lparr>hc_prompt := Some message\<rparr>)) (\<lambda>_.
     run_steps ag (nat (ag_max_steps ag)) 0 0 0)))"

subsection \<open>The composition root\<close>

definition read_only_tools :: "string list" where
  "read_only_tools = [''check_runtime'', ''list_tasks'', ''task_status'', ''read_ledger'', ''verify_ledger'', ''recall_facts'']"

definition mutating_runtime_tools :: "string list" where
  "mutating_runtime_tools = [''submit_task'', ''run_task'', ''remember_fact'']"

definition runtime_tool_names :: "string list" where
  "runtime_tool_names = [''check_runtime'', ''list_tasks'', ''task_status'', ''submit_task'', ''run_task'', ''read_ledger'',
     ''verify_ledger'', ''remember_fact'', ''recall_facts'']"

definition coder_policy :: "ToolPermissionMode \<Rightarrow> string list \<Rightarrow> string list \<Rightarrow> ToolPermissionPolicy" where
  "coder_policy mode allow deny =
     new_policy mode (read_only_tools @ allow) deny [] default_edit_tools (Some (mutating_tools @ mutating_runtime_tools))"

end
