(* ===== verification/Session_Properties.thy ===== *)
theory Session_Properties
  imports Coder_Session
begin

text \<open>
  A transcript that was written without interruption can be resumed exactly. Two situations in which resuming does
  not give back the session are recorded: after a compaction, and after a crash in the middle of a line.
\<close>

subsection \<open>Turns survive their line\<close>

lemma strict_loads:
  "strict_json v = Inr j \<Longrightarrow> loads_json j = v"
  "strict_json_list vs = Inr js \<Longrightarrow> loads_json_list js = vs"
  "strict_json_members ms = Inr ks \<Longrightarrow> loads_json_members ks = ms"
  by (induction v and vs and ms arbitrary: j and js and ks rule: strict_json_strict_json_list_strict_json_members.induct)
    (auto simp: rbind_eq_Inr rmap_eq_Inr)

lemma role_of_text_role: "role_of_text (role_text r) = Inr r"
  by (cases r) (simp_all add: role_of_text_def all_roles_def)

lemma turn_roundtrip: "turn_to_json t = Inr j \<Longrightarrow> turn_from_json fresh now j = Inr t"
  by (auto simp: turn_to_json_def turn_from_json_def rbind_eq_Inr dict_get_def dict_get_default_def as_plain_text_def
      as_optional_text_def as_members_def as_integer_def role_of_text_role strict_loads(3) split: option.splits)

subsection \<open>Memory and file\<close>

definition written :: "Turn \<Rightarrow> stored_line \<Rightarrow> bool" where
  "written t l \<longleftrightarrow> (\<exists>j. turn_to_json t = Inr j \<and> l = Line j)"

text \<open>The file holds exactly the turns in memory.\<close>

definition in_step :: "Session \<Rightarrow> bool" where
  "in_step s \<longleftrightarrow> s_persistent s \<and> list_all2 written (s_turns s) (s_file s)"

lemma written_last: "list_all2 written ts f \<Longrightarrow> f \<noteq> [] \<Longrightarrow> last f \<noteq> Fragment"
  by (induction ts f rule: list_all2_induct) (auto simp: written_def)

lemma append_line_written: "list_all2 written ts f \<Longrightarrow> append_line f j = f @ [Line j]"
  using written_last by (auto simp: append_line_def)

lemma session_append_in_step: "in_step s \<Longrightarrow> session_append t s = (Inr (), s') \<Longrightarrow> in_step s'"
  using append_line_written
  by (auto simp: session_append_def in_step_def Let_def written_def split: sum.splits intro!: list_all2_appendI)

lemma session_append_turns: "session_append t s = (r, s') \<Longrightarrow> s_turns s' = s_turns s @ [t]"
  by (auto simp: session_append_def Let_def split: sum.splits if_splits)

lemma session_append_file:
  "session_append t s = (r, s') \<Longrightarrow> last (s_file s) \<noteq> Fragment \<Longrightarrow> \<exists>ls. s_file s' = s_file s @ ls"
  by (auto simp: session_append_def append_line_def Let_def split: sum.splits if_splits)

lemma read_lines_written:
  "list_all2 written ts f \<Longrightarrow> rmapM (\<lambda>(n, l). read_line clock n l) (enumerate k (f @ g)) =
     rmap (\<lambda>us. ts @ us) (rmapM (\<lambda>(n, l). read_line clock n l) (enumerate (k + length f) g))"
proof (induction ts f arbitrary: k rule: list_all2_induct)
  case Nil
  then show ?case by (cases "rmapM (\<lambda>(n, l). read_line clock n l) (enumerate k g)") simp_all
next
  case (Cons t ts l f)
  then have "read_line clock k l = Inr t" by (auto simp: written_def read_line_def turn_roundtrip)
  then show ?case
    using Cons.IH[of "Suc k"]
    by (cases "rmapM (\<lambda>(n, l). read_line clock n l) (enumerate (Suc k + length f) g)") (simp_all add: enumerate_simps)
qed

lemma resume_in_step:
  assumes "in_step s"
  shows "resume clock (s_session_id s) (s_file s) = Inr (s\<lparr>s_tick := length (s_turns s)\<rparr>)"
proof -
  have "list_all2 written (s_turns s) (s_file s)" "s_persistent s" using assms by (simp_all add: in_step_def)
  then show ?thesis
    using read_lines_written[of "s_turns s" "s_file s" clock 0 "[]"] by (simp add: resume_def new_session_def)
qed

subsection \<open>Compaction\<close>

lemma window_no_summary: "\<forall>t \<in> set ts. tn_role t \<noteq> SUMMARY \<Longrightarrow> window_of ts = ts"
  by (simp add: window_of_def last_summary_def takeWhile_eq_all_conv[THEN iffD2])

lemma window_after_summary:
  assumes "tn_role t = SUMMARY" "\<forall>u \<in> set us. tn_role u \<noteq> SUMMARY"
  shows "window_of (ts @ t # us) = t # us"
proof -
  have "takeWhile (\<lambda>t. tn_role t \<noteq> SUMMARY) (rev (ts @ t # us)) = rev us"
    using assms takeWhile_append2[of "rev us" "\<lambda>t. tn_role t \<noteq> SUMMARY" "t # rev ts"] by simp
  then have "last_summary (ts @ t # us) = int (length ts)" by (simp add: last_summary_def)
  then show ?thesis by (simp add: window_of_def)
qed

lemma compacted_resumed:
  assumes "in_step s" "compact clock summary k s = (Inr (), s')" "\<forall>t \<in> set (s_turns s). tn_role t \<noteq> SUMMARY"
  shows "\<exists>t r. tn_role t = SUMMARY \<and> tn_content t = summary \<and> window s' = t # last_turns k (s_turns s) \<and>
    resume clock' (s_session_id s) (s_file s') = Inr r \<and> s_turns r = s_turns s @ [t] \<and> window r = [t]"
proof -
  let ?t = "make_turn clock (s_tick s) SUMMARY summary None [] 0 []"
  have t: "tn_role ?t = SUMMARY" "tn_content ?t = summary" by (simp_all add: make_turn_def)
  obtain j where j: "turn_to_json ?t = Inr j" "s_turns s' = ?t # last_turns k (s_turns s)" "s_file s' = append_line (s_file s) j"
    using assms(1,2) by (auto simp: compact_def in_step_def Let_def split: sum.splits)
  have stored: "s_file s' = s_file s @ [Line j]"
    using assms(1) j(3) append_line_written unfolding in_step_def by auto
  have "set (last_turns k (s_turns s)) \<subseteq> set (s_turns s)" by (auto simp: last_turns_def dest: in_set_dropD split: if_splits)
  then have w: "window s' = ?t # last_turns k (s_turns s)"
    using window_after_summary[OF t(1), of "last_turns k (s_turns s)" "[]"] assms(3) j(2) by (auto simp: window_def)
  have "list_all2 written (s_turns s @ [?t]) (s_file s')"
    using assms(1) j(1) unfolding stored in_step_def by (auto simp: written_def intro: list_all2_appendI)
  then obtain r where r: "resume clock' (s_session_id s) (s_file s') = Inr r" "s_turns r = s_turns s @ [?t]"
    using read_lines_written[of "s_turns s @ [?t]" "s_file s'" clock' 0 "[]"] by (simp add: resume_def)
  then have "window r = [?t]" using window_after_summary[OF t(1), of "[]"] by (simp add: window_def)
  then show ?thesis using t w r by blast
qed

subsection \<open>A torn line\<close>

lemma torn_not_resumed:
  assumes "in_step s"
  shows "resume clock sid (s_file s @ [Fragment]) = Inl ValueError"
proof -
  have "list_all2 written (s_turns s) (s_file s)" using assms by (simp add: in_step_def)
  then show ?thesis
    using read_lines_written[of "s_turns s" "s_file s" clock 0 "[Fragment]"] by (simp add: resume_def read_line_def enumerate_simps)
qed

end
