(* ===== verification/Loop_Transcript.thy ===== *)
theory Loop_Transcript
  imports Loop_Properties Session_Properties
begin

text \<open>
  What a run of the loop leaves in the transcript: every call with its answer, as many calls as the result counts,
  and a file that can be resumed. Plan mode, for the policy of the composition root.
\<close>

subsection \<open>What a session keeps\<close>

definition in_session :: "(Session \<Rightarrow> bool) \<Rightarrow> 'w loop_state \<Rightarrow> bool" where
  "in_session P st \<longleftrightarrow> P (ls_session st)"

lemma world_keeps_session [keeps_ok_intros]: "keeps_ok (in_session P) (on_world f)"
  by (auto simp: keeps_ok_def on_world_def in_session_def split: prod.splits)

lemma hooks_keep_session [keeps_ok_intros]: "keeps_ok (in_session P) (fire_hooks ag ctx)"
  unfolding fire_hooks_def by (rule world_keeps_session)

lemma loop_result_keeps_ok [keeps_ok_intros]: "keeps_ok P (loop_result a b c d e)"
  by (simp add: keeps_ok_def loop_result_def)

text \<open>A property of sessions that every turn the loop adds keeps.\<close>

definition append_keeps :: "(Session \<Rightarrow> bool) \<Rightarrow> bool" where
  "append_keeps P \<longleftrightarrow> (\<forall>s t s'. P s \<longrightarrow> session_append t s = (Inr (), s') \<longrightarrow> P s')"

lemma session_keeps_ok: "append_keeps P \<Longrightarrow> keeps_ok (in_session P) (on_session (\<lambda>s. session_append (f s) s))"
  by (auto simp: keeps_ok_def on_session_def in_session_def append_keeps_def split: prod.splits)

lemmas session_turns = session_user_def session_assistant_def session_tool_call_def session_tool_result_def

lemma session_turn_keeps_ok [keeps_ok_intros]:
  assumes "append_keeps P"
  shows "keeps_ok (in_session P) (on_session (session_user clock a))"
    "keeps_ok (in_session P) (on_session (session_assistant clock a n))"
    "keeps_ok (in_session P) (on_session (session_tool_call clock a args))"
    "keeps_ok (in_session P) (on_session (session_tool_result clock a b))"
  unfolding session_turns[abs_def] by (rule session_keeps_ok[OF assms])+

lemma add_result_keeps_ok [keeps_ok_intros]: "append_keeps P \<Longrightarrow> keeps_ok (in_session P) (add_result ag name content a)"
  unfolding add_result_def by (intro keeps_ok_intros)

lemma handle_call_keeps_ok:
  assumes "append_keeps P"
  shows "keeps_ok (in_session P) (handle_call ag c)"
proof -
  have "keeps_ok (in_session P) (execute_call ag name impl args)" for name impl args
    unfolding execute_call_def by (intro keeps_ok_intros assms)
  then have "keeps_ok (in_session P) (permit_call ag name impl args)" for name impl args
    using assms by (auto simp: permit_call_def Let_def intro!: keeps_ok_intros split: PermissionOutcome.splits)
  then show ?thesis unfolding handle_call_def Let_def by (intro keeps_ok_intros assms)
qed

lemma run_loop_keeps_ok:
  assumes "append_keeps P"
  shows "keeps_ok (in_session P) (run_loop ag message)"
proof -
  have calls: "keeps_ok (in_session P) (handle_calls ag cs n denied)" for cs n denied
    by (induction cs arbitrary: n denied) (simp_all add: keeps_ok_return keeps_ok_bind handle_call_keeps_ok[OF assms])
  have say: "keeps_ok (in_session P) (say ag turn)" for turn
    unfolding say_def by (intro keeps_ok_intros assms)
  have "keeps_ok (in_session P) (run_steps ag n k a b)" for n k a b
  proof (induction n arbitrary: k a b)
    case (Suc n)
    show ?case unfolding run_steps.simps by (intro keeps_ok_intros calls say Suc)
  qed (simp add: loop_result_keeps_ok)
  then show ?thesis unfolding run_loop_def by (intro keeps_ok_intros assms)
qed

subsection \<open>The transcript can be resumed\<close>

lemma append_keeps_in_step: "append_keeps in_step"
  using session_append_in_step by (auto simp: append_keeps_def)

lemma run_loop_resumed:
  assumes "in_step (ls_session st)" "run_loop ag message st = (Inr res, st')"
  shows "resume clock (s_session_id (ls_session st')) (s_file (ls_session st')) =
    Inr ((ls_session st')\<lparr>s_tick := length (s_turns (ls_session st'))\<rparr>)"
  by (rule resume_in_step) (use keeps_okD[OF run_loop_keeps_ok[OF append_keeps_in_step] assms(2)] assms(1) in \<open>simp add: in_session_def\<close>)

subsection \<open>Every call is answered\<close>

abbreviation turns :: "'w loop_state \<Rightarrow> Turn list" where
  "turns st \<equiv> s_turns (ls_session st)"

text \<open>Actions that add turns satisfying a predicate when they return.\<close>

definition writes :: "(Turn list \<Rightarrow> bool) \<Rightarrow> ('w, 'a) loop_act \<Rightarrow> bool" where
  "writes P m \<longleftrightarrow> (\<forall>st a st'. m st = (Inr a, st') \<longrightarrow> (\<exists>new. turns st' = turns st @ new \<and> P new))"

abbreviation "silent \<equiv> writes (\<lambda>new. new = [])"

definition answer_to :: "string \<Rightarrow> Turn list \<Rightarrow> bool" where
  "answer_to name new \<longleftrightarrow> (\<exists>t. new = [t] \<and> tn_role t = TOOL_RESULT \<and> tn_tool_name t = Some name)"

named_theorems writes_intros \<open>the turns an action adds\<close>

lemma writes_return: "P [] \<Longrightarrow> writes P (act_return a)"
  by (simp add: writes_def)

lemma silent_return [writes_intros]: "silent (act_return a)"
  by (simp add: writes_def)

lemma silent_world [writes_intros]: "silent (on_world f)"
  by (auto simp: writes_def on_world_def split: prod.splits)

lemma silent_hooks [writes_intros]: "silent (fire_hooks ag ctx)"
  unfolding fire_hooks_def by (rule silent_world)

lemma writes_read [writes_intros]: "(\<And>st. writes P (f st)) \<Longrightarrow> writes P (act_read f)"
  unfolding writes_def act_read_def by blast

lemma writes_bind:
  assumes "writes P m" "\<And>a. writes Q (f a)" "\<And>u v. P u \<Longrightarrow> Q v \<Longrightarrow> R (u @ v)"
  shows "writes R (act_bind m f)"
  unfolding writes_def
proof (intro allI impI)
  fix st b st'
  assume "act_bind m f st = (Inr b, st')"
  then obtain a st1 where "m st = (Inr a, st1)" "f a st1 = (Inr b, st')" by (auto simp: act_bind_def split: prod.splits sum.splits)
  then obtain u v where "turns st1 = turns st @ u" "P u" "turns st' = turns st1 @ v" "Q v"
    using assms(1,2) unfolding writes_def by metis
  then show "\<exists>new. turns st' = turns st @ new \<and> R new" using assms(3)[of u v] by simp
qed

lemma silent_bind [writes_intros]: "silent m \<Longrightarrow> (\<And>a. writes P (f a)) \<Longrightarrow> writes P (act_bind m f)"
  by (rule writes_bind[of "\<lambda>new. new = []" m P f]) auto

lemma bind_silent: "writes P m \<Longrightarrow> (\<And>a. silent (f a)) \<Longrightarrow> writes P (act_bind m f)"
  by (rule writes_bind[of P m "\<lambda>new. new = []" f]) auto

lemma writes_if [writes_intros]: "writes P m \<Longrightarrow> writes P m' \<Longrightarrow> writes P (if b then m else m')"
  by simp

lemma writes_option [writes_intros]:
  "writes P m \<Longrightarrow> (\<And>a. writes P (f a)) \<Longrightarrow> writes P (case x of None \<Rightarrow> m | Some a \<Rightarrow> f a)"
  by (cases x) simp_all

lemma writes_sum [writes_intros]:
  "(\<And>e. writes P (f e)) \<Longrightarrow> (\<And>a. writes P (g a)) \<Longrightarrow> writes P (case x of Inl e \<Rightarrow> f e | Inr a \<Rightarrow> g a)"
  by (cases x) simp_all

lemma writes_prod [writes_intros]: "(\<And>a b. writes P (f a b)) \<Longrightarrow> writes P (case x of (a, b) \<Rightarrow> f a b)"
  by (cases x) simp_all

lemma writes_turn: "(\<And>n. P [f n]) \<Longrightarrow> writes P (on_session (\<lambda>s. session_append (f (s_tick s)) s))"
  by (auto simp: writes_def on_session_def dest: session_append_turns split: prod.splits)

lemma answers_add_result [writes_intros]: "writes (answer_to name) (add_result ag name content a)"
  unfolding add_result_def session_turns[abs_def]
  by (intro bind_silent silent_return writes_turn) (simp add: answer_to_def make_turn_def)

lemma answers_execute: "writes (answer_to name) (execute_call ag name impl args)"
  unfolding execute_call_def
  by (rule silent_bind[OF silent_world], rule writes_sum, rule answers_add_result, rule bind_silent[OF answers_add_result])
    (intro writes_intros)

lemma answers_permit: "writes (answer_to name) (permit_call ag name impl args)"
  by (auto simp: permit_call_def Let_def intro!: writes_intros answers_execute split: PermissionOutcome.splits)

text \<open>A call and its answer.\<close>

definition exchange :: "ToolCall \<Rightarrow> Turn list \<Rightarrow> bool" where
  "exchange c new \<longleftrightarrow> (\<exists>t r. new = [t, r] \<and> tn_role t = TOOL_CALL \<and> tn_tool_name t = Some (tc_name c) \<and>
     tn_tool_arguments t = tc_arguments c \<and> tn_role r = TOOL_RESULT \<and> tn_tool_name r = Some (tc_name c))"

lemma handle_call_exchange: "writes (exchange c) (handle_call ag c)"
proof -
  let ?call = "\<lambda>new. \<exists>t. new = [t] \<and> tn_role t = TOOL_CALL \<and> tn_tool_name t = Some (tc_name c) \<and> tn_tool_arguments t = tc_arguments c"
  have call: "writes ?call (on_session (session_tool_call (ag_clock ag) (tc_name c) (tc_arguments c)))"
    unfolding session_turns[abs_def] by (rule writes_turn) (simp add: make_turn_def)
  have rest: "writes (answer_to (tc_name c)) (case dict_get (ag_tools ag) (tc_name c) of
      None \<Rightarrow> add_result ag (tc_name c) msg False
    | Some impl \<Rightarrow> act_read (\<lambda>st. act_bind (fire_hooks ag (ctx st)) (\<lambda>(res, ctx).
        if hr_block res then add_result ag (tc_name c) (''blocked by hook: '' @ none_text (hr_reason res)) False
        else permit_call ag (tc_name c) impl (hc_mutable_arguments ctx))))" for msg ctx
    by (intro writes_intros answers_permit)
  show ?thesis unfolding handle_call_def Let_def
    by (rule writes_bind[OF call rest]) (auto simp: answer_to_def exchange_def)
qed

text \<open>Transcripts in which each call is directly followed by its answer, and nothing else is answered.\<close>

fun paired :: "Turn list \<Rightarrow> bool" where
  "paired [] = True"
| "paired (t # ts) =
     (if tn_role t = TOOL_CALL
      then (case ts of [] \<Rightarrow> False | r # rs \<Rightarrow> tn_role r = TOOL_RESULT \<and> tn_tool_name r = tn_tool_name t \<and> paired rs)
      else tn_role t \<noteq> TOOL_RESULT \<and> paired ts)"

lemma paired_append: "paired xs \<Longrightarrow> paired ys \<Longrightarrow> paired (xs @ ys)"
  by (induction xs rule: paired.induct) (auto split: list.splits if_splits)

definition calls_in :: "Turn list \<Rightarrow> int" where
  "calls_in ts = int (length (filter (\<lambda>t. tn_role t = TOOL_CALL) ts))"

lemma calls_in_append [simp]: "calls_in (xs @ ys) = calls_in xs + calls_in ys"
  by (simp add: calls_in_def)

lemma exchange_paired: "exchange c new \<Longrightarrow> paired new \<and> calls_in new = 1"
  by (auto simp: exchange_def calls_in_def)

text \<open>The number of calls and of refusals that an action returns, relative to those it was given.\<close>

lemma handle_calls_count:
  "handle_calls ag cs n denied st = (Inr (n', d'), st') \<Longrightarrow>
    \<exists>new. turns st' = turns st @ new \<and> paired new \<and> calls_in new = n' - n \<and> denied \<le> d' \<and> d' - denied \<le> n' - n"
proof (induction cs arbitrary: n denied st)
  case Nil
  then show ?case by (simp add: calls_in_def)
next
  case (Cons c cs)
  obtain b st1 where c: "handle_call ag c st = (Inr b, st1)"
    and rest: "handle_calls ag cs (n + 1) (if b then denied else denied + 1) st1 = (Inr (n', d'), st')"
    using Cons.prems by (auto simp: act_bind_def split: prod.splits sum.splits)
  obtain new1 where new1: "turns st1 = turns st @ new1" "paired new1" "calls_in new1 = 1"
    using c handle_call_exchange exchange_paired unfolding writes_def by metis
  from Cons.IH[OF rest] obtain new where new: "turns st' = turns st1 @ new" "paired new" "calls_in new = n' - (n + 1)"
    "(if b then denied else denied + 1) \<le> d'" "d' - (if b then denied else denied + 1) \<le> n' - (n + 1)" by blast
  then have "turns st' = turns st @ (new1 @ new) \<and> paired (new1 @ new) \<and> calls_in (new1 @ new) = n' - n \<and> denied \<le> d' \<and> d' - denied \<le> n' - n"
    using new1 paired_append by (auto split: if_splits)
  then show ?case by blast
qed

definition accounted :: "'w loop_agent \<Rightarrow> int \<Rightarrow> int \<Rightarrow> int \<Rightarrow> LoopResult \<Rightarrow> 'w loop_state \<Rightarrow> Turn list \<Rightarrow> bool" where
  "accounted ag k calls denied res st' new \<longleftrightarrow> paired new \<and> lr_tool_calls res = calls + calls_in new \<and>
     denied \<le> lr_denied_calls res \<and> lr_denied_calls res - denied \<le> calls_in new \<and>
     k \<le> lr_steps res \<and> lr_tokens res = total_tokens (ls_session st') \<and>
     lr_stopped_reason res \<in> {''model_finished'', ''token_budget_exhausted'', ''max_steps_reached''}"

lemma say_turns:
  assumes "say ag turn st = (Inr u, st')"
  shows "\<exists>new. turns st' = turns st @ new \<and> paired new \<and> calls_in new = 0"
proof -
  have "writes (\<lambda>new. paired new \<and> calls_in new = 0) (say ag turn)"
    unfolding say_def session_turns[abs_def]
    by (intro writes_if writes_return writes_turn) (simp_all add: make_turn_def calls_in_def)
  then show ?thesis using assms unfolding writes_def by blast
qed

lemma run_steps_accounted:
  "run_steps ag n k calls denied st = (Inr res, st') \<Longrightarrow> k + int n \<le> ag_max_steps ag \<Longrightarrow>
    \<exists>new. turns st' = turns st @ new \<and> accounted ag k calls denied res st' new \<and> lr_steps res \<le> ag_max_steps ag"
proof (induction n arbitrary: k calls denied st)
  case 0
  then show ?case by (auto simp: loop_result_def accounted_def calls_in_def)
next
  case (Suc n)
  obtain turn st1 where p: "on_world (ag_propose ag (to_window (ls_session st)) (tool_schemas ag)) st = (Inr turn, st1)"
    using Suc.prems(1) by (auto simp: act_read_def act_bind_def split: prod.splits sum.splits)
  then have same: "turns st1 = turns st" by (auto simp: on_world_def split: prod.splits)
  obtain u st2 where s: "say ag turn st1 = (Inr u, st2)"
    using Suc.prems(1) p by (auto simp: act_read_def act_bind_def split: prod.splits sum.splits)
  obtain new1 where new1: "turns st2 = turns st @ new1" "paired new1" "calls_in new1 = 0" using say_turns[OF s] same by auto
  show ?case
  proof (cases "is_final turn")
    case True
    then have "res = \<lparr>lr_final_text = mt_text turn, lr_steps = k + 1, lr_tool_calls = calls, lr_denied_calls = denied,
        lr_stopped_reason = ''model_finished'', lr_tokens = total_tokens (ls_session st2)\<rparr>" "st' = st2"
      using Suc.prems(1) p s by (auto simp: act_read_def loop_result_def)
    then show ?thesis using new1 Suc.prems(2) by (auto simp: accounted_def)
  next
    case False
    obtain n' d' st3 where h: "handle_calls ag (mt_tool_calls turn) calls denied st2 = (Inr (n', d'), st3)"
      using Suc.prems(1) p s False by (auto simp: act_read_def act_bind_def split: prod.splits sum.splits)
    obtain new2 where new2: "turns st3 = turns st2 @ new2" "paired new2" "calls_in new2 = n' - calls" "denied \<le> d'" "d' - denied \<le> n' - calls"
      using handle_calls_count[OF h] by blast
    have both: "turns st3 = turns st @ (new1 @ new2)" "paired (new1 @ new2)" "calls_in (new1 @ new2) = n' - calls"
      using new1 new2 paired_append by simp_all
    show ?thesis
    proof (cases "over_budget ag (ls_session st3)")
      case True
      then have "res = \<lparr>lr_final_text = mt_text turn, lr_steps = k + 1, lr_tool_calls = n', lr_denied_calls = d',
          lr_stopped_reason = ''token_budget_exhausted'', lr_tokens = total_tokens (ls_session st3)\<rparr>" "st' = st3"
        using Suc.prems(1) p s h False by (auto simp: act_read_def loop_result_def)
      then show ?thesis using both new2(4,5) Suc.prems(2) by (intro exI[of _ "new1 @ new2"]) (simp add: accounted_def)
    next
      case under: False
      then have "run_steps ag n (k + 1) n' d' st3 = (Inr res, st')"
        using Suc.prems(1) p s h False by (simp add: act_read_def)
      from Suc.IH[OF this] Suc.prems(2) obtain new3 where
        new3: "turns st' = turns st3 @ new3" "accounted ag (k + 1) n' d' res st' new3" "lr_steps res \<le> ag_max_steps ag" by auto
      then have "accounted ag k calls denied res st' ((new1 @ new2) @ new3)"
        using both new2(4,5) paired_append[of "new1 @ new2" new3] by (auto simp: accounted_def simp del: append_assoc)
      then show ?thesis using new3(1,3) both(1) by (intro exI[of _ "(new1 @ new2) @ new3"]) simp
    qed
  qed
qed

lemma run_loop_accounted:
  assumes "run_loop ag message st = (Inr res, st')" "0 \<le> ag_max_steps ag"
  shows "\<exists>new. turns st' = turns st @ new \<and> accounted ag 0 0 0 res st' new \<and> lr_steps res \<le> ag_max_steps ag"
proof -
  obtain u st1 where user: "on_session (session_user (ag_clock ag) message) st = (Inr u, st1)"
    using assms(1) by (auto simp: run_loop_def act_bind_def split: prod.splits sum.splits)
  obtain hr st2 where hooks: "fire_hooks ag ((hook_context USER_PROMPT_SUBMIT (s_session_id (ls_session st1)))\<lparr>hc_prompt := Some message\<rparr>) st1 = (Inr hr, st2)"
    using assms(1) user by (auto simp: run_loop_def act_read_def act_bind_def split: prod.splits sum.splits)
  then have steps: "run_steps ag (nat (ag_max_steps ag)) 0 0 0 st2 = (Inr res, st')"
    using assms(1) user by (simp add: run_loop_def act_read_def)
  have "writes (\<lambda>new. paired new \<and> calls_in new = 0) (on_session (session_user (ag_clock ag) message))"
    unfolding session_turns[abs_def] by (rule writes_turn) (simp add: make_turn_def calls_in_def)
  then obtain new1 where new1: "turns st1 = turns st @ new1" "paired new1" "calls_in new1 = 0"
    using user unfolding writes_def by blast
  have "turns st2 = turns st1" using hooks silent_hooks unfolding writes_def by fastforce
  moreover obtain new2 where "turns st' = turns st2 @ new2" "accounted ag 0 0 0 res st' new2" "lr_steps res \<le> ag_max_steps ag"
    using run_steps_accounted[OF steps] assms(2) by auto
  ultimately show ?thesis
    using new1 paired_append[of new1 new2] by (intro exI[of _ "new1 @ new2"]) (simp add: accounted_def)
qed

subsection \<open>Plan mode\<close>

lemma plan_mode_cleared:
  assumes "ag_perms ag = coder_policy ModePlan allow deny" "name \<in> set runtime_tool_names" "cleared ag name args w"
  shows "name \<in> set read_only_tools"
proof (rule ccontr)
  assume "name \<notin> set read_only_tools"
  then have m: "name \<in> set mutating_runtime_tools"
    using assms(2) by (auto simp: runtime_tool_names_def read_only_tools_def mutating_runtime_tools_def)
  have "plain_text name" using m by (auto simp: mutating_runtime_tools_def plain_text_def)
  then have "fnmatch name name" by (simp add: fnmatch_plain)
  moreover have "name \<in> set (pol_mutating_tools (coder_policy ModePlan allow deny))"
    using m by (simp add: coder_policy_def new_policy_def mutating_tools_def)
  ultimately have "is_mutating (coder_policy ModePlan allow deny) name" by (auto simp: is_mutating_def list_ex_iff)
  moreover have "pol_mode (coder_policy ModePlan allow deny) = ModePlan" by (simp add: coder_policy_def new_policy_def)
  ultimately have "dec_outcome (evaluate (ag_perms ag) name args) = Deny" using assms(1) by (simp add: evaluate_denied_iff)
  then show False using assms(3) by (simp add: cleared_def Let_def)
qed

lemma plan_mode_keeps:
  assumes "ag_perms ag = coder_policy ModePlan allow deny" "fst ` set (ag_tools ag) \<subseteq> set runtime_tool_names" "bystanders_keep ag P"
    and readers: "\<And>name impl args w. dict_get (ag_tools ag) name = Some impl \<Longrightarrow> name \<in> set read_only_tools \<Longrightarrow> P w \<Longrightarrow> P (snd (tool_run impl args w))"
    and "P (ls_world st)"
  shows "P (ls_world (snd (run_loop ag message st)))"
proof -
  have "name \<in> set runtime_tool_names" if "dict_get (ag_tools ag) name = Some impl" for name impl
    using that assms(2) dict_get_in by force
  then have "cleared_runs_keep ag P" using plan_mode_cleared[OF assms(1)] readers unfolding cleared_runs_keep_def by blast
  from run_loop_keeps[OF assms(3) this] show ?thesis using assms(5) by (simp add: keeps_def in_world_def)
qed

end
