(* ===== verification/Sample_Agent.thy ===== *)
theory Sample_Agent
  imports Loop_Transcript
begin

text \<open>
  An agent whose world is the list of the tools that ran, and whose model first calls three tools and then answers:
  a concrete run on which the properties of the loop are evaluated.
\<close>

definition sample_clock :: turn_clock where
  "sample_clock n = (''turn'' @ str_nat n, ''2026-01-01T00:00:00+00:00'')"

definition logging_tool :: "string \<Rightarrow> string list tool" where
  "logging_tool name = \<lparr>tool_name = name, tool_description = [], tool_schema = PDict [], tool_run = (\<lambda>args w. (Inr ''ok'', w @ [name]))\<rparr>"

definition sample_calls :: "ToolCall list" where
  "sample_calls = [\<lparr>tc_name = ''check_runtime'', tc_arguments = []\<rparr>,
     \<lparr>tc_name = ''submit_task'', tc_arguments = [(''request'', PStr ''x'')]\<rparr>, \<lparr>tc_name = ''fly'', tc_arguments = []\<rparr>]"

definition sample_propose :: "window_entry list \<Rightarrow> (string \<times> string \<times> pyval) list \<Rightarrow> string list \<Rightarrow> ModelTurn result \<times> string list" where
  "sample_propose win sch w =
     (Inr (if length win = 1 then \<lparr>mt_text = [], mt_tool_calls = sample_calls, mt_tokens = 3\<rparr>
           else \<lparr>mt_text = ''done'', mt_tool_calls = [], mt_tokens = 2\<rparr>), w)"

definition sample_agent :: "ToolPermissionMode \<Rightarrow> string list loop_agent" where
  "sample_agent mode = \<lparr>ag_propose = sample_propose, ag_tools = map (\<lambda>n. (n, logging_tool n)) runtime_tool_names,
     ag_perms = coder_policy mode [''submit_task''] [], ag_hooks = no_hooks, ag_confirm = deny_confirm, ag_max_steps = 5,
     ag_max_tokens = None, ag_clock = sample_clock\<rparr>"

definition sample_start :: "string list loop_state" where
  "sample_start = \<lparr>ls_session = new_session ''s'' True [], ls_world = []\<rparr>"

lemma sample_in_step: "in_step (ls_session sample_start)"
  by (simp add: in_step_def sample_start_def new_session_def)

lemma sample_bystanders: "bystanders_keep (sample_agent mode) P"
  by (simp add: bystanders_keep_def sample_agent_def sample_propose_def no_hooks_def deny_confirm_def)

lemma sample_tool: "dict_get (ag_tools (sample_agent mode)) name = Some impl \<Longrightarrow> impl = logging_tool name"
  by (auto simp: sample_agent_def dict_get_def dest!: map_of_SomeD)

lemma sample_agent_run:
  "fst (run_loop (sample_agent ModePlan) ''go'' sample_start) =
     Inr \<lparr>lr_final_text = ''done'', lr_steps = 2, lr_tool_calls = 3, lr_denied_calls = 2,
          lr_stopped_reason = ''model_finished'', lr_tokens = 2\<rparr>"
  by code_simp

text \<open>A session of three turns, and its compaction.\<close>

definition long_session :: Session where
  "long_session = snd (session_assistant sample_clock ''b'' 1 (snd (session_user sample_clock ''a'' (new_session ''s'' True []))))"

lemma long_session_in_step: "in_step long_session"
proof -
  have "in_step (new_session ''s'' True [])" by (simp add: in_step_def new_session_def)
  moreover have "fst (session_user sample_clock ''a'' (new_session ''s'' True [])) = Inr ()"
    "fst (session_assistant sample_clock ''b'' 1 (snd (session_user sample_clock ''a'' (new_session ''s'' True [])))) = Inr ()"
    by code_simp+
  ultimately show ?thesis
    unfolding long_session_def session_user_def session_assistant_def by (metis prod.collapse session_append_in_step)
qed

lemma long_session_compacts: "fst (compact sample_clock ''sum'' 2 long_session) = Inr ()"
  by code_simp

lemma long_session_roles: "\<forall>t \<in> set (s_turns long_session). tn_role t \<noteq> SUMMARY" "length (s_turns long_session) = 2"
  by code_simp+

end
