(* ===== verification/Blob_Errors.thy ===== *)
theory Blob_Errors
  imports Py_Texts
begin

text \<open>
  The error vocabulary of the cold lake (\<open>paa.storage.coldlake.errors\<close>): the operating system's failures,
  the neutral blob errors, and the translation between them at the boundary of the store.

  An operation returns a \<open>lake_result\<close>: the exception that leaves it, or its value. A blob error carries its
  message and its details in the order of the keyword arguments; the substrate is always \<open>cas\<close> here.
\<close>

subsection \<open>Exceptions\<close>

datatype errno =
    ENOENT | EACCES | EPERM | EROFS | EIO | ECONNABORTED | ECONNREFUSED | ECONNRESET | EHOSTUNREACH
  | ENETDOWN | ENETUNREACH | EPIPE | ETIMEDOUT | ENOTDIR | EBADF | ELOOP | EOther nat

datatype os_class = FileNotFoundError | PermissionError | OtherOsClass string

record os_error =
  os_class :: os_class
  os_errno :: "errno option"

datatype detail = DText string | DInt int | DErrno "errno option"

datatype blob_class =
    NotFound | AccessDenied | Unreachable | Corrupt | NotSupported | MalformedRequest | BlobFailure

record blob_error =
  be_class :: blob_class
  be_message :: string
  be_details :: "(string \<times> detail) list"

text \<open>
  What can be raised where the store works: a blob error, another error of the runtime (\<open>PaaError\<close>), the
  codec's error, the operating system's, or any other exception, by the name of its type.
\<close>

datatype exn =
    BlobExn blob_error
  | PaaExn py_error
  | ZstdExn
  | OsExn os_error
  | OtherExn string

type_synonym 'a lake_result = "exn + 'a"

subsection \<open>Classification\<close>

definition errno_refused :: "errno list" where
  "errno_refused = [EACCES, EPERM, EROFS]"

definition errno_unreachable :: "errno list" where
  "errno_unreachable =
     [EIO, ECONNABORTED, ECONNREFUSED, ECONNRESET, EHOSTUNREACH, ENETDOWN, ENETUNREACH, EPIPE, ETIMEDOUT]"

fun os_class_name :: "os_class \<Rightarrow> string" where
  "os_class_name FileNotFoundError = ''FileNotFoundError''"
| "os_class_name PermissionError = ''PermissionError''"
| "os_class_name (OtherOsClass n) = n"

definition errno_among :: "errno option \<Rightarrow> errno list \<Rightarrow> bool" where
  "errno_among c cs = (case c of None \<Rightarrow> False | Some e \<Rightarrow> e \<in> set cs)"

definition translate_os_error :: "(string \<times> detail) list \<Rightarrow> os_error \<Rightarrow> blob_error" where
  "translate_os_error details e =
     (if os_class e = FileNotFoundError \<or> os_errno e = Some ENOENT
      then \<lparr>be_class = NotFound, be_message = ''blob not found'', be_details = details\<rparr>
      else if os_class e = PermissionError \<or> errno_among (os_errno e) errno_refused
      then \<lparr>be_class = AccessDenied, be_message = ''the substrate refused the request'', be_details = details\<rparr>
      else if errno_among (os_errno e) errno_unreachable
      then \<lparr>be_class = Unreachable, be_message = ''the substrate could not be reached'', be_details = details\<rparr>
      else \<lparr>be_class = BlobFailure, be_message = ''the substrate failed'',
             be_details = dict_set (dict_set details ''driver_error'' (DText (os_class_name (os_class e))))
                            ''errno'' (DErrno (os_errno e))\<rparr>)"

fun translate_blob_error :: "(string \<times> detail) list \<Rightarrow> exn \<Rightarrow> exn" where
  "translate_blob_error details (BlobExn b) = BlobExn b"
| "translate_blob_error details (PaaExn p) = PaaExn p"
| "translate_blob_error details ZstdExn =
     BlobExn \<lparr>be_class = Corrupt, be_message = ''blob is not a readable zstd frame'', be_details = details\<rparr>"
| "translate_blob_error details (OsExn e) = BlobExn (translate_os_error details e)"
| "translate_blob_error details (OtherExn n) =
     BlobExn \<lparr>be_class = BlobFailure, be_message = ''the substrate failed'',
               be_details = dict_set details ''driver_error'' (DText n)\<rparr>"

text \<open>\<open>raise_blob_error\<close> inside \<open>except OSError\<close>: the call's value, or its failure translated.\<close>

definition translated :: "(string \<times> detail) list \<Rightarrow> os_error + 'a \<Rightarrow> 'a lake_result" where
  "translated details r = (case r of Inl e \<Rightarrow> Inl (translate_blob_error details (OsExn e)) | Inr a \<Rightarrow> Inr a)"

text \<open>An enclosing \<open>except OSError\<close>: only the operating system's errors are translated.\<close>

definition catching_os :: "(string \<times> detail) list \<Rightarrow> 'a lake_result \<Rightarrow> 'a lake_result" where
  "catching_os details r =
     (case r of Inl (OsExn e) \<Rightarrow> Inl (translate_blob_error details (OsExn e)) | _ \<Rightarrow> r)"

text \<open>\<open>except StorageError\<close> catches every blob error, and the constraint violations of the database.\<close>

fun is_blob_error :: "exn \<Rightarrow> bool" where
  "is_blob_error (BlobExn b) = True"
| "is_blob_error _ = False"

fun is_storage_error :: "exn \<Rightarrow> bool" where
  "is_storage_error (BlobExn b) = True"
| "is_storage_error (PaaExn p) = (p \<in> {StorageError, UniqueViolation, IntegrityError})"
| "is_storage_error _ = False"

definition blob_exn :: "blob_class \<Rightarrow> string \<Rightarrow> (string \<times> detail) list \<Rightarrow> exn" where
  "blob_exn c m ds = BlobExn \<lparr>be_class = c, be_message = m, be_details = ds\<rparr>"

subsection \<open>Lemmas\<close>

definition fails_typed :: "'a lake_result \<Rightarrow> bool" where
  "fails_typed r = (case r of Inl e \<Rightarrow> is_blob_error e | Inr a \<Rightarrow> True)"

lemma fails_typed_simps [simp]:
  "fails_typed (Inr a)" "fails_typed (Inl e) = is_blob_error e"
  by (simp_all add: fails_typed_def)

lemma fails_typedD: "fails_typed r \<Longrightarrow> r = Inl e \<Longrightarrow> is_blob_error e"
  by simp

lemma is_blob_error_simps [simp]:
  "is_blob_error (blob_exn c m ds)" "is_blob_error (translate_blob_error ds (OsExn e))"
  by (simp_all add: blob_exn_def)

lemma translated_simps [simp]:
  "translated ds (Inr a) = Inr a" "translated ds (Inl e) = Inl (translate_blob_error ds (OsExn e))"
  by (simp_all add: translated_def)

lemma translated_eq_Inr [simp]: "translated ds r = Inr a \<longleftrightarrow> r = Inr a"
  by (cases r) simp_all

lemma translated_Inl_typed: "translated ds r = Inl e \<Longrightarrow> is_blob_error e"
  by (cases r) auto

lemma fails_typed_translated [simp]: "fails_typed (translated ds r)"
  by (cases r) simp_all

lemma fails_typed_rbind [intro]:
  "fails_typed r \<Longrightarrow> (\<And>a. r = Inr a \<Longrightarrow> fails_typed (f a)) \<Longrightarrow> fails_typed (rbind r f)"
  by (cases r) simp_all

lemma catching_os_Inr [simp]: "catching_os ds (Inr a) = Inr a"
  by (simp add: catching_os_def)

lemma catching_os_eq_Inr [simp]: "catching_os ds r = Inr a \<longleftrightarrow> r = Inr a"
  by (auto simp: catching_os_def split: sum.splits exn.splits)

lemma catching_os_typed [simp]: "fails_typed r \<Longrightarrow> catching_os ds r = r"
  by (auto simp: catching_os_def fails_typed_def split: sum.splits exn.splits)

lemma blob_storage_error: "is_blob_error e \<Longrightarrow> is_storage_error e"
  by (cases e) simp_all

text \<open>The translation is idempotent, and leaves the runtime's own errors alone.\<close>

lemma translate_idempotent: "translate_blob_error ds' (translate_blob_error ds e) = translate_blob_error ds e"
  by (cases e) simp_all

lemma translate_typed: "\<forall>p. e \<noteq> PaaExn p \<Longrightarrow> is_blob_error (translate_blob_error ds e)"
  by (cases e) simp_all

lemma translate_os_class:
  "be_class (translate_os_error ds e) \<in> {NotFound, AccessDenied, Unreachable, BlobFailure}"
  by (simp add: translate_os_error_def)

end
