(* ===== verification/Blob_Store.thy ===== *)
theory Blob_Store
  imports Blob_Errors Workspace
begin

text \<open>
  The content-addressed blob store on the filesystem (\<open>paa.storage.coldlake.cas\<close>).

  The archive is the list of the regular files below the store's root with their contents; directories are
  implied. What the operating system does to a call (\<open>h_fault\<close>: the error it raises, if any), what a write
  that failed half-way leaves in its staging file (\<open>h_torn\<close>), how many chunks a failing read delivers first
  (\<open>h_read_after\<close>) and the random name of the staging file (\<open>h_name\<close>) are arguments. So are the digest
  function and the codec, zstandard, which is a library: \<open>zstd\<close> lists the calls the store makes of it, with
  \<open>None\<close> or a failure flag for \<open>ZstdError\<close>. Texts given as digests and URIs are ASCII.
\<close>

subsection \<open>The codec, the host and the archive\<close>

text \<open>
  \<open>z_compress level data\<close>; \<open>z_write level size chunks\<close> is the stream writer with a declared size (-1: unknown), \<open>Inl n\<close> if
  it failed after taking \<open>n\<close> chunks; \<open>z_abort\<close> tells whether it raises when the source fails after these
  chunks (and after how many); \<open>z_read\<close> is \<open>stream_reader(frame).read()\<close>; \<open>z_pieces\<close> reads in chunks and tells
  whether it then failed; \<open>z_frame_size\<close> is \<open>frame_content_size\<close>, negative if the frame declares no size.
\<close>

record zstd =
  z_compress :: "int \<Rightarrow> string \<Rightarrow> string option"
  z_write :: "int \<Rightarrow> int \<Rightarrow> string list \<Rightarrow> nat + string"
  z_abort :: "int \<Rightarrow> int \<Rightarrow> string list \<Rightarrow> nat option"
  z_read :: "string \<Rightarrow> string option"
  z_pieces :: "nat \<Rightarrow> string \<Rightarrow> string list \<times> bool"
  z_frame_size :: "string \<Rightarrow> int option"

datatype fs_call = Exists | Stat | IsFile | Mkdir | OpenWrite | WriteBytes | Rename | Unlink | OpenRead | ReadBytes

record host =
  h_fault :: "fs_call \<Rightarrow> path \<Rightarrow> os_error option"
  h_torn :: "string option"
  h_read_after :: nat
  h_name :: string

type_synonym archive = "(path \<times> string) list"

text \<open>\<open>ContentAddressedStore\<close>: its root, level, chunk size (positive) and codec.\<close>

record cas =
  cas_root :: string
  cas_level :: int
  cas_chunk :: nat
  cas_zstd :: zstd

definition cas_init :: "host \<Rightarrow> string \<Rightarrow> int \<Rightarrow> nat \<Rightarrow> zstd \<Rightarrow> cas lake_result" where
  "cas_init h root level chunk z =
     translated [(''path'', DText root), (''op'', DText ''create'')]
       (case h_fault h Mkdir [''blobs''] of
          Some e \<Rightarrow> Inl e
        | None \<Rightarrow> (case h_fault h Mkdir [''staging''] of
            Some e \<Rightarrow> Inl e
          | None \<Rightarrow> Inr \<lparr>cas_root = root, cas_level = level, cas_chunk = chunk, cas_zstd = z\<rparr>))"

text \<open>\<open>str(path)\<close> of a path below the root.\<close>

definition path_text :: "cas \<Rightarrow> path \<Rightarrow> string" where
  "path_text c p =
     (if cas_root c = ''.'' then as_posix p
      else if cas_root c = ''/'' then ''/'' @ as_posix p
      else cas_root c @ ''/'' @ as_posix p)"

subsection \<open>References\<close>

record BlobRef =
  ref_sha256 :: string
  ref_size :: nat
  ref_compressed :: nat

definition cas_prefix :: string where
  "cas_prefix = ''cas://''"

definition ref_uri :: "BlobRef \<Rightarrow> string" where
  "ref_uri r = cas_prefix @ ref_sha256 r"

definition parse_uri :: "string \<Rightarrow> string lake_result" where
  "parse_uri uri =
     (if take (length cas_prefix) uri \<noteq> cas_prefix
      then Inl (blob_exn MalformedRequest (''not a CAS uri: '' @ py_repr uri) [(''uri'', DText uri)])
      else let digest = drop (length cas_prefix) uri
           in if length digest \<noteq> 64
              then Inl (blob_exn MalformedRequest (''malformed CAS uri: '' @ py_repr uri) [(''uri'', DText uri)])
              else Inr digest)"

subsection \<open>Paths of blobs\<close>

definition hex_chars :: string where
  "hex_chars = ''0123456789abcdef''"

definition is_digest :: "string \<Rightarrow> bool" where
  "is_digest d \<longleftrightarrow> length d = 64 \<and> list_all (\<lambda>c. c \<in> set hex_chars) d"

definition validate_digest :: "string \<Rightarrow> unit lake_result" where
  "validate_digest d =
     (if \<not> is_digest d
      then Inl (blob_exn MalformedRequest (''not a sha256 hex digest: '' @ py_repr (take 128 d))
                  [(''value'', DText (take 128 d))])
      else Inr ())"

definition leaf :: "string \<Rightarrow> bool \<Rightarrow> path" where
  "leaf digest compressed =
     [''blobs'', take 2 digest, take 2 (drop 2 digest), digest @ (if compressed then ''.zst'' else ''.bin'')]"

text \<open>\<open>Path.exists\<close> answers \<open>False\<close> for these errors and raises the others.\<close>

definition ignored_error :: "os_error \<Rightarrow> bool" where
  "ignored_error e \<longleftrightarrow> errno_among (os_errno e) [ENOENT, ENOTDIR, EBADF, ELOOP]"

definition present_at :: "host \<Rightarrow> archive \<Rightarrow> path \<Rightarrow> os_error + bool" where
  "present_at h a p =
     (case h_fault h Exists p of
        Some e \<Rightarrow> if ignored_error e then Inr False else Inl e
      | None \<Rightarrow> Inr (dict_get a p \<noteq> None))"

definition lookup_leaf :: "host \<Rightarrow> cas \<Rightarrow> archive \<Rightarrow> path \<Rightarrow> bool lake_result" where
  "lookup_leaf h c a p =
     translated [(''path'', DText (path_text c p)), (''op'', DText ''lookup'')] (present_at h a p)"

definition locate_blob :: "host \<Rightarrow> cas \<Rightarrow> archive \<Rightarrow> string \<Rightarrow> path option lake_result" where
  "locate_blob h c a digest =
     rbind (validate_digest digest) (\<lambda>_.
     rbind (lookup_leaf h c a (leaf digest True)) (\<lambda>present.
       if present then Inr (Some (leaf digest True))
       else rbind (lookup_leaf h c a (leaf digest False)) (\<lambda>present.
         Inr (if present then Some (leaf digest False) else None))))"

text \<open>A file that is gone by the time it is used.\<close>

definition vanished :: os_error where
  "vanished = \<lparr>os_class = FileNotFoundError, os_errno = Some ENOENT\<rparr>"

definition file_call :: "host \<Rightarrow> fs_call \<Rightarrow> archive \<Rightarrow> path \<Rightarrow> os_error + string" where
  "file_call h call a p =
     (case h_fault h call p of
        Some e \<Rightarrow> Inl e
      | None \<Rightarrow> (case dict_get a p of None \<Rightarrow> Inl vanished | Some s \<Rightarrow> Inr s))"

definition blob_details :: "cas \<Rightarrow> path \<Rightarrow> string \<Rightarrow> string \<Rightarrow> (string \<times> detail) list" where
  "blob_details c p digest op =
     [(''path'', DText (path_text c p)), (''sha256'', DText digest), (''op'', DText op)]"

definition stored_size :: "host \<Rightarrow> cas \<Rightarrow> archive \<Rightarrow> path \<Rightarrow> string \<Rightarrow> nat lake_result" where
  "stored_size h c a p digest =
     translated (blob_details c p digest ''stat'') (rmap length (file_call h Stat a p))"

subsection \<open>Writing\<close>

definition scratch_path :: "host \<Rightarrow> path" where
  "scratch_path h = [''staging'', h_name h @ ''.part'']"

definition leave_torn :: "host \<Rightarrow> path \<Rightarrow> archive \<Rightarrow> archive" where
  "leave_torn h p a = (case h_torn h of None \<Rightarrow> a | Some s \<Rightarrow> dict_set a p s)"

text \<open>\<open>unlink(missing_ok=True)\<close> with its failure suppressed, and \<open>os.replace\<close>.\<close>

definition unlink_quietly :: "host \<Rightarrow> path \<Rightarrow> archive \<Rightarrow> archive" where
  "unlink_quietly h p a = (if h_fault h Unlink p = None then dict_del a p else a)"

definition os_replace :: "host \<Rightarrow> path \<Rightarrow> path \<Rightarrow> archive \<Rightarrow> (os_error + unit) \<times> archive" where
  "os_replace h p q a =
     (case file_call h Rename a p of
        Inl e \<Rightarrow> (Inl e, a)
      | Inr s \<Rightarrow> (Inr (), dict_set (dict_del a p) q s))"

text \<open>\<open>_commit\<close>: the parent directory is made outside the guarded block.\<close>

definition commit_file :: "host \<Rightarrow> cas \<Rightarrow> archive \<Rightarrow> path \<Rightarrow> string \<Rightarrow> unit lake_result \<times> archive" where
  "commit_file h c a target payload =
     (case h_fault h Mkdir (butlast target) of
        Some e \<Rightarrow> (Inl (OsExn e), a)
      | None \<Rightarrow>
          let scratch = scratch_path h;
              (r, a1) = (case h_fault h WriteBytes scratch of
                           Some e \<Rightarrow> (Inl e, leave_torn h scratch a)
                         | None \<Rightarrow> os_replace h scratch target (dict_set a scratch payload))
          in (translated [(''path'', DText (path_text c target)), (''op'', DText ''write'')] r,
              unlink_quietly h scratch a1))"

definition compress_data :: "cas \<Rightarrow> string \<Rightarrow> string lake_result" where
  "compress_data c data =
     (case z_compress (cas_zstd c) (cas_level c) data of
        None \<Rightarrow> Inl (blob_exn BlobFailure ''the payload could not be compressed''
                       [(''driver_error'', DText ''ZstdError'')])
      | Some f \<Rightarrow> Inr f)"

definition put ::
  "(string \<Rightarrow> string) \<Rightarrow> host \<Rightarrow> cas \<Rightarrow> archive \<Rightarrow> string \<Rightarrow> bool \<Rightarrow> BlobRef lake_result \<times> archive" where
  "put H h c a data compress =
     (let digest = H data in
      case locate_blob h c a digest of
        Inl e \<Rightarrow> (Inl e, a)
      | Inr (Some existing) \<Rightarrow>
          (rmap (\<lambda>n. \<lparr>ref_sha256 = digest, ref_size = length data, ref_compressed = n\<rparr>)
             (stored_size h c a existing digest), a)
      | Inr None \<Rightarrow>
          (case (if compress then compress_data c data else Inr data) of
             Inl e \<Rightarrow> (Inl e, a)
           | Inr payload \<Rightarrow>
               (case commit_file h c a (leaf digest compress) payload of
                  (Inl e, a1) \<Rightarrow> (Inl e, a1)
                | (Inr _, a1) \<Rightarrow>
                    (Inr \<lparr>ref_sha256 = digest, ref_size = length data, ref_compressed = length payload\<rparr>, a1))))"

subsection \<open>Writing a stream\<close>

text \<open>A stream: the bytes it delivers, and the error it then raises, if any.\<close>

record source =
  src_data :: string
  src_fault :: "os_error option"

function chunks_of :: "nat \<Rightarrow> string \<Rightarrow> string list" where
  "chunks_of n s = (if n = 0 \<or> s = [] then [] else take n s # chunks_of n (drop n s))"
  by auto
termination by (relation "measure (\<lambda>(n, s). length s)") auto

declare chunks_of.simps [simp del]

definition size_mismatch :: "int \<Rightarrow> nat \<Rightarrow> exn" where
  "size_mismatch declared actual =
     blob_exn MalformedRequest ''declared size does not match the bytes read''
       [(''declared'', DInt declared), (''actual'', DInt (int actual))]"

definition codec_failure :: "int option \<Rightarrow> nat \<Rightarrow> exn" where
  "codec_failure hint raw =
     (case hint of
        Some n \<Rightarrow> size_mismatch n raw
      | None \<Rightarrow> blob_exn BlobFailure ''the payload could not be compressed''
                  [(''driver_error'', DText ''ZstdError'')])"

text \<open>The bytes that reach the staging file, from the chunks of the source.\<close>

definition stream_payload :: "cas \<Rightarrow> source \<Rightarrow> bool \<Rightarrow> int option \<Rightarrow> string lake_result" where
  "stream_payload c src compress hint =
     (let chunks = chunks_of (cas_chunk c) (src_data src);
          declared = (case hint of None \<Rightarrow> -1 | Some n \<Rightarrow> n);
          raw_after = (\<lambda>n. length (concat (take n chunks)))
      in case src_fault src of
           Some e \<Rightarrow>
             (case (if compress then z_abort (cas_zstd c) (cas_level c) declared chunks else None) of
                Some n \<Rightarrow> Inl (codec_failure hint (raw_after n))
              | None \<Rightarrow> Inl (OsExn e))
         | None \<Rightarrow>
             if compress
             then (case z_write (cas_zstd c) (cas_level c) declared chunks of
                     Inl n \<Rightarrow> Inl (codec_failure hint (raw_after n))
                   | Inr f \<Rightarrow> Inr f)
             else Inr (concat chunks))"

text \<open>From the complete staging file on: the size check, the lookup, the rename.\<close>

definition place_staged ::
  "(string \<Rightarrow> string) \<Rightarrow> host \<Rightarrow> cas \<Rightarrow> archive \<Rightarrow> string \<Rightarrow> bool \<Rightarrow> int option \<Rightarrow> BlobRef lake_result \<times> archive" where
  "place_staged H h c a raw compress hint =
     (if hint \<noteq> None \<and> hint \<noteq> Some (int (length raw)) then (Inl (size_mismatch (the hint) (length raw)), a)
      else
        let scratch = scratch_path h; digest = H raw in
        case file_call h Stat a scratch of
          Inl e \<Rightarrow> (Inl (OsExn e), a)
        | Inr staged \<Rightarrow>
            (case locate_blob h c a digest of
               Inl e \<Rightarrow> (Inl e, a)
             | Inr (Some existing) \<Rightarrow>
                 (rmap (\<lambda>n. \<lparr>ref_sha256 = digest, ref_size = length raw, ref_compressed = n\<rparr>)
                    (stored_size h c a existing digest), a)
             | Inr None \<Rightarrow>
                 (case h_fault h Mkdir (butlast (leaf digest compress)) of
                    Some e \<Rightarrow> (Inl (OsExn e), a)
                  | None \<Rightarrow>
                      (case os_replace h scratch (leaf digest compress) a of
                         (Inl e, a1) \<Rightarrow> (Inl (OsExn e), a1)
                       | (Inr _, a1) \<Rightarrow>
                           (Inr \<lparr>ref_sha256 = digest, ref_size = length raw,
                                 ref_compressed = length staged\<rparr>, a1)))))"

definition put_stream ::
  "(string \<Rightarrow> string) \<Rightarrow> host \<Rightarrow> cas \<Rightarrow> archive \<Rightarrow> source \<Rightarrow> bool \<Rightarrow> int option \<Rightarrow> BlobRef lake_result \<times> archive" where
  "put_stream H h c a src compress hint =
     (let scratch = scratch_path h;
          (r, a1) =
            (case h_fault h OpenWrite scratch of
               Some e \<Rightarrow> (Inl (OsExn e), a)
             | None \<Rightarrow>
                 (case stream_payload c src compress hint of
                    Inl e \<Rightarrow> (Inl e, leave_torn h scratch a)
                  | Inr payload \<Rightarrow>
                      (case h_fault h WriteBytes scratch of
                         Some e \<Rightarrow> (Inl (OsExn e), leave_torn h scratch a)
                       | None \<Rightarrow>
                           place_staged H h c (dict_set a scratch payload)
                             (concat (chunks_of (cas_chunk c) (src_data src))) compress hint)))
      in (catching_os [(''path'', DText (path_text c scratch)), (''op'', DText ''write'')] r,
          unlink_quietly h scratch a1))"

subsection \<open>Reading\<close>

definition require :: "host \<Rightarrow> cas \<Rightarrow> archive \<Rightarrow> string \<Rightarrow> path lake_result" where
  "require h c a digest =
     rbind (locate_blob h c a digest) (\<lambda>found.
       case found of
         None \<Rightarrow> Inl (blob_exn NotFound ''blob not found'' [(''sha256'', DText digest)])
       | Some p \<Rightarrow> Inr p)"

definition open_read :: "host \<Rightarrow> archive \<Rightarrow> path \<Rightarrow> os_error + string" where
  "open_read h a p =
     (case file_call h OpenRead a p of
        Inl e \<Rightarrow> Inl e
      | Inr s \<Rightarrow> (case h_fault h ReadBytes p of Some e \<Rightarrow> Inl e | None \<Rightarrow> Inr s))"

definition bad_frame :: "cas \<Rightarrow> path \<Rightarrow> string \<Rightarrow> exn" where
  "bad_frame c p digest =
     blob_exn Corrupt ''blob is not a readable zstd frame''
       [(''path'', DText (path_text c p)), (''sha256'', DText digest)]"

definition read_all :: "host \<Rightarrow> cas \<Rightarrow> archive \<Rightarrow> path \<Rightarrow> string \<Rightarrow> string lake_result" where
  "read_all h c a p digest =
     rbind (translated (blob_details c p digest ''read'') (open_read h a p)) (\<lambda>s.
       if path_suffix (last p) \<noteq> ''.zst'' then Inr s
       else (case z_read (cas_zstd c) s of None \<Rightarrow> Inl (bad_frame c p digest) | Some raw \<Rightarrow> Inr raw))"

definition corrupt_blob :: "cas \<Rightarrow> path \<Rightarrow> string \<Rightarrow> string \<Rightarrow> exn" where
  "corrupt_blob c p expected actual =
     blob_exn Corrupt ''blob failed hash verification; the archive is corrupt''
       [(''expected'', DText expected), (''actual'', DText actual), (''path'', DText (path_text c p))]"

definition get :: "(string \<Rightarrow> string) \<Rightarrow> host \<Rightarrow> cas \<Rightarrow> archive \<Rightarrow> string \<Rightarrow> string lake_result" where
  "get H h c a digest =
     rbind (require h c a digest) (\<lambda>p.
     rbind (read_all h c a p digest) (\<lambda>raw.
       if H raw \<noteq> digest then Inl (corrupt_blob c p digest (H raw)) else Inr raw))"

text \<open>
  \<open>get_stream\<close> is a generator: the chunks it yields when it is run to its end, and the exception that ends it.
  The codec's failure is translated like a failed read.
\<close>

definition stream_chunks :: "host \<Rightarrow> cas \<Rightarrow> path \<Rightarrow> string \<Rightarrow> string list \<times> exn option" where
  "stream_chunks h c p s =
     (let (cs, failed) = (if path_suffix (last p) = ''.zst'' then z_pieces (cas_zstd c) (cas_chunk c) s
                          else (chunks_of (cas_chunk c) s, False))
      in case h_fault h ReadBytes p of
           Some e \<Rightarrow> (take (h_read_after h) cs, Some (OsExn e))
         | None \<Rightarrow> (cs, if failed then Some ZstdExn else None))"

definition get_stream ::
  "(string \<Rightarrow> string) \<Rightarrow> host \<Rightarrow> cas \<Rightarrow> archive \<Rightarrow> string \<Rightarrow> string list \<times> exn option" where
  "get_stream H h c a digest =
     (case require h c a digest of
        Inl e \<Rightarrow> ([], Some e)
      | Inr p \<Rightarrow>
          (case translated (blob_details c p digest ''open'') (file_call h OpenRead a p) of
             Inl e \<Rightarrow> ([], Some e)
           | Inr s \<Rightarrow>
               (case stream_chunks h c p s of
                  (cs, Some e) \<Rightarrow> (cs, Some (translate_blob_error (blob_details c p digest ''read'') e))
                | (cs, None) \<Rightarrow>
                    (cs, if H (concat cs) \<noteq> digest then Some (corrupt_blob c p digest (H (concat cs))) else None))))"

subsection \<open>Metadata\<close>

definition exists_blob :: "host \<Rightarrow> cas \<Rightarrow> archive \<Rightarrow> string \<Rightarrow> bool lake_result" where
  "exists_blob h c a digest = rmap (\<lambda>p. p \<noteq> None) (locate_blob h c a digest)"

definition raw_size :: "host \<Rightarrow> cas \<Rightarrow> archive \<Rightarrow> path \<Rightarrow> string \<Rightarrow> nat lake_result" where
  "raw_size h c a p digest =
     rbind (translated (blob_details c p digest ''stat'') (open_read h a p)) (\<lambda>s.
       case z_frame_size (cas_zstd c) (take 18 s) of
         None \<Rightarrow> Inl (bad_frame c p digest)
       | Some n \<Rightarrow>
           if n \<ge> 0 then Inr (nat n)
           else (case z_pieces (cas_zstd c) (cas_chunk c) s of
                   (cs, failed) \<Rightarrow>
                     if failed then Inl (bad_frame c p digest) else Inr (sum_list (map length cs))))"

definition stat_blob :: "host \<Rightarrow> cas \<Rightarrow> archive \<Rightarrow> string \<Rightarrow> BlobRef option lake_result" where
  "stat_blob h c a digest =
     rbind (locate_blob h c a digest) (\<lambda>found.
       case found of
         None \<Rightarrow> Inr None
       | Some p \<Rightarrow>
           rbind (stored_size h c a p digest) (\<lambda>n.
             if path_suffix (last p) \<noteq> ''.zst''
             then Inr (Some \<lparr>ref_sha256 = digest, ref_size = n, ref_compressed = n\<rparr>)
             else rmap (\<lambda>raw. Some \<lparr>ref_sha256 = digest, ref_size = raw, ref_compressed = n\<rparr>)
                    (raw_size h c a p digest)))"

text \<open>\<open>rglob\<close> below a directory: files, and the directories they imply.\<close>

definition entries_below :: "path \<Rightarrow> archive \<Rightarrow> path list" where
  "entries_below d a =
     filter (\<lambda>p. length d < length p \<and> take (length d) p = d)
       (remdups (concat (map (\<lambda>p. map (\<lambda>n. take n p) [1 ..< Suc (length p)]) (map fst a))))"

definition has_ending :: "string \<Rightarrow> string \<Rightarrow> bool" where
  "has_ending suf s \<longleftrightarrow> length suf \<le> length s \<and> drop (length s - length suf) s = suf"

definition path_stem :: "string \<Rightarrow> string" where
  "path_stem name = take (length name - length (path_suffix name)) name"

fun stat_each :: "host \<Rightarrow> cas \<Rightarrow> archive \<Rightarrow> path list \<Rightarrow> BlobRef list \<times> exn option" where
  "stat_each h c a [] = ([], None)"
| "stat_each h c a (p # ps) =
     (let digest = path_stem (last p) in
      if length digest \<noteq> 64 then stat_each h c a ps
      else case stat_blob h c a digest of
             Inl e \<Rightarrow> ([], Some e)
           | Inr None \<Rightarrow> stat_each h c a ps
           | Inr (Some r) \<Rightarrow> (case stat_each h c a ps of (rs, e) \<Rightarrow> (r # rs, e)))"

definition iter_blobs :: "host \<Rightarrow> cas \<Rightarrow> archive \<Rightarrow> BlobRef list \<times> exn option" where
  "iter_blobs h c a =
     (let found = (\<lambda>suf. sort (filter (\<lambda>p. has_ending suf (last p)) (entries_below [''blobs''] a)))
      in stat_each h c a (found ''.zst'' @ found ''.bin''))"

definition is_regular :: "host \<Rightarrow> archive \<Rightarrow> path \<Rightarrow> os_error + bool" where
  "is_regular h a p =
     (case h_fault h IsFile p of
        Some e \<Rightarrow> if ignored_error e then Inr False else Inl e
      | None \<Rightarrow> Inr (dict_get a p \<noteq> None))"

definition total_bytes :: "host \<Rightarrow> cas \<Rightarrow> archive \<Rightarrow> nat lake_result" where
  "total_bytes h c a =
     rfold (\<lambda>n p.
       case is_regular h a p of
         Inl e \<Rightarrow> Inl (OsExn e)
       | Inr False \<Rightarrow> Inr n
       | Inr True \<Rightarrow>
           rmap (\<lambda>s. n + length s)
             (translated [(''path'', DText (path_text c p)), (''op'', DText ''stat'')] (file_call h Stat a p)))
       0 (entries_below [''blobs''] a)"

subsection \<open>Deletion\<close>

definition delete :: "host \<Rightarrow> cas \<Rightarrow> archive \<Rightarrow> string \<Rightarrow> bool lake_result \<times> archive" where
  "delete h c a digest =
     (case locate_blob h c a digest of
        Inl e \<Rightarrow> (Inl e, a)
      | Inr None \<Rightarrow> (Inr False, a)
      | Inr (Some p) \<Rightarrow>
          (case translated (blob_details c p digest ''delete'') (file_call h Unlink a p) of
             Inl e \<Rightarrow> (Inl e, a)
           | Inr _ \<Rightarrow> (Inr True, dict_del a p)))"

fun sweep_parts :: "host \<Rightarrow> cas \<Rightarrow> path list \<Rightarrow> archive \<Rightarrow> nat \<Rightarrow> nat lake_result \<times> archive" where
  "sweep_parts h c [] a n = (Inr n, a)"
| "sweep_parts h c (p # ps) a n =
     (case h_fault h Unlink p of
        Some e \<Rightarrow>
          (Inl (translate_blob_error [(''path'', DText (path_text c p)), (''op'', DText ''delete'')] (OsExn e)), a)
      | None \<Rightarrow> sweep_parts h c ps (dict_del a p) (n + 1))"

definition is_part :: "path \<Rightarrow> bool" where
  "is_part p \<longleftrightarrow> length p = 2 \<and> has_ending ''.part'' (last p)"

definition clear_staging :: "host \<Rightarrow> cas \<Rightarrow> archive \<Rightarrow> nat lake_result \<times> archive" where
  "clear_staging h c a = sweep_parts h c (filter is_part (entries_below [''staging''] a)) a 0"

text \<open>\<open>purge\<close>: \<open>rmtree(root, ignore_errors=True)\<close> goes on past the files that it cannot remove.\<close>

definition purge_archive :: "host \<Rightarrow> archive \<Rightarrow> archive" where
  "purge_archive h a = filter (\<lambda>(p, s). h_fault h Unlink p \<noteq> None) a"

subsection \<open>Host files\<close>

text \<open>A file of the host: what opening it, asking its size and reading it give.\<close>

record host_file =
  hf_path :: string
  hf_open :: "os_error option"
  hf_size :: "os_error + nat"
  hf_source :: source

definition host_errors :: "string \<Rightarrow> 'a lake_result \<Rightarrow> 'a lake_result" where
  "host_errors path r =
     (case r of
        Inl (OsExn e) \<Rightarrow>
          if os_class e = FileNotFoundError
          then Inl (blob_exn NotFound ''host file not found'' [(''path'', DText path)])
          else Inl (translate_blob_error [(''path'', DText path), (''op'', DText ''read'')] (OsExn e))
      | _ \<Rightarrow> r)"

definition copy_file_into ::
  "(string \<Rightarrow> string) \<Rightarrow> host \<Rightarrow> cas \<Rightarrow> archive \<Rightarrow> host_file \<Rightarrow> bool \<Rightarrow> BlobRef lake_result \<times> archive" where
  "copy_file_into H h c a f compress =
     (let (r, a1) =
        (case hf_open f of
           Some e \<Rightarrow> (Inl (OsExn e), a)
         | None \<Rightarrow>
             (case hf_size f of
                Inl e \<Rightarrow> (Inl (OsExn e), a)
              | Inr n \<Rightarrow> put_stream H h c a (hf_source f) compress (Some (int n))))
      in (host_errors (hf_path f) r, a1))"

text \<open>
  \<open>export_to_file\<close>: the destination is a file of another tree with faults of its own; an exception of the
  stream is raised while the sibling file holds the chunks so far.
\<close>

definition export_scratch :: "host \<Rightarrow> path \<Rightarrow> path" where
  "export_scratch h dest = butlast dest @ [last dest @ ''.'' @ take 8 (h_name h) @ ''.part'']"

definition export_chunks ::
  "host \<Rightarrow> path \<Rightarrow> string list \<times> exn option \<Rightarrow> archive \<Rightarrow> path lake_result \<times> archive" where
  "export_chunks dh dest stream t =
     (let scratch = export_scratch dh dest in
      case h_fault dh OpenWrite scratch of
        Some e \<Rightarrow> (Inl (OsExn e), t)
      | None \<Rightarrow>
          (case stream of
             (cs, Some x) \<Rightarrow> (Inl x, dict_set t scratch (concat cs))
           | (cs, None) \<Rightarrow>
               (case h_fault dh WriteBytes scratch of
                  Some e \<Rightarrow> (Inl (OsExn e), leave_torn dh scratch t)
                | None \<Rightarrow>
                    (case os_replace dh scratch dest (dict_set t scratch (concat cs)) of
                       (Inl e, t1) \<Rightarrow> (Inl (OsExn e), t1)
                     | (Inr _, t1) \<Rightarrow> (Inr dest, t1)))))"

definition export_to_file ::
  "(string \<Rightarrow> string) \<Rightarrow> host \<Rightarrow> cas \<Rightarrow> archive \<Rightarrow> string \<Rightarrow> host \<Rightarrow> string \<Rightarrow> path \<Rightarrow> archive
     \<Rightarrow> path lake_result \<times> archive" where
  "export_to_file H h c a digest dh dest_text dest t =
     (case h_fault dh Mkdir (butlast dest) of
        Some e \<Rightarrow> (Inl (OsExn e), t)
      | None \<Rightarrow>
          let (r, t1) = export_chunks dh dest (get_stream H h c a digest) t
          in (catching_os [(''path'', DText dest_text), (''op'', DText ''write'')] r,
              unlink_quietly dh (export_scratch dh dest) t1))"

end
