(* ===== verification/Blob_Properties.thy ===== *)
theory Blob_Properties
  imports Blob_Store
begin

text \<open>
  Properties of the blob store: the archive as a map from digests to bytes and what each operation does to
  that map, the invariant that every stored file verifies, and the errors that can leave each operation.
\<close>

subsection \<open>The digest as an address\<close>

locale hex_address = hex_digest +
  assumes digest_digits: "set (H m) \<subseteq> set hex_chars"
begin

lemma digest_is_digest: "is_digest (H m)"
  using digest_length[of m] digest_digits[of m] by (auto simp: is_digest_def list_all_iff)

end

lemma digit_char_hex: "d < 16 \<Longrightarrow> digit_char d \<in> set hex_chars"
proof -
  have "\<forall>d \<in> set [0 ..< 16]. digit_char d \<in> set hex_chars" by code_simp
  then show "d < 16 \<Longrightarrow> digit_char d \<in> set hex_chars" by simp
qed

lemma sha_hex_digits: "set (sha_hex s) \<subseteq> set hex_chars"
  by (cases s) (auto dest!: pad_digits[rotated 2] intro: digit_char_hex)

interpretation sha256_address: hex_address sha256_hex
  by unfold_locales (simp add: sha256_hex_def sha_hex_digits)

text \<open>What the store relies on from the codec.\<close>

definition codec_ok :: "zstd \<Rightarrow> bool" where
  "codec_ok z \<longleftrightarrow>
     (\<forall>l d f. z_compress z l d = Some f \<longrightarrow> z_read z f = Some d) \<and>
     (\<forall>l n cs f. z_write z l n cs = Inr f \<longrightarrow> z_read z f = Some (concat cs)) \<and>
     (\<forall>k f raw. z_read z f = Some raw \<longrightarrow> 0 < k \<longrightarrow> (\<exists>cs. z_pieces z k f = (cs, False) \<and> concat cs = raw)) \<and>
     (\<forall>f raw. z_read z f = Some raw \<longrightarrow>
        (\<exists>n. z_frame_size z (take 18 f) = Some n \<and> (n \<ge> 0 \<longrightarrow> n = int (length raw))))"

lemma codec_okD:
  assumes "codec_ok z"
  shows "z_compress z l d = Some f \<Longrightarrow> z_read z f = Some d"
    and "z_write z l n cs = Inr f \<Longrightarrow> z_read z f = Some (concat cs)"
    and "z_read z f = Some raw \<Longrightarrow> 0 < k \<Longrightarrow> \<exists>cs. z_pieces z k f = (cs, False) \<and> concat cs = raw"
    and "z_read z f = Some raw \<Longrightarrow>
      \<exists>n. z_frame_size z (take 18 f) = Some n \<and> (n \<ge> 0 \<longrightarrow> n = int (length raw))"
  using assms unfolding codec_ok_def by blast+

subsection \<open>Paths\<close>

lemma leaf_inj: "is_digest d \<Longrightarrow> is_digest d' \<Longrightarrow> leaf d b = leaf d' b' \<longleftrightarrow> d = d' \<and> b = b'"
  by (auto simp: leaf_def is_digest_def split: if_splits)

lemma leaf_not_scratch [simp]: "leaf d b \<noteq> scratch_path h" "scratch_path h \<noteq> leaf d b"
  by (simp_all add: leaf_def scratch_path_def)

lemma last_leaf: "last (leaf d b) = d @ (if b then ''.zst'' else ''.bin'')"
  by (simp add: leaf_def)

lemma path_suffix_leaf:
  assumes "is_digest d"
  shows "path_suffix (last (leaf d b)) = (if b then ''.zst'' else ''.bin'')"
  using assms by (auto simp: last_leaf path_suffix_def is_digest_def Let_def)

lemma concat_chunks_of: "0 < n \<Longrightarrow> concat (chunks_of n s) = s"
proof (induction n s rule: chunks_of.induct)
  case (1 n s)
  then show ?case by (subst chunks_of.simps) (cases "s = []"; simp)
qed

subsection \<open>The archive as a map\<close>

text \<open>The bytes that a stored file stands for, and the archive as a map from digests to bytes.\<close>

definition decode :: "cas \<Rightarrow> bool \<Rightarrow> string \<Rightarrow> string option" where
  "decode c compressed s = (if compressed then z_read (cas_zstd c) s else Some s)"

definition held :: "cas \<Rightarrow> archive \<Rightarrow> string \<Rightarrow> string option" where
  "held c a d =
     (if is_digest d
      then (case dict_get a (leaf d True) of
              Some s \<Rightarrow> decode c True s
            | None \<Rightarrow> (case dict_get a (leaf d False) of Some s \<Rightarrow> decode c False s | None \<Rightarrow> None))
      else None)"

text \<open>Every file at the address of a blob verifies, and no blob is there in both forms.\<close>

definition verifies :: "(string \<Rightarrow> string) \<Rightarrow> cas \<Rightarrow> archive \<Rightarrow> bool" where
  "verifies H c a \<longleftrightarrow>
     (\<forall>d b s. is_digest d \<longrightarrow> dict_get a (leaf d b) = Some s \<longrightarrow> (\<exists>raw. decode c b s = Some raw \<and> H raw = d))"

definition one_form :: "archive \<Rightarrow> bool" where
  "one_form a \<longleftrightarrow>
     (\<forall>d. is_digest d \<longrightarrow> dict_get a (leaf d True) = None \<or> dict_get a (leaf d False) = None)"

definition store_ok :: "(string \<Rightarrow> string) \<Rightarrow> cas \<Rightarrow> archive \<Rightarrow> bool" where
  "store_ok H c a \<longleftrightarrow> verifies H c a \<and> one_form a"

text \<open>The host does not report a file as absent by an error that \<open>Path.exists\<close> swallows; a quiet host raises nothing.\<close>

definition candid :: "host \<Rightarrow> bool" where
  "candid h \<longleftrightarrow> (\<forall>p e. h_fault h Exists p = Some e \<longrightarrow> \<not> ignored_error e)"

definition quiet_host :: "host \<Rightarrow> bool" where
  "quiet_host h \<longleftrightarrow> (\<forall>call p. h_fault h call p = None)"

lemma quiet_candid: "quiet_host h \<Longrightarrow> candid h"
  by (simp add: quiet_host_def candid_def)

text \<open>Two archives with the same files at the addresses of blobs.\<close>

definition same_blobs :: "archive \<Rightarrow> archive \<Rightarrow> bool" where
  "same_blobs a a' \<longleftrightarrow> (\<forall>d b. is_digest d \<longrightarrow> dict_get a' (leaf d b) = dict_get a (leaf d b))"

lemma same_blobs_refl [simp]: "same_blobs a a"
  by (simp add: same_blobs_def)

lemma same_blobs_held: "same_blobs a a' \<Longrightarrow> held c a' = held c a"
  by (rule ext) (simp add: same_blobs_def held_def cong: option.case_cong)

lemma same_blobs_ok: "same_blobs a a' \<Longrightarrow> store_ok H c a' = store_ok H c a"
  by (simp add: same_blobs_def store_ok_def verifies_def one_form_def)

lemma same_blobs_trans: "same_blobs a b \<Longrightarrow> same_blobs b c \<Longrightarrow> same_blobs a c"
  by (simp add: same_blobs_def)

lemma same_blobs_staging:
  "same_blobs a a' \<Longrightarrow> same_blobs a (dict_set a' (scratch_path h) s)"
  "same_blobs a a' \<Longrightarrow> same_blobs a (dict_del a' (scratch_path h))"
  "same_blobs a a' \<Longrightarrow> same_blobs a (leave_torn h (scratch_path h) a')"
  "same_blobs a a' \<Longrightarrow> same_blobs a (unlink_quietly h (scratch_path h) a')"
  by (auto simp: same_blobs_def dict_get_set dict_get_del leave_torn_def unlink_quietly_def
      split: option.splits)

text \<open>One file more, and one blob fewer.\<close>

lemma store_ok_add:
  assumes ok: "store_ok H c a" and d: "is_digest d" "held c a d = None" "dict_get a (leaf d True) = None"
      "dict_get a (leaf d False) = None"
    and raw: "decode c b s = Some raw" "H raw = d"
    and a': "\<And>d' b'. is_digest d' \<Longrightarrow>
      dict_get a' (leaf d' b') = (if d' = d \<and> b' = b then Some s else dict_get a (leaf d' b'))"
  shows "store_ok H c a'" "held c a' = (held c a)(d \<mapsto> raw)"
proof -
  show "store_ok H c a'" using ok d raw
    by (auto simp: store_ok_def verifies_def one_form_def a' split: if_splits)
  show "held c a' = (held c a)(d \<mapsto> raw)"
  proof
    fix d'
    show "held c a' d' = ((held c a)(d \<mapsto> raw)) d'"
      using d raw by (cases b) (auto simp: held_def a' cong: option.case_cong)
  qed
qed

subsection \<open>Lookup\<close>

lemma locate_typed: "fails_typed (locate_blob h c a d)"
  unfolding locate_blob_def validate_digest_def lookup_leaf_def
  by (intro fails_typed_rbind) auto

lemma locate_eq:
  "locate_blob h c a d = Inr found \<longleftrightarrow>
     is_digest d \<and>
     (present_at h a (leaf d True) = Inr True \<and> found = Some (leaf d True) \<or>
      present_at h a (leaf d True) = Inr False \<and> present_at h a (leaf d False) = Inr True \<and>
        found = Some (leaf d False) \<or>
      present_at h a (leaf d True) = Inr False \<and> present_at h a (leaf d False) = Inr False \<and> found = None)"
proof (cases "is_digest d")
  case True
  then show ?thesis
    unfolding locate_blob_def validate_digest_def lookup_leaf_def
    by (cases "present_at h a (leaf d True)"; cases "present_at h a (leaf d False)") auto
qed (simp add: locate_blob_def validate_digest_def)

lemma locate_digest: "locate_blob h c a d = Inr found \<Longrightarrow> is_digest d"
  by (simp add: locate_eq)

lemma present_at_candid:
  "candid h \<Longrightarrow> present_at h a p = Inr False \<Longrightarrow> dict_get a p = None"
  by (auto simp: present_at_def candid_def split: option.splits if_splits)

lemma present_at_True: "present_at h a p = Inr True \<Longrightarrow> \<exists>s. dict_get a p = Some s"
  by (auto simp: present_at_def split: option.splits if_splits)

lemma locate_Some:
  assumes "locate_blob h c a d = Inr (Some p)"
  obtains b s where "is_digest d" "p = leaf d b" "dict_get a p = Some s"
  using assms present_at_True unfolding locate_eq by blast

lemma locate_None:
  assumes "candid h" "locate_blob h c a d = Inr None"
  shows "dict_get a (leaf d b) = None"
  using assms present_at_candid[of h a] by (cases b) (auto simp: locate_eq)

lemma locate_first:
  assumes "candid h" "locate_blob h c a d = Inr (Some (leaf d False))"
  shows "dict_get a (leaf d True) = None"
  using assms present_at_candid[of h a] leaf_inj[of d d True False] by (auto simp: locate_eq)

lemma held_None: "dict_get a (leaf d True) = None \<Longrightarrow> dict_get a (leaf d False) = None \<Longrightarrow> held c a d = None"
  by (simp add: held_def)

lemma store_ok_verifies: "store_ok H c a \<Longrightarrow> verifies H c a"
  by (simp add: store_ok_def)

lemma locate_held:
  assumes ok: "verifies H c a" and h: "candid h" and l: "locate_blob h c a d = Inr found"
  shows "found \<noteq> None \<longleftrightarrow> held c a d \<noteq> None"
proof (cases found)
  case None
  with locate_None[OF h] l show ?thesis by (simp add: held_None)
next
  case (Some p)
  with l obtain b s where p: "is_digest d" "p = leaf d b" "dict_get a p = Some s" by (blast elim: locate_Some)
  from ok p obtain raw where raw: "decode c b s = Some raw" unfolding verifies_def by blast
  have "held c a d = Some raw"
  proof (cases b)
    case True with p raw show ?thesis by (simp add: held_def)
  next
    case False
    with p raw locate_first[OF h, of c a d] l Some show ?thesis by (simp add: held_def)
  qed
  with Some show ?thesis by simp
qed

subsection \<open>Writing\<close>

text \<open>A committed payload is the one new file; a failed commit leaves the blobs as they were.\<close>

lemma commit_effect:
  "case commit_file h c a (leaf d b) payload of
     (Inl e, a1) \<Rightarrow> same_blobs a a1
   | (Inr _, a1) \<Rightarrow> (\<forall>d' b'. is_digest d \<longrightarrow> is_digest d' \<longrightarrow>
       dict_get a1 (leaf d' b') = (if d' = d \<and> b' = b then Some payload else dict_get a (leaf d' b')))"
proof (cases "h_fault h Mkdir (butlast (leaf d b))")
  case None
  let ?s = "scratch_path h"
  define ra where "ra = (case h_fault h WriteBytes ?s of
      Some e \<Rightarrow> (Inl e, leave_torn h ?s a)
    | None \<Rightarrow> os_replace h ?s (leaf d b) (dict_set a ?s payload))"
  have eq: "commit_file h c a (leaf d b) payload =
      (translated [(''path'', DText (path_text c (leaf d b))), (''op'', DText ''write'')] (fst ra),
       unlink_quietly h ?s (snd ra))"
    unfolding commit_file_def ra_def by (simp only: None option.case Let_def case_prod_beta)
  show ?thesis
  proof (cases "fst ra")
    case (Inl e)
    then have "same_blobs a (snd ra)"
      by (auto simp: ra_def os_replace_def intro: same_blobs_staging split: option.splits sum.splits)
    with Inl show ?thesis by (simp add: eq same_blobs_staging)
  next
    case (Inr u)
    then have get: "dict_get (snd ra) r = (if r = leaf d b then Some payload else if r = ?s then None else dict_get a r)" for r
      by (auto simp: ra_def os_replace_def file_call_def dict_get_set dict_get_del split: option.splits sum.splits)
    have "dict_get (unlink_quietly h ?s (snd ra)) (leaf d' b') =
        (if d' = d \<and> b' = b then Some payload else dict_get a (leaf d' b'))"
      if "is_digest d" "is_digest d'" for d' b'
      using that by (simp add: unlink_quietly_def dict_get_del get leaf_inj)
    with Inr show ?thesis by (simp add: eq)
  qed
qed (simp add: commit_file_def)

text \<open>
  What a write promises: on failure every blob is as it was; on success the reference names the data, and
  the map has gained the data at its digest unless there was a blob at that digest already.
\<close>

definition stored ::
  "(string \<Rightarrow> string) \<Rightarrow> cas \<Rightarrow> archive \<Rightarrow> string \<Rightarrow> BlobRef lake_result \<times> archive \<Rightarrow> bool" where
  "stored H c a data out \<longleftrightarrow>
     (case out of
        (Inl e, a1) \<Rightarrow> same_blobs a a1
      | (Inr r, a1) \<Rightarrow>
          ref_sha256 r = H data \<and> ref_size r = length data \<and> store_ok H c a1 \<and>
          held c a1 = (if held c a (H data) = None then (held c a)(H data \<mapsto> data) else held c a))"

lemma stored_new:
  assumes ok: "store_ok H c a" and H: "hex_address H" and h: "candid h"
    and l: "locate_blob h c a (H data) = Inr None" and raw: "decode c b payload = Some data"
    and a1: "\<And>d' b'. is_digest d' \<Longrightarrow> dict_get a1 (leaf d' b') =
      (if d' = H data \<and> b' = b then Some payload else dict_get a (leaf d' b'))"
    and r: "ref_sha256 r = H data" "ref_size r = length data"
  shows "stored H c a data (Inr r, a1)"
proof -
  note absent = locate_None[OF h l]
  have "held c a (H data) = None" using absent by (simp add: held_None)
  then show ?thesis
    using store_ok_add[OF ok hex_address.digest_is_digest[OF H] _ absent absent raw refl a1] r
    by (simp add: stored_def)
qed

lemma stored_there:
  assumes ok: "store_ok H c a" and h: "candid h" and l: "locate_blob h c a (H data) = Inr (Some p)"
    and same: "same_blobs a a1" and r: "ref_sha256 r = H data" "ref_size r = length data"
  shows "stored H c a data (Inr r, a1)"
proof -
  have "held c a (H data) \<noteq> None" using locate_held[OF store_ok_verifies[OF ok] h l] by blast
  then show ?thesis using ok r same by (auto simp: stored_def same_blobs_held same_blobs_ok)
qed

theorem put_stored:
  assumes ok: "store_ok H c a" and H: "hex_address H" and z: "codec_ok (cas_zstd c)" and h: "candid h"
  shows "stored H c a data (put H h c a data b)"
proof (cases "locate_blob h c a (H data)")
  case (Inl e)
  then show ?thesis by (simp add: put_def stored_def)
next
  case located: (Inr found)
  show ?thesis
  proof (cases found)
    case (Some p)
    then show ?thesis
    proof (cases "stored_size h c a p (H data)")
      case (Inl e)
      with located Some show ?thesis by (simp add: put_def stored_def)
    next
      case (Inr n)
      with located Some show ?thesis by (auto simp: put_def intro!: stored_there[OF ok h])
    qed
  next
    case None
    show ?thesis
    proof (cases "if b then compress_data c data else Inr data")
      case (Inl e)
      with located None show ?thesis by (simp add: put_def stored_def)
    next
      case (Inr payload)
      then have dec: "decode c b payload = Some data"
        by (auto simp: decode_def compress_data_def split: if_splits option.splits intro: codec_okD(1)[OF z])
      obtain r a1 where cm: "commit_file h c a (leaf (H data) b) payload = (r, a1)" by fastforce
      show ?thesis
      proof (cases r)
        case Inl2: (Inl e)
        with commit_effect[where h = h and c = c and a = a and d = "H data" and b = b and payload = payload] cm have "same_blobs a a1" by simp
        with located None Inr cm Inl2 show ?thesis by (simp add: put_def stored_def)
      next
        case Inr2: (Inr u)
        from commit_effect[where h = h and c = c and a = a and d = "H data" and b = b and payload = payload] cm Inr2 hex_address.digest_is_digest[OF H]
        have a1: "is_digest d' \<Longrightarrow> dict_get a1 (leaf d' b') =
            (if d' = H data \<and> b' = b then Some payload else dict_get a (leaf d' b'))" for d' b'
          by simp
        have "put H h c a data b =
            (Inr \<lparr>ref_sha256 = H data, ref_size = length data, ref_compressed = length payload\<rparr>, a1)"
          using located None Inr cm Inr2 by (simp add: put_def)
        with stored_new[OF ok H h _ dec a1] located None show ?thesis by simp
      qed
    qed
  qed
qed

lemma stored_same: "same_blobs a0 a \<Longrightarrow> stored H c a data out = stored H c a0 data out"
  by (auto simp: stored_def same_blobs_held same_blobs_ok split: sum.splits prod.splits)
    (auto simp: same_blobs_def)

lemma stored_catching: "stored H c a data (catching_os ds r, a1) = stored H c a data (r, a1)"
  by (cases r) (auto simp: stored_def catching_os_def split: exn.splits)

lemma stored_unlink: "stored H c a data (r, unlink_quietly h (scratch_path h) a1) = stored H c a data (r, a1)"
proof -
  have s: "same_blobs a1 (unlink_quietly h (scratch_path h) a1)"
    by (rule same_blobs_staging) simp
  then have "same_blobs a (unlink_quietly h (scratch_path h) a1) \<longleftrightarrow> same_blobs a a1"
    by (auto simp: same_blobs_def)
  with same_blobs_held[OF s] same_blobs_ok[OF s] show ?thesis
    by (cases r) (simp_all add: stored_def)
qed

lemma place_stored:
  assumes ok: "store_ok H c a" and H: "hex_address H" and h: "candid h"
    and staged: "dict_get a (scratch_path h) = Some payload" and dec: "decode c b payload = Some raw"
  shows "stored H c a raw (place_staged H h c a raw b hint)"
proof -
  have refused: "stored H c a raw (Inl e, a)" for e by (simp add: stored_def)
  show ?thesis
  proof (cases "hint \<noteq> None \<and> hint \<noteq> Some (int (length raw)) \<or> h_fault h Stat (scratch_path h) \<noteq> None")
    case True
    then show ?thesis
      by (auto simp: place_staged_def file_call_def Let_def refused split: option.splits)
  next
    case False
    then have eq: "place_staged H h c a raw b hint =
       (case locate_blob h c a (H raw) of
          Inl e \<Rightarrow> (Inl e, a)
        | Inr (Some existing) \<Rightarrow>
            (rmap (\<lambda>n. \<lparr>ref_sha256 = H raw, ref_size = length raw, ref_compressed = n\<rparr>)
               (stored_size h c a existing (H raw)), a)
        | Inr None \<Rightarrow>
            (case h_fault h Mkdir (butlast (leaf (H raw) b)) of
               Some e \<Rightarrow> (Inl (OsExn e), a)
             | None \<Rightarrow>
                 (case os_replace h (scratch_path h) (leaf (H raw) b) a of
                    (Inl e, a1) \<Rightarrow> (Inl (OsExn e), a1)
                  | (Inr _, a1) \<Rightarrow>
                      (Inr \<lparr>ref_sha256 = H raw, ref_size = length raw, ref_compressed = length payload\<rparr>, a1))))"
      unfolding place_staged_def file_call_def using staged by (auto simp: Let_def)
    show ?thesis
    proof (cases "locate_blob h c a (H raw)")
      case (Inl e)
      then show ?thesis by (simp add: eq refused)
    next
      case (Inr found)
      note located = this
      show ?thesis
      proof (cases found)
        case (Some p)
        with located show ?thesis
          by (cases "stored_size h c a p (H raw)") (auto simp: eq refused intro!: stored_there[OF ok h])
      next
        case None
        show ?thesis
        proof (cases "h_fault h Mkdir (butlast (leaf (H raw) b)) \<noteq> None \<or> h_fault h Rename (scratch_path h) \<noteq> None")
          case True
          with located None show ?thesis
            by (auto simp: eq os_replace_def file_call_def refused split: option.splits)
        next
          case no_fault: False
          let ?a1 = "dict_set (dict_del a (scratch_path h)) (leaf (H raw) b) payload"
          have a1: "is_digest d' \<Longrightarrow> dict_get ?a1 (leaf d' b') =
              (if d' = H raw \<and> b' = b then Some payload else dict_get a (leaf d' b'))" for d' b'
            by (simp add: dict_get_set dict_get_del leaf_inj hex_address.digest_is_digest[OF H])
          have "place_staged H h c a raw b hint =
              (Inr \<lparr>ref_sha256 = H raw, ref_size = length raw, ref_compressed = length payload\<rparr>, ?a1)"
            using located None no_fault staged by (simp add: eq os_replace_def file_call_def)
          with stored_new[OF ok H h _ dec a1] located None show ?thesis by simp
        qed
      qed
    qed
  qed
qed

lemma stream_payload_decodes:
  assumes "codec_ok (cas_zstd c)" "0 < cas_chunk c" "stream_payload c src b hint = Inr payload"
  shows "decode c b payload = Some (src_data src)"
  using assms(3) codec_okD(2)[OF assms(1)] concat_chunks_of[OF assms(2)]
  by (auto simp: stream_payload_def decode_def Let_def split: option.splits sum.splits if_splits)

theorem put_stream_stored:
  assumes ok: "store_ok H c a" and H: "hex_address H" and z: "codec_ok (cas_zstd c)" and h: "candid h"
    and k: "0 < cas_chunk c"
  shows "stored H c a (src_data src) (put_stream H h c a src b hint)"
proof -
  let ?s = "scratch_path h"
  define ra where "ra = (case h_fault h OpenWrite ?s of
      Some e \<Rightarrow> (Inl (OsExn e), a)
    | None \<Rightarrow> (case stream_payload c src b hint of
        Inl e \<Rightarrow> (Inl e, leave_torn h ?s a)
      | Inr payload \<Rightarrow> (case h_fault h WriteBytes ?s of
          Some e \<Rightarrow> (Inl (OsExn e), leave_torn h ?s a)
        | None \<Rightarrow> place_staged H h c (dict_set a ?s payload) (src_data src) b hint)))"
  have eq: "put_stream H h c a src b hint =
      (catching_os [(''path'', DText (path_text c ?s)), (''op'', DText ''write'')] (fst ra),
       unlink_quietly h ?s (snd ra))"
    unfolding put_stream_def ra_def by (simp only: Let_def case_prod_beta concat_chunks_of[OF k])
  have "stored H c a (src_data src) ra"
  proof (cases "h_fault h OpenWrite ?s \<noteq> None \<or> (\<exists>e. stream_payload c src b hint = Inl e)
      \<or> h_fault h WriteBytes ?s \<noteq> None")
    case True
    then show ?thesis
      by (auto simp: ra_def stored_def same_blobs_staging split: option.splits sum.splits)
  next
    case False
    then obtain payload where p: "stream_payload c src b hint = Inr payload"
      by (cases "stream_payload c src b hint") auto
    let ?a1 = "dict_set a ?s payload"
    have same: "same_blobs a ?a1" by (rule same_blobs_staging) simp
    have "stored H c ?a1 (src_data src) (place_staged H h c ?a1 (src_data src) b hint)"
      using same_blobs_ok[OF same] ok stream_payload_decodes[OF z k p]
      by (intro place_stored[OF _ H h]) (auto simp: dict_get_set)
    with stored_same[OF same] have "stored H c a (src_data src) (place_staged H h c ?a1 (src_data src) b hint)"
      by simp
    with False p show ?thesis by (simp add: ra_def)
  qed
  then show ?thesis by (simp add: eq stored_catching stored_unlink)
qed

lemma host_errors_Inr [simp]: "host_errors p (Inr x) = Inr x" "host_errors p r = Inr x \<longleftrightarrow> r = Inr x"
  by (auto simp: host_errors_def split: sum.splits exn.splits)

lemma stored_host_errors: "stored H c a data (host_errors p r, a1) = stored H c a data (r, a1)"
  by (cases r) (auto simp: stored_def host_errors_def split: exn.splits)

theorem copy_file_stored:
  assumes "store_ok H c a" "hex_address H" "codec_ok (cas_zstd c)" "candid h" "0 < cas_chunk c"
  shows "stored H c a (src_data (hf_source f)) (copy_file_into H h c a f b)"
proof -
  define ra where "ra = (case hf_open f of
      Some e \<Rightarrow> (Inl (OsExn e), a)
    | None \<Rightarrow> (case hf_size f of
        Inl e \<Rightarrow> (Inl (OsExn e), a)
      | Inr n \<Rightarrow> put_stream H h c a (hf_source f) b (Some (int n))))"
  have "stored H c a (src_data (hf_source f)) ra"
    using put_stream_stored[OF assms]
    by (cases "hf_open f"; cases "hf_size f") (simp_all add: ra_def stored_def)
  then have "stored H c a (src_data (hf_source f)) (host_errors (hf_path f) (fst ra), snd ra)"
    by (simp add: stored_host_errors)
  then show ?thesis by (simp add: copy_file_into_def ra_def case_prod_beta Let_def)
qed

subsection \<open>Deletion and the staging sweep\<close>

theorem delete_effect:
  assumes ok: "store_ok H c a" and h: "candid h"
  shows "case delete h c a d of
      (Inl e, a1) \<Rightarrow> a1 = a
    | (Inr gone, a1) \<Rightarrow> gone = (held c a d \<noteq> None) \<and> store_ok H c a1 \<and> held c a1 = (held c a)(d := None)"
proof (cases "locate_blob h c a d")
  case (Inl e)
  then show ?thesis by (simp add: delete_def)
next
  case (Inr found)
  note located = this
  show ?thesis
  proof (cases found)
    case None
    then have "held c a d = None" using locate_held[OF store_ok_verifies[OF ok] h located] by simp
    moreover from this have "(held c a)(d := None) = held c a" by (simp add: fun_upd_idem)
    ultimately show ?thesis using located None ok by (simp add: delete_def)
  next
    case (Some p)
    with located obtain b s where p: "is_digest d" "p = leaf d b" "dict_get a p = Some s"
      by (blast elim: locate_Some)
    show ?thesis
    proof (cases "file_call h Unlink a p")
      case (Inl e)
      with located Some show ?thesis by (simp add: delete_def)
    next
      case (Inr u)
      have other: "dict_get a (leaf d (\<not> b)) = None"
        using ok p by (cases b) (auto simp: store_ok_def one_form_def)
      have a1: "is_digest d' \<Longrightarrow> dict_get (dict_del a p) (leaf d' b') =
          (if d' = d then None else dict_get a (leaf d' b'))" for d' b'
        using p other by (cases "b' = b") (auto simp: dict_get_del leaf_inj)
      have "held c (dict_del a p) = (held c a)(d := None)"
        by (rule ext) (simp add: held_def a1 cong: option.case_cong)
      moreover have "store_ok H c (dict_del a p)"
        using ok by (auto simp: store_ok_def verifies_def one_form_def a1 split: if_splits)
      moreover have "held c a d \<noteq> None" using locate_held[OF store_ok_verifies[OF ok] h located] Some by simp
      ultimately show ?thesis using located Some Inr by (simp add: delete_def)
    qed
  qed
qed

lemma sweep_parts_same:
  "\<forall>p \<in> set ps. take 1 p = [''staging''] \<Longrightarrow> same_blobs a (snd (sweep_parts h c ps a n))"
proof (induction ps arbitrary: a n)
  case (Cons p ps)
  from Cons.prems have "leaf d b \<noteq> p" for d b by (auto simp: leaf_def)
  then have "same_blobs a (dict_del a p)" by (simp add: same_blobs_def dict_get_del)
  moreover have "same_blobs (dict_del a p) (snd (sweep_parts h c ps (dict_del a p) (n + 1)))"
    using Cons by simp
  ultimately have "same_blobs a (snd (sweep_parts h c ps (dict_del a p) (n + 1)))"
    by (rule same_blobs_trans)
  then show ?case by (auto split: option.splits)
qed simp

theorem clear_staging_effect: "same_blobs a (snd (clear_staging h c a))"
  unfolding clear_staging_def by (rule sweep_parts_same) (auto simp: entries_below_def)

lemma purge_get: "dict_get (purge_archive h a) p = (if h_fault h Unlink p \<noteq> None then dict_get a p else None)"
  by (induction a) (auto simp: purge_archive_def dict_get_def)

theorem purge_effect:
  assumes "store_ok H c a"
  shows "store_ok H c (purge_archive h a)" "held c (purge_archive h a) d \<in> {None, held c a d}"
proof -
  show "store_ok H c (purge_archive h a)"
    using assms by (auto simp: store_ok_def verifies_def one_form_def purge_get split: if_splits)
  have "is_digest d \<Longrightarrow> dict_get a (leaf d True) = None \<or> dict_get a (leaf d False) = None"
    using assms by (simp add: store_ok_def one_form_def)
  then show "held c (purge_archive h a) d \<in> {None, held c a d}"
    by (cases "is_digest d"; cases "dict_get a (leaf d True)"; cases "dict_get a (leaf d False)")
      (auto simp: held_def purge_get)
qed

subsection \<open>Sequences of operations\<close>

datatype blob_op =
    OpPut host string bool
  | OpStream host source bool "int option"
  | OpCopy host host_file bool
  | OpDelete host string
  | OpSweep host

datatype answer = Stored BlobRef | Removed bool | Swept nat

fun run_op :: "(string \<Rightarrow> string) \<Rightarrow> cas \<Rightarrow> blob_op \<Rightarrow> archive \<Rightarrow> answer lake_result \<times> archive" where
  "run_op H c (OpPut h data b) a = map_prod (rmap Stored) id (put H h c a data b)"
| "run_op H c (OpStream h src b hint) a = map_prod (rmap Stored) id (put_stream H h c a src b hint)"
| "run_op H c (OpCopy h f b) a = map_prod (rmap Stored) id (copy_file_into H h c a f b)"
| "run_op H c (OpDelete h d) a = map_prod (rmap Removed) id (delete h c a d)"
| "run_op H c (OpSweep h) a = map_prod (rmap Swept) id (clear_staging h c a)"

fun op_host :: "blob_op \<Rightarrow> host" where
  "op_host (OpPut h _ _) = h"
| "op_host (OpStream h _ _ _) = h"
| "op_host (OpCopy h _ _) = h"
| "op_host (OpDelete h _) = h"
| "op_host (OpSweep h) = h"

fun run_blob_ops :: "(string \<Rightarrow> string) \<Rightarrow> cas \<Rightarrow> blob_op list \<Rightarrow> archive \<Rightarrow> answer lake_result list \<times> archive" where
  "run_blob_ops H c [] a = ([], a)"
| "run_blob_ops H c (op # ops) a =
     (case run_op H c op a of
        (r, a1) \<Rightarrow> (case run_blob_ops H c ops a1 of (rs, a2) \<Rightarrow> (r # rs, a2)))"

text \<open>
  The abstract store: a map from digests to bytes. A successful write adds its data at their digest if there
  is nothing there, a successful delete removes, and anything else leaves the map alone.
\<close>

type_synonym blobs = "string \<Rightarrow> string option"

definition spec_add :: "(string \<Rightarrow> string) \<Rightarrow> string \<Rightarrow> blobs \<Rightarrow> blobs" where
  "spec_add H data m = (if m (H data) = None then m(H data \<mapsto> data) else m)"

fun spec_op :: "(string \<Rightarrow> string) \<Rightarrow> blob_op \<Rightarrow> answer lake_result \<Rightarrow> blobs \<Rightarrow> blobs" where
  "spec_op H (OpPut _ data _) (Inr _) m = spec_add H data m"
| "spec_op H (OpStream _ src _ _) (Inr _) m = spec_add H (src_data src) m"
| "spec_op H (OpCopy _ f _) (Inr _) m = spec_add H (src_data (hf_source f)) m"
| "spec_op H (OpDelete _ d) (Inr _) m = m(d := None)"
| "spec_op H _ _ m = m"

fun spec_ops :: "(string \<Rightarrow> string) \<Rightarrow> blob_op list \<Rightarrow> answer lake_result list \<Rightarrow> blobs \<Rightarrow> blobs" where
  "spec_ops H (op # ops) (r # rs) m = spec_ops H ops rs (spec_op H op r m)"
| "spec_ops H _ _ m = m"

lemma stored_step:
  assumes "stored H c a data out" "store_ok H c a"
  shows "store_ok H c (snd out)"
    "held c (snd out) = (case fst out of Inl e \<Rightarrow> held c a | Inr r \<Rightarrow> spec_add H data (held c a))"
proof -
  obtain r a1 where out: "out = (r, a1)" by fastforce
  have "store_ok H c a1 \<and> held c a1 = (case r of Inl e \<Rightarrow> held c a | Inr r \<Rightarrow> spec_add H data (held c a))"
    using assms by (cases r) (simp_all add: out stored_def spec_add_def same_blobs_ok same_blobs_held)
  then show "store_ok H c (snd out)"
    "held c (snd out) = (case fst out of Inl e \<Rightarrow> held c a | Inr r \<Rightarrow> spec_add H data (held c a))"
    by (simp_all add: out)
qed

lemma run_op_step:
  assumes ok: "store_ok H c a" and H: "hex_address H" and z: "codec_ok (cas_zstd c)" "0 < cas_chunk c"
    and h: "candid (op_host op)"
  shows "store_ok H c (snd (run_op H c op a)) \<and>
    held c (snd (run_op H c op a)) = spec_op H op (fst (run_op H c op a)) (held c a)"
proof (cases op)
  case (OpPut h data b)
  with stored_step[OF put_stored[OF ok H z(1)] ok, of h data b] assms show ?thesis
    by (cases "fst (put H h c a data b)") (simp_all add: map_prod_def case_prod_beta)
next
  case (OpStream h src b hint)
  with stored_step[OF put_stream_stored[OF ok H z(1) _ z(2)] ok, of h src b hint] assms show ?thesis
    by (cases "fst (put_stream H h c a src b hint)") (simp_all add: map_prod_def case_prod_beta)
next
  case (OpCopy h f b)
  with stored_step[OF copy_file_stored[OF ok H z(1) _ z(2)] ok, of h f b] assms show ?thesis
    by (cases "fst (copy_file_into H h c a f b)") (simp_all add: map_prod_def case_prod_beta)
next
  case (OpDelete h d)
  with delete_effect[OF ok, of h d] assms show ?thesis
    by (cases "fst (delete h c a d)") (auto simp: map_prod_def case_prod_beta split: prod.splits)
next
  case (OpSweep h)
  with clear_staging_effect[of a h c] ok show ?thesis
    by (cases "fst (clear_staging h c a)")
      (simp_all add: map_prod_def case_prod_beta same_blobs_ok same_blobs_held)
qed

theorem run_blob_ops_refine:
  assumes "store_ok H c a" "hex_address H" "codec_ok (cas_zstd c)" "0 < cas_chunk c"
    "\<forall>op \<in> set ops. candid (op_host op)" "run_blob_ops H c ops a = (rs, a')"
  shows "store_ok H c a' \<and> held c a' = spec_ops H ops rs (held c a)"
  using assms
proof (induction ops arbitrary: a rs)
  case (Cons op ops)
  obtain r a1 where 1: "run_op H c op a = (r, a1)" by fastforce
  from Cons.prems(6) 1 obtain rs' where 2: "run_blob_ops H c ops a1 = (rs', a')" "rs = r # rs'"
    by (auto split: prod.splits)
  from run_op_step[OF Cons.prems(1-4), of op] Cons.prems(5) 1
  have "store_ok H c a1" "held c a1 = spec_op H op r (held c a)" by simp_all
  with Cons.IH[of a1 rs'] Cons.prems 2 show ?case by simp
qed simp

lemma store_ok_empty [simp]: "store_ok H c []" "held c [] = Map.empty"
  by (auto simp: store_ok_def verifies_def one_form_def held_def dict_get_def)

end
