(* ===== verification/Blob_Reads.thy ===== *)
theory Blob_Reads
  imports Blob_Properties
begin

text \<open>
  Reading the blob store: no operation hands out bytes under a digest that is not theirs, what a quiet host
  reads is exactly the map that the archive stands for, a stored blob reads back, and which errors can leave
  each operation.
\<close>

subsection \<open>Verified reads\<close>

lemma get_verified: "get H h c a d = Inr raw \<Longrightarrow> H raw = d"
  by (auto simp: get_def rbind_eq_Inr split: if_splits)

lemma get_stream_verified: "get_stream H h c a d = (cs, None) \<Longrightarrow> H (concat cs) = d"
  by (auto simp: get_stream_def split: sum.splits prod.splits option.splits if_splits)

text \<open>The sibling file of an export is not its destination.\<close>

lemma export_scratch_other: "dest \<noteq> [] \<Longrightarrow> export_scratch h dest \<noteq> dest"
proof
  assume "dest \<noteq> []" and eq: "export_scratch h dest = dest"
  from eq have "last (export_scratch h dest) = last dest" by simp
  then show False by (simp add: export_scratch_def)
qed

lemma leave_torn_get: "p \<noteq> q \<Longrightarrow> dict_get (leave_torn h q t) p = dict_get t p"
  by (simp add: leave_torn_def dict_get_set split: option.split)

lemma unlink_quietly_get: "p \<noteq> q \<Longrightarrow> dict_get (unlink_quietly h q t) p = dict_get t p"
  by (simp add: unlink_quietly_def dict_get_del)

lemma export_chunks_effect:
  assumes x: "export_chunks dh dest (cs, e) t = (r, t1)" and p: "p \<noteq> export_scratch dh dest"
  shows "case r of
      Inr q \<Rightarrow> q = dest \<and> e = None \<and> dict_get t1 p = (if p = dest then Some (concat cs) else dict_get t p)
    | Inl x \<Rightarrow> dict_get t1 p = dict_get t p"
  using assms
  by (auto simp: export_chunks_def os_replace_def file_call_def Let_def dict_get_set dict_get_del leave_torn_get
      split: option.splits sum.splits if_splits)

theorem export_effect:
  assumes x: "export_to_file H h c a d dh txt dest t = (r, t1)" and p: "p \<noteq> export_scratch dh dest"
  shows "case r of
      Inr q \<Rightarrow> q = dest \<and> (\<exists>cs. get_stream H h c a d = (cs, None) \<and>
        dict_get t1 p = (if p = dest then Some (concat cs) else dict_get t p))
    | Inl x \<Rightarrow> dict_get t1 p = dict_get t p"
proof (cases "h_fault dh Mkdir (butlast dest)")
  case None
  obtain cs e where s: "get_stream H h c a d = (cs, e)" by fastforce
  obtain r2 t2 where x2: "export_chunks dh dest (cs, e) t = (r2, t2)" by fastforce
  from x None s x2 have r: "r = catching_os [(''path'', DText txt), (''op'', DText ''write'')] r2"
    and t1: "t1 = unlink_quietly dh (export_scratch dh dest) t2"
    by (simp_all add: export_to_file_def Let_def)
  have same: "dict_get t1 p = dict_get t2 p" by (simp add: t1 unlink_quietly_get[OF p])
  show ?thesis
  proof (cases r2)
    case (Inl y)
    with r obtain y' where "r = Inl y'" by (auto simp: catching_os_def split: exn.splits)
    with export_chunks_effect[OF x2 p] same Inl show ?thesis by simp
  next
    case (Inr q)
    with export_chunks_effect[OF x2 p] s same r show ?thesis by simp
  qed
qed (use x in \<open>auto simp: export_to_file_def\<close>)

subsection \<open>What a quiet host reads\<close>

lemma quiet_simps [simp]:
  assumes "quiet_host h"
  shows "h_fault h call p = None"
  using assms by (simp add: quiet_host_def)

lemma quiet_locate:
  assumes q: "quiet_host h" and d: "is_digest d"
  shows "locate_blob h c a d = Inr
    (if dict_get a (leaf d True) \<noteq> None then Some (leaf d True)
     else if dict_get a (leaf d False) \<noteq> None then Some (leaf d False) else None)"
  using assms by (auto simp: locate_eq present_at_def)

lemma quiet_held:
  assumes q: "quiet_host h" and d: "is_digest d" and held: "held c a d = Some raw"
  obtains b s where "locate_blob h c a d = Inr (Some (leaf d b))" "dict_get a (leaf d b) = Some s"
    "decode c b s = Some raw"
proof (cases "dict_get a (leaf d True)")
  case (Some s)
  with that[of True s] quiet_locate[OF q d, of c a] held d show ?thesis by (simp add: held_def)
next
  case None
  with held d obtain s where "dict_get a (leaf d False) = Some s" "decode c False s = Some raw"
    by (auto simp: held_def split: option.splits)
  with that[of False s] None quiet_locate[OF q d, of c a] show ?thesis by simp
qed

lemma quiet_open: "quiet_host h \<Longrightarrow> dict_get a p = Some s \<Longrightarrow> open_read h a p = Inr s"
  "quiet_host h \<Longrightarrow> dict_get a p = Some s \<Longrightarrow> file_call h call a p = Inr s"
  by (simp_all add: open_read_def file_call_def)

theorem quiet_get:
  assumes ok: "verifies H c a" and q: "quiet_host h" and d: "is_digest d"
  shows "get H h c a d = (case held c a d of
      Some raw \<Rightarrow> Inr raw
    | None \<Rightarrow> Inl (blob_exn NotFound ''blob not found'' [(''sha256'', DText d)]))"
proof (cases "held c a d")
  case None
  with locate_held[OF ok quiet_candid[OF q], of d] quiet_locate[OF q d, of c a]
  have "locate_blob h c a d = Inr None" by (auto split: if_splits)
  with None show ?thesis by (simp add: get_def require_def)
next
  case (Some raw)
  from quiet_held[OF q d Some] obtain b s where
    l: "locate_blob h c a d = Inr (Some (leaf d b))" "dict_get a (leaf d b) = Some s" "decode c b s = Some raw" .
  from ok d l(2) obtain raw' where "decode c b s = Some raw'" "H raw' = d"
    unfolding verifies_def by blast
  with l have "H raw = d" by simp
  with l Some show ?thesis
    by (cases b) (simp_all add: get_def require_def read_all_def quiet_open[OF q] path_suffix_leaf[OF d] decode_def)
qed

theorem quiet_get_stream:
  assumes ok: "verifies H c a" and z: "codec_ok (cas_zstd c)" "0 < cas_chunk c" and q: "quiet_host h"
    and held: "held c a d = Some raw"
  obtains cs where "get_stream H h c a d = (cs, None)" "concat cs = raw"
proof -
  have d: "is_digest d" using held by (auto simp: held_def split: if_splits)
  from quiet_held[OF q d held] obtain b s where
    l: "locate_blob h c a d = Inr (Some (leaf d b))" "dict_get a (leaf d b) = Some s" "decode c b s = Some raw" .
  from ok d l(2) obtain raw' where "decode c b s = Some raw'" "H raw' = d"
    unfolding verifies_def by blast
  with l have H: "H raw = d" by simp
  have "\<exists>cs. stream_chunks h c (leaf d b) s = (cs, None) \<and> concat cs = raw"
  proof (cases b)
    case True
    with codec_okD(3)[OF z(1) _ z(2), of s raw] l(3) obtain cs where
      "z_pieces (cas_zstd c) (cas_chunk c) s = (cs, False)" "concat cs = raw" by (auto simp: decode_def)
    with True q show ?thesis by (simp add: stream_chunks_def path_suffix_leaf[OF d])
  next
    case False
    with l(3) q show ?thesis
      by (simp add: stream_chunks_def path_suffix_leaf[OF d] decode_def concat_chunks_of[OF z(2)])
  qed
  then obtain cs where cs: "stream_chunks h c (leaf d b) s = (cs, None)" "concat cs = raw" by blast
  have "get_stream H h c a d = (cs, None)"
    using l cs H by (simp add: get_stream_def require_def quiet_open[OF q])
  with cs(2) that show ?thesis by blast
qed

theorem quiet_stat:
  assumes z: "codec_ok (cas_zstd c)" "0 < cas_chunk c" and q: "quiet_host h" and held: "held c a d = Some raw"
  shows "\<exists>r. stat_blob h c a d = Inr (Some r) \<and> ref_sha256 r = d \<and> ref_size r = length raw"
proof -
  have d: "is_digest d" using held by (auto simp: held_def split: if_splits)
  from quiet_held[OF q d held] obtain b s where
    l: "locate_blob h c a d = Inr (Some (leaf d b))" "dict_get a (leaf d b) = Some s" "decode c b s = Some raw" .
  show ?thesis
  proof (cases b)
    case False
    with l show ?thesis
      by (simp add: stat_blob_def stored_size_def quiet_open[OF q] path_suffix_leaf[OF d] decode_def)
  next
    case True
    with l(3) have s: "z_read (cas_zstd c) s = Some raw" by (simp add: decode_def)
    from codec_okD(4)[OF z(1) s] obtain n where
      n: "z_frame_size (cas_zstd c) (take 18 s) = Some n" "n \<ge> 0 \<longrightarrow> n = int (length raw)" by blast
    from codec_okD(3)[OF z(1) s z(2)] obtain cs where
      cs: "z_pieces (cas_zstd c) (cas_chunk c) s = (cs, False)" "concat cs = raw" by blast
    have "raw_size h c a (leaf d True) d = Inr (length raw)"
      using l(2) True n cs(2) by (auto simp: raw_size_def quiet_open[OF q] cs(1) length_concat)
    with l True show ?thesis
      by (simp add: stat_blob_def stored_size_def quiet_open[OF q] path_suffix_leaf[OF d])
  qed
qed

subsection \<open>Reading back\<close>

lemma held_digest:
  assumes "verifies H c a" "held c a d = Some raw"
  shows "H raw = d"
  using assms unfolding verifies_def held_def
  by (fastforce split: if_splits option.splits)

lemma parse_ref_uri: "length (ref_sha256 r) = 64 \<Longrightarrow> parse_uri (ref_uri r) = Inr (ref_sha256 r)"
  by (simp add: parse_uri_def ref_uri_def cas_prefix_def)

text \<open>What is read at the digest of data that has been stored: the data, or what was there first.\<close>

definition first_stored :: "(string \<Rightarrow> string) \<Rightarrow> cas \<Rightarrow> archive \<Rightarrow> string \<Rightarrow> string" where
  "first_stored H c a data = (case held c a (H data) of None \<Rightarrow> data | Some old \<Rightarrow> old)"

lemma first_stored_digest: "verifies H c a \<Longrightarrow> H (first_stored H c a data) = H data"
  by (auto simp: first_stored_def dest: held_digest split: option.split)

lemma stored_held:
  assumes "stored H c a data (Inr r, a1)"
  shows "held c a1 (ref_sha256 r) = Some (first_stored H c a data)"
  using assms by (auto simp: stored_def first_stored_def split: option.splits if_splits)

theorem stored_reads_back:
  assumes st: "stored H c a data (Inr r, a1)" and H: "hex_address H"
    and z: "codec_ok (cas_zstd c)" "0 < cas_chunk c" and q: "quiet_host h"
  shows "get H h c a1 (ref_sha256 r) = Inr (first_stored H c a data)"
    "\<exists>cs. get_stream H h c a1 (ref_sha256 r) = (cs, None) \<and> concat cs = first_stored H c a data"
    "\<exists>r'. stat_blob h c a1 (ref_sha256 r) = Inr (Some r') \<and> ref_sha256 r' = ref_sha256 r \<and>
       ref_size r' = length (first_stored H c a data)"
    "parse_uri (ref_uri r) = Inr (ref_sha256 r)"
proof -
  from st have ok: "verifies H c a1" and r: "ref_sha256 r = H data" by (simp_all add: stored_def store_ok_verifies)
  have d: "is_digest (ref_sha256 r)" using hex_address.digest_is_digest[OF H] r by simp
  note held = stored_held[OF st]
  show "get H h c a1 (ref_sha256 r) = Inr (first_stored H c a data)"
    using quiet_get[OF ok q d] held by simp
  show "\<exists>cs. get_stream H h c a1 (ref_sha256 r) = (cs, None) \<and> concat cs = first_stored H c a data"
    using quiet_get_stream[OF ok z q held] by blast
  show "\<exists>r'. stat_blob h c a1 (ref_sha256 r) = Inr (Some r') \<and> ref_sha256 r' = ref_sha256 r \<and>
       ref_size r' = length (first_stored H c a data)"
    using quiet_stat[OF z q held] by blast
  show "parse_uri (ref_uri r) = Inr (ref_sha256 r)"
    using d by (intro parse_ref_uri) (simp add: is_digest_def)
qed

subsection \<open>Errors\<close>

lemma fails_typed_rmap [simp]: "fails_typed (rmap f r) = fails_typed r"
  by (cases r) simp_all

lemma stored_size_typed [simp]: "fails_typed (stored_size h c a p d)"
  by (simp add: stored_size_def)

lemma require_typed: "fails_typed (require h c a d)"
  unfolding require_def using locate_typed by (intro fails_typed_rbind) (auto split: option.split)

lemma read_all_typed: "fails_typed (read_all h c a p d)"
  unfolding read_all_def by (intro fails_typed_rbind) (auto simp: bad_frame_def split: option.split)

lemma get_typed: "fails_typed (get H h c a d)"
  unfolding get_def using require_typed read_all_typed
  by (intro fails_typed_rbind) (auto simp: corrupt_blob_def)

lemma get_stream_typed: "get_stream H h c a d = (cs, Some e) \<Longrightarrow> is_blob_error e"
  using fails_typedD[OF require_typed, of h c a d]
  by (auto simp: get_stream_def stream_chunks_def corrupt_blob_def Let_def dest: translated_Inl_typed
      split: sum.splits prod.splits option.splits if_splits)

lemma raw_size_typed: "fails_typed (raw_size h c a p d)"
  unfolding raw_size_def by (intro fails_typed_rbind) (auto simp: bad_frame_def split: option.split prod.split)

lemma stat_typed: "fails_typed (stat_blob h c a d)"
  unfolding stat_blob_def using locate_typed raw_size_typed
  by (intro fails_typed_rbind) (auto split: option.split intro!: fails_typed_rbind)

lemma exists_typed: "fails_typed (exists_blob h c a d)"
  by (simp add: exists_blob_def locate_typed)

lemma delete_typed: "fails_typed (fst (delete h c a d))"
  using locate_typed[of h c a d]
  by (auto simp: delete_def fails_typed_def translated_def split: sum.splits option.splits)

lemma sweep_typed: "fails_typed (fst (sweep_parts h c ps a n))"
  by (induction ps arbitrary: a n) (auto split: option.splits)

lemma clear_staging_typed: "fails_typed (fst (clear_staging h c a))"
  by (simp add: clear_staging_def sweep_typed)

text \<open>Everything that leaves the guarded block of a stream write is typed or the operating system's, and caught.\<close>

definition fails_os :: "'a lake_result \<Rightarrow> bool" where
  "fails_os r = (case r of Inl e \<Rightarrow> is_blob_error e \<or> (\<exists>x. e = OsExn x) | Inr a \<Rightarrow> True)"

lemma fails_os_simps [simp]: "fails_os (Inr a)" "fails_os (Inl e) = (is_blob_error e \<or> (\<exists>x. e = OsExn x))"
  by (simp_all add: fails_os_def)

lemma catching_os_all: "fails_os r \<Longrightarrow> fails_typed (catching_os ds r)"
  by (auto simp: fails_os_def catching_os_def fails_typed_def split: sum.splits exn.splits)

lemma typed_os: "fails_typed r \<Longrightarrow> fails_os r"
  by (cases r) simp_all

lemma codec_failure_typed: "is_blob_error (codec_failure hint n)"
  by (simp add: codec_failure_def size_mismatch_def split: option.split)

lemma stream_payload_os: "fails_os (stream_payload c src b hint)"
  by (auto simp: stream_payload_def codec_failure_typed Let_def split: option.splits sum.splits)

lemma place_staged_os: "fails_os (fst (place_staged H h c a raw b hint))"
  using fails_typedD[OF locate_typed, of h c a "H raw"]
  by (auto simp: place_staged_def size_mismatch_def Let_def typed_os
      split: sum.split option.split prod.split)

lemma put_stream_typed: "fails_typed (fst (put_stream H h c a src b hint))"
  using stream_payload_os[of c src b hint]
    place_staged_os[of H h c "dict_set a (scratch_path h) _" "concat (chunks_of (cas_chunk c) (src_data src))" b hint]
  by (auto simp: put_stream_def Let_def case_prod_beta fails_os_def intro!: catching_os_all
      split: option.splits sum.splits)

lemma copy_file_typed: "fails_typed (fst (copy_file_into H h c a f b))"
proof -
  have "fails_typed (host_errors p r)" if "fails_os r" for p and r :: "BlobRef lake_result"
    using that by (auto simp: host_errors_def split: sum.splits exn.splits)
  then show ?thesis
    using typed_os[OF put_stream_typed]
    by (auto simp: copy_file_into_def Let_def case_prod_beta split: option.splits sum.splits)
qed

lemma commit_untyped:
  assumes "fst (commit_file h c a p payload) = Inl e" "\<not> is_blob_error e"
  shows "\<exists>x. e = OsExn x \<and> h_fault h Mkdir (butlast p) = Some x"
  using assms
  by (auto simp: commit_file_def Let_def case_prod_beta split: option.splits sum.splits)
    (auto simp: translated_def split: sum.splits)

lemma compress_data_typed: "fails_typed (compress_data c data)"
  by (simp add: compress_data_def split: option.split)

lemma put_untyped:
  assumes "fst (put H h c a data b) = Inl e" "\<not> is_blob_error e"
  shows "\<exists>x. e = OsExn x \<and> h_fault h Mkdir (butlast (leaf (H data) b)) = Some x"
proof (cases "locate_blob h c a (H data)")
  case (Inl e')
  with assms fails_typedD[OF locate_typed Inl] show ?thesis by (simp add: put_def)
next
  case (Inr found)
  note located = this
  show ?thesis
  proof (cases found)
    case (Some p)
    have "fails_typed (fst (put H h c a data b))" using located Some by (simp add: put_def Let_def)
    with assms show ?thesis by simp
  next
    case None
    show ?thesis
    proof (cases "if b then compress_data c data else Inr data")
      case (Inl e')
      then have "is_blob_error e'" using fails_typedD[OF compress_data_typed] by (auto split: if_splits)
      with assms located None Inl show ?thesis by (simp add: put_def)
    next
      case (Inr payload)
      with assms located None have "fst (commit_file h c a (leaf (H data) b) payload) = Inl e"
        by (auto simp: put_def Let_def split: prod.splits sum.splits)
      then show ?thesis using commit_untyped assms(2) by blast
    qed
  qed
qed

lemma put_mkdir_escapes:
  assumes "locate_blob h c a (H data) = Inr None" "h_fault h Mkdir (butlast (leaf (H data) False)) = Some x"
  shows "put H h c a data False = (Inl (OsExn x), a)"
  using assms by (simp add: put_def Let_def commit_file_def)

end
