(* ===== verification/Blob_Races.thy ===== *)
theory Blob_Races
  imports Blob_Reads
begin

text \<open>
  Writers, deleters and sweeps at work on one archive at the same time. The state is the archive and the
  writers that have chosen a staging name; a step is one call to the file system, by anyone, or a crash.
  A write that is cut short leaves any text in its own staging file. The operations of the store, run without
  interference, are runs of these steps, whatever the host does to them.
\<close>

subsection \<open>Steps\<close>

datatype phase = Started | Staged | Ended

record writer =
  w_raw :: string
  w_payload :: string
  w_compress :: bool
  w_name :: string
  w_phase :: phase

definition w_scratch :: "writer \<Rightarrow> path" where
  "w_scratch w = [''staging'', w_name w @ ''.part'']"

definition w_target :: "(string \<Rightarrow> string) \<Rightarrow> writer \<Rightarrow> path" where
  "w_target H w = leaf (H (w_raw w)) (w_compress w)"

text \<open>What \<open>put\<close> and \<open>put_stream\<close> write for these bytes.\<close>

definition payload_of :: "cas \<Rightarrow> bool \<Rightarrow> string \<Rightarrow> string \<Rightarrow> bool" where
  "payload_of c b raw payload \<longleftrightarrow>
     (if b then z_compress (cas_zstd c) (cas_level c) raw = Some payload \<or>
        (\<exists>n cs. z_write (cas_zstd c) (cas_level c) n cs = Inr payload \<and> concat cs = raw)
      else payload = raw)"

inductive race_step ::
  "(string \<Rightarrow> string) \<Rightarrow> cas \<Rightarrow> archive \<times> writer list \<Rightarrow> archive \<times> writer list \<Rightarrow> bool" for H c where
  start: "payload_of c (w_compress w) (w_raw w) (w_payload w) \<Longrightarrow> w_phase w = Started \<Longrightarrow>
     w_name w \<notin> w_name ` set ws \<Longrightarrow> race_step H c (a, ws) (a, w # ws)"
| stage: "w_phase w = Started \<Longrightarrow>
     race_step H c (a, us @ w # ws) (dict_set a (w_scratch w) (w_payload w), us @ w\<lparr>w_phase := Staged\<rparr> # ws)"
| torn: "w_phase w = Started \<Longrightarrow>
     race_step H c (a, us @ w # ws) (dict_set a (w_scratch w) s, us @ w\<lparr>w_phase := Ended\<rparr> # ws)"
| rename: "w_phase w = Staged \<Longrightarrow> dict_get a (w_scratch w) = Some s \<Longrightarrow>
     race_step H c (a, us @ w # ws)
       (dict_set (dict_del a (w_scratch w)) (w_target H w) s, us @ w\<lparr>w_phase := Ended\<rparr> # ws)"
| unlink: "race_step H c (a, us @ w # ws) (dict_del a (w_scratch w), us @ w\<lparr>w_phase := Ended\<rparr> # ws)"
| crash: "race_step H c (a, us @ w # ws) (a, us @ w\<lparr>w_phase := Ended\<rparr> # ws)"
| remove: "race_step H c (a, ws) (dict_del a (leaf d b), ws)"
| sweep: "is_part p \<Longrightarrow> take 1 p = [''staging''] \<Longrightarrow> race_step H c (a, ws) (dict_del a p, ws)"

definition races :: "(string \<Rightarrow> string) \<Rightarrow> cas \<Rightarrow> archive \<times> writer list \<Rightarrow> archive \<times> writer list \<Rightarrow> bool" where
  "races H c = (race_step H c)\<^sup>*\<^sup>*"

subsection \<open>The invariant\<close>

definition writer_ok :: "cas \<Rightarrow> archive \<Rightarrow> writer \<Rightarrow> bool" where
  "writer_ok c a w \<longleftrightarrow>
     decode c (w_compress w) (w_payload w) = Some (w_raw w) \<and>
     (w_phase w = Staged \<longrightarrow> dict_get a (w_scratch w) \<in> {None, Some (w_payload w)})"

definition race_inv :: "(string \<Rightarrow> string) \<Rightarrow> cas \<Rightarrow> archive \<times> writer list \<Rightarrow> bool" where
  "race_inv H c s \<longleftrightarrow>
     verifies H c (fst s) \<and> distinct (map w_name (snd s)) \<and> (\<forall>w \<in> set (snd s). writer_ok c (fst s) w)"

lemma scratch_not_leaf [simp]: "w_scratch w \<noteq> leaf d b" "leaf d b \<noteq> w_scratch w"
  by (simp_all add: w_scratch_def leaf_def)

lemma scratch_inj [simp]: "w_scratch w = w_scratch w' \<longleftrightarrow> w_name w = w_name w'"
  by (simp add: w_scratch_def)

lemma w_scratch_phase [simp]: "w_scratch (w\<lparr>w_phase := x\<rparr>) = w_scratch w"
  by (simp add: w_scratch_def)

lemma payload_of_decodes: "codec_ok (cas_zstd c) \<Longrightarrow> payload_of c b raw payload \<Longrightarrow> decode c b payload = Some raw"
  by (auto simp: payload_of_def decode_def split: if_splits dest: codec_okD(1,2))

text \<open>Nothing changes for the blobs, and for the staging files of the others.\<close>

lemma verifies_same: "same_blobs a a' \<Longrightarrow> verifies H c a' = verifies H c a"
  by (simp add: same_blobs_def verifies_def)

lemma writer_ok_same:
  "dict_get a' (w_scratch w) \<in> {None, dict_get a (w_scratch w)} \<Longrightarrow> writer_ok c a w \<Longrightarrow> writer_ok c a' w"
  by (auto simp: writer_ok_def)

lemma writer_ok_del: "writer_ok c a w \<Longrightarrow> writer_ok c (dict_del a p) w"
  by (rule writer_ok_same) (auto simp: dict_get_del)

lemma race_inv_update:
  assumes inv: "race_inv H c (a, us @ w # ws)"
    and v: "verifies H c a'" and w': "writer_ok c a' (w\<lparr>w_phase := x\<rparr>)"
    and others: "\<And>p. p \<noteq> w_scratch w \<Longrightarrow> \<forall>d b. p \<noteq> leaf d b \<Longrightarrow> dict_get a' p = dict_get a p"
  shows "race_inv H c (a', us @ w\<lparr>w_phase := x\<rparr> # ws)"
proof -
  have "writer_ok c a' v" if "v \<in> set us \<union> set ws" for v
  proof -
    from inv have "w_name w \<notin> w_name ` (set us \<union> set ws)" by (simp add: race_inv_def image_Un)
    with that have "w_name v \<noteq> w_name w" by (metis imageI)
    moreover have "writer_ok c a v" using inv that by (auto simp: race_inv_def)
    ultimately show ?thesis using others[of "w_scratch v"] by (auto intro: writer_ok_same)
  qed
  with inv v w' show ?thesis by (auto simp: race_inv_def)
qed

lemma same_blobs_scratch:
  "same_blobs a (dict_set a (w_scratch w) s)" "same_blobs a (dict_del a (w_scratch w))"
  by (simp_all add: same_blobs_def dict_get_set dict_get_del)

lemma race_inv_step:
  assumes H: "hex_address H" and z: "codec_ok (cas_zstd c)"
  shows "race_step H c s s' \<Longrightarrow> race_inv H c s \<Longrightarrow> race_inv H c s'"
proof (induction rule: race_step.induct)
  case (start w ws a)
  then show ?case by (auto simp: race_inv_def writer_ok_def payload_of_decodes[OF z])
next
  case (stage w a us ws)
  then show ?case
    by (intro race_inv_update) (auto simp: race_inv_def verifies_same[OF same_blobs_scratch(1)] writer_ok_def dict_get_set)
next
  case (torn w a us ws s)
  then show ?case
    by (intro race_inv_update) (auto simp: race_inv_def verifies_same[OF same_blobs_scratch(1)] writer_ok_def dict_get_set)
next
  case (rename w a s us ws)
  have w: "decode c (w_compress w) (w_payload w) = Some (w_raw w)" "s = w_payload w"
    using rename by (auto simp: race_inv_def writer_ok_def)
  have "verifies H c (dict_set (dict_del a (w_scratch w)) (w_target H w) s)"
    using rename.prems w hex_address.digest_is_digest[OF H]
    by (auto simp: race_inv_def verifies_def w_target_def dict_get_set dict_get_del leaf_inj)
  moreover have "p \<noteq> w_scratch w \<Longrightarrow> \<forall>d b. p \<noteq> leaf d b \<Longrightarrow>
      dict_get (dict_set (dict_del a (w_scratch w)) (w_target H w) s) p = dict_get a p" for p
    by (auto simp: dict_get_set dict_get_del w_target_def)
  ultimately show ?case
    using rename w by (intro race_inv_update) (auto simp: writer_ok_def)
next
  case (unlink a us w ws)
  then show ?case
    by (intro race_inv_update) (auto simp: race_inv_def verifies_same[OF same_blobs_scratch(2)] writer_ok_def dict_get_del)
next
  case (crash a us w ws)
  then show ?case by (intro race_inv_update) (auto simp: race_inv_def writer_ok_def)
next
  case (remove a ws d b)
  then show ?case by (auto simp: race_inv_def verifies_def dict_get_del writer_ok_del split: if_splits)
next
  case (sweep p a ws)
  then have "p \<noteq> leaf d b" "leaf d b \<noteq> p" for d b by (auto simp: leaf_def)
  then have "same_blobs a (dict_del a p)" by (simp add: same_blobs_def dict_get_del)
  with sweep.prems show ?case by (auto simp: race_inv_def verifies_same writer_ok_del)
qed

theorem races_keep_inv:
  assumes "hex_address H" "codec_ok (cas_zstd c)" "races H c s s'" "race_inv H c s"
  shows "race_inv H c s'"
  using assms(3,4) unfolding races_def
  by (induction rule: rtranclp_induct) (auto intro: race_inv_step[OF assms(1,2)])

lemma race_inv_start: "verifies H c a \<Longrightarrow> race_inv H c (a, [])"
  by (simp add: race_inv_def)

text \<open>In an archive that verifies, a read gives the bytes of the digest or says that the blob is not there.\<close>

theorem verified_get:
  assumes "verifies H c a" "quiet_host h" "is_digest d"
  shows "case get H h c a d of
      Inr raw \<Rightarrow> H raw = d \<and> held c a d = Some raw
    | Inl e \<Rightarrow> e = blob_exn NotFound ''blob not found'' [(''sha256'', DText d)] \<and> held c a d = None"
  using quiet_get[OF assms] held_digest[OF assms(1)] by (auto split: option.split)

subsection \<open>The operations of the store as runs\<close>

lemma races_refl [intro]: "races H c s s"
  by (simp add: races_def)

lemma races_step: "race_step H c s t \<Longrightarrow> races H c t u \<Longrightarrow> races H c s u"
  by (simp add: races_def)

lemma races_trans: "races H c s t \<Longrightarrow> races H c t u \<Longrightarrow> races H c s u"
  by (simp add: races_def)

text \<open>A write under a staging name, and what \<open>commit_file\<close> and the tail of \<open>put_stream\<close> do after it.\<close>

definition new_writer :: "host \<Rightarrow> string \<Rightarrow> string \<Rightarrow> bool \<Rightarrow> phase \<Rightarrow> writer" where
  "new_writer h raw payload b x =
     \<lparr>w_raw = raw, w_payload = payload, w_compress = b, w_name = h_name h, w_phase = x\<rparr>"

lemma new_writer_simps [simp]:
  "w_scratch (new_writer h raw payload b x) = scratch_path h"
  "w_target H (new_writer h raw payload b x) = leaf (H raw) b"
  "w_payload (new_writer h raw payload b x) = payload"
  "w_phase (new_writer h raw payload b x) = x"
  "w_name (new_writer h raw payload b x) = h_name h"
  "w_raw (new_writer h raw payload b x) = raw" "w_compress (new_writer h raw payload b x) = b"
  "(new_writer h raw payload b x)\<lparr>w_phase := y\<rparr> = new_writer h raw payload b y"
  by (simp_all add: new_writer_def w_scratch_def scratch_path_def w_target_def)

lemma races_new:
  "payload_of c b raw payload \<Longrightarrow> h_name h \<notin> w_name ` set ws \<Longrightarrow>
     races H c (a, ws) (a, new_writer h raw payload b Started # ws)"
  by (intro races_step[OF _ races_refl] race_step.start) simp_all

lemma races_torn:
  "races H c (a, new_writer h raw payload b Started # ws)
     (leave_torn h (scratch_path h) a, new_writer h raw payload b Ended # ws)"
proof (cases "h_torn h")
  case None
  then show ?thesis
    using race_step.crash[of H c a "[]" "new_writer h raw payload b Started" ws]
    by (auto simp: leave_torn_def intro: races_step)
next
  case (Some s)
  then show ?thesis
    using race_step.torn[of "new_writer h raw payload b Started" H c a "[]" ws s]
    by (auto simp: leave_torn_def intro: races_step)
qed

lemma races_stage:
  "races H c (a, new_writer h raw payload b Started # ws)
     (dict_set a (scratch_path h) payload, new_writer h raw payload b Staged # ws)"
  using race_step.stage[of "new_writer h raw payload b Started" H c a "[]" ws] by (auto intro: races_step)

lemma races_rename:
  "dict_get a (scratch_path h) = Some s \<Longrightarrow>
   races H c (a, new_writer h raw payload b Staged # ws)
     (dict_set (dict_del a (scratch_path h)) (leaf (H raw) b) s, new_writer h raw payload b Ended # ws)"
  using race_step.rename[of "new_writer h raw payload b Staged" a s H c "[]" ws] by (auto intro: races_step)

lemma races_unlink:
  "\<exists>y. races H c (a, new_writer h raw payload b x # ws)
     (unlink_quietly h (scratch_path h) a, new_writer h raw payload b y # ws)"
proof (cases "h_fault h Unlink (scratch_path h)")
  case None
  then have "races H c (a, new_writer h raw payload b x # ws)
      (unlink_quietly h (scratch_path h) a, new_writer h raw payload b Ended # ws)"
    using race_step.unlink[of H c a "[]" "new_writer h raw payload b x" ws]
    by (auto simp: unlink_quietly_def intro: races_step)
  then show ?thesis by blast
next
  case (Some e)
  then show ?thesis by (auto simp: unlink_quietly_def)
qed

lemma commit_races:
  assumes p: "payload_of c b raw payload" and n: "h_name h \<notin> w_name ` set ws"
  shows "\<exists>ws'. races H c (a, ws) (snd (commit_file h c a (leaf (H raw) b) payload), ws')"
proof (cases "h_fault h Mkdir (butlast (leaf (H raw) b))")
  case None
  let ?s = "scratch_path h"
  define a1 where "a1 = snd (case h_fault h WriteBytes ?s of
      Some e \<Rightarrow> (Inl e, leave_torn h ?s a)
    | None \<Rightarrow> os_replace h ?s (leaf (H raw) b) (dict_set a ?s payload))"
  have eq: "snd (commit_file h c a (leaf (H raw) b) payload) = unlink_quietly h ?s a1"
    unfolding commit_file_def a1_def by (simp only: None option.case Let_def case_prod_beta snd_conv)
  have "\<exists>x. races H c (a, new_writer h raw payload b Started # ws) (a1, new_writer h raw payload b x # ws)"
  proof (cases "h_fault h WriteBytes ?s")
    case (Some e)
    then have "a1 = leave_torn h ?s a" by (simp add: a1_def)
    then show ?thesis using races_torn by blast
  next
    case no_fault: None
    show ?thesis
    proof (cases "h_fault h Rename ?s")
      case None
      have "races H c (dict_set a ?s payload, new_writer h raw payload b Staged # ws) (a1, new_writer h raw payload b Ended # ws)"
        using races_rename[where a = "dict_set a ?s payload" and h = h and s = payload] None no_fault
        by (simp add: a1_def os_replace_def file_call_def dict_get_set)
      then show ?thesis using races_trans[OF races_stage] by blast
    next
      case (Some e)
      with no_fault have "a1 = dict_set a ?s payload" by (simp add: a1_def os_replace_def file_call_def)
      then show ?thesis using races_stage by blast
    qed
  qed
  then show ?thesis
    unfolding eq using races_trans races_new[OF p n] races_unlink by metis
qed (auto simp: commit_file_def)

theorem put_races:
  assumes n: "h_name h \<notin> w_name ` set ws"
  shows "\<exists>ws'. races H c (a, ws) (snd (put H h c a data b), ws')"
proof (cases "locate_blob h c a (H data) = Inr None \<and> (\<exists>p. (if b then compress_data c data else Inr data) = Inr p)")
  case True
  then obtain p where p: "locate_blob h c a (H data) = Inr None" "(if b then compress_data c data else Inr data) = Inr p"
    by blast
  then have "payload_of c b data p"
    by (auto simp: payload_of_def compress_data_def split: if_splits option.splits)
  then have "\<exists>ws'. races H c (a, ws) (snd (commit_file h c a (leaf (H data) b) p), ws')"
    by (rule commit_races) (rule n)
  moreover have "snd (put H h c a data b) = snd (commit_file h c a (leaf (H data) b) p)"
    using p by (simp add: put_def Let_def split: prod.split sum.split)
  ultimately show ?thesis by simp
next
  case False
  then have "snd (put H h c a data b) = a"
    by (cases "locate_blob h c a (H data)"; cases "if b then compress_data c data else Inr data")
      (auto simp: put_def Let_def split: option.split)
  then show ?thesis by auto
qed

lemma place_staged_archive:
  assumes "dict_get a (scratch_path h) = Some payload"
  shows "snd (place_staged H h c a raw b hint) \<in>
    {a, dict_set (dict_del a (scratch_path h)) (leaf (H raw) b) payload}"
proof -
  have "snd (os_replace h (scratch_path h) (leaf (H raw) b) a) \<in>
      {a, dict_set (dict_del a (scratch_path h)) (leaf (H raw) b) payload}"
    using assms by (auto simp: os_replace_def file_call_def split: option.split)
  then show ?thesis
    by (auto simp: place_staged_def Let_def split: sum.split option.split prod.split)
qed

theorem put_stream_races:
  assumes n: "h_name h \<notin> w_name ` set ws"
  shows "\<exists>ws'. races H c (a, ws) (snd (put_stream H h c a src b hint), ws')"
proof -
  let ?s = "scratch_path h" and ?raw = "concat (chunks_of (cas_chunk c) (src_data src))"
  define a1 where "a1 = snd (case h_fault h OpenWrite ?s of
      Some e \<Rightarrow> (Inl (OsExn e), a)
    | None \<Rightarrow> (case stream_payload c src b hint of
        Inl e \<Rightarrow> (Inl e, leave_torn h ?s a)
      | Inr payload \<Rightarrow> (case h_fault h WriteBytes ?s of
          Some e \<Rightarrow> (Inl (OsExn e), leave_torn h ?s a)
        | None \<Rightarrow> place_staged H h c (dict_set a ?s payload) ?raw b hint)))"
  have eq: "snd (put_stream H h c a src b hint) = unlink_quietly h ?s a1"
    unfolding put_stream_def a1_def by (simp only: Let_def case_prod_beta snd_conv)
  have raw: "payload_of c False ?raw ?raw" by (simp add: payload_of_def)
  have "\<exists>p b' x. races H c (a, ws) (a1, new_writer h ?raw p b' x # ws)"
  proof (cases "h_fault h OpenWrite ?s = None \<and> h_fault h WriteBytes ?s = None \<and>
      (\<exists>p. stream_payload c src b hint = Inr p)")
    case False
    then have "a1 = a \<or> a1 = leave_torn h ?s a"
      unfolding a1_def
      by (cases "stream_payload c src b hint"; cases "h_fault h OpenWrite ?s"; cases "h_fault h WriteBytes ?s") simp_all
    then consider "a1 = a" | "a1 = leave_torn h ?s a" by blast
    then show ?thesis
    proof cases
      case 1
      then show ?thesis using races_new[OF raw n] by blast
    next
      case 2
      then show ?thesis using races_trans[OF races_new[OF raw n] races_torn] by blast
    qed
  next
    case True
    then obtain p where p: "stream_payload c src b hint = Inr p" by blast
    then have pl: "payload_of c b ?raw p"
      by (auto simp: payload_of_def stream_payload_def Let_def split: option.splits sum.splits if_splits)
    have staged: "races H c (a, ws) (dict_set a ?s p, new_writer h ?raw p b Staged # ws)"
      by (rule races_trans[OF races_new[OF pl n] races_stage])
    have s: "dict_get (dict_set a ?s p) ?s = Some p" by (simp add: dict_get_set)
    have "a1 = snd (place_staged H h c (dict_set a ?s p) ?raw b hint)" using True p by (simp add: a1_def)
    with place_staged_archive[OF s, of H c ?raw b hint] consider "a1 = dict_set a ?s p"
      | "a1 = dict_set (dict_del (dict_set a ?s p) ?s) (leaf (H ?raw) b) p" by auto
    then show ?thesis
    proof cases
      case 1
      then show ?thesis using staged by blast
    next
      case 2
      then show ?thesis using races_trans[OF staged races_rename[where a = "dict_set a ?s p" and h = h, OF s]] by blast
    qed
  qed
  then obtain p b' x where "races H c (a, ws) (a1, new_writer h ?raw p b' x # ws)" by blast
  then show ?thesis unfolding eq using races_trans races_unlink by metis
qed

end
