(* ===== verification/Artifact_Archive.thy ===== *)
theory Artifact_Archive
  imports Blob_Reads
begin

text \<open>
  The archive of host files (\<open>paa.storage.coldlake.artifacts\<close>): a table of archival acts over a blob store.

  The store is any implementation of the protocol \<open>BlobStore\<close> (\<open>paa.storage.coldlake.base\<close>); the calls the
  archive makes of it are the fields of \<open>blob_store\<close>, and what it may expect of them is the locale
  \<open>blob_contract\<close>, interpreted on the filesystem store. The table is SQLite's: the primary key, the uniqueness
  of the virtual URI, the check on the checksum and the reference to the signals.
\<close>

subsection \<open>The blob store as the archive sees it\<close>

text \<open>\<open>bs_copy\<close> is \<open>copy_file_into\<close> over the store's \<open>put_stream\<close>; \<open>bs_export\<close> is \<open>export_to_file\<close> over its \<open>get_stream\<close>.\<close>

record 's blob_store =
  bs_copy :: "'s \<Rightarrow> host_file \<Rightarrow> bool \<Rightarrow> BlobRef lake_result \<times> 's"
  bs_get :: "'s \<Rightarrow> string \<Rightarrow> string lake_result"
  bs_stream :: "'s \<Rightarrow> string \<Rightarrow> string list \<times> exn option"
  bs_export :: "'s \<Rightarrow> string \<Rightarrow> host \<Rightarrow> string \<Rightarrow> path \<Rightarrow> archive \<Rightarrow> path lake_result \<times> archive"

text \<open>The filesystem store with its archive, and the host under its writes and under its reads.\<close>

record cas_session =
  cs_cas :: cas
  cs_archive :: archive
  cs_writes :: host
  cs_reads :: host

definition cas_store :: "(string \<Rightarrow> string) \<Rightarrow> cas_session blob_store" where
  "cas_store H =
     \<lparr>bs_copy = (\<lambda>s f b. case copy_file_into H (cs_writes s) (cs_cas s) (cs_archive s) f b of
                   (r, a) \<Rightarrow> (r, s\<lparr>cs_archive := a\<rparr>)),
      bs_get = (\<lambda>s d. get H (cs_reads s) (cs_cas s) (cs_archive s) d),
      bs_stream = (\<lambda>s d. get_stream H (cs_reads s) (cs_cas s) (cs_archive s) d),
      bs_export = (\<lambda>s d. export_to_file H (cs_reads s) (cs_cas s) (cs_archive s) d)\<rparr>"

subsection \<open>The table\<close>

record ArchivedArtifact =
  art_id :: string
  art_signal_id :: "string option"
  art_correlation_id :: "string option"
  art_virtual_uri :: string
  art_host_path :: string
  art_sha256 :: string
  art_size :: nat
  art_compression :: string
  art_blob_uri :: "string option"
  art_payload :: "string option"
  art_archived_at :: datetime

record artifact_row =
  ar_id :: string
  ar_signal_id :: "string option"
  ar_correlation_id :: "string option"
  ar_virtual_uri :: string
  ar_host_path :: string
  ar_sha256 :: string
  ar_size :: nat
  ar_compression :: string
  ar_blob_uri :: "string option"
  ar_payload :: "string option"
  ar_archived_at :: string

record artifact_db =
  ad_rows :: "artifact_row list"
  ad_signals :: "string list"

definition insert_artifact :: "artifact_db \<Rightarrow> artifact_row \<Rightarrow> artifact_db result" where
  "insert_artifact db r =
     (if length (ar_sha256 r) \<noteq> 64 then Inl IntegrityError
      else if \<exists>r' \<in> set (ad_rows db). ar_id r' = ar_id r \<or> ar_virtual_uri r' = ar_virtual_uri r
      then Inl UniqueViolation
      else if \<exists>i. ar_signal_id r = Some i \<and> i \<notin> set (ad_signals db) then Inl IntegrityError
      else Inr (db\<lparr>ad_rows := ad_rows db @ [r]\<rparr>))"

lemma insert_artifact_code [code]:
  "insert_artifact db r =
     (if length (ar_sha256 r) \<noteq> 64 then Inl IntegrityError
      else if \<exists>r' \<in> set (ad_rows db). ar_id r' = ar_id r \<or> ar_virtual_uri r' = ar_virtual_uri r
      then Inl UniqueViolation
      else if (case ar_signal_id r of None \<Rightarrow> False | Some i \<Rightarrow> i \<notin> set (ad_signals db)) then Inl IntegrityError
      else Inr (db\<lparr>ad_rows := ad_rows db @ [r]\<rparr>))"
  by (simp add: insert_artifact_def split: option.split)

text \<open>Rows that other processes insert meanwhile; a rejected one changes nothing.\<close>

definition insert_others :: "artifact_row list \<Rightarrow> artifact_db \<Rightarrow> artifact_db" where
  "insert_others rs db = foldl (\<lambda>db r. case insert_artifact db r of Inl e \<Rightarrow> db | Inr db' \<Rightarrow> db') db rs"

text \<open>A \<open>datetime\<close> that cannot be stored or read raises an exception of Python's own.\<close>

definition lift_time :: "'a result \<Rightarrow> 'a lake_result" where
  "lift_time r = (case r of Inl e \<Rightarrow> Inl (OtherExn ''ValueError'') | Inr x \<Rightarrow> Inr x)"

definition falsy_none :: "string option \<Rightarrow> string option" where
  "falsy_none x = (if x = Some [] then None else x)"

definition artifact_from_row :: "artifact_row \<Rightarrow> ArchivedArtifact lake_result" where
  "artifact_from_row r =
     rmap (\<lambda>t. \<lparr>art_id = ar_id r, art_signal_id = falsy_none (ar_signal_id r),
                art_correlation_id = falsy_none (ar_correlation_id r), art_virtual_uri = ar_virtual_uri r,
                art_host_path = ar_host_path r, art_sha256 = ar_sha256 r, art_size = ar_size r,
                art_compression = ar_compression r, art_blob_uri = ar_blob_uri r,
                art_payload = ar_payload r, art_archived_at = t\<rparr>)
       (lift_time (from_iso (IsoText (ar_archived_at r))))"

definition artifact_to_row :: "ArchivedArtifact \<Rightarrow> artifact_row lake_result" where
  "artifact_to_row x =
     rmap (\<lambda>t. \<lparr>ar_id = art_id x, ar_signal_id = art_signal_id x, ar_correlation_id = art_correlation_id x,
                ar_virtual_uri = art_virtual_uri x, ar_host_path = art_host_path x, ar_sha256 = art_sha256 x,
                ar_size = art_size x, ar_compression = art_compression x, ar_blob_uri = art_blob_uri x,
                ar_payload = art_payload x, ar_archived_at = t\<rparr>)
       (lift_time (to_iso (art_archived_at x)))"

definition fetch_artifact :: "(artifact_row \<Rightarrow> bool) \<Rightarrow> artifact_db \<Rightarrow> ArchivedArtifact option lake_result" where
  "fetch_artifact P db =
     (case find P (ad_rows db) of
        None \<Rightarrow> Inr None
      | Some r \<Rightarrow> rmap Some (artifact_from_row r))"

definition get_artifact :: "artifact_db \<Rightarrow> string \<Rightarrow> ArchivedArtifact option lake_result" where
  "get_artifact db i = fetch_artifact (\<lambda>r. ar_id r = i) db"

definition get_by_uri :: "artifact_db \<Rightarrow> string \<Rightarrow> ArchivedArtifact option lake_result" where
  "get_by_uri db u = fetch_artifact (\<lambda>r. ar_virtual_uri r = u) db"

text \<open>\<open>ORDER BY archived_at DESC, id ASC\<close> over text columns.\<close>

definition newest_first :: "artifact_row list \<Rightarrow> artifact_row list" where
  "newest_first rs = rev (sort_key ar_archived_at (rev (sort_key ar_id rs)))"

definition get_by_checksum :: "artifact_db \<Rightarrow> string \<Rightarrow> ArchivedArtifact list lake_result" where
  "get_by_checksum db h =
     rmapM artifact_from_row (newest_first (filter (\<lambda>r. ar_sha256 r = h) (ad_rows db)))"

definition list_for_correlation :: "artifact_db \<Rightarrow> string \<Rightarrow> ArchivedArtifact list lake_result" where
  "list_for_correlation db i =
     rmapM artifact_from_row (newest_first (filter (\<lambda>r. ar_correlation_id r = Some i) (ad_rows db)))"

subsection \<open>Archiving\<close>

definition default_virtual_uri :: "string \<Rightarrow> string \<Rightarrow> string" where
  "default_virtual_uri filename sha = ''paa://artifacts/'' @ take 12 sha @ ''/'' @ filename"

text \<open>The arguments of \<open>archive\<close>, with the file's name, its resolved path and whether it is a file.\<close>

record archive_call =
  ac_file :: host_file
  ac_is_file :: bool
  ac_name :: string
  ac_resolved :: string
  ac_correlation_id :: "string option"
  ac_signal_id :: "string option"
  ac_virtual_uri :: "string option"
  ac_compress :: bool

definition new_artifact :: "archive_call \<Rightarrow> string \<Rightarrow> datetime \<Rightarrow> string \<Rightarrow> BlobRef \<Rightarrow> ArchivedArtifact" where
  "new_artifact q i now uri r =
     \<lparr>art_id = i, art_signal_id = ac_signal_id q, art_correlation_id = ac_correlation_id q,
      art_virtual_uri = uri, art_host_path = ac_resolved q, art_sha256 = ref_sha256 r,
      art_size = ref_size r, art_compression = (if ac_compress q then ''zstd'' else ''none''),
      art_blob_uri = Some (ref_uri r), art_payload = None, art_archived_at = now\<rparr>"

definition chosen_uri :: "archive_call \<Rightarrow> BlobRef \<Rightarrow> string" where
  "chosen_uri q r =
     (case falsy_none (ac_virtual_uri q) of
        Some u \<Rightarrow> u
      | None \<Rightarrow> default_virtual_uri (ac_name q) (ref_sha256 r))"

text \<open>
  From the blob on. \<open>others\<close> are the rows inserted between the lookup and the insert; the racer is looked up
  after a refused insert.
\<close>

definition record_artifact ::
  "archive_call \<Rightarrow> string \<Rightarrow> datetime \<Rightarrow> artifact_row list \<Rightarrow> artifact_db \<Rightarrow> BlobRef
     \<Rightarrow> ArchivedArtifact lake_result \<times> artifact_db" where
  "record_artifact q i now others db r =
     (let uri = chosen_uri q r in
      case get_by_uri db uri of
        Inl e \<Rightarrow> (Inl e, db)
      | Inr (Some incumbent) \<Rightarrow>
          (if art_sha256 incumbent = ref_sha256 r then Inr incumbent else Inl (PaaExn StorageError), db)
      | Inr None \<Rightarrow>
          (case artifact_to_row (new_artifact q i now uri r) of
             Inl e \<Rightarrow> (Inl e, db)
           | Inr row \<Rightarrow>
               let db1 = insert_others others db in
               case insert_artifact db1 row of
                 Inr db2 \<Rightarrow> (Inr (new_artifact q i now uri r), db2)
               | Inl e \<Rightarrow>
                   if e \<noteq> UniqueViolation then (Inl (PaaExn e), db1)
                   else (rbind (get_by_uri db1 uri) (\<lambda>racer.
                           case racer of
                             Some x \<Rightarrow> if art_sha256 x = ref_sha256 r then Inr x else Inl (PaaExn StorageError)
                           | None \<Rightarrow> Inl (PaaExn StorageError)), db1)))"

definition archive_file ::
  "'s blob_store \<Rightarrow> archive_call \<Rightarrow> string \<Rightarrow> datetime \<Rightarrow> artifact_row list \<Rightarrow> 's \<times> artifact_db
     \<Rightarrow> ArchivedArtifact lake_result \<times> 's \<times> artifact_db" where
  "archive_file B q i now others sd =
     (case sd of (s, db) \<Rightarrow>
        if \<not> ac_is_file q then (Inl (PaaExn StorageError), s, db)
        else (case bs_copy B s (ac_file q) (ac_compress q) of
                (Inl e, s1) \<Rightarrow> (Inl e, s1, db)
              | (Inr r, s1) \<Rightarrow>
                  (case record_artifact q i now others db r of (x, db1) \<Rightarrow> (x, s1, db1))))"

subsection \<open>Retrieval\<close>

definition require_artifact :: "artifact_db \<Rightarrow> string \<Rightarrow> ArchivedArtifact lake_result" where
  "require_artifact db i =
     rbind (get_artifact db i) (\<lambda>x. case x of None \<Rightarrow> Inl (PaaExn StorageError) | Some y \<Rightarrow> Inr y)"

definition digest_of :: "ArchivedArtifact \<Rightarrow> string lake_result" where
  "digest_of x = (case art_blob_uri x of Some u \<Rightarrow> parse_uri u | None \<Rightarrow> Inr (art_sha256 x))"

definition retrieve :: "'s blob_store \<Rightarrow> 's \<Rightarrow> artifact_db \<Rightarrow> string \<Rightarrow> string lake_result" where
  "retrieve B s db i = rbind (require_artifact db i) (\<lambda>x. rbind (digest_of x) (bs_get B s))"

definition retrieve_stream ::
  "'s blob_store \<Rightarrow> 's \<Rightarrow> artifact_db \<Rightarrow> string \<Rightarrow> (string list \<times> exn option) lake_result" where
  "retrieve_stream B s db i = rbind (require_artifact db i) (\<lambda>x. rmap (bs_stream B s) (digest_of x))"

definition restore_artifact ::
  "'s blob_store \<Rightarrow> 's \<Rightarrow> artifact_db \<Rightarrow> string \<Rightarrow> host \<Rightarrow> string \<Rightarrow> path \<Rightarrow> archive
     \<Rightarrow> path lake_result \<times> archive" where
  "restore_artifact B s db i dh txt dest t =
     (case rbind (require_artifact db i) digest_of of
        Inl e \<Rightarrow> (Inl e, t)
      | Inr d \<Rightarrow> bs_export B s d dh txt dest t)"

definition verify_artifact ::
  "(string \<Rightarrow> string) \<Rightarrow> 's blob_store \<Rightarrow> 's \<Rightarrow> artifact_db \<Rightarrow> string \<Rightarrow> bool lake_result" where
  "verify_artifact H B s db i =
     rbind (require_artifact db i) (\<lambda>x.
     rbind (digest_of x) (\<lambda>d.
       case bs_stream B s d of
         (cs, Some e) \<Rightarrow> if is_storage_error e then Inr False else Inl e
       | (cs, None) \<Rightarrow>
           Inr (H (concat cs) = art_sha256 x \<and> sum_list (map length cs) = art_size x)))"

end
