(* ===== verification/Artifact_Properties.thy ===== *)
theory Artifact_Properties
  imports Artifact_Archive
begin

text \<open>
  What the archive of host files guarantees, from the contract of its blob store alone: an archived file is
  in the table and its bytes can be retrieved and verified, archiving again returns the same record, and
  another content under the same virtual URI is refused.
\<close>

subsection \<open>The contract of a blob store\<close>

locale blob_contract =
  fixes H :: "string \<Rightarrow> string"
    and B :: "'s blob_store"
    and good :: "'s \<Rightarrow> bool"
    and contents :: "'s \<Rightarrow> string \<Rightarrow> string option"
  assumes digest_length: "length (H m) = 64"
    and copy_good: "good s \<Longrightarrow> bs_copy B s f b = (r, s') \<Longrightarrow> good s'"
    and copy_fails: "good s \<Longrightarrow> bs_copy B s f b = (Inl e, s') \<Longrightarrow> contents s' = contents s"
    and copy_ref: "good s \<Longrightarrow> bs_copy B s f b = (Inr x, s') \<Longrightarrow>
      ref_sha256 x = H (src_data (hf_source f)) \<and> ref_size x = length (src_data (hf_source f))"
    and copy_adds: "good s \<Longrightarrow> bs_copy B s f b = (Inr x, s') \<Longrightarrow>
      contents s' = (if contents s (ref_sha256 x) = None
        then (contents s)(ref_sha256 x \<mapsto> src_data (hf_source f)) else contents s)"
    and contents_verify: "good s \<Longrightarrow> contents s d = Some raw \<Longrightarrow> H raw = d"
    and fetch: "good s \<Longrightarrow> contents s d = Some raw \<Longrightarrow> bs_get B s d = Inr raw"
    and fetch_stream: "good s \<Longrightarrow> contents s d = Some raw \<Longrightarrow>
      \<exists>cs. bs_stream B s d = (cs, None) \<and> concat cs = raw"

text \<open>The filesystem store keeps it, on a host that answers reads and does not hide files from writes.\<close>

definition session_ok :: "(string \<Rightarrow> string) \<Rightarrow> cas_session \<Rightarrow> bool" where
  "session_ok H s \<longleftrightarrow>
     store_ok H (cs_cas s) (cs_archive s) \<and> codec_ok (cas_zstd (cs_cas s)) \<and> 0 < cas_chunk (cs_cas s) \<and>
     candid (cs_writes s) \<and> quiet_host (cs_reads s)"

definition session_held :: "cas_session \<Rightarrow> string \<Rightarrow> string option" where
  "session_held s = held (cs_cas s) (cs_archive s)"

lemma session_copy:
  assumes H: "hex_address H" and ok: "session_ok H s" and cp: "bs_copy (cas_store H) s f b = (r, s')"
  shows "session_ok H s'"
    "case r of Inl e \<Rightarrow> session_held s' = session_held s
     | Inr x \<Rightarrow> ref_sha256 x = H (src_data (hf_source f)) \<and> ref_size x = length (src_data (hf_source f)) \<and>
         session_held s' = (if session_held s (ref_sha256 x) = None
           then (session_held s)(ref_sha256 x \<mapsto> src_data (hf_source f)) else session_held s)"
proof -
  obtain a where a: "copy_file_into H (cs_writes s) (cs_cas s) (cs_archive s) f b = (r, a)" "s' = s\<lparr>cs_archive := a\<rparr>"
    using cp by (auto simp: cas_store_def split: prod.splits)
  from ok have "stored H (cs_cas s) (cs_archive s) (src_data (hf_source f)) (r, a)"
    unfolding a(1)[symmetric] by (intro copy_file_stored H) (simp_all add: session_ok_def)
  with ok a(2) show "session_ok H s'"
    "case r of Inl e \<Rightarrow> session_held s' = session_held s
     | Inr x \<Rightarrow> ref_sha256 x = H (src_data (hf_source f)) \<and> ref_size x = length (src_data (hf_source f)) \<and>
         session_held s' = (if session_held s (ref_sha256 x) = None
           then (session_held s)(ref_sha256 x \<mapsto> src_data (hf_source f)) else session_held s)"
    by (cases r; simp add: stored_def session_ok_def session_held_def same_blobs_ok same_blobs_held)+
qed

interpretation lake: blob_contract sha256_hex "cas_store sha256_hex" "session_ok sha256_hex" session_held
proof unfold_locales
  note copy = session_copy[OF sha256_address.hex_address_axioms]
  fix s :: cas_session and f b r s' e x d raw
  show "session_ok sha256_hex s \<Longrightarrow> bs_copy (cas_store sha256_hex) s f b = (r, s') \<Longrightarrow> session_ok sha256_hex s'"
    by (rule copy(1))
  show "session_ok sha256_hex s \<Longrightarrow> bs_copy (cas_store sha256_hex) s f b = (Inl e, s') \<Longrightarrow> session_held s' = session_held s"
    using copy(2)[of s f b "Inl e" s'] by simp
  show "session_ok sha256_hex s \<Longrightarrow> bs_copy (cas_store sha256_hex) s f b = (Inr x, s') \<Longrightarrow>
      ref_sha256 x = sha256_hex (src_data (hf_source f)) \<and> ref_size x = length (src_data (hf_source f))"
    using copy(2)[of s f b "Inr x" s'] by simp
  show "session_ok sha256_hex s \<Longrightarrow> bs_copy (cas_store sha256_hex) s f b = (Inr x, s') \<Longrightarrow>
      session_held s' = (if session_held s (ref_sha256 x) = None
        then (session_held s)(ref_sha256 x \<mapsto> src_data (hf_source f)) else session_held s)"
    using copy(2)[of s f b "Inr x" s'] by simp
  assume ok: "session_ok sha256_hex s" and h: "session_held s d = Some raw"
  from ok have v: "verifies sha256_hex (cs_cas s) (cs_archive s)" by (simp add: session_ok_def store_ok_verifies)
  from h have h': "held (cs_cas s) (cs_archive s) d = Some raw" by (simp add: session_held_def)
  then have d: "is_digest d" by (auto simp: held_def split: if_splits)
  show "sha256_hex raw = d" by (rule held_digest[OF v h'])
  show "bs_get (cas_store sha256_hex) s d = Inr raw"
    using quiet_get[OF v _ d, of "cs_reads s"] ok h' by (simp add: cas_store_def session_ok_def)
  show "\<exists>cs. bs_stream (cas_store sha256_hex) s d = (cs, None) \<and> concat cs = raw"
    using quiet_get_stream[OF v _ _ _ h', of "cs_reads s"] ok by (auto simp: cas_store_def session_ok_def)
qed (rule sha256.digest_length)

subsection \<open>The table\<close>

text \<open>A row that \<open>archive\<close> writes: its checksum is a digest's length, its URI names its checksum, its time can be read.\<close>

definition artifact_row_ok :: "artifact_row \<Rightarrow> bool" where
  "artifact_row_ok r \<longleftrightarrow>
     length (ar_sha256 r) = 64 \<and> ar_blob_uri r \<in> {None, Some (cas_prefix @ ar_sha256 r)} \<and>
     (\<exists>x. artifact_from_row r = Inr x)"

definition artifacts_ok :: "artifact_db \<Rightarrow> bool" where
  "artifacts_ok db \<longleftrightarrow>
     distinct (map ar_id (ad_rows db)) \<and> distinct (map ar_virtual_uri (ad_rows db)) \<and>
     (\<forall>r \<in> set (ad_rows db). artifact_row_ok r)"

lemma insert_artifact_ok:
  assumes "artifacts_ok db" "artifact_row_ok r" "insert_artifact db r = Inr db'"
  shows "artifacts_ok db'"
proof -
  from assms(3) have fresh: "\<forall>r' \<in> set (ad_rows db). ar_id r' \<noteq> ar_id r \<and> ar_virtual_uri r' \<noteq> ar_virtual_uri r"
    and db': "db' = db\<lparr>ad_rows := ad_rows db @ [r]\<rparr>"
    by (auto simp: insert_artifact_def split: if_splits)
  then have "ar_id r \<notin> ar_id ` set (ad_rows db)" "ar_virtual_uri r \<notin> ar_virtual_uri ` set (ad_rows db)" by force+
  with assms(1,2) show ?thesis by (simp add: db' artifacts_ok_def)
qed

lemma insert_artifact_rows: "insert_artifact db r = Inr db' \<Longrightarrow> ad_rows db' = ad_rows db @ [r]"
  by (auto simp: insert_artifact_def split: if_splits)

lemma insert_others_ok:
  "artifacts_ok db \<Longrightarrow> \<forall>r \<in> set rs. artifact_row_ok r \<Longrightarrow> artifacts_ok (insert_others rs db)"
  unfolding insert_others_def
  by (induction rs arbitrary: db) (auto split: sum.split intro: insert_artifact_ok)

lemma insert_others_Nil [simp]: "insert_others [] db = db"
  by (simp add: insert_others_def)

lemma find_row: "r \<in> set rs \<Longrightarrow> distinct (map k rs) \<Longrightarrow> find (\<lambda>x. k x = k r) rs = Some r"
  by (induction rs) auto

lemma find_some: "find P rs = Some r \<Longrightarrow> r \<in> set rs \<and> P r"
  by (induction rs) (auto split: if_splits)

lemma get_artifact_row:
  assumes "artifacts_ok db" "r \<in> set (ad_rows db)"
  shows "get_artifact db (ar_id r) = rmap Some (artifact_from_row r)"
    "get_by_uri db (ar_virtual_uri r) = rmap Some (artifact_from_row r)"
  using assms by (simp_all add: get_artifact_def get_by_uri_def fetch_artifact_def artifacts_ok_def find_row)

lemma get_by_uri_row:
  assumes "artifacts_ok db" "get_by_uri db u = Inr (Some x)"
  obtains r where "r \<in> set (ad_rows db)" "ar_virtual_uri r = u" "artifact_from_row r = Inr x"
  using assms
  by (auto simp: get_by_uri_def fetch_artifact_def rmap_eq_Inr split: option.splits dest!: find_some)

lemma get_by_uri_typed: "artifacts_ok db \<Longrightarrow> \<exists>x. get_by_uri db u = Inr x"
  by (auto simp: get_by_uri_def fetch_artifact_def artifacts_ok_def artifact_row_ok_def split: option.split
      dest!: find_some)

lemma get_by_uri_None: "get_by_uri db u = Inr None \<longleftrightarrow> (\<forall>r \<in> set (ad_rows db). ar_virtual_uri r \<noteq> u)"
  by (auto simp: get_by_uri_def fetch_artifact_def rmap_eq_Inr find_None_iff dest: find_some split: option.split)

lemma artifact_from_row_fields:
  assumes "artifact_from_row r = Inr x"
  shows "art_id x = ar_id r" "art_virtual_uri x = ar_virtual_uri r" "art_sha256 x = ar_sha256 r"
    "art_size x = ar_size r" "art_blob_uri x = ar_blob_uri r"
  using assms by (auto simp: artifact_from_row_def rmap_eq_Inr)

lemma digest_of_row:
  assumes "artifact_row_ok r" "artifact_from_row r = Inr x"
  shows "digest_of x = Inr (ar_sha256 r)"
  using assms artifact_from_row_fields[OF assms(2)]
  by (auto simp: digest_of_def artifact_row_ok_def parse_uri_def cas_prefix_def)

lemma require_row:
  assumes "artifacts_ok db" "r \<in> set (ad_rows db)"
  obtains x where "artifact_from_row r = Inr x" "require_artifact db (ar_id r) = Inr x" "digest_of x = Inr (ar_sha256 r)"
proof -
  from assms have r: "artifact_row_ok r" by (simp add: artifacts_ok_def)
  then obtain x where x: "artifact_from_row r = Inr x" by (auto simp: artifact_row_ok_def)
  from get_artifact_row(1)[OF assms] x have "require_artifact db (ar_id r) = Inr x" by (simp add: require_artifact_def)
  with that x digest_of_row[OF r x] show ?thesis by blast
qed

text \<open>The row of a new artifact.\<close>

lemma new_row:
  assumes now: "valid_datetime now" "aware now" and len: "length (ref_sha256 r) = 64"
  obtains row where "artifact_to_row (new_artifact q i now u r) = Inr row" "artifact_row_ok row"
    "ar_id row = i" "ar_virtual_uri row = u" "ar_sha256 row = ref_sha256 r" "ar_size row = ref_size r"
  using assms fromisoformat_isoformat[OF now(1)]
  by (auto simp: artifact_to_row_def new_artifact_def lift_time_def to_iso_def artifact_row_ok_def
      artifact_from_row_def ref_uri_def)

text \<open>Where the outcome of \<open>record_artifact\<close> comes from: a row of the table with this URI and this checksum.\<close>

lemma record_artifact_row:
  assumes ok: "artifacts_ok db" and others: "\<forall>r \<in> set others. artifact_row_ok r"
    and now: "valid_datetime now" "aware now" and len: "length (ref_sha256 r) = 64"
    and rec: "record_artifact q i now others db r = (out, db')"
  shows "artifacts_ok db'"
    "case out of
       Inr x \<Rightarrow> \<exists>row \<in> set (ad_rows db'). ar_id row = art_id x \<and> ar_virtual_uri row = chosen_uri q r \<and>
         ar_sha256 row = ref_sha256 r \<and> ar_size row = art_size x \<and> art_sha256 x = ref_sha256 r
     | Inl e \<Rightarrow> is_storage_error e"
proof -
  let ?u = "chosen_uri q r" and ?db1 = "insert_others others db"
  obtain found where f: "get_by_uri db ?u = Inr found" using get_by_uri_typed[OF ok] by blast
  have "artifacts_ok db' \<and> (case out of
       Inr x \<Rightarrow> \<exists>row \<in> set (ad_rows db'). ar_id row = art_id x \<and> ar_virtual_uri row = ?u \<and>
         ar_sha256 row = ref_sha256 r \<and> ar_size row = art_size x \<and> art_sha256 x = ref_sha256 r
     | Inl e \<Rightarrow> is_storage_error e)"
  proof (cases found)
    case (Some inc)
    with f get_by_uri_row[OF ok, of ?u inc] obtain row where
      row: "row \<in> set (ad_rows db)" "ar_virtual_uri row = ?u" "artifact_from_row row = Inr inc" by auto
    with rec f Some ok artifact_from_row_fields[OF row(3)] show ?thesis
      by (auto simp: record_artifact_def Let_def)
  next
    case None
    obtain row where row: "artifact_to_row (new_artifact q i now ?u r) = Inr row" "artifact_row_ok row"
      "ar_id row = i" "ar_virtual_uri row = ?u" "ar_sha256 row = ref_sha256 r" "ar_size row = ref_size r"
      by (rule new_row[OF now len])
    have ok1: "artifacts_ok ?db1" using insert_others_ok[OF ok others] .
    obtain racer where g: "get_by_uri ?db1 ?u = Inr racer" using get_by_uri_typed[OF ok1] by blast
    show ?thesis
    proof (cases "insert_artifact ?db1 row")
      case (Inr db2)
      with rec f None row have "out = Inr (new_artifact q i now ?u r)" "db' = db2"
        by (auto simp: record_artifact_def Let_def)
      with insert_artifact_ok[OF ok1 row(2) Inr] insert_artifact_rows[OF Inr] row show ?thesis
        by (simp add: new_artifact_def)
    next
      case (Inl e)
      then have e: "e \<in> {UniqueViolation, IntegrityError}" by (auto simp: insert_artifact_def split: if_splits)
      show ?thesis
      proof (cases racer)
        case no_racer: None
        with rec f None row g e Inl ok1 show ?thesis
          by (auto simp: record_artifact_def Let_def split: if_splits)
      next
        case (Some x)
        with g get_by_uri_row[OF ok1, of ?u x] obtain row' where
          row': "row' \<in> set (ad_rows ?db1)" "ar_virtual_uri row' = ?u" "artifact_from_row row' = Inr x" by auto
        have "out = (if e \<noteq> UniqueViolation then Inl (PaaExn e)
            else if art_sha256 x = ref_sha256 r then Inr x else Inl (PaaExn StorageError))" "db' = ?db1"
          using rec f None row(1) g Inl Some by (auto simp: record_artifact_def Let_def split: if_splits)
        with e ok1 row'(1,2) artifact_from_row_fields[OF row'(3)] show ?thesis by auto
      qed
    qed
  qed
  then show "artifacts_ok db'"
    "case out of
       Inr x \<Rightarrow> \<exists>row \<in> set (ad_rows db'). ar_id row = art_id x \<and> ar_virtual_uri row = ?u \<and>
         ar_sha256 row = ref_sha256 r \<and> ar_size row = art_size x \<and> art_sha256 x = ref_sha256 r
     | Inl e \<Rightarrow> is_storage_error e"
    by blast+
qed

text \<open>A second record under the same URI: the same row if the checksum agrees, refused otherwise, and nothing written.\<close>

lemma record_artifact_again:
  assumes ok: "artifacts_ok db" and row: "row \<in> set (ad_rows db)" "ar_virtual_uri row = chosen_uri q r"
  shows "\<exists>x. artifact_from_row row = Inr x \<and> record_artifact q i now others db r =
    (if ar_sha256 row = ref_sha256 r then Inr x else Inl (PaaExn StorageError), db)"
proof -
  from ok row obtain x where x: "artifact_from_row row = Inr x" by (auto simp: artifacts_ok_def artifact_row_ok_def)
  with get_artifact_row(2)[OF ok row(1)] row(2) have "get_by_uri db (chosen_uri q r) = Inr (Some x)" by simp
  with x artifact_from_row_fields[OF x] show ?thesis by (simp add: record_artifact_def Let_def)
qed

subsection \<open>The archive over the contract\<close>

context blob_contract
begin

text \<open>What a retrieval of a recorded artifact gives, when the store has the bytes.\<close>

lemma retrieve_row:
  assumes good: "good s" and ok: "artifacts_ok db" and row: "row \<in> set (ad_rows db)"
    and raw: "contents s (ar_sha256 row) = Some raw"
  shows "retrieve B s db (ar_id row) = Inr raw"
    "verify_artifact H B s db (ar_id row) = Inr (length raw = ar_size row)"
proof -
  obtain x where x: "artifact_from_row row = Inr x" "require_artifact db (ar_id row) = Inr x"
    "digest_of x = Inr (ar_sha256 row)" by (rule require_row[OF ok row])
  with fetch[OF good raw] show "retrieve B s db (ar_id row) = Inr raw" by (simp add: retrieve_def)
  from fetch_stream[OF good raw] obtain cs where cs: "bs_stream B s (ar_sha256 row) = (cs, None)" "concat cs = raw" by blast
  then have "sum_list (map length cs) = length raw" by (simp add: length_concat[symmetric])
  with x cs contents_verify[OF good raw] artifact_from_row_fields[OF x(1)]
  show "verify_artifact H B s db (ar_id row) = Inr (length raw = ar_size row)"
    by (simp add: verify_artifact_def)
qed

theorem archive_retrieves:
  assumes good: "good s" and ok: "artifacts_ok db" and others: "\<forall>r \<in> set others. artifact_row_ok r"
    and now: "valid_datetime now" "aware now"
    and ar: "archive_file B q i now others (s, db) = (Inr x, s', db')"
  defines "data \<equiv> src_data (hf_source (ac_file q))"
  shows "good s'" "artifacts_ok db'" "art_sha256 x = H data"
    "\<exists>raw. retrieve B s' db' (art_id x) = Inr raw \<and> H raw = H data \<and>
       (contents s (H data) = None \<longrightarrow> raw = data) \<and>
       verify_artifact H B s' db' (art_id x) = Inr (length raw = art_size x)"
proof -
  from ar obtain r s1 where cp: "bs_copy B s (ac_file q) (ac_compress q) = (Inr r, s')"
    and rec: "record_artifact q i now others db r = (Inr x, db')"
    by (auto simp: archive_file_def split: if_splits prod.splits sum.splits)
  from copy_ref[OF good cp] have r: "ref_sha256 r = H data" "ref_size r = length data" by (simp_all add: data_def)
  then have len: "length (ref_sha256 r) = 64" by (simp add: digest_length)
  from record_artifact_row[OF ok others now len rec] obtain row where
    row: "artifacts_ok db'" "row \<in> set (ad_rows db')" "ar_id row = art_id x" "ar_sha256 row = ref_sha256 r"
      "ar_size row = art_size x" "art_sha256 x = ref_sha256 r" by auto
  show g: "good s'" using copy_good[OF good cp] .
  show "artifacts_ok db'" "art_sha256 x = H data" using row r by simp_all
  obtain raw where raw: "contents s' (H data) = Some raw" "contents s (H data) = None \<longrightarrow> raw = data"
    using copy_adds[OF good cp] by (cases "contents s (H data)") (auto simp: r data_def)
  show "\<exists>raw. retrieve B s' db' (art_id x) = Inr raw \<and> H raw = H data \<and>
       (contents s (H data) = None \<longrightarrow> raw = data) \<and>
       verify_artifact H B s' db' (art_id x) = Inr (length raw = art_size x)"
    using retrieve_row[OF g row(1,2), of raw] raw row(3,4,5) contents_verify[OF g raw(1)] r(1) by auto
qed

theorem archive_again:
  assumes good: "good s" and ok: "artifacts_ok db" and others: "\<forall>r \<in> set others. artifact_row_ok r"
    and now: "valid_datetime now" "aware now"
    and ar: "archive_file B q i now others (s, db) = (Inr x, s', db')"
    and call: "ac_is_file q'" "ac_virtual_uri q' = ac_virtual_uri q" "ac_name q' = ac_name q"
    and cp': "bs_copy B s' (ac_file q') (ac_compress q') = (Inr r', s'')"
    and same: "H (src_data (hf_source (ac_file q'))) = H (src_data (hf_source (ac_file q)))"
  shows "\<exists>y. archive_file B q' i' now' others' (s', db') = (Inr y, s'', db') \<and> art_id y = art_id x"
proof -
  from ar obtain r where cp: "bs_copy B s (ac_file q) (ac_compress q) = (Inr r, s')"
    and rec: "record_artifact q i now others db r = (Inr x, db')"
    by (auto simp: archive_file_def split: if_splits prod.splits sum.splits)
  from copy_ref[OF good cp] have len: "length (ref_sha256 r) = 64" by (simp add: digest_length)
  from record_artifact_row[OF ok others now len rec] obtain row where
    row: "artifacts_ok db'" "row \<in> set (ad_rows db')" "ar_id row = art_id x" "ar_sha256 row = ref_sha256 r"
      "ar_virtual_uri row = chosen_uri q r" by auto
  have r': "ref_sha256 r' = ref_sha256 r"
    using copy_ref[OF good cp] copy_ref[OF copy_good[OF good cp] cp'] same by simp
  with call have u: "chosen_uri q' r' = chosen_uri q r" by (simp add: chosen_uri_def cong: option.case_cong)
  from record_artifact_again[OF row(1,2), of q' r' i' now' others'] row(5) u obtain y where
    y: "artifact_from_row row = Inr y" "record_artifact q' i' now' others' db' r' = (Inr y, db')"
    using row(4) r' by auto
  with cp' call artifact_from_row_fields(1)[OF y(1)] row(3) show ?thesis by (simp add: archive_file_def)
qed

theorem archive_conflict:
  assumes good: "good s" and ok: "artifacts_ok db"
    and row: "row \<in> set (ad_rows db)" "ac_virtual_uri q = Some (ar_virtual_uri row)" "ar_virtual_uri row \<noteq> []"
    and differs: "ar_sha256 row \<noteq> H (src_data (hf_source (ac_file q)))"
    and cp: "ac_is_file q" "bs_copy B s (ac_file q) (ac_compress q) = (Inr r, s')"
  shows "archive_file B q i now others (s, db) = (Inl (PaaExn StorageError), s', db)"
proof -
  from row(2,3) have "chosen_uri q r = ar_virtual_uri row" by (simp add: chosen_uri_def falsy_none_def)
  with record_artifact_again[OF ok row(1), of q r i now others] differs copy_ref[OF good cp(2)] cp show ?thesis
    by (auto simp: archive_file_def)
qed

end

end
