(* ===== verification/Sample_Blobs.thy ===== *)
theory Sample_Blobs
  imports Blob_Races Artifact_Properties
begin

text \<open>
  A small blob store: a codec that marks its frames with a letter, a host that raises nothing, and an archive
  with one blob. The properties of the store and of the artifact archive are evaluated on them.
\<close>

definition mark_codec :: zstd where
  "mark_codec =
     \<lparr>z_compress = (\<lambda>l d. Some (CHR ''Z'' # d)),
      z_write = (\<lambda>l n cs. if n \<noteq> -1 \<and> n \<noteq> int (length (concat cs)) then Inl (length cs) else Inr (CHR ''Z'' # concat cs)),
      z_abort = (\<lambda>l n cs. None),
      z_read = (\<lambda>f. case f of [] \<Rightarrow> None | c # s \<Rightarrow> if c = CHR ''Z'' then Some s else None),
      z_pieces = (\<lambda>k f. case f of [] \<Rightarrow> ([], True)
        | c # s \<Rightarrow> if c = CHR ''Z'' then (chunks_of k s, False) else ([], True)),
      z_frame_size = (\<lambda>f. case f of [] \<Rightarrow> None | c # s \<Rightarrow> if c = CHR ''Z'' then Some (-1) else None)\<rparr>"

lemma mark_codec_ok: "codec_ok mark_codec"
  by (auto simp: codec_ok_def mark_codec_def concat_chunks_of split: list.splits if_splits)

definition sample_cas :: cas where
  "sample_cas = \<lparr>cas_root = ''lake'', cas_level = 3, cas_chunk = 4, cas_zstd = mark_codec\<rparr>"

lemma sample_cas_simps [simp]: "cas_zstd sample_cas = mark_codec" "cas_chunk sample_cas = 4"
  by (simp_all add: sample_cas_def)

definition calm_host :: host where
  "calm_host = \<lparr>h_fault = (\<lambda>call p. None), h_torn = None, h_read_after = 0, h_name = ''a1''\<rparr>"

lemma calm_quiet [simp]: "quiet_host calm_host" "candid calm_host" "h_fault calm_host call p = None"
  by (simp_all add: quiet_host_def candid_def calm_host_def)

text \<open>A host on which no directory can be made.\<close>

definition denied :: os_error where
  "denied = \<lparr>os_class = PermissionError, os_errno = Some EACCES\<rparr>"

definition full_host :: host where
  "full_host = calm_host\<lparr>h_fault := (\<lambda>call p. if call = Mkdir then Some denied else None)\<rparr>"

lemma sample_digest [simp]: "is_digest (sha256_hex m)"
  by (rule sha256_address.digest_is_digest)

definition one_blob :: archive where
  "one_blob = [(leaf (sha256_hex ''abc'') False, ''abc'')]"

lemma one_blob_get: "dict_get one_blob p = (if p = leaf (sha256_hex ''abc'') False then Some ''abc'' else None)"
  by (simp add: one_blob_def dict_get_def)

lemma one_blob_ok: "store_ok sha256_hex sample_cas one_blob"
  by (auto simp: store_ok_def verifies_def one_form_def one_blob_get leaf_inj decode_def)

lemma one_blob_held: "held sample_cas one_blob = [sha256_hex ''abc'' \<mapsto> ''abc'']"
  by (rule ext) (auto simp: held_def one_blob_get leaf_inj decode_def)

definition sample_session :: cas_session where
  "sample_session = \<lparr>cs_cas = sample_cas, cs_archive = [], cs_writes = calm_host, cs_reads = calm_host\<rparr>"

lemma sample_session_ok: "session_ok sha256_hex sample_session"
  by (simp add: session_ok_def sample_session_def mark_codec_ok)

definition sample_call :: archive_call where
  "sample_call =
     \<lparr>ac_file = \<lparr>hf_path = ''/tmp/n.txt'', hf_open = None, hf_size = Inr 3,
                hf_source = \<lparr>src_data = ''abc'', src_fault = None\<rparr>\<rparr>,
      ac_is_file = True, ac_name = ''n.txt'', ac_resolved = ''/tmp/n.txt'', ac_correlation_id = None,
      ac_signal_id = None, ac_virtual_uri = None, ac_compress = False\<rparr>"

text \<open>The plain write of three bytes into the empty archive, step by step.\<close>

lemma sample_locate: "locate_blob calm_host c [] (sha256_hex m) = Inr None"
  by (simp add: quiet_locate dict_get_def)

lemma sample_chunks: "chunks_of 4 ''abc'' = [''abc'']"
  by (simp add: chunks_of.simps)

lemma sample_put:
  "put sha256_hex calm_host sample_cas [] ''abc'' False =
     (Inr \<lparr>ref_sha256 = sha256_hex ''abc'', ref_size = 3, ref_compressed = 3\<rparr>, one_blob)"
  using sample_locate[of sample_cas "''abc''"]
  by (simp add: put_def Let_def commit_file_def os_replace_def file_call_def unlink_quietly_def dict_get_def
      dict_del_def one_blob_def)

lemma sample_put_stream:
  "put_stream sha256_hex calm_host sample_cas [] \<lparr>src_data = ''abc'', src_fault = None\<rparr> False (Some 3) =
     (Inr \<lparr>ref_sha256 = sha256_hex ''abc'', ref_size = 3, ref_compressed = 3\<rparr>, one_blob)"
proof -
  let ?a = "[(scratch_path calm_host, ''abc'')]"
  have l: "locate_blob calm_host sample_cas ?a (sha256_hex ''abc'') = Inr None"
    by (simp add: quiet_locate dict_get_def)
  have "place_staged sha256_hex calm_host sample_cas ?a ''abc'' False (Some 3) =
      (Inr \<lparr>ref_sha256 = sha256_hex ''abc'', ref_size = 3, ref_compressed = 3\<rparr>, one_blob)"
    using l by (simp add: place_staged_def Let_def file_call_def os_replace_def dict_get_def dict_del_def one_blob_def)
  then show ?thesis
    by (simp add: put_stream_def stream_payload_def Let_def sample_chunks unlink_quietly_def dict_del_def one_blob_def)
qed

definition archive_time :: datetime where
  "archive_time = \<lparr>year = 1, month = 1, day = 1, hour = 0, minute = 0, second = 0, microsecond = 0, aware = True\<rparr>"

lemma archive_time_ok: "valid_datetime archive_time" "aware archive_time"
  by (simp_all add: archive_time_def valid_datetime_def)

definition empty_artifacts :: artifact_db where
  "empty_artifacts = \<lparr>ad_rows = [], ad_signals = []\<rparr>"

lemma empty_artifacts_ok: "artifacts_ok empty_artifacts"
  by (simp add: artifacts_ok_def empty_artifacts_def)

lemma sample_archive:
  obtains x s' db' where
    "archive_file (cas_store sha256_hex) sample_call ''id1'' archive_time [] (sample_session, empty_artifacts) = (Inr x, s', db')"
    "art_id x = ''id1''" "art_size x = 3"
proof -
  let ?r = "\<lparr>ref_sha256 = sha256_hex ''abc'', ref_size = 3, ref_compressed = 3\<rparr>"
  have cp: "bs_copy (cas_store sha256_hex) sample_session (ac_file sample_call) False =
      (Inr ?r, sample_session\<lparr>cs_archive := one_blob\<rparr>)"
    using sample_put_stream by (simp add: cas_store_def sample_session_def sample_call_def copy_file_into_def)
  have len: "length (sha256_hex ''abc'') = 64" by (rule sha256.digest_length)
  let ?x = "new_artifact sample_call ''id1'' archive_time (chosen_uri sample_call ?r) ?r"
  have "fst (record_artifact sample_call ''id1'' archive_time [] empty_artifacts ?r) = Inr ?x"
    by (simp add: record_artifact_def empty_artifacts_def get_by_uri_def fetch_artifact_def artifact_to_row_def
        lift_time_def to_iso_def archive_time_def new_artifact_def insert_artifact_def len sample_call_def Let_def)
  then obtain db' where rec: "record_artifact sample_call ''id1'' archive_time [] empty_artifacts ?r = (Inr ?x, db')"
    by (cases "record_artifact sample_call ''id1'' archive_time [] empty_artifacts ?r") auto
  have call: "ac_is_file sample_call" "ac_compress sample_call = False" by (simp_all add: sample_call_def)
  have "archive_file (cas_store sha256_hex) sample_call ''id1'' archive_time [] (sample_session, empty_artifacts) =
      (Inr ?x, sample_session\<lparr>cs_archive := one_blob\<rparr>, db')"
    by (simp add: archive_file_def call cp rec)
  then show ?thesis by (rule that) (simp_all add: new_artifact_def)
qed

text \<open>A foreign file whose name has the length of a digest ends the walk over the archive with an error.\<close>

lemma sample_foreign:
  "iter_blobs calm_host sample_cas [([''blobs'', replicate 64 (CHR ''Q'') @ ''.bin''], ''x'')] =
     ([], Some (blob_exn MalformedRequest (''not a sha256 hex digest: '' @ py_repr (replicate 64 (CHR ''Q'')))
        [(''value'', DText (replicate 64 (CHR ''Q'')))]))"
  by code_simp

end
