(* ===== verification/Spec2Isabelle.thy ===== *)
theory Spec2Isabelle
  imports Sample_Policy Sample_Runtime Sample_Patch Sample_Agent Sample_Blobs
begin

text \<open>
  \<^bold>\<open>What this development verifies.\<close>

  The Personal AI Automations OS (\<open>src/src/paa\<close>) runs agents whose every step is an event of an
  append-only ledger. Its core is modelled here: the ledger and its hash chain, the projection of a
  task from its events, recovery after a crash, the durable queue that carries work between
  processes, the orchestrator that drives a task through its stages, the guards that keep delegation,
  tokens and memory within bounds, the policy gate, workspace manifests and patches, the interactive agent with its
  permissions and transcripts, the upkeep of the fact memory, and the content-addressed archive of the cold lake.

  \<^bold>\<open>How the parts interact.\<close>

  A producer creates a \<open>LedgerEvent\<close>, the store seals it (version, previous hash, digest) and appends
  it in one transaction together with the head of its lineage. Readers fold the events of a lineage
  into a \<open>TaskProjection\<close>, starting from a snapshot when there is one. On boot, recovery walks the open
  heads, projects each lineage, compares the workspace with its last checkpoint, and abandons, rolls
  back or requeues the task, writing its own events through the same store. The orchestrator is the
  main producer: it records a request, asks its agents for context, plan, policy verdict, execution and
  critique, and turns each answer into an event; what it does next depends only on the projection and
  on the questions it has put to a human. Its policy agent reads the plan as one text and approves it, refuses it or asks for
  a human, without a model. Work travels through the
  queue; a lease lock keeps two processes from doing the same; backpressure, delegation graphs,
  budgets and watchdogs bound what is admitted. Patches reach a workspace through a dry run and a journal.
  The interactive agent is a second way in: a model proposes tool calls, and each passes hooks, the
  permission policy and the human before it runs. Files that must outlive a task go to the cold lake: their bytes to a
  store whose addresses are digests, the act of archiving to a table.

  \<^bold>\<open>Theories and sources.\<close>

  \<^item> \<open>Prelude\<close>: results (\<open>py_error + 'a\<close>) with bind, map and folds, Python dictionaries as association
    lists in insertion order, decimal rendering of integers, SQL's LIMIT, and the collections of simplification rules.
  \<^item> \<open>Core_Types\<close>, \<open>Identifiers\<close> (\<open>core/types.py\<close>): event vocabulary, permission modes, modality profiles, uuids.
  \<^item> \<open>Timestamps\<close> (\<open>storage/relational/database.py\<close>): \<open>to_iso\<close>, \<open>from_iso\<close>; stored timestamps round trip and sort as text.
  \<^item> \<open>Canonical_Json\<close>, \<open>Json_Canonicity\<close> (\<open>ledger/events.py\<close>, \<open>database.py\<close>): canonical rendering of payloads, what a
    column stores of them, and that rendering is injective up to the order of members.
  \<^item> \<open>Sha256\<close>: the digest as a locale \<open>hex_digest\<close>, interpreted on an executable SHA-256.
  \<^item> \<open>Ledger_Events\<close> (\<open>ledger/events.py\<close>): idempotency key, digest, sealing.
  \<^item> \<open>Ledger_Store\<close> (\<open>ledger/store.py\<close>): tables, the append transaction, heads, reads, chain verification, snapshots.
    The transaction takes the state it read and the state it writes to as two arguments, so that other
    processes may commit in between. \<open>Ledger_Invariant\<close>: every interleaving keeps chains, keys and
    heads well formed. \<open>Ledger_Integrity\<close>: verification accepts what was appended and binds the history.
  \<^item> \<open>Dynamic_Values\<close>, \<open>Ledger_Replay\<close>, \<open>Replay_Properties\<close> (\<open>ledger/replay.py\<close>): the fold, totality, exact
    counts, snapshots as a cache.
  \<^item> \<open>Actions\<close>: stateful code as functions of a world that return a value or raise, and rules for what they keep.
  \<^item> \<open>Ledger_Recovery\<close>, \<open>Recovery_Properties\<close> (\<open>ledger/recovery.py\<close>): checkpoints, the boot sweep and each of its
    outcomes as actions over ledger, files and queue.
  \<^item> \<open>Gate_Questions\<close>, \<open>Agents\<close>, \<open>Orchestrator\<close> (\<open>agents/orchestrator.py\<close>, \<open>agents/base.py\<close>): human-gate questions,
    the contract of an agent, and the orchestrator as actions over ledger, queue and delegation graphs.
    \<open>Orchestrator_Properties\<close>: what holds whatever the agents answer. \<open>Task_Lifecycle\<close>, \<open>Task_Runs\<close>: total
    correctness of the stages and of whole runs, for agents that answer as a script says.
  \<^item> \<open>Py_Texts\<close>, \<open>Regex_Search\<close>, \<open>Double_Floats\<close>: operations on texts, what the gate uses of Python's \<open>re\<close> (an executable search, shown to decide the usual
    notion of a match) and of its floats (doubles as exact rationals, rounded after every operation). \<open>Policy_Agent\<close>
    (\<open>agents/policy.py\<close>): rendering of plans, the six checks, score, gating, verdict. \<open>Policy_Properties\<close>: each check
    against its specification, patterns in context, bounds of the score. \<open>Policy_Review\<close>: the agent in the orchestrator.
  \<^item> \<open>Message_Queue\<close>, \<open>Queue_Delivery\<close> (\<open>storage/queue/base.py\<close>, \<open>sqlite_backend.py\<close>): queue rows and operations; the
    locale \<open>delivery_protocol\<close> states what a queue promises, and bounds deliveries from it alone.
  \<^item> \<open>Lease_Lock\<close> (\<open>storage/queue/sqlite_backend.py\<close>, \<open>base.py\<close>): locks, with the locale \<open>lease_lock\<close> as their contract.
  \<^item> \<open>Backpressure\<close> (\<open>storage/queue/backpressure.py\<close>): load classes, admission, degraded modalities.
  \<^item> \<open>Cycle_Guard\<close>, \<open>Delegation\<close> (\<open>agents/delegation.py\<close>), \<open>Recursion_Guard\<close> (\<open>sandbox/recursion.py\<close>): two delegation
    graphs; the locale \<open>cycle_guard\<close> is the contract both implement, interpreted on each.
  \<^item> \<open>Token_Budget\<close> (\<open>context/budget.py\<close>): estimators (locale \<open>token_estimator\<close>) and trees of budgets, held in
    a store whose indices are the object references.
  \<^item> \<open>Watchdog\<close> (\<open>sandbox/watchdog.py\<close>): the memory watchdog and the heartbeat tracker; probes and the clock are arguments.
  \<^item> \<open>Workspace\<close>, \<open>Workspace_Properties\<close> (\<open>validation/workspace.py\<close>): manifests, comparison, backup and restore.
  \<^item> \<open>Unified_Diff\<close>, \<open>Patch_Apply\<close> (\<open>validation/patch.py\<close>): the parser of unified diffs, path safety, planning, applying
    and rolling back patches, on the trees of \<open>Workspace\<close>. \<open>Diff_Properties\<close>: hunks are placed at the nearest exact match,
    diffs turn the old text into the new, reversed diffs turn it back, and rendered diffs parse.
    \<open>Patch_Properties\<close>, \<open>Patch_Effects\<close>: containment, rollback, and whole patches from their text to the tree.
  \<^item> \<open>Permissions\<close>, \<open>Permission_Properties\<close> (\<open>coder/permissions.py\<close>): globs, rules and decisions; what a pattern means,
    and that denials win. \<open>Coder_Hooks\<close> (\<open>coder/hooks.py\<close>): dispatch of hooks, with its properties.
    \<open>Coder_Session\<close>, \<open>Session_Properties\<close> (\<open>coder/session.py\<close>): turns, transcripts, windows, compaction, resuming.
    \<open>Agent_Loop\<close>, \<open>Loop_Properties\<close>, \<open>Loop_Transcript\<close> (\<open>coder/loop.py\<close>, \<open>coder/agent.py\<close>): the tool-use loop as actions
    over session and world, what reaches the world, and what the transcript holds.
  \<^item> \<open>Like_Pattern\<close> (\<open>storage/relational/like.py\<close>): search patterns and the meaning of LIKE.
  \<^item> \<open>Memory_Decay\<close>, \<open>Decay_Properties\<close> (\<open>memory/domains.py\<close>, \<open>memory/decay.py\<close>): domain policies, confidence and
    the paged eviction sweep.
  \<^item> \<open>Blob_Errors\<close> (\<open>storage/coldlake/errors.py\<close>): what the operating system and the codec can raise, and its translation.
    \<open>Blob_Store\<close> (\<open>cas.py\<close>): the archive as a list of files and every operation as the sequence of its file-system
    calls, each of which the host may refuse. \<open>Blob_Properties\<close>: the archive stands for a map from digests to
    bytes; each operation on the map; sequences. \<open>Blob_Reads\<close>: verified reads, reading back, which errors leave which
    operation. \<open>Blob_Races\<close>: the same calls interleaved by any number of writers, with crashes, and the operations as
    runs of them; the invariant is that every file at the address of a blob verifies.
  \<^item> \<open>Artifact_Archive\<close>, \<open>Artifact_Properties\<close> (\<open>storage/coldlake/artifacts.py\<close>, \<open>base.py\<close>): archiving over the locale
    \<open>blob_contract\<close>, interpreted on the filesystem store; what is archived can be retrieved and verified, archiving again
    returns the same record, other content under the same URI is refused.
  \<^item> \<open>Sample_Lineage\<close>, \<open>Sample_Runtime\<close>, \<open>Sample_Memory\<close>, \<open>Sample_Patch\<close>, \<open>Sample_Agent\<close>, \<open>Sample_Tasks\<close>, \<open>Sample_Policy\<close>, \<open>Sample_Blobs\<close>: concrete states on which the properties below are instantiated.

  \<^bold>\<open>Conventions.\<close>

  Exceptions are values of \<open>py_error\<close>; messages are not modelled, except in the cold lake, whose error vocabulary carries
  messages and details. Python integers are \<open>int\<close>, clocks and
  instants are integers (microseconds) or rationals, confidences are reals. Texts are lists of
  characters of one byte each. A database is a record of row lists; a transaction that raises leaves it as it was.
  Loops that walk a graph, a tree of budgets or the pages of a table are terminating functions, with a
  measure; no definition uses fuel, and no result depends on a bound chosen here.

  \<^bold>\<open>What is not modelled.\<close>

  Drivers and servers (Redis, PostgreSQL, MinIO, Qdrant, Docker, WSL), HTTP and command line, model clients, migrations,
  telemetry, logging, and the code that parses source text with third-party parsers. Functions of
  such code that the modelled parts call (the digest, \<open>TaskProjection.model_validate\<close>, the workspace
  snapshotter, the requeue callback, the handlers of the agents, operating-system probes and permissions, the archive writer, the codec of the blob store) are
  arguments of the definitions.
\<close>

section \<open>The ledger\<close>

text \<open>
  C1. However many processes append at once, and whatever committed state each of them read before it
  wrote, every committed state of the ledger is well formed: each lineage is a hash chain with
  consecutive versions from the genesis hash, keys and identifiers are unique, every row can be
  read back, every head describes the last event of its lineage and its terminal flag is right.
  The latest state extends every earlier one, so nothing recorded is ever changed or removed.
\<close>

theorem ledger_concurrent_writers:
  assumes "ledger_run H P dbs" "d \<in> set dbs"
  shows "ledger_inv d \<and> flags_inv d \<and> extends (hd dbs) d"
  using ledger_run_inv[OF assms(1)] assms(2) by blast

theorem ledger_concurrent_writers_witness:
  "ledger_inv sample_db \<and> flags_inv sample_db \<and> extends sample_db sample_db \<and> ledger_rows sample_db = [sample_row]"
  using ledger_concurrent_writers[OF sample_run, of sample_db] by (simp add: sample_db_def)

text \<open>
  C2. A ledger that any interleaving of writers built from payloads that survive their column
  verifies: the chain check of every lineage returns no problem, and the sweep over all lineages
  an empty report.
\<close>

theorem ledger_verifies:
  assumes "ledger_run H (\<lambda>e. storable_members (payload e)) dbs" "d \<in> set dbs"
  shows "verify_chain H d cid = Inr (True, []) \<and> verify_all_chains H d = Inr []"
  using ledger_run_verifies[OF assms] by blast

theorem ledger_verifies_witness:
  "verify_chain tail_hash sample_db 7 = Inr (True, []) \<and> verify_all_chains tail_hash sample_db = Inr []"
  using ledger_verifies[OF sample_run, of sample_db 7] by simp

text \<open>
  C3. Tamper evidence. Take two databases in which the chain of a lineage verifies and ends in the
  same hash. Unless the digest function collides on two of the texts it hashed, the two
  histories have the same length and agree, event by event, on lineage, type, version, link,
  timestamp and payload (up to the order of object members). Anything that rewrites a recorded
  history therefore either changes its tip or fails verification.
\<close>

theorem ledger_tamper_evidence:
  assumes "hex_digest H"
    and "verify_chain H db cid = Inr (True, [])" "read_correlation db cid 0 = Inr es" "es \<noteq> []"
    and "verify_chain H db' cid = Inr (True, [])" "read_correlation db' cid 0 = Inr es'" "es' \<noteq> []"
    and "event_hash (last es) = event_hash (last es')"
    and "\<And>e. e \<in> set es \<union> set es' \<Longrightarrow> wf_payload (payload e)"
    and "\<And>e e'. e \<in> set es \<Longrightarrow> e' \<in> set es' \<Longrightarrow> \<not> digest_collision H (event_material e) (event_material e')"
  shows "list_all2 same_covered es es'"
  by (rule verify_chain_binds_history[OF assms])

theorem ledger_tamper_evidence_witness:
  "\<exists>es. read_correlation sample_db 7 0 = Inr es \<and> length es = 1 \<and> list_all2 same_covered es es"
proof -
  obtain e where e: "read_correlation sample_db 7 0 = Inr [e]" "payload e = [(''request'', PStr ''tidy'')]"
    by (rule sample_read)
  have "list_all2 same_covered [e] [e]"
  proof (rule ledger_tamper_evidence[OF tail_hash_digest _ e(1) _ _ e(1)])
    show "verify_chain tail_hash sample_db 7 = Inr (True, [])"
      using ledger_run_verifies[OF sample_run] by simp
    then show "verify_chain tail_hash sample_db 7 = Inr (True, [])" .
  qed (auto simp: e wf_payload_def digest_collision_def split: sum.splits)
  then show ?thesis using e by simp
qed



text \<open>
  C5. Appends are idempotent. Once an event is recorded, appending any event with the same
  idempotency key (a redelivery, a retry after a lost acknowledgement, another process doing the
  same work) changes nothing at all and returns the event that is already there.
\<close>

theorem append_redelivery:
  assumes "append_event H e db = (Inr e1, db1)" "wf_event e" "chain_inv db"
    and "idempotency_key H e2 = idempotency_key H e"
  shows "append_event H e2 db1 = (Inr (reloaded e1), db1)"
  by (rule append_event_redelivery[OF assms])

theorem append_redelivery_witness:
  "\<exists>e. append_event tail_hash (requested\<lparr>event_id := 99, payload := []\<rparr>) sample_db = (Inr e, sample_db)"
proof -
  obtain e where e: "append_event tail_hash requested empty_db = (Inr e, sample_db)"
    using sample_append by blast
  have "chain_inv empty_db" using ledger_inv_empty by (simp add: ledger_inv_def)
  from append_redelivery[OF e requested_wf this, of "requested\<lparr>event_id := 99, payload := []\<rparr>"]
  show ?thesis by (auto simp: idempotency_key_def)
qed

text \<open>
  C6. Canonical JSON is canonical: two values have the same canonical text exactly if they are the
  same value up to the order of object members, at every depth.
\<close>

theorem canonical_json_iff:
  assumes "wf_json a" "wf_json b"
  shows "canonical_text a = canonical_text b \<longleftrightarrow> json_equiv a b"
  by (rule canonical_text_eq_iff[OF assms])

theorem canonical_json_iff_witness:
  "canonical_text (JObj [(''b'', JInt 1), (''a'', JList [])]) =
     canonical_text (JObj [(''a'', JList []), (''b'', JInt 1)]) \<and>
   json_equiv (JObj [(''b'', JInt 1), (''a'', JList [])]) (JObj [(''a'', JList []), (''b'', JInt 1)])"
proof -
  have eq: "canonical_text (JObj [(''b'', JInt 1), (''a'', JList [])]) =
     canonical_text (JObj [(''a'', JList []), (''b'', JInt 1)])" by code_simp
  moreover have "wf_json (JObj [(''b'', JInt 1), (''a'', JList [])])"
    "wf_json (JObj [(''a'', JList []), (''b'', JInt 1)])" by simp_all
  ultimately show ?thesis using canonical_json_iff by blast
qed



section \<open>Replay\<close>

text \<open>
  C8. Replay is total on histories whose payload fields have the types the producers write: every
  non-empty history folds into a projection, and no event makes the fold raise.
\<close>

theorem replay_returns:
  assumes "es \<noteq> []" "list_all well_typed_event es"
  shows "\<exists>st. replay es None = Inr st"
  by (rule replay_total[OF assms])

theorem replay_returns_witness:
  "\<exists>st. replay [requested, sample_event TASK_ABANDONED []] None = Inr st"
  by (rule replay_returns) (simp_all add: well_typed_event_def requested_def sample_event_def)

text \<open>
  C9. Replay counts exactly: the attempts of the projection are the execution starts of the history,
  its rollbacks the rollback events, and no step is listed as completed twice.
\<close>

theorem replay_counts:
  assumes "replay es None = Inr st"
  shows "t_attempts st = int (count_type EXECUTION_STARTED es) \<and>
    t_rollback_count st = int (count_type STATE_ROLLBACK_TRIGGERED es) \<and> distinct (t_completed_steps st)"
proof (cases es)
  case (Cons e rest)
  then have "rfold apply_event (new_projection (str_uuid (correlation_id e))) es = Inr st"
    using assms by (simp only: replay_Cons)
  then show ?thesis
    using rfold_attempts[of _ es st] rfold_rollbacks[of _ es st] rfold_completed[of _ es st]
    by (force simp: new_projection_def)
qed (use assms in \<open>simp add: replay_def\<close>)

theorem replay_counts_witness:
  "\<exists>st. replay [requested, sample_event EXECUTION_STARTED [], sample_event EXECUTION_STARTED []] None = Inr st \<and>
     t_attempts st = 2 \<and> t_rollback_count st = 0"
proof -
  obtain st where "replay [requested, sample_event EXECUTION_STARTED [], sample_event EXECUTION_STARTED []] None = Inr st"
    using replay_total[of "[requested, sample_event EXECUTION_STARTED [], sample_event EXECUTION_STARTED []]"]
    by (auto simp: well_typed_event_def requested_def sample_event_def optional_int_field_def pget_def int_field_def
        dict_get_default_def)
  with replay_counts[OF this] show ?thesis
    by (auto simp: count_type_def requested_def sample_event_def)
qed

text \<open>
  C10. Snapshots are only a cache: if the stored snapshot is the projection of a prefix of the lineage
  at its version, projecting through the snapshot and replaying from the start give the same
  result, errors included.
\<close>

theorem snapshot_is_cache:
  assumes "chain_inv db" "load_snapshot db cid = Some (v, data)" "validate data = Inr st" "0 \<le> v"
    and "rmapM row_to_event (take (nat v) (lineage_rows db (str_uuid cid))) = Inr es" "es \<noteq> []"
    and "replay es None = Inr st"
  shows "project validate db cid True = project validate db cid False"
  using assms by (rule project_with_snapshot)

theorem snapshot_is_cache_witness:
  "\<exists>st. load_snapshot snapshot_db 7 = Some (1, PDict []) \<and> project (\<lambda>_. Inr st) snapshot_db 7 True = Inr st"
proof -
  obtain st where st: "project sample_validate sample_db 7 False = Inr st" by (rule sample_projection)
  obtain e where e: "read_correlation sample_db 7 0 = Inr [e]" by (rule sample_read)
  have r: "replay [e] None = Inr st" using st e by (simp add: project_full)
  have chain: "chain_inv snapshot_db"
    using sample_inv by (simp add: ledger_inv_def chain_inv_def snapshot_db_def lineage_rows_def)
  have load: "load_snapshot snapshot_db 7 = Some (1, PDict [])" by code_simp
  have "rmapM row_to_event (take (nat 1) (lineage_rows snapshot_db (str_uuid 7))) = Inr [e]"
    using e sample_inv sample_lineage
    by (simp add: read_correlation_inv ledger_inv_def snapshot_db_def lineage_rows_def)
  from snapshot_is_cache[OF chain load _ _ this _ r, where validate = "\<lambda>_. Inr st"]
  have "project (\<lambda>_. Inr st) snapshot_db 7 True = project (\<lambda>_. Inr st) snapshot_db 7 False" by simp
  also have "\<dots> = project sample_validate sample_db 7 False"
    by (simp add: project_full read_correlation_def lineage_rows_def snapshot_db_def)
  finally show ?thesis using st load by auto
qed

section \<open>Recovery\<close>





section \<open>The orchestrator\<close>

text \<open>
  C13. A submitted task is carried to its commit: when builder, planner, policy, worker and critic answer
  favourably and within their budgets, submitting a request and running the task returns a
  committed outcome, every step of the plan is completed once and in order, and the ledger
  tells exactly that story, from the request to the mutation.
\<close>

theorem submitted_task_commits:
  assumes "new_task env cid N n (run_cost env n + 5) w" "encodable (request_dict r)"
    and "m = apply_backpressure env (requested_modality r)" "n = length (sc_steps sc)"
    and "prepares env m sc" "clears env sc" "performs env m"
  shows "\<exists>out w' es. act_bind (submit env r) (run_task env) w = (Inr out, w') \<and> outcome_ok out \<and>
    to_correlation_id out = cid \<and> t_completed_steps (to_projection out) = map int [0..<n] \<and>
    read_correlation (w_db w') cid 0 = Inr es \<and>
    map event_type es = [TASK_REQUESTED, TASK_QUEUED, CONTEXT_HYDRATION_REQUESTED, CONTEXT_HYDRATED, PLAN_COMPILED, POLICY_CLEARED] @
      concat (replicate n ([EXECUTION_STARTED] @ (if oe_critic env = None then [] else [CRITIQUE_CONCLUDED]) @ [EXECUTION_COMPLETED])) @
      [MUTATION_COMMITTED]"
proof -
  have stages: "total (stage env cid N [TASK_REQUESTED, TASK_QUEUED] st (all_keys n - submit_keys) (run_cost env n)) (run_stages env st ctx)
    (\<lambda>st' w. (t_phase st' = COMMITTED \<and> t_completed_steps st' = map int [0..<n]) \<and>
      stage env cid N ([TASK_REQUESTED, TASK_QUEUED] @ committed_types env n) st' {} 0 w)"
    if "unplanned ms st" "t_context_packet st = PNone" "fresh_context env cid m ctx" for ms st ctx
    by (rule committed_total[where c = 0 and sc = sc and m = m and types = "[TASK_REQUESTED, TASK_QUEUED]", folded assms(4),
        unfolded add_0_right, OF new_task_ok[OF assms(1)] Diff_subset task_keys_left(1) assms(5-7) that(3,2,1)]) simp
  have "\<exists>out w' es. act_bind (submit env r) (run_task env) w = (Inr out, w') \<and> to_correlation_id out = cid \<and> to_error out = None \<and>
    to_phase out = t_phase (to_projection out) \<and>
    (t_phase (to_projection out) = COMMITTED \<and> t_completed_steps (to_projection out) = map int [0..<n]) \<and>
    read_correlation (w_db w') cid 0 = Inr es \<and> map event_type es = [TASK_REQUESTED, TASK_QUEUED] @ committed_types env n"
    by (rule submit_run[OF assms(1,2)], rule stages) (simp_all only: assms(3))
  then obtain out w' es where "act_bind (submit env r) (run_task env) w = (Inr out, w')" "to_correlation_id out = cid"
    "outcome_ok out" "t_completed_steps (to_projection out) = map int [0..<n]"
    "read_correlation (w_db w') cid 0 = Inr es" "map event_type es = [TASK_REQUESTED, TASK_QUEUED] @ committed_types env n"
    by (auto simp: outcome_ok_def)
  then show ?thesis by (auto simp: committed_types_def prepared_types_def step_types_def critique_types_def)
qed

theorem submitted_task_commits_witness:
  "\<exists>out w' es. act_bind (submit (sample_orch approval) sample_request) (run_task (sample_orch approval)) (sample_rt_world empty_db) =
      (Inr out, w') \<and> outcome_ok out \<and> t_completed_steps (to_projection out) = [0, 1] \<and>
    read_correlation (w_db w') 100 0 = Inr es \<and> length es = 13"
proof -
  have n: "2 = length (sc_steps sample_script)" by (simp add: sample_script_def)
  have c: "run_cost (sample_orch approval) 2 + 5 \<le> 40"
    by (simp add: run_cost_def step_cost_def critique_cost_def sample_orch_def)
  have critic: "oe_critic (sample_orch approval) \<noteq> None" by (simp add: sample_orch_def)
  obtain out w' es where 1: "act_bind (submit (sample_orch approval) sample_request) (run_task (sample_orch approval))
      (sample_rt_world empty_db) = (Inr out, w')" "outcome_ok out" "t_completed_steps (to_projection out) = map int [0..<2]"
      "read_correlation (w_db w') 100 0 = Inr es"
    and types: "map event_type es = [TASK_REQUESTED, TASK_QUEUED, CONTEXT_HYDRATION_REQUESTED, CONTEXT_HYDRATED, PLAN_COMPILED,
      POLICY_CLEARED] @ concat (replicate 2 ([EXECUTION_STARTED] @ (if oe_critic (sample_orch approval) = None then [] else
      [CRITIQUE_CONCLUDED]) @ [EXECUTION_COMPLETED])) @ [MUTATION_COMMITTED]"
    using submitted_task_commits[OF sample_new_task[OF c] sample_request_encodable sample_requested_modality[symmetric] n
        sample_prepares sample_clears sample_performs] by blast
  have "length es = 13" using arg_cong[OF types, of length] critic by (simp add: numeral_2_eq_2)
  moreover have "map int [0..<2] = [0, 1]" by (simp add: upt_rec)
  ultimately show ?thesis using 1 by metis
qed

section \<open>The policy gate\<close>

text \<open>
  C14. What the gate approves: whenever it reaches a verdict, the verdict is an approval exactly if every declared
  permission is granted by the mode, under LOCKDOWN nothing in the plan's text looks like network access, under SAFE no
  irreversible operation is found, no protected path occurs, no quoted path climbs up, no active blocking rule matches,
  and no anti-goal is met. Whether an embedder is reached counts: one that fails makes the verdict a refusal.
\<close>

theorem gate_approves_exactly:
  assumes "judge_plan pe mode goal steps cache = (Inr v, cache')"
  shows "\<exists>rules. cache' = Some rules \<and> (pv_decision v = ''STATUS_APPROVED'' \<longleftrightarrow>
    permitted steps mode \<and>
    (mode = LOCKDOWN \<longrightarrow> \<not> rx_search net_pattern (render goal steps)) \<and>
    (mode = SAFE \<longrightarrow> \<not> irreversible_text (render goal steps)) \<and>
    (\<forall>root \<in> set forbidden_write_roots. \<not> sublist (lower root) (lower (render goal steps))) \<and>
    (pe_workspace_root pe \<longrightarrow> (\<forall>u \<in> set (quoted_paths (render goal steps)). \<not> sublist ''..'' u)) \<and>
    (\<forall>r \<in> set rules. \<not> rule_blocks r (render goal steps)) \<and>
    anti_goal_free pe (render goal steps))"
proof -
  from judge_cache[OF assms] obtain rules where rules: "cache' = Some rules"
    "judge_plan pe mode goal steps (Some rules) = (Inr v, Some rules)" by blast
  from rules(2) have "if approvable pe mode goal steps rules then score_plan pe mode steps (render goal steps) = Inr v else is_refusal v"
    by (rule judge_approves) (simp add: load_rules_cached(1))
  then have "pv_decision v = ''STATUS_APPROVED'' \<longleftrightarrow> approvable pe mode goal steps rules"
    using refusal_not_approved[of v] by (auto simp: approved_def elim!: score_plan_approves split: if_splits)
  then show ?thesis using rules(1) unfolding approvable_def irreversible_text_def by auto
qed

theorem gate_approves_exactly_witness:
  "\<exists>v. judge_plan sample_policy AUTO ''tidy up'' delete_steps None = (Inr v, Some []) \<and> pv_decision v = ''STATUS_APPROVED'' \<and>
     permitted delete_steps AUTO"
proof -
  obtain v where v: "judge_plan sample_policy AUTO ''tidy up'' delete_steps None = (Inr v, Some [])" "pv_decision v = ''STATUS_APPROVED''"
    using sample_judged[of AUTO] by blast
  with gate_approves_exactly[OF v(1)] show ?thesis by auto
qed

text \<open>
  C15. No rule depends on where a command stands: if one of the patterns of irreversible operations finds something in
  any part of the plan (its goal, or the flattened value of any field of any step, argument lists included), it finds
  something in the text of the whole plan, whatever surrounds that part, and under SAFE the plan is refused.
\<close>

theorem irreversible_found_anywhere:
  assumes "(r, label) \<in> set irreversible_patterns" "p \<in> set (plan_parts goal steps)" "rx_search r p"
  shows "rx_search r (render goal steps) \<and>
    (\<forall>pe cache v cache'. judge_plan pe SAFE goal steps cache = (Inr v, cache') \<longrightarrow> pv_decision v = ''STATUS_BLOCKED'')"
proof -
  have found: "rx_search r (render goal steps)" by (rule found_in_part[OF disjI1[OF assms(1)] assms(2,3)])
  then have "irreversible_text (render goal steps)" using assms(1) by (auto simp: irreversible_text_def)
  with found show ?thesis using safe_refuses(1) by blast
qed

theorem irreversible_found_anywhere_witness:
  "rx_search rm_pattern (render ''tidy up'' [delete_step, tidy_step]) \<and> rx_search rm_pattern (render ''tidy up'' [tidy_step, delete_step])"
proof -
  have "''rm -rf build'' \<in> set (plan_parts ''tidy up'' steps)" if "delete_step \<in> set steps" for steps
    using that by (force simp: plan_parts_def delete_step_def)
  note found = irreversible_found_anywhere[OF delete_pattern_listed this delete_found]
  show ?thesis by (rule conjI; rule found[THEN conjunct1]) simp_all
qed

text \<open>
  C16. Who must be asked: an approved plan with an irreversible operation waits for a human under ASK, under AUTO when
  the confidence floor is more than 0.201, and under SUPERVISED when a step counts as mutating. Under SAFE, LOCKDOWN and
  HIGH_RISK what a plan does is not considered: it waits exactly if a step's own fields ask for it, by its
  risk profile or by its agent class.
\<close>

theorem irreversible_plans_gated:
  assumes "judge_plan pe mode goal steps cache = (Inr v, cache')" "pv_decision v = ''STATUS_APPROVED''"
  shows "(irreversible_text (render goal steps) \<and> (mode = ASK \<or> mode = AUTO \<and>
      f_less (Finite (201 / 1000)) (setting (ps_auto_confidence_floor (pe_settings pe)))) \<longrightarrow> pv_requires_human_gate v) \<and>
    (mode = SUPERVISED \<and> (\<exists>s \<in> set steps. truthy (dict_get_default s ''mutates'' (PBool True))) \<longrightarrow> pv_requires_human_gate v) \<and>
    (mode \<in> {SAFE, LOCKDOWN, HIGH_RISK} \<longrightarrow> (pv_requires_human_gate v \<longleftrightarrow> always_gated (pe_settings pe) steps))"
proof -
  from assms(1) have "score_plan pe mode steps (render goal steps) = Inr v"
    by (rule judge_approves) (use assms(2) in \<open>auto dest: refusal_not_approved split: if_splits\<close>)
  then obtain risk gate reason where v: "v = approved risk gate reason" "risk_score steps (render goal steps) = Inr risk"
    "needs_gate (pe_settings pe) risk steps mode = Inr (gate, reason)" by (rule score_plan_approves)
  have gate: "pv_requires_human_gate v \<longleftrightarrow> always_gated (pe_settings pe) steps \<or> fst (mode_gate (pe_settings pe) risk steps mode)"
    using needs_gate_iff[OF v(2,3)] by (simp add: v(1) approved_def)
  show ?thesis
  proof (intro conjI impI)
    show "pv_requires_human_gate v" if "irreversible_text (render goal steps) \<and> (mode = ASK \<or> mode = AUTO \<and>
        f_less (Finite (201 / 1000)) (setting (ps_auto_confidence_floor (pe_settings pe))))"
      using irreversible_gated[OF _ v(2)] gate that by blast
  qed (use gate in \<open>auto simp: mode_gate_def list_ex_iff\<close>)
qed

theorem irreversible_plans_gated_witness:
  "\<exists>v u. judge_plan sample_policy AUTO ''tidy up'' delete_steps None = (Inr v, Some []) \<and> pv_requires_human_gate v \<and>
     judge_plan sample_policy HIGH_RISK ''tidy up'' delete_steps None = (Inr u, Some []) \<and> \<not> pv_requires_human_gate u"
proof -
  obtain v where v: "judge_plan sample_policy AUTO ''tidy up'' delete_steps None = (Inr v, Some [])" "pv_decision v = ''STATUS_APPROVED''"
    using sample_judged[of AUTO] by blast
  obtain u where u: "judge_plan sample_policy HIGH_RISK ''tidy up'' delete_steps None = (Inr u, Some [])" "pv_decision u = ''STATUS_APPROVED''"
    using sample_judged[of HIGH_RISK] by blast
  have "pv_requires_human_gate v" using irreversible_plans_gated[OF v] delete_text sample_floor by blast
  moreover have "\<not> pv_requires_human_gate u" using irreversible_plans_gated[OF u] sample_not_gated by simp
  ultimately show ?thesis using v(1) u(1) by blast
qed

text \<open>
  C17. Verdicts have their type: whatever the plan, the dictionary that the gate answers with has its five fields in
  order, with a decision that is one of two words, a score whose text reads back as a number between 0 and 1, and texts
  and truth values in the others; a refusal never asks for a human, and only a refusal reports an anti-goal.
\<close>

theorem verdicts_typed:
  assumes "policy_handle pe mode p cache = (Inr r, cache')"
  shows "ar_ok r \<and> ar_tokens_consumed r = 0 \<and> (\<exists>d. ar_value r = PDict d \<and>
    map fst d = [''decision'', ''risk_score'', ''requires_human_gate'', ''anti_goal_match'', ''reason''] \<and>
    (\<exists>score q. dict_get d ''risk_score'' = Some (PScalar (SFloat score)) \<and> float_of_text score = Inr (Finite q) \<and> 0 \<le> q \<and> q \<le> 1) \<and>
    (\<exists>reason. dict_get d ''reason'' = Some (PStr reason)) \<and>
    (\<exists>gate anti. dict_get d ''requires_human_gate'' = Some (PBool gate) \<and> dict_get d ''anti_goal_match'' = Some (PBool anti) \<and>
      (dict_get d ''decision'' = Some (PStr ''STATUS_APPROVED'') \<and> \<not> anti \<or>
       dict_get d ''decision'' = Some (PStr ''STATUS_BLOCKED'') \<and> \<not> gate)))"
proof -
  obtain goal steps v where v: "judge_plan pe mode goal steps cache = (Inr v, cache')" "r = success (PDict (verdict_dict v)) 0"
    using assms by (auto simp: policy_handle_def split: sum.splits prod.splits)
  note shape = judge_shape[OF v(1), unfolded verdict_shape_def]
  have r: "ar_ok r" "ar_tokens_consumed r = 0" "ar_value r = PDict (verdict_dict v)" by (simp_all add: v(2) success_def)
  show ?thesis by (rule conjI, rule r(1), rule conjI, rule r(2), rule exI[of _ "verdict_dict v"], rule conjI, rule r(3), rule shape)
qed

theorem verdicts_typed_witness:
  "\<exists>r d. policy_handle sample_policy AUTO [(''steps'', PList (map PDict delete_steps)), (''goal'', PStr ''tidy up'')] None = (Inr r, Some []) \<and>
     ar_value r = PDict d \<and> length d = 5"
proof -
  obtain r where r: "policy_handle sample_policy AUTO [(''steps'', PList (map PDict delete_steps)), (''goal'', PStr ''tidy up'')] None =
      (Inr r, Some [])" by (rule sample_handled)
  from verdicts_typed[OF r, THEN conjunct2, THEN conjunct2] obtain d where "ar_value r = PDict d \<and>
    map fst d = [''decision'', ''risk_score'', ''requires_human_gate'', ''anti_goal_match'', ''reason'']"
    by (elim exE conjE) (rule that, rule conjI)
  note d = conjunct1[OF this] conjunct2[OF this]
  have "length (map fst d) = 5" unfolding d(2) by simp
  then have "length d = 5" by (simp only: length_map)
  with r d(1) show ?thesis by (intro exI conjI)
qed

text \<open>
  C18. An irreversible plan is never executed under SAFE: with the policy agent installed in the orchestrator, when the
  planner's plan has a step one of whose fields contains an irreversible operation, running the submitted task ends in
  BLOCKED with the refusal as the last event, whatever the goal says, whatever worker and critic are
  installed, and whatever rules and anti-goals there are.
\<close>

theorem unsafe_plan_never_executed:
  assumes "new_task env cid N n 12 w" "encodable (request_dict r)"
    and "m = apply_backpressure env (requested_modality r)" "prepares env m sc" "sc_policy_cost sc = 0"
    and "oe_policy env = Some (policy_agent env pe rules)" "oe_permission_mode env = SAFE"
    and "PDict s \<in> set (map reloaded_value (sc_steps sc))" "(k, v) \<in> set s"
    and "(rx, label) \<in> set irreversible_patterns" "rx_search rx (flat v)"
  shows "\<exists>out w' es. act_bind (submit env r) (run_task env) w = (Inr out, w') \<and> to_phase out = BLOCKED \<and>
    read_correlation (w_db w') cid 0 = Inr es \<and>
    map event_type es = [TASK_REQUESTED, TASK_QUEUED, CONTEXT_HYDRATION_REQUESTED, CONTEXT_HYDRATED, PLAN_COMPILED, POLICY_BLOCKED]"
  by (rule refused_run[OF assms(1-4) policy_refuses[OF assms(6,7,5,8-11)]])

theorem unsafe_plan_never_executed_witness:
  "\<exists>out w' es. act_bind (submit safe_orch sample_request) (run_task safe_orch) (sample_rt_world empty_db) = (Inr out, w') \<and>
     to_phase out = BLOCKED \<and> read_correlation (w_db w') 100 0 = Inr es \<and> EXECUTION_STARTED \<notin> event_type ` set es"
proof -
  have k: "(''command'', PList [PStr ''rm'', PStr ''-rf'', PStr ''build'']) \<in> set delete_step" by (simp add: delete_step_def)
  have m: "STANDARD = apply_backpressure safe_orch (requested_modality sample_request)"
    using sample_requested_modality[of approval] by (simp add: apply_backpressure_def safe_orch_def)
  obtain out w' es where r: "act_bind (submit safe_orch sample_request) (run_task safe_orch) (sample_rt_world empty_db) = (Inr out, w')"
    "to_phase out = BLOCKED" "read_correlation (w_db w') 100 0 = Inr es"
    "map event_type es = [TASK_REQUESTED, TASK_QUEUED, CONTEXT_HYDRATION_REQUESTED, CONTEXT_HYDRATED, PLAN_COMPILED, POLICY_BLOCKED]"
    using unsafe_plan_never_executed[OF safe_new_task sample_request_encodable m safe_prepares _ safe_orch_policy _ delete_reloaded k
        delete_pattern_listed] delete_found delete_command by (auto simp: delete_script_def safe_orch_def)
  have "event_type ` set es = set (map event_type es)" by simp
  then have "EXECUTION_STARTED \<notin> event_type ` set es" by (simp only: r(4)) simp
  with r(1-3) show ?thesis by blast
qed

section \<open>The queue and its locks\<close>

text \<open>
  C19. Delivery is bounded: from any state of the queue, over any sequence of operations of any number of
  consumers (claims, acknowledgements, failures, timeouts, new messages), a waiting message is
  handed out at most as often as its attempt ceiling still allows. A poisonous message cannot
  be delivered forever.
\<close>

theorem queue_delivery_bound:
  assumes "queue_inv q" "status_of q i = Some Ready"
  shows "int (count_list (fst (run_ops (queue_step cfg) ops q)) i) \<le> max_attempts_of q i - attempts_of q i"
  by (rule sqlite_queue.delivery_bound[OF assms])

theorem queue_delivery_bound_witness:
  "int (count_list (fst (run_ops (queue_step sample_settings)
     [OpClaim 0 ORCHESTRATOR_CORE ''c'' 1 None, OpReclaim 1000, OpClaim 1001 ORCHESTRATOR_CORE ''c'' 1 None] sample_queue)) ''b'') \<le> 3"
proof -
  have "status_of sample_queue ''b'' = Some Ready" "max_attempts_of sample_queue ''b'' = 3" "attempts_of sample_queue ''b'' = 0"
    by code_simp+
  with queue_delivery_bound[OF sample_queue_inv this(1)] show ?thesis by (simp del: run_ops.simps)
qed

text \<open>
  C20. Leases exclude: after a successful acquisition, whatever other holders do (acquire, release,
  refresh, on this key or another) before the lease runs out, none of their attempts to acquire
  the key succeeds.
\<close>

theorem lease_exclusion:
  assumes "locks_inv ls" "acquire t0 k h ttl ls = (Inr True, ls1)" "sorted (t0 # map fst ops)"
    and "\<forall>(t, op) \<in> set ops. t < t0 + ttl \<and> op_by op \<noteq> (k, h)"
    and "i < length ops" "snd (ops ! i) = Acquire k h' ttl'"
  shows "fst (run_locks lock_step ops ls1) ! i \<noteq> Inr True"
proof -
  have "list_all2 (\<lambda>x r. fst (op_by (snd x)) = k \<and> r = Inr True \<longrightarrow> (\<nexists>h' ttl. snd x = Acquire k h' ttl))
    ops (fst (run_locks lock_step ops ls1))"
  proof (rule sqlite_lock.lease_exclusive[where deadline = "t0 + ttl" and h = h])
    show "locks_inv ls1"
      using sqlite_lock.step_inv[OF assms(1), of t0 "Acquire k h ttl"] assms(2) by simp
    show "current_holder ls1 k u = Some h" if "t0 \<le> u" "u < t0 + ttl" for u
      using acquire_won(2)[OF assms(2) that] .
  qed (use assms(3,4) in auto)
  from list_all2_nthD[OF this assms(5)] show ?thesis using assms(6) by simp
qed

theorem lease_exclusion_witness:
  "fst (run_locks lock_step [(1, Acquire ''k'' ''g'' 10), (2, Release ''k'' ''g'')]
     (snd (acquire 0 ''k'' ''h'' 60 []))) ! 0 \<noteq> Inr True"
proof -
  have "acquire 0 ''k'' ''h'' 60 [] = (Inr True, snd (acquire 0 ''k'' ''h'' 60 []))" by code_simp
  from lease_exclusion[OF _ this, of "[(1, Acquire ''k'' ''g'' 10), (2, Release ''k'' ''g'')]" 0 "''g''" 10]
  show ?thesis by (simp add: locks_inv_def del: run_locks.simps)
qed

section \<open>Delegation\<close>

text \<open>
  C21. The cycle check of the delegation graph is exact: on an acyclic graph, an edge is refused exactly if
  it would close a cycle, and the path it reports is a real cycle of the graph with that edge.
\<close>

theorem delegation_cycle_exact:
  assumes "acyclic (edge_rel (dg_edges g))"
  shows "(would_cycle g s t \<noteq> None \<longleftrightarrow> \<not> acyclic (insert (s, t) (edge_rel (dg_edges g)))) \<and>
    (\<forall>p. would_cycle g s t = Some p \<longrightarrow>
       is_path (dg_edges (record_edge g s t)) p \<and> hd p = last p \<and> 2 \<le> length p)"
  using delegation.refuses_iff_cyclic[OF assms] would_cycle_path by blast

theorem delegation_cycle_exact_witness:
  "would_cycle sample_graph ''b'' ''a'' \<noteq> None \<and> \<not> acyclic {(''b'', ''a''), (''a'', ''b'')}"
proof -
  have "acyclic (edge_rel (dg_edges sample_graph))"
    unfolding sample_graph_edges by (simp add: acyclic_def trancl_insert rtrancl_empty)
  moreover have "would_cycle sample_graph ''b'' ''a'' \<noteq> None" by code_simp
  ultimately show ?thesis
    using delegation_cycle_exact[of sample_graph "''b''" "''a''"] by (simp add: sample_graph_edges)
qed

section \<open>Budgets and modalities\<close>

text \<open>
  C22. Tokens are conserved: in every store of budgets that new root budgets, sub-budgets and consumptions can
  build, in any order, each budget has spent between nothing and its allocation, and at least what
  all budgets carved from it have spent together. A tree of agents never spends more than
  its root was given.
\<close>

theorem budget_conservation:
  assumes "budget_run bs" "p < length bs"
  shows "0 \<le> b_consumed (bs ! p) \<and> b_consumed (bs ! p) \<le> b_allocated (bs ! p) \<and>
    spent_by_children bs p \<le> b_consumed (bs ! p)"
  using budget_run_inv[OF assms(1)] assms(2) nth_mem[OF assms(2)]
  by (auto simp: budgets_inv_def budget_ok_def)

theorem budget_conservation_witness:
  "0 \<le> b_consumed sample_root \<and> b_consumed sample_root \<le> b_allocated sample_root \<and>
   spent_by_children [sample_root, sample_child] 0 \<le> b_consumed sample_root"
  using budget_conservation[OF sample_budgets, of 0] by simp

section \<open>Watching workers\<close>

text \<open>
  C23. Death is neither missed nor invented: with a clock that never runs backwards, a sweep reports every worker
  that has been silent beyond the deadline when it starts, and it reports only tracked workers
  that were not dead before and have been silent beyond the deadline by the time they are looked at.
\<close>

theorem sweep_exact:
  assumes "tracker_inv h" "mono clk"
  shows "(\<forall>(w, l) \<in> set (hb_workers h). \<not> declared_dead l \<longrightarrow>
      clk (hb_readings h) - last_beat_at l > deadline_seconds h \<longrightarrow> w \<in> worker_id ` set (fst (sweep clk h))) \<and>
    (\<forall>x \<in> set (fst (sweep clk h)). \<exists>l. dict_get (hb_workers h) (worker_id x) = Some l \<and> \<not> declared_dead l \<and>
      (\<exists>k \<ge> hb_readings h. clk k - last_beat_at l > deadline_seconds h))"
proof (intro conjI ballI)
  obtain ws dead m where s:
    "sweep_entries clk (deadline_seconds h) (hb_readings h) (hb_workers h) = (ws, dead, m)"
    by (cases "sweep_entries clk (deadline_seconds h) (hb_readings h) (hb_workers h)")
  fix e assume e: "e \<in> set (hb_workers h)"
  obtain w l where wl: "e = (w, l)" by (cases e)
  have "worker_id l = w" using assms(1) e wl by (auto simp: tracker_inv_def)
  moreover have "l\<lparr>declared_dead := True\<rparr> \<in> set dead"
    if "\<not> declared_dead l" "clk (hb_readings h) - last_beat_at l > deadline_seconds h"
    using sweep_entries_complete[OF s assms(2) _ that(2,1), of w] e wl by simp
  moreover have "fst (sweep clk h) = dead" using s by (simp add: sweep_def)
  ultimately show "case e of (w, l) \<Rightarrow> \<not> declared_dead l \<longrightarrow>
      clk (hb_readings h) - last_beat_at l > deadline_seconds h \<longrightarrow> w \<in> worker_id ` set (fst (sweep clk h))"
    unfolding wl prod.case by (metis (no_types) WorkerLiveness.select_convs(1) WorkerLiveness.update_convs(5) WorkerLiveness.surjective image_eqI)
qed (rule sweep_dead_was_alive[OF assms(1)])

theorem sweep_exact_witness:
  "''w'' \<in> worker_id ` set (fst (sweep (\<lambda>n. 16) sample_tracker))"
proof -
  have "mono (\<lambda>n :: nat. 16 :: rat)" by (simp add: monoI)
  from sweep_exact[OF sample_tracker_inv this] show ?thesis
    by (auto simp: sample_tracker_def deadline_seconds_def)
qed

section \<open>The interactive agent\<close>

text \<open>
  C24. Nothing reaches a tool that is not permitted: whatever model, hooks and human do, and whatever the loop is asked,
  a property of the world that they keep, and that those tool calls keep whose final arguments the policy
  allows or the human has just confirmed, is kept by the whole run. Calls that are denied, blocked, declined or
  unknown change nothing.
\<close>

theorem only_cleared_calls_run:
  assumes "bystanders_keep ag P" "cleared_runs_keep ag P" "P (ls_world st)"
  shows "P (ls_world (snd (run_loop ag message st)))"
  using run_loop_keeps[OF assms(1,2)] assms(3) by (simp add: keeps_def in_world_def)

theorem only_cleared_calls_run_witness:
  "''run_task'' \<notin> set (ls_world (snd (run_loop (sample_agent ModeAsk) ''go'' sample_start)))"
proof (rule only_cleared_calls_run[OF sample_bystanders])
  have asks: "dec_outcome (evaluate (ag_perms (sample_agent ModeAsk)) ''run_task'' args) \<noteq> Allow" for args
  proof -
    have "\<not> has_rule (coder_policy ModeAsk [''submit_task''] []) Allow ''run_task'' args"
      "\<not> has_rule (coder_policy ModeAsk [''submit_task''] []) Deny ''run_task'' args"
      "pol_mode (coder_policy ModeAsk [''submit_task''] []) = ModeAsk"
      by (simp_all add: has_rule_def rule_matches_def coder_policy_def new_policy_def) code_simp+
    then show ?thesis by (simp add: sample_agent_def evaluate_outcome mode_default_def decision_def)
  qed
  have "\<not> cleared (sample_agent ModeAsk) ''run_task'' args w" for args w
    using asks[of args] by (simp add: cleared_def Let_def) (simp add: sample_agent_def deny_confirm_def)
  then show "cleared_runs_keep (sample_agent ModeAsk) (\<lambda>w. ''run_task'' \<notin> set w)"
    unfolding cleared_runs_keep_def using sample_tool by (fastforce simp: logging_tool_def)
qed (simp add: sample_start_def)

text \<open>
  C25. Plan mode is read-only: under the policy of the composition root in plan mode, with any allow and deny rules, an
  agent with the runtime's tools changes nothing that the read-only tools leave alone, although the names of
  the mutating tools match none of the default patterns.
\<close>

theorem plan_mode_changes_nothing:
  assumes "ag_perms ag = coder_policy ModePlan allow deny" "fst ` set (ag_tools ag) \<subseteq> set runtime_tool_names"
    and "bystanders_keep ag P"
    and "\<And>name impl args w. dict_get (ag_tools ag) name = Some impl \<Longrightarrow> name \<in> set read_only_tools \<Longrightarrow> P w \<Longrightarrow>
      P (snd (tool_run impl args w))"
    and "P (ls_world st)"
  shows "P (ls_world (snd (run_loop ag message st)))"
  by (rule plan_mode_keeps[OF assms])

theorem plan_mode_changes_nothing_witness:
  "''submit_task'' \<notin> set (ls_world (snd (run_loop (sample_agent ModePlan) ''go'' sample_start)))"
proof (rule plan_mode_changes_nothing[where allow = "[''submit_task'']" and deny = "[]"])
  show "''submit_task'' \<notin> set (snd (tool_run impl args w))"
    if "dict_get (ag_tools (sample_agent ModePlan)) name = Some impl" "name \<in> set read_only_tools" "''submit_task'' \<notin> set w"
    for name impl args w
    using sample_tool[OF that(1)] that(2,3) by (auto simp: logging_tool_def read_only_tools_def)
qed (simp_all add: sample_bystanders sample_start_def, auto simp: sample_agent_def)

text \<open>
  C26. Denials cannot be overridden: adding rules of any kind, in any place, never turns a denial into something else, and
  the outcome of a call depends on which rules there are, not on their order or number.
\<close>

theorem permissions_deny_wins:
  assumes "pol_mode pol' = pol_mode pol" "pol_edit_tools pol' = pol_edit_tools pol" "pol_mutating_tools pol' = pol_mutating_tools pol"
    and "set (pol_rules pol) \<subseteq> set (pol_rules pol')"
  shows "(dec_outcome (evaluate pol name args) = Deny \<longrightarrow> dec_outcome (evaluate pol' name args) = Deny) \<and>
    (set (pol_rules pol') = set (pol_rules pol) \<longrightarrow> dec_outcome (evaluate pol' name args) = dec_outcome (evaluate pol name args))"
proof -
  have "has_rule pol Deny name args \<Longrightarrow> has_rule pol' Deny name args" using assms(4) by (auto simp: has_rule_def)
  moreover have "is_mutating pol' name = is_mutating pol name" using assms(3) by (simp add: is_mutating_def)
  ultimately show ?thesis using assms(1-3) evaluate_rule_set[of pol' pol name args] by (auto simp: evaluate_denied_iff)
qed

theorem permissions_deny_wins_witness:
  "dec_outcome (evaluate (add_rule (parse_rule ''bash'' Allow) (new_policy ModeBypass [] [''bash(rm *)''] [] [] None)) ''bash''
     [(''cmd'', PStr ''rm x'')]) = Deny"
proof -
  let ?pol = "new_policy ModeBypass [] [''bash(rm *)''] [] [] None"
  have "dec_outcome (evaluate ?pol ''bash'' [(''cmd'', PStr ''rm x'')]) = Deny" by code_simp
  then show ?thesis
    using permissions_deny_wins[of "add_rule (parse_rule ''bash'' Allow) ?pol" ?pol "''bash''" "[(''cmd'', PStr ''rm x'')]"]
    by (auto simp: add_rule_def)
qed

text \<open>
  C27. Runs are bounded and accounted for: a run that returns took at most the allowed number of steps; the transcript
  has grown by turns in which every call is directly followed by its answer and nothing else is answered; the
  result counts exactly these calls, no more of them as refused, and the tokens of the session.
\<close>

theorem loop_accounted:
  assumes "run_loop ag message st = (Inr res, st')" "0 \<le> ag_max_steps ag"
  shows "\<exists>new. s_turns (ls_session st') = s_turns (ls_session st) @ new \<and> paired new \<and> lr_tool_calls res = calls_in new \<and>
    0 \<le> lr_denied_calls res \<and> lr_denied_calls res \<le> lr_tool_calls res \<and> 0 \<le> lr_steps res \<and> lr_steps res \<le> ag_max_steps ag \<and>
    lr_tokens res = total_tokens (ls_session st') \<and>
    lr_stopped_reason res \<in> {''model_finished'', ''token_budget_exhausted'', ''max_steps_reached''}"
  using run_loop_accounted[OF assms] by (auto simp: accounted_def)

theorem loop_accounted_witness:
  "\<exists>res st' new. run_loop (sample_agent ModePlan) ''go'' sample_start = (Inr res, st') \<and>
     s_turns (ls_session st') = new \<and> calls_in new = 3 \<and> paired new"
proof -
  let ?run = "run_loop (sample_agent ModePlan) ''go'' sample_start"
  obtain res where res: "fst ?run = Inr res" "lr_tool_calls res = 3" using sample_agent_run by simp
  then have run: "?run = (Inr res, snd ?run)" by (metis prod.collapse)
  have "0 \<le> ag_max_steps (sample_agent ModePlan)" by (simp add: sample_agent_def)
  from loop_accounted[OF run this] res(2) run show ?thesis by (auto simp: sample_start_def new_session_def)
qed

text \<open>
  C28. A session survives the process: when a session whose file holds its turns is taken through any run of the loop that
  returns, reading the file back gives exactly the turns in memory, hence the same window and token count.
\<close>

theorem transcript_resumes:
  assumes "in_step (ls_session st)" "run_loop ag message st = (Inr res, st')"
  shows "resume clock (s_session_id (ls_session st')) (s_file (ls_session st')) =
    Inr ((ls_session st')\<lparr>s_tick := length (s_turns (ls_session st'))\<rparr>)"
  by (rule run_loop_resumed[OF assms])

theorem transcript_resumes_witness:
  "\<exists>s s'. ls_session (snd (run_loop (sample_agent ModePlan) ''go'' sample_start)) = s \<and>
     resume sample_clock (s_session_id s) (s_file s) = Inr s' \<and> s_turns s' = s_turns s"
proof -
  let ?run = "run_loop (sample_agent ModePlan) ''go'' sample_start"
  obtain res where "fst ?run = Inr res" using sample_agent_run by simp
  then have run: "?run = (Inr res, snd ?run)" by (metis prod.collapse)
  from transcript_resumes[OF sample_in_step run, of sample_clock] show ?thesis by simp
qed

section \<open>Patches\<close>









section \<open>The cold lake\<close>

text \<open>
  C33. The blob store is a map from digests to bytes: over any sequence of writes, streams, copies, deletes and
  sweeps, on a host that may refuse any call, the archive stands for the map that the answers describe. A successful
  write adds its data at their digest unless something is there, a successful delete removes, a refused operation
  changes nothing; and every stored file verifies and is there in one form only.
\<close>

theorem blob_store_refines_map:
  assumes "hex_address H" "codec_ok (cas_zstd c)" "0 < cas_chunk c" "store_ok H c a"
    and "\<forall>op \<in> set ops. candid (op_host op)" "run_blob_ops H c ops a = (rs, a')"
  shows "store_ok H c a' \<and> held c a' = spec_ops H ops rs (held c a)"
  by (rule run_blob_ops_refine[OF assms(4,1,2,3,5,6)])

theorem blob_store_refines_map_witness:
  "run_blob_ops sha256_hex sample_cas [OpPut calm_host ''abc'' False, OpPut calm_host ''abc'' True] [] =
     ([Inr (Stored \<lparr>ref_sha256 = sha256_hex ''abc'', ref_size = 3, ref_compressed = 3\<rparr>),
       Inr (Stored \<lparr>ref_sha256 = sha256_hex ''abc'', ref_size = 3, ref_compressed = 3\<rparr>)], one_blob) \<and>
   held sample_cas one_blob = [sha256_hex ''abc'' \<mapsto> ''abc'']"
proof -
  have l: "locate_blob calm_host sample_cas one_blob (sha256_hex ''abc'') = Inr (Some (leaf (sha256_hex ''abc'') False))"
    by (simp add: quiet_locate one_blob_get leaf_inj)
  have "put sha256_hex calm_host sample_cas one_blob ''abc'' True =
      (Inr \<lparr>ref_sha256 = sha256_hex ''abc'', ref_size = 3, ref_compressed = 3\<rparr>, one_blob)"
    by (simp add: put_def Let_def l stored_size_def file_call_def one_blob_get)
  then have run: "run_blob_ops sha256_hex sample_cas [OpPut calm_host ''abc'' False, OpPut calm_host ''abc'' True] [] =
     ([Inr (Stored \<lparr>ref_sha256 = sha256_hex ''abc'', ref_size = 3, ref_compressed = 3\<rparr>),
       Inr (Stored \<lparr>ref_sha256 = sha256_hex ''abc'', ref_size = 3, ref_compressed = 3\<rparr>)], one_blob)"
    by (simp add: sample_put)
  with blob_store_refines_map[OF sha256_address.hex_address_axioms _ _ _ _ run] show ?thesis
    by (simp add: mark_codec_ok spec_add_def)
qed

text \<open>
  C34. No interleaving damages the archive: whatever writers, deleters, sweeps and crashes do to the same archive
  call by call, also after one more write by anybody, every file at the address of a blob verifies, and a read
  gives the bytes of the digest or says that the blob is not there.
\<close>

theorem blobs_survive_races:
  assumes "hex_address H" "codec_ok (cas_zstd c)" "verifies H c a" "races H c (a, []) (mid, ws)"
    and "h_name h \<notin> w_name ` set ws" "quiet_host q" "is_digest d"
    and "after \<in> {mid, snd (put H h c mid data b), snd (put_stream H h c mid src b hint)}"
  shows "verifies H c after \<and>
    (case get H q c after d of
       Inr raw \<Rightarrow> H raw = d \<and> held c after d = Some raw
     | Inl e \<Rightarrow> e = blob_exn NotFound ''blob not found'' [(''sha256'', DText d)] \<and> held c after d = None)"
proof -
  obtain ws2 where "races H c (mid, ws) (after, ws2)"
    using assms(8) put_races[OF assms(5)] put_stream_races[OF assms(5)] by blast
  with assms(4) have "races H c (a, []) (after, ws2)" by (rule races_trans)
  then have "race_inv H c (after, ws2)"
    by (rule races_keep_inv[OF assms(1,2) _ race_inv_start[OF assms(3)]])
  then have "verifies H c after" by (simp add: race_inv_def)
  with verified_get[OF _ assms(6,7)] show ?thesis by blast
qed

theorem blobs_survive_races_witness:
  "get sha256_hex calm_host sample_cas (snd (put sha256_hex calm_host sample_cas [] ''abc'' False)) (sha256_hex ''abc'') =
     Inr ''abc''"
proof -
  have v: "verifies sha256_hex sample_cas []" using store_ok_verifies[OF store_ok_empty(1)] .
  have "held sample_cas one_blob (sha256_hex ''abc'') = Some ''abc''" by (simp add: one_blob_held)
  then show ?thesis
    using blobs_survive_races[OF sha256_address.hex_address_axioms _ v races_refl,
      where h = calm_host and q = calm_host and d = "sha256_hex ''abc''" and data = "''abc''" and b = False
        and after = one_blob]
    by (auto simp: mark_codec_ok sample_put split: sum.splits)
qed

text \<open>
  C35. Reads are verified: in any archive, however damaged, with any codec and whatever the host does, a read that
  returns gives bytes of the requested digest, so does a stream that ends without an exception, and an export
  changes no file but its destination (and its own temporary file), and that only to bytes of the digest.
\<close>

theorem blob_reads_verified:
  assumes "out = export_to_file H h c a d dh txt dest t" "p \<noteq> export_scratch dh dest"
  shows "(\<forall>raw. get H h c a d = Inr raw \<longrightarrow> H raw = d) \<and>
    (\<forall>cs. get_stream H h c a d = (cs, None) \<longrightarrow> H (concat cs) = d) \<and>
    (dict_get (snd out) p \<noteq> dict_get t p \<longrightarrow>
       p = dest \<and> fst out = Inr dest \<and> (\<exists>raw. dict_get (snd out) p = Some raw \<and> H raw = d))"
proof -
  obtain r t1 where out: "export_to_file H h c a d dh txt dest t = (r, t1)" by fastforce
  show ?thesis
    using export_effect[OF out assms(2)] get_verified[of H h c a d] get_stream_verified[of H h c a d]
    by (cases r) (auto simp: assms(1) out split: if_splits)
qed

theorem blob_reads_verified_witness:
  "get sha256_hex calm_host sample_cas one_blob (sha256_hex ''abc'') = Inr ''abc'' \<and>
   (dict_get (snd (export_to_file sha256_hex calm_host sample_cas one_blob (sha256_hex ''abc'') calm_host ''out'' [''out''] []))
      [''other''] = None)"
proof -
  have "get sha256_hex calm_host sample_cas one_blob (sha256_hex ''abc'') = Inr ''abc''"
    using quiet_get[OF store_ok_verifies[OF one_blob_ok] calm_quiet(1) sample_digest] by (simp add: one_blob_held)
  moreover have "[''other''] \<noteq> export_scratch calm_host [''out'']" by (simp add: export_scratch_def)
  from blob_reads_verified[OF refl this, of sha256_hex calm_host sample_cas one_blob "sha256_hex ''abc''" "''out''" "[]"]
  have "dict_get (snd (export_to_file sha256_hex calm_host sample_cas one_blob (sha256_hex ''abc'') calm_host ''out'' [''out''] []))
      [''other''] = None"
    by (auto simp: dict_get_def)
  ultimately show ?thesis by blast
qed

text \<open>
  C36. What has been stored reads back: after a successful write, whatever the host did, the digest of its
  reference reads, whole or in chunks, as the data (or as what was stored first under the same digest), the
  metadata give its size, and the reference's URI parses to the digest.
\<close>

theorem blob_round_trip:
  assumes "hex_address H" "codec_ok (cas_zstd c)" "0 < cas_chunk c" "store_ok H c a" "candid h" "quiet_host q"
    and "put H h c a data b = (Inr r, a') \<or> put_stream H h c a src b hint = (Inr r, a') \<and> data = src_data src"
  shows "\<exists>raw. H raw = H data \<and> (held c a (H data) = None \<longrightarrow> raw = data) \<and>
    get H q c a' (ref_sha256 r) = Inr raw \<and>
    (\<exists>cs. get_stream H q c a' (ref_sha256 r) = (cs, None) \<and> concat cs = raw) \<and>
    (\<exists>r'. stat_blob q c a' (ref_sha256 r) = Inr (Some r') \<and> ref_size r' = length raw) \<and>
    parse_uri (ref_uri r) = Inr (ref_sha256 r) \<and> ref_sha256 r = H data"
proof -
  have st: "stored H c a data (Inr r, a')"
    using assms(7) put_stored[OF assms(4,1,2,5), of data b] put_stream_stored[OF assms(4,1,2,5,3), of src b hint] by auto
  note reads = stored_reads_back[OF st assms(1-3,6)]
  show ?thesis
  proof (rule exI[of _ "first_stored H c a data"], intro conjI)
    show "H (first_stored H c a data) = H data" by (rule first_stored_digest[OF store_ok_verifies[OF assms(4)]])
    show "held c a (H data) = None \<longrightarrow> first_stored H c a data = data" by (simp add: first_stored_def)
    show "get H q c a' (ref_sha256 r) = Inr (first_stored H c a data)" by (rule reads(1))
    show "\<exists>cs. get_stream H q c a' (ref_sha256 r) = (cs, None) \<and> concat cs = first_stored H c a data" by (rule reads(2))
    show "\<exists>r'. stat_blob q c a' (ref_sha256 r) = Inr (Some r') \<and> ref_size r' = length (first_stored H c a data)"
      using reads(3) by (elim exE conjE) (intro exI conjI)
    show "parse_uri (ref_uri r) = Inr (ref_sha256 r)" by (rule reads(4))
    show "ref_sha256 r = H data" using st by (simp add: stored_def)
  qed
qed

theorem blob_round_trip_witness:
  "put_stream sha256_hex calm_host sample_cas [] \<lparr>src_data = ''abc'', src_fault = None\<rparr> False (Some 3) =
     (Inr \<lparr>ref_sha256 = sha256_hex ''abc'', ref_size = 3, ref_compressed = 3\<rparr>, one_blob) \<and>
   get sha256_hex calm_host sample_cas one_blob (sha256_hex ''abc'') = Inr ''abc''"
proof -
  have codec: "codec_ok (cas_zstd sample_cas)" "0 < cas_chunk sample_cas" by (simp_all add: mark_codec_ok)
  let ?r = "\<lparr>ref_sha256 = sha256_hex ''abc'', ref_size = 3, ref_compressed = 3\<rparr>"
    and ?src = "\<lparr>src_data = ''abc'', src_fault = None\<rparr>"
  have run: "put sha256_hex calm_host sample_cas [] ''abc'' False = (Inr ?r, one_blob) \<or>
      put_stream sha256_hex calm_host sample_cas [] ?src False (Some 3) = (Inr ?r, one_blob) \<and> ''abc'' = src_data ?src"
    by (rule disjI1) (rule sample_put)
  obtain raw where "held sample_cas [] (sha256_hex ''abc'') = None \<longrightarrow> raw = ''abc''"
      "get sha256_hex calm_host sample_cas one_blob (ref_sha256 ?r) = Inr raw"
    using blob_round_trip[OF sha256_address.hex_address_axioms codec store_ok_empty(1) calm_quiet(2,1) run]
    by (elim exE conjE)
  then have "get sha256_hex calm_host sample_cas one_blob (sha256_hex ''abc'') = Inr ''abc''" by simp
  then show ?thesis by (rule conjI[OF sample_put_stream])
qed



text \<open>
  C38. An archived file can be had back: when archiving returns a record, whoever else wrote to the table
  meanwhile, the record carries the digest of the file, the table and the store stay well formed, retrieving by
  its id gives bytes of that digest, the file's own unless others were there first, and verification compares the
  recorded size with the size of these bytes.
\<close>

theorem artifact_archived_retrievable:
  assumes "session_ok sha256_hex s" "artifacts_ok db" "\<forall>r \<in> set others. artifact_row_ok r"
    and "valid_datetime now" "aware now"
    and "archive_file (cas_store sha256_hex) q i now others (s, db) = (Inr x, s', db')"
    and "data = src_data (hf_source (ac_file q))"
  shows "session_ok sha256_hex s' \<and> artifacts_ok db' \<and> art_sha256 x = sha256_hex data \<and>
    (\<exists>raw. retrieve (cas_store sha256_hex) s' db' (art_id x) = Inr raw \<and> sha256_hex raw = sha256_hex data \<and>
       (session_held s (sha256_hex data) = None \<longrightarrow> raw = data) \<and>
       verify_artifact sha256_hex (cas_store sha256_hex) s' db' (art_id x) = Inr (length raw = art_size x))"
  using lake.archive_retrieves[OF assms(1-6)] by (simp add: assms(7))

theorem artifact_archived_retrievable_witness:
  "\<exists>s' db'. retrieve (cas_store sha256_hex) s' db' ''id1'' = Inr ''abc'' \<and>
     verify_artifact sha256_hex (cas_store sha256_hex) s' db' ''id1'' = Inr True \<and> artifacts_ok db'"
proof -
  obtain x s' db' where
    run: "archive_file (cas_store sha256_hex) sample_call ''id1'' archive_time [] (sample_session, empty_artifacts) = (Inr x, s', db')"
      "art_id x = ''id1''" "art_size x = 3" by (rule sample_archive)
  have "session_held sample_session d = None" for d
    by (simp add: session_held_def sample_session_def)
  with artifact_archived_retrievable[OF sample_session_ok empty_artifacts_ok _ archive_time_ok run(1) refl] run(2,3)
  have "retrieve (cas_store sha256_hex) s' db' ''id1'' = Inr ''abc'' \<and>
     verify_artifact sha256_hex (cas_store sha256_hex) s' db' ''id1'' = Inr True \<and> artifacts_ok db'"
    by (auto simp: sample_call_def)
  then show ?thesis by blast
qed

section \<open>Workspaces, search and memory\<close>



text \<open>
  C40. The decay sweep evicts exactly the facts that have decayed below the floor of their domain: whatever the
  page size, every live fact is examined once although pages are deleted while the table is scanned,
  superseded facts and facts of unknown or immutable domains stay, a dry run changes nothing, and the
  archive receives the evicted facts it accepts, in the order of their ids.
\<close>

theorem decay_sweep_exact:
  assumes "wf_facts facts" "batch \<noteq> 0"
  shows "\<exists>rep. decay_sweep now dry archive batch facts arch =
      (Inr rep,
       if dry then facts else filter (\<lambda>f. \<not> (f_superseded_by f = None \<and> fact_stale now f)) facts,
       if dry then arch
       else arch @ archive_batch archive (sort_key f_id (filter (\<lambda>f. f_superseded_by f = None \<and> fact_stale now f) facts))) \<and>
    dr_scanned rep = length (filter (\<lambda>f. f_superseded_by f = None) facts) \<and>
    dr_evicted rep = length (filter (\<lambda>f. f_superseded_by f = None \<and> fact_stale now f) facts) \<and>
    dr_errors rep = length (filter (\<lambda>f. f_superseded_by f = None \<and> known_policy f = None) facts)"
  by (rule decay_sweep_spec[OF assms])

theorem decay_sweep_exact_witness:
  "\<exists>rep. decay_sweep 0 False None 1 sample_facts [] = (Inr rep, [sample_fact ''b'' (9 / 10)], []) \<and> dr_evicted rep = 2"
proof -
  have "\<exists>rep. decay_sweep 0 False None 1 sample_facts [] =
      (Inr rep, if False then sample_facts else filter (\<lambda>f. \<not> (f_superseded_by f = None \<and> fact_stale 0 f)) sample_facts,
       if False then [] else [] @ archive_batch None
         (sort_key f_id (filter (\<lambda>f. f_superseded_by f = None \<and> fact_stale 0 f) sample_facts))) \<and>
      dr_scanned rep = length (filter (\<lambda>f. f_superseded_by f = None) sample_facts) \<and>
      dr_evicted rep = length (filter (\<lambda>f. f_superseded_by f = None \<and> fact_stale 0 f) sample_facts) \<and>
      dr_errors rep = length (filter (\<lambda>f. f_superseded_by f = None \<and> known_policy f = None) sample_facts)"
    by (rule decay_sweep_exact) (simp_all add: sample_facts_wf)
  moreover have "filter (\<lambda>f. \<not> (f_superseded_by f = None \<and> fact_stale 0 f)) sample_facts = [sample_fact ''b'' (9 / 10)]"
    "length (filter (\<lambda>f. f_superseded_by f = None \<and> fact_stale 0 f) sample_facts) = 2"
    by (simp_all add: sample_facts_def sample_fact_stale) (simp_all add: sample_fact_def)
  ultimately show ?thesis by (auto simp: archive_batch_def)
qed

end
